(* ===== verification/Jdix_Prelude.thy ===== *)
theory Jdix_Prelude
  imports Main "HOL-Library.Char_ord" "HOL-Library.List_Lexorder"
    "HOL-Library.Product_Lexorder" "HOL-Library.Sublist"
begin

text \<open>
  The shared vocabulary of the development: what the components use of Go and of its standard
  library (\<open>strings\<close>, \<open>strconv\<close>, \<open>sort\<close>, fixed-width arithmetic), the chaining of early
  error returns, and a generic locale for invariants of step functions. A Go string is a byte
  string and is modelled by \<^typ>\<open>string\<close>, whose characters are the bytes 0 to 255.
\<close>

named_theorems err_simps \<open>when a chain of early returns ends without an error\<close>
named_theorems str_simps \<open>facts on the string operations\<close>

type_synonym ('e, 'a) result = "'e + 'a"

section \<open>Early returns\<close>

text \<open>\<open>if err := a(); err != nil { return err }; return b()\<close>\<close>

definition seqErr :: "'e option \<Rightarrow> 'e option \<Rightarrow> 'e option" where
  "seqErr a b = (case a of Some e \<Rightarrow> Some e | None \<Rightarrow> b)"

text \<open>\<open>if c { return e }\<close>\<close>

definition failIf :: "bool \<Rightarrow> 'e \<Rightarrow> 'e option" where
  "failIf c e = (if c then Some e else None)"

text \<open>\<open>for _, x := range xs { if err := f(x); err != nil { return err } }\<close>\<close>

fun firstErr :: "('a \<Rightarrow> 'e option) \<Rightarrow> 'a list \<Rightarrow> 'e option" where
  "firstErr f [] = None"
| "firstErr f (x # xs) = seqErr (f x) (firstErr f xs)"

text \<open>The same loop with its index.\<close>

fun firstErrI :: "(nat \<Rightarrow> 'a \<Rightarrow> 'e option) \<Rightarrow> nat \<Rightarrow> 'a list \<Rightarrow> 'e option" where
  "firstErrI f i [] = None"
| "firstErrI f i (x # xs) = seqErr (f i x) (firstErrI f (Suc i) xs)"

lemma seqErr_None [simp, err_simps]: "seqErr a b = None \<longleftrightarrow> a = None \<and> b = None"
  by (auto simp: seqErr_def split: option.splits)

lemma seqErr_simps [simp]: "seqErr None b = b" "seqErr (Some e) b = Some e"
  by (simp_all add: seqErr_def)

lemma seqErr_Some: "seqErr a b = Some e \<longleftrightarrow> a = Some e \<or> (a = None \<and> b = Some e)"
  by (auto simp: seqErr_def split: option.splits)

lemma failIf_None [simp, err_simps]: "failIf c e = None \<longleftrightarrow> \<not> c"
  by (simp add: failIf_def)

lemma failIf_Some [simp]: "failIf c e = Some e' \<longleftrightarrow> c \<and> e' = e"
  by (auto simp: failIf_def)

lemma failIf_simps [simp]: "failIf True e = Some e" "failIf False e = None"
  by (simp_all add: failIf_def)

lemma firstErr_None [simp, err_simps]: "firstErr f xs = None \<longleftrightarrow> (\<forall>x \<in> set xs. f x = None)"
  by (induction xs) auto

lemma firstErr_Some: "firstErr f xs = Some e \<Longrightarrow> \<exists>x \<in> set xs. f x = Some e"
  by (induction xs) (auto simp: seqErr_Some)

lemma firstErrI_None [err_simps]:
  "firstErrI f i xs = None \<longleftrightarrow> (\<forall>k < length xs. f (i + k) (xs ! k) = None)"
proof (induction xs arbitrary: i)
  case Nil
  then show ?case by simp
next
  case (Cons x xs)
  show ?case (is "?l \<longleftrightarrow> (\<forall>k < length (x # xs). ?P k)")
  proof -
    have "(\<forall>k < length (x # xs). ?P k) \<longleftrightarrow> ?P 0 \<and> (\<forall>k < length xs. ?P (Suc k))"
      by (auto simp: less_Suc_eq_0_disj)
    then show ?thesis by (simp add: Cons.IH)
  qed
qed

text \<open>When the check does not depend on the index, only the elements matter.\<close>

lemma firstErrI_None_set:
  assumes "\<And>j x. f j x = None \<longleftrightarrow> P x"
  shows "firstErrI f i xs = None \<longleftrightarrow> (\<forall>x \<in> set xs. P x)"
  unfolding firstErrI_None assms by (metis in_set_conv_nth)

section \<open>Fixed-width integers\<close>

text \<open>
  Go's \<open>int\<close> and \<open>int64\<close> are 64 bits wide and wrap around; \<open>int32\<close> conversions keep the low
  32 bits. Values are kept as \<^typ>\<open>int\<close> and the wrap-around is written at each operation that
  can leave the range.
\<close>

definition wrap64 :: "int \<Rightarrow> int" where
  "wrap64 x = (x + 2 ^ 63) mod 2 ^ 64 - 2 ^ 63"

definition wrap32 :: "int \<Rightarrow> int" where
  "wrap32 x = (x + 2 ^ 31) mod 2 ^ 32 - 2 ^ 31"

definition int64 :: "int \<Rightarrow> bool" where
  "int64 x \<longleftrightarrow> - (2 ^ 63) \<le> x \<and> x < 2 ^ 63"

definition int32 :: "int \<Rightarrow> bool" where
  "int32 x \<longleftrightarrow> - (2 ^ 31) \<le> x \<and> x < 2 ^ 31"

lemma wrap64_range [simp]: "int64 (wrap64 x)"
proof -
  have "0 \<le> (x + 2 ^ 63) mod 2 ^ 64" and "(x + 2 ^ 63) mod 2 ^ 64 < 2 ^ 64"
    by simp_all
  then show ?thesis by (simp add: int64_def wrap64_def)
qed

lemma wrap32_range [simp]: "int32 (wrap32 x)"
proof -
  have "0 \<le> (x + 2 ^ 31) mod 2 ^ 32" and "(x + 2 ^ 31) mod 2 ^ 32 < 2 ^ 32"
    by simp_all
  then show ?thesis by (simp add: int32_def wrap32_def)
qed

lemma wrap64_id: "int64 x \<Longrightarrow> wrap64 x = x"
  by (simp add: int64_def wrap64_def)

lemma wrap32_id: "int32 x \<Longrightarrow> wrap32 x = x"
  by (simp add: int32_def wrap32_def)

text \<open>A \<open>time.Duration\<close> counts nanoseconds in an \<open>int64\<close>.\<close>

definition second :: int where "second = 1000000000"

definition seconds :: "int \<Rightarrow> int" where
  "seconds n = wrap64 (n * second)"

lemma seconds_int32: "int32 n \<Longrightarrow> seconds n = n * second"
  by (simp add: seconds_def second_def int32_def int64_def wrap64_id)


section \<open>Runs of a step function\<close>

text \<open>
  A component whose operations are steps on a state, in whatever order its callers make them: a
  property every step keeps holds after every run.
\<close>

locale step_system =
  fixes step :: "'e \<Rightarrow> 's \<Rightarrow> 's" and ok :: "'s \<Rightarrow> bool"
  assumes step_ok: "ok s \<Longrightarrow> ok (step e s)"
begin

lemma run_ok: "ok s \<Longrightarrow> ok (fold step es s)"
  by (induction es arbitrary: s) (auto intro: step_ok)

text \<open>A reading that no step of the run changes is the same at its end.\<close>

lemma run_frame:
  assumes "\<And>e s. e \<in> set es \<Longrightarrow> ok s \<Longrightarrow> f (step e s) = f s" and "ok s"
  shows "f (fold step es s) = f s"
  using assms by (induction es arbitrary: s) (auto simp: step_ok)

text \<open>A second invariant may rest on the first.\<close>

lemma run_ok2:
  assumes "\<And>e s. e \<in> set es \<Longrightarrow> ok s \<Longrightarrow> P s \<Longrightarrow> P (step e s)" and "ok s" and "P s"
  shows "P (fold step es s)"
  using assms by (induction es arbitrary: s) (auto intro: step_ok)

end

end
