(* ===== verification/Go_Strings.thy ===== *)
theory Go_Strings
  imports Jdix_Prelude
begin

text \<open>
  The functions of Go's \<open>strings\<close> and \<open>strconv\<close> packages the components call, on byte strings,
  and the facts on splitting, joining, prefixes and decimal numerals their proofs share.
\<close>

section \<open>Prefixes and suffixes\<close>

definition hasPrefix :: "string \<Rightarrow> string \<Rightarrow> bool" where
  "hasPrefix s p \<longleftrightarrow> take (length p) s = p"

definition trimPrefix :: "string \<Rightarrow> string \<Rightarrow> string" where
  "trimPrefix s p = (if hasPrefix s p then drop (length p) s else s)"

definition hasSuffix :: "string \<Rightarrow> string \<Rightarrow> bool" where
  "hasSuffix s p \<longleftrightarrow> length p \<le> length s \<and> drop (length s - length p) s = p"

definition trimSuffix :: "string \<Rightarrow> string \<Rightarrow> string" where
  "trimSuffix s p = (if hasSuffix s p then take (length s - length p) s else s)"

lemma hasPrefix_iff [str_simps]: "hasPrefix s p \<longleftrightarrow> prefix p s"
  by (auto simp: hasPrefix_def prefix_def) (metis append_take_drop_id)

lemma hasPrefix_append [simp]: "hasPrefix (p @ s) p"
  by (simp add: hasPrefix_def)

lemma hasPrefix_Cons [simp]: "hasPrefix (x # s) [y] \<longleftrightarrow> x = y"
  by (simp add: hasPrefix_def)

lemma hasPrefix_Nil [simp]: "hasPrefix s []" "\<not> hasPrefix [] [y]"
  by (simp_all add: hasPrefix_def)

lemma hasPrefix_CharE: "hasPrefix s [c] \<Longrightarrow> (\<And>r. s = c # r \<Longrightarrow> P) \<Longrightarrow> P"
  by (auto simp: hasPrefix_iff prefix_def)

lemma trimPrefix_append [simp]: "trimPrefix (p @ s) p = s"
  by (simp add: trimPrefix_def)

lemma hasSuffix_append [simp]: "hasSuffix (s @ p) p"
  by (simp add: hasSuffix_def)

lemma trimSuffix_append [simp]: "trimSuffix (s @ p) p = s"
  by (simp add: trimSuffix_def)

lemma hasSuffix_iff: "hasSuffix s p \<longleftrightarrow> (\<exists>r. s = r @ p)"
proof
  assume "hasSuffix s p"
  then show "\<exists>r. s = r @ p"
    unfolding hasSuffix_def by (metis append_take_drop_id)
qed auto

section \<open>Splitting and joining at a separator\<close>

text \<open>\<open>strings.Split(s, c)\<close> for a one-byte separator.\<close>

fun split_on :: "char \<Rightarrow> string \<Rightarrow> string list" where
  "split_on c [] = [[]]"
| "split_on c (x # xs) =
     (if x = c then [] # split_on c xs
      else (case split_on c xs of [] \<Rightarrow> [[x]] | y # ys \<Rightarrow> (x # y) # ys))"

text \<open>\<open>strings.Join(xs, sep)\<close>\<close>

fun join :: "string \<Rightarrow> string list \<Rightarrow> string" where
  "join sep [] = []"
| "join sep [x] = x"
| "join sep (x # y # xs) = x @ sep @ join sep (y # xs)"

lemma split_on_ne [simp]: "split_on c s \<noteq> []"
  by (induction s) (auto split: list.splits)

lemma split_on_no_sep: "x \<in> set (split_on c s) \<Longrightarrow> c \<notin> set x"
  by (induction s arbitrary: x) (auto split: list.splits if_splits)

lemma split_on_free: "c \<notin> set s \<Longrightarrow> split_on c s = [s]"
  by (induction s) auto

lemma split_on_append_sep: "split_on c (xs @ c # ys) = split_on c xs @ split_on c ys"
proof (induction xs)
  case Nil
  then show ?case by simp
next
  case (Cons x xs)
  then show ?case by (cases "split_on c xs") auto
qed

lemma join_Cons: "xs \<noteq> [] \<Longrightarrow> join sep (x # xs) = x @ sep @ join sep xs"
  by (cases xs) auto

lemma join_append:
  "xs \<noteq> [] \<Longrightarrow> ys \<noteq> [] \<Longrightarrow> join sep (xs @ ys) = join sep xs @ sep @ join sep ys"
proof (induction xs)
  case (Cons x xs)
  then show ?case by (cases "xs = []") (simp_all add: join_Cons)
qed simp

lemma join_split_on [simp]: "join [c] (split_on c s) = s"
proof (induction s)
  case Nil
  then show ?case by simp
next
  case (Cons x s)
  obtain y ys where y: "split_on c s = y # ys"
    by (cases "split_on c s") auto
  show ?case
  proof (cases "x = c")
    case True
    with Cons y show ?thesis by (simp add: join_Cons)
  next
    case False
    with Cons y show ?thesis by (cases ys) auto
  qed
qed

lemma split_on_join:
  "xs \<noteq> [] \<Longrightarrow> (\<And>x. x \<in> set xs \<Longrightarrow> c \<notin> set x) \<Longrightarrow> split_on c (join [c] xs) = xs"
proof (induction xs)
  case Nil
  then show ?case by simp
next
  case (Cons x xs)
  show ?case
  proof (cases "xs = []")
    case True
    with Cons.prems show ?thesis by (simp add: split_on_free)
  next
    case False
    with Cons show ?thesis by (simp add: join_Cons split_on_append_sep split_on_free)
  qed
qed

lemma split_on_inj: "split_on c s = split_on c t \<Longrightarrow> s = t"
  by (metis join_split_on)

lemma set_join: "set (join sep xs) \<subseteq> (\<Union>x \<in> set xs. set x) \<union> set sep"
  by (induction sep xs rule: join.induct) auto

lemma set_split_on: "x \<in> set (split_on c s) \<Longrightarrow> set x \<subseteq> set s"
proof (induction s arbitrary: x)
  case Nil
  then show ?case by simp
next
  case (Cons y s)
  then show ?case by (auto split: list.splits if_splits) blast+
qed

text \<open>\<open>strings.Cut(s, c)\<close>: before, after, found.\<close>

definition cut :: "char \<Rightarrow> string \<Rightarrow> string \<times> string \<times> bool" where
  "cut c s =
     (let b = takeWhile (\<lambda>x. x \<noteq> c) s
      in if length b < length s then (b, drop (Suc (length b)) s, True) else (s, [], False))"

lemma cut_sep: "c \<notin> set a \<Longrightarrow> cut c (a @ c # b) = (a, b, True)"
proof -
  assume "c \<notin> set a"
  then have "takeWhile (\<lambda>x. x \<noteq> c) (a @ c # b) = a" by (induction a) auto
  then show ?thesis by (simp add: cut_def)
qed

lemma cut_none: "c \<notin> set s \<Longrightarrow> cut c s = (s, [], False)"
proof -
  assume "c \<notin> set s"
  then have "takeWhile (\<lambda>x. x \<noteq> c) s = s" by (induction s) auto
  then show ?thesis unfolding cut_def Let_def by (simp only: less_irrefl if_False)
qed

lemma cut_found: "cut c s = (a, b, True) \<Longrightarrow> s = a @ c # b \<and> c \<notin> set a"
proof -
  assume h: "cut c s = (a, b, True)"
  let ?b = "takeWhile (\<lambda>x. x \<noteq> c) s"
  from h have lt: "length ?b < length s" and ab: "a = ?b" "b = drop (Suc (length ?b)) s"
    by (auto simp: cut_def Let_def split: if_splits)
  have "s = ?b @ drop (length ?b) s"
    by (metis append_take_drop_id takeWhile_eq_take)
  moreover have "drop (length ?b) s = s ! length ?b # drop (Suc (length ?b)) s"
    using lt by (rule Cons_nth_drop_Suc [symmetric])
  moreover have "s ! length ?b = c"
    using lt nth_length_takeWhile by blast
  ultimately have "s = a @ c # b" using ab by simp
  moreover have "c \<notin> set a" using ab by (auto dest: set_takeWhileD)
  ultimately show ?thesis by simp
qed

text \<open>\<open>strings.Count(s, c)\<close> for a one-byte separator.\<close>

definition count_char :: "char \<Rightarrow> string \<Rightarrow> nat" where
  "count_char c s = length (filter (\<lambda>x. x = c) s)"

lemma count_char_append [simp]: "count_char c (s @ t) = count_char c s + count_char c t"
  by (simp add: count_char_def)

text \<open>Quotation marks in messages: \<open>sq\<close> is a text between single quotes. \<open>Quote\<close> is the \<open>%q\<close>
  verb on ASCII text; bytes from 0x80 on are kept, as \<open>%q\<close> keeps printable UTF-8.\<close>

definition sq :: "string \<Rightarrow> string" where
  "sq s = [CHR 0x27] @ s @ [CHR 0x27]"

definition hex_digit :: "nat \<Rightarrow> char" where
  "hex_digit n = (if n < 10 then char_of (48 + n) else char_of (87 + n))"

definition quote_char :: "char \<Rightarrow> string" where
  "quote_char c =
     (let n = (of_char c :: nat)
      in if n = 0x22 \<or> n = 0x5C then [CHR 0x5C, c]
         else if n = 7 then [CHR 0x5C, CHR ''a''] else if n = 8 then [CHR 0x5C, CHR ''b'']
         else if n = 9 then [CHR 0x5C, CHR ''t''] else if n = 10 then [CHR 0x5C, CHR ''n'']
         else if n = 11 then [CHR 0x5C, CHR ''v''] else if n = 12 then [CHR 0x5C, CHR ''f'']
         else if n = 13 then [CHR 0x5C, CHR ''r'']
         else if n < 32 \<or> n = 127 then [CHR 0x5C, CHR ''x'', hex_digit (n div 16), hex_digit (n mod 16)]
         else [c])"

definition Quote :: "string \<Rightarrow> string" where
  "Quote s = [CHR 0x22] @ concat (map quote_char s) @ [CHR 0x22]"

section \<open>Decimal numerals\<close>

definition digit :: "nat \<Rightarrow> char" where
  "digit n = char_of (48 + n)"

definition digit_val :: "char \<Rightarrow> nat option" where
  "digit_val c = (let n = of_char c in if 48 \<le> n \<and> n \<le> 57 then Some (n - 48) else None)"

fun digits :: "nat \<Rightarrow> string" where
  "digits n = (if n < 10 then [digit n] else digits (n div 10) @ [digit (n mod 10)])"

declare digits.simps [simp del]

text \<open>\<open>strconv.Itoa\<close>, also \<open>fmt.Sprint\<close> and \<open>%d\<close> of an integer.\<close>

definition Itoa :: "int \<Rightarrow> string" where
  "Itoa n = (if n < 0 then CHR ''-'' # digits (nat (- n)) else digits (nat n))"

fun parse_digits :: "nat \<Rightarrow> string \<Rightarrow> nat option" where
  "parse_digits acc [] = Some acc"
| "parse_digits acc (c # cs) =
     (case digit_val c of None \<Rightarrow> None | Some d \<Rightarrow> parse_digits (10 * acc + d) cs)"

text \<open>\<open>strconv.Atoi\<close>: an optional sign and at least one digit, within the range of \<open>int\<close>.\<close>

definition Atoi :: "string \<Rightarrow> int option" where
  "Atoi s =
     (let neg = hasPrefix s ''-'';
          ds = (if neg \<or> hasPrefix s ''+'' then tl s else s)
      in if ds = [] then None
         else (case parse_digits 0 ds of
                 None \<Rightarrow> None
               | Some n \<Rightarrow> (let v = (if neg then - int n else int n)
                           in if int64 v then Some v else None)))"

lemma digit_val_digit [simp]: "n < 10 \<Longrightarrow> digit_val (digit n) = Some n"
  by (simp add: digit_val_def digit_def)

lemma parse_digits_append:
  "parse_digits acc (xs @ ys) =
     (case parse_digits acc xs of None \<Rightarrow> None | Some a \<Rightarrow> parse_digits a ys)"
  by (induction xs arbitrary: acc) (auto split: option.splits)

lemma parse_digits_digits: "\<exists>k. \<forall>acc. parse_digits acc (digits n) = Some (10 ^ k * acc + n)"
proof (induction n rule: digits.induct)
  case (1 n)
  show ?case
  proof (cases "n < 10")
    case True
    have "\<forall>acc. parse_digits acc (digits n) = Some (10 ^ 1 * acc + n)"
      using True by (simp add: digits.simps [of n])
    then show ?thesis by blast
  next
    case False
    then obtain k where k: "\<And>acc. parse_digits acc (digits (n div 10)) = Some (10 ^ k * acc + n div 10)"
      using 1 by blast
    have "\<forall>acc. parse_digits acc (digits n) = Some (10 ^ Suc k * acc + n)"
      using False by (simp add: digits.simps [of n] parse_digits_append k)
    then show ?thesis by blast
  qed
qed

lemma parse_digits_digits0 [simp]: "parse_digits 0 (digits n) = Some n"
  using parse_digits_digits [of n] by auto

lemma digits_digit: "c \<in> set (digits n) \<Longrightarrow> \<exists>d < 10. c = digit d"
proof (induction n rule: digits.induct)
  case (1 n)
  show ?case
  proof (cases "n < 10")
    case True
    with 1 show ?thesis by (auto simp: digits.simps [of n])
  next
    case False
    then consider "c \<in> set (digits (n div 10))" | "c = digit (n mod 10)"
      using "1.prems" by (auto simp: digits.simps [of n])
    then show ?thesis
    proof cases
      case 1
      with False "1.IH" show ?thesis by blast
    next
      case 2
      moreover have "n mod 10 < 10" by simp
      ultimately show ?thesis by blast
    qed
  qed
qed

lemma digits_ne [simp]: "digits n \<noteq> []"
  by (subst digits.simps) simp

lemma digit_neq:
  "n < 10 \<Longrightarrow> of_char c < (48::nat) \<or> (57::nat) < of_char c \<Longrightarrow> digit n \<noteq> c"
  by (auto simp: digit_def)

lemma digits_no_char: "of_char c < (48::nat) \<or> (57::nat) < of_char c \<Longrightarrow> c \<notin> set (digits n)"
  using digits_digit digit_neq by metis

lemma Itoa_ne [simp]: "Itoa n \<noteq> []"
  by (simp add: Itoa_def)

lemma Itoa_no_char:
  "of_char c < (48::nat) \<or> (57::nat) < of_char c \<Longrightarrow> c \<noteq> CHR ''-'' \<Longrightarrow> c \<notin> set (Itoa n)"
  by (simp add: Itoa_def digits_no_char)

theorem Atoi_Itoa [simp]: "int64 n \<Longrightarrow> Atoi (Itoa n) = Some n"
proof (cases "n < 0")
  case True
  assume "int64 n"
  with True show ?thesis by (simp add: Atoi_def Itoa_def)
next
  case False
  assume n: "int64 n"
  obtain d ds where d: "digits (nat n) = d # ds" by (cases "digits (nat n)") auto
  have "d \<noteq> CHR ''-''" "d \<noteq> CHR ''+''"
    using d digits_no_char [of "CHR ''-''" "nat n"] digits_no_char [of "CHR ''+''" "nat n"]
    by auto
  with False n d show ?thesis
    using parse_digits_digits0 [of "nat n"] by (auto simp: Atoi_def Itoa_def)
qed

lemma Itoa_inj: "int64 m \<Longrightarrow> int64 n \<Longrightarrow> Itoa m = Itoa n \<Longrightarrow> m = n"
  by (metis Atoi_Itoa option.inject)

section \<open>White space and case\<close>

text \<open>
  \<open>strings.TrimSpace\<close>, \<open>ToLower\<close> and \<open>EqualFold\<close> on ASCII; what they do beyond ASCII does not
  occur in the headers, labels and status lines they are applied to.
\<close>

definition isSpace :: "char \<Rightarrow> bool" where
  "isSpace c \<longleftrightarrow> of_char c \<in> {9, 10, 11, 12, 13, 32 :: nat}"

definition TrimSpace :: "string \<Rightarrow> string" where
  "TrimSpace s = rev (dropWhile isSpace (rev (dropWhile isSpace s)))"

definition lower_char :: "char \<Rightarrow> char" where
  "lower_char c = (let n = of_char c :: nat in if 65 \<le> n \<and> n \<le> 90 then char_of (n + 32) else c)"

definition ToLower :: "string \<Rightarrow> string" where
  "ToLower s = map lower_char s"

definition EqualFold :: "string \<Rightarrow> string \<Rightarrow> bool" where
  "EqualFold a b \<longleftrightarrow> ToLower a = ToLower b"

section \<open>base64 and hex\<close>

text \<open>
  \<open>encoding/base64\<close> without padding, over an alphabet given by its digit function, and
  \<open>encoding/hex\<close>. Decoding skips line breaks and fails on any other foreign character and on a
  last group of one character.
\<close>

definition b64std :: string where
  "b64std = ''ABCDEFGHIJKLMNOPQRSTUVWXYZabcdefghijklmnopqrstuvwxyz0123456789+/''"

definition b64url :: string where
  "b64url = ''ABCDEFGHIJKLMNOPQRSTUVWXYZabcdefghijklmnopqrstuvwxyz0123456789-_''"

fun b64enc :: "string \<Rightarrow> nat list \<Rightarrow> string" where
  "b64enc al [] = []"
| "b64enc al [a] = [al ! (a div 4), al ! (a mod 4 * 16)]"
| "b64enc al [a, b] = [al ! (a div 4), al ! (a mod 4 * 16 + b div 16), al ! (b mod 16 * 4)]"
| "b64enc al (a # b # c # r) =
     [al ! (a div 4), al ! (a mod 4 * 16 + b div 16), al ! (b mod 16 * 4 + c div 64), al ! (c mod 64)] @ b64enc al r"

definition b64val :: "string \<Rightarrow> char \<Rightarrow> nat option" where
  "b64val al c = List.find (\<lambda>i. al ! i = c) [0..<length al]"

fun b64groups :: "nat list \<Rightarrow> nat list option" where
  "b64groups [] = Some []"
| "b64groups [x] = None"
| "b64groups [x, y] = Some [x * 4 + y div 16]"
| "b64groups [x, y, z] = Some [x * 4 + y div 16, y mod 16 * 16 + z div 4]"
| "b64groups (x # y # z # w # r) =
     (case b64groups r of None \<Rightarrow> None
      | Some bs \<Rightarrow> Some ([x * 4 + y div 16, y mod 16 * 16 + z div 4, z mod 4 * 64 + w] @ bs))"

definition b64dec :: "string \<Rightarrow> string \<Rightarrow> nat list option" where
  "b64dec al s =
     (let cs = filter (\<lambda>c. c \<noteq> CHR 0x0A \<and> c \<noteq> CHR 0x0D) s
      in if \<exists>c \<in> set cs. b64val al c = None then None else b64groups (map (\<lambda>c. the (b64val al c)) cs))"

definition hexEncode :: "nat list \<Rightarrow> string" where
  "hexEncode bs = concat (map (\<lambda>b. [hex_digit (b div 16), hex_digit (b mod 16)]) bs)"

definition bytes :: "nat list \<Rightarrow> bool" where
  "bytes bs \<longleftrightarrow> (\<forall>b \<in> set bs. b < 256)"

definition good_alphabet :: "string \<Rightarrow> bool" where
  "good_alphabet al \<longleftrightarrow> length al = 64 \<and> distinct al \<and> CHR 0x0A \<notin> set al \<and> CHR 0x0D \<notin> set al"

lemma good_alphabets [simp]: "good_alphabet b64std" "good_alphabet b64url"
  by (simp_all add: good_alphabet_def b64std_def b64url_def)

lemma b64val_nth:
  assumes "good_alphabet al" "i < 64"
  shows "b64val al (al ! i) = Some i"
proof -
  have "List.find (\<lambda>j. al ! j = al ! i) [0..<length al] = Some i"
    unfolding find_Some_iff
    using assms by (intro exI [of _ i]) (auto simp: good_alphabet_def nth_eq_iff_index_eq)
  then show ?thesis by (simp add: b64val_def)
qed

fun sextets :: "nat list \<Rightarrow> nat list" where
  "sextets [] = []"
| "sextets [a] = [a div 4, a mod 4 * 16]"
| "sextets [a, b] = [a div 4, a mod 4 * 16 + b div 16, b mod 16 * 4]"
| "sextets (a # b # c # r) = [a div 4, a mod 4 * 16 + b div 16, b mod 16 * 4 + c div 64, c mod 64] @ sextets r"

lemma b64enc_sextets: "b64enc al bs = map (\<lambda>i. al ! i) (sextets bs)"
  by (induction al bs rule: b64enc.induct) simp_all

lemma div_less_k: "(b::nat) < 256 \<Longrightarrow> b div 16 < 16" "b < 256 \<Longrightarrow> b div 64 < 4" "b < 256 \<Longrightarrow> b div 4 < 64"
  by simp_all

lemma sextets_range: "bytes bs \<Longrightarrow> x \<in> set (sextets bs) \<Longrightarrow> x < 64"
proof (induction bs rule: sextets.induct)
  case (2 a)
  then show ?case by (auto simp: bytes_def)
next
  case (3 a b)
  then show ?case by (auto simp: bytes_def)
next
  case (4 a b c r)
  then have "a < 256" "b < 256" "c < 256" "bytes r" by (auto simp: bytes_def)
  with 4 show ?case by auto
qed simp

lemma pack: "(u::nat) < k \<Longrightarrow> (q * k + u) div k = q" "u < k \<Longrightarrow> (q * k + u) mod k = u"
  by (simp_all add: div_mult_self3)

lemma unpack:
  assumes "(b::nat) < 256" "c < 256"
  shows "a div 4 * 4 + (a mod 4 * 16 + b div 16) div 16 = a"
    "(a mod 4 * 16 + b div 16) mod 16 * 16 + (b mod 16 * 4 + c div 64) div 4 = b"
    "(b mod 16 * 4 + c div 64) mod 4 * 64 + c mod 64 = c"
proof -
  have "b div 16 < 16" "c div 64 < 4" using assms by simp_all
  then show "a div 4 * 4 + (a mod 4 * 16 + b div 16) div 16 = a"
    "(a mod 4 * 16 + b div 16) mod 16 * 16 + (b mod 16 * 4 + c div 64) div 4 = b"
    "(b mod 16 * 4 + c div 64) mod 4 * 64 + c mod 64 = c"
    by (simp_all only: pack div_mult_mod_eq)
qed

lemma groups_sextets: "bytes bs \<Longrightarrow> b64groups (sextets bs) = Some bs"
proof (induction bs rule: sextets.induct)
  case (2 a)
  then show ?case by (simp add: bytes_def)
next
  case (3 a b)
  then have "a < 256" "b < 256" by (auto simp: bytes_def)
  with unpack(1,2) [of b 0 a] show ?case
    by (simp only: sextets.simps b64groups.simps div_0 add_0_right zero_less_numeral)
next
  case (4 a b c r)
  then have "b < 256" "c < 256" "b64groups (sextets r) = Some r" by (auto simp: bytes_def)
  with unpack(1,2) [of b c a] unpack(3) [of b c] show ?case
    by (simp only: sextets.simps b64groups.simps append_Cons append_Nil option.case)
qed simp

theorem b64_round_trip:
  assumes al: "good_alphabet al" and bs: "bytes bs"
  shows "b64dec al (b64enc al bs) = Some bs"
proof -
  have mem: "\<forall>i \<in> set (sextets bs). i < 64" using sextets_range [OF bs] by blast
  then have nl: "al ! i \<in> set al" if "i \<in> set (sextets bs)" for i
    using that al by (simp add: good_alphabet_def)
  have "filter (\<lambda>c. c \<noteq> CHR 0x0A \<and> c \<noteq> CHR 0x0D) (b64enc al bs) = b64enc al bs"
    using al nl by (intro filter_True) (fastforce simp: b64enc_sextets good_alphabet_def)
  moreover have "\<forall>c \<in> set (b64enc al bs). b64val al c \<noteq> None"
    using mem b64val_nth [OF al] by (auto simp: b64enc_sextets)
  moreover have "map (\<lambda>c. the (b64val al c)) (b64enc al bs) = sextets bs"
    using mem b64val_nth [OF al] by (simp add: b64enc_sextets map_idI)
  ultimately show ?thesis using groups_sextets [OF bs] by (auto simp: b64dec_def Let_def)
qed

lemma b64enc_chars: "good_alphabet al \<Longrightarrow> bytes bs \<Longrightarrow> set (b64enc al bs) \<subseteq> set al"
  using sextets_range by (auto simp: b64enc_sextets good_alphabet_def)

text \<open>\<open>base64.StdEncoding\<close> on strings: the same digits, padded to groups of four. Decoding skips line breaks and takes exactly
  the padding that the digits need.\<close>

definition b64pad :: "string \<Rightarrow> string" where
  "b64pad s = s @ replicate ((4 - length s mod 4) mod 4) (CHR ''='')"

definition b64encode :: "string \<Rightarrow> string" where
  "b64encode s = b64pad (b64enc b64std (map of_char s))"

definition b64decode :: "string \<Rightarrow> string option" where
  "b64decode s =
     (let cs = filter (\<lambda>c. c \<noteq> CHR 0x0A \<and> c \<noteq> CHR 0x0D) s; ds = takeWhile (\<lambda>c. c \<noteq> CHR ''='') cs
      in if cs = b64pad ds then map_option (map char_of) (b64dec b64std ds) else None)"

lemma bytes_of_chars: "bytes (map of_char s)"
  by (auto simp: bytes_def)

lemma b64std_plain: "CHR 0x0A \<notin> set b64std" "CHR 0x0D \<notin> set b64std" "CHR ''='' \<notin> set b64std"
  by (simp_all add: b64std_def)

theorem b64decode_encode [simp]: "b64decode (b64encode s) = Some s"
proof -
  let ?e = "b64enc b64std (map of_char s)"
  have sub: "set ?e \<subseteq> set b64std" by (rule b64enc_chars) (simp_all add: bytes_of_chars)
  then have "filter (\<lambda>c. c \<noteq> CHR 0x0A \<and> c \<noteq> CHR 0x0D) (b64pad ?e) = b64pad ?e"
    using b64std_plain by (intro filter_True) (auto simp: b64pad_def)
  moreover have "takeWhile (\<lambda>c. c \<noteq> CHR ''='') (b64pad ?e) = ?e"
  proof -
    have "\<forall>c \<in> set ?e. c \<noteq> CHR ''=''" using sub b64std_plain by auto
    then show ?thesis unfolding b64pad_def by (subst takeWhile_append2) (auto simp: takeWhile_replicate)
  qed
  ultimately show ?thesis by (simp add: b64decode_def b64encode_def b64_round_trip bytes_of_chars o_def)
qed

lemma b64enc_ne: "bs \<noteq> [] \<Longrightarrow> b64enc al bs \<noteq> []"
  by (cases "(al, bs)" rule: b64enc.cases) auto

lemma hexEncode_length [simp]: "length (hexEncode bs) = 2 * length bs"
  by (induction bs) (auto simp: hexEncode_def)

lemma hexEncode_chars: "bytes bs \<Longrightarrow> c \<in> set (hexEncode bs) \<Longrightarrow> \<exists>d < 16. c = hex_digit d"
proof -
  assume "bytes bs" "c \<in> set (hexEncode bs)"
  then obtain b where "b < 256" "c = hex_digit (b div 16) \<or> c = hex_digit (b mod 16)"
    by (auto simp: hexEncode_def bytes_def)
  moreover from this have "b div 16 < 16" "b mod 16 < 16" by simp_all
  ultimately show ?thesis by blast
qed

section \<open>net.SplitHostPort\<close>

fun last_index :: "char \<Rightarrow> nat \<Rightarrow> string \<Rightarrow> nat option" where
  "last_index c i [] = None"
| "last_index c i (x # xs) =
     (case last_index c (Suc i) xs of Some j \<Rightarrow> Some j | None \<Rightarrow> if x = c then Some i else None)"

fun first_index :: "char \<Rightarrow> nat \<Rightarrow> string \<Rightarrow> nat option" where
  "first_index c i [] = None"
| "first_index c i (x # xs) = (if x = c then Some i else first_index c (Suc i) xs)"

text \<open>\<open>None\<close> is every error; the source distinguishes none of them.\<close>

definition SplitHostPort :: "string \<Rightarrow> (string \<times> string) option" where
  "SplitHostPort hp =
     (case last_index (CHR '':'') 0 hp of
        None \<Rightarrow> None
      | Some i \<Rightarrow>
          if hasPrefix hp ''['' then
            (case first_index (CHR '']'') 0 hp of
               None \<Rightarrow> None
             | Some e \<Rightarrow>
                 if e + 1 \<noteq> i then None
                 else if CHR ''['' \<in> set (drop 1 hp) \<or> CHR '']'' \<in> set (drop (e + 1) hp) then None
                 else Some (take (e - 1) (drop 1 hp), drop (i + 1) hp))
          else if CHR '':'' \<in> set (take i hp) then None
          else if CHR ''['' \<in> set hp \<or> CHR '']'' \<in> set hp then None
          else Some (take i hp, drop (i + 1) hp))"

end
