(* ===== verification/Go_Path.thy ===== *)
theory Go_Path
  imports Go_Strings
begin

text \<open>
  Go's \<open>path\<close> package, lexical only: \<open>path.Clean\<close>, \<open>path.Join\<close> and \<open>path.Dir\<close>. Clean paths
  are characterised by their segments, so that the string tests of the components become
  statements on segment lists.
\<close>

abbreviation slash :: char where "slash \<equiv> CHR ''/''"

section \<open>path.Clean\<close>

text \<open>
  One path element at a time, on a stack of the elements kept so far, last one first:
  empty elements and \<open>.\<close> vanish, \<open>..\<close> drops the element before it, and a \<open>..\<close> that has
  nothing to drop is kept in a relative path and vanishes at the root of a rooted one.
\<close>

definition clean_step :: "bool \<Rightarrow> string list \<Rightarrow> string \<Rightarrow> string list" where
  "clean_step rooted st seg =
     (if seg = [] \<or> seg = ''.'' then st
      else if seg = ''..'' then
        (case st of
           [] \<Rightarrow> (if rooted then [] else [''..''])
         | t # ts \<Rightarrow> (if t = ''..'' then ''..'' # t # ts else ts))
      else seg # st)"

definition clean_segs :: "bool \<Rightarrow> string list \<Rightarrow> string list" where
  "clean_segs rooted segs = rev (foldl (clean_step rooted) [] segs)"

definition path_Clean :: "string \<Rightarrow> string" where
  "path_Clean p =
     (if p = [] then ''.''
      else let rooted = hasPrefix p ''/''; out = clean_segs rooted (split_on slash p)
           in if rooted then slash # join ''/'' out
              else if out = [] then ''.'' else join ''/'' out)"

text \<open>\<open>path.Join\<close> drops empty arguments, joins the rest with slashes and cleans the result.\<close>

definition path_Join :: "string list \<Rightarrow> string" where
  "path_Join xs =
     (let ne = filter (\<lambda>x. x \<noteq> []) xs in if ne = [] then [] else path_Clean (join ''/'' ne))"

text \<open>\<open>path.Dir\<close>: everything before the last element, cleaned.\<close>

definition path_Dir :: "string \<Rightarrow> string" where
  "path_Dir p =
     (let d = butlast (split_on slash p)
      in if d = [] then ''.'' else path_Clean (join ''/'' d @ ''/''))"

section \<open>Plain segments\<close>

text \<open>An element that \<open>path.Clean\<close> never changes.\<close>

definition plain_seg :: "string \<Rightarrow> bool" where
  "plain_seg s \<longleftrightarrow> s \<noteq> [] \<and> s \<noteq> ''.'' \<and> s \<noteq> ''..'' \<and> slash \<notin> set s"

text \<open>The elements of a rooted path, without the empty one before the first slash.\<close>

definition segs :: "string \<Rightarrow> string list" where
  "segs p = filter (\<lambda>s. s \<noteq> []) (split_on slash p)"

definition abs_path :: "string list \<Rightarrow> string" where
  "abs_path ss = slash # join ''/'' ss"

text \<open>The stack of \<open>path.Clean\<close>: plain elements above the kept \<open>..\<close> elements, of which a
  rooted path has none.\<close>

definition clean_stack :: "bool \<Rightarrow> string list \<Rightarrow> bool" where
  "clean_stack rooted st \<longleftrightarrow>
     (\<exists>a n. st = a @ replicate n ''..'' \<and> (\<forall>s \<in> set a. plain_seg s) \<and> (rooted \<longrightarrow> n = 0))"

lemma clean_stack_Nil [simp]: "clean_stack r []"
  by (auto simp: clean_stack_def)

lemma clean_stack_rooted [simp]: "clean_stack True st \<longleftrightarrow> (\<forall>s \<in> set st. plain_seg s)"
  by (auto simp: clean_stack_def)

lemma clean_stack_Cons: "clean_stack r st \<Longrightarrow> plain_seg s \<Longrightarrow> clean_stack r (s # st)"
  unfolding clean_stack_def
  by (metis append_Cons set_ConsD)

lemma clean_stack_tl: "clean_stack r (t # ts) \<Longrightarrow> clean_stack r ts"
proof -
  assume "clean_stack r (t # ts)"
  then obtain a n where an: "t # ts = a @ replicate n ''..''"
    and a: "\<forall>s \<in> set a. plain_seg s" and n: "r \<longrightarrow> n = 0"
    by (auto simp: clean_stack_def)
  show ?thesis
  proof (cases a)
    case Nil
    with an have "ts = [] @ replicate (n - 1) ''..''" by (cases n) auto
    with n show ?thesis unfolding clean_stack_def by (metis diff_0_eq_0 empty_iff empty_set)
  next
    case (Cons b bs)
    with an a n show ?thesis by (auto simp: clean_stack_def)
  qed
qed

lemma clean_stack_dd: "clean_stack r (''..'' # ts) \<Longrightarrow> clean_stack r (''..'' # ''..'' # ts)"
proof -
  assume "clean_stack r (''..'' # ts)"
  then obtain a n where an: "''..'' # ts = a @ replicate n ''..''"
    and a: "\<forall>s \<in> set a. plain_seg s" and n: "r \<longrightarrow> n = 0"
    by (auto simp: clean_stack_def)
  have "a = []" using an a by (cases a) (auto simp: plain_seg_def)
  with an n have "''..'' # ''..'' # ts = [] @ replicate (Suc n) ''..''" and "\<not> r"
    by (auto simp: Cons_replicate_eq)
  then show ?thesis unfolding clean_stack_def by (metis empty_iff empty_set)
qed

lemma clean_step_stack:
  "clean_stack r st \<Longrightarrow> slash \<notin> set seg \<Longrightarrow> clean_stack r (clean_step r st seg)"
proof (cases "seg = ''..''")
  case True
  assume st: "clean_stack r st"
  show ?thesis
  proof (cases st)
    case Nil
    have "clean_stack False (replicate 1 ''..'')"
      unfolding clean_stack_def by (metis append_Nil empty_iff empty_set)
    with Nil True show ?thesis by (simp add: clean_step_def)
  next
    case (Cons t ts)
    with True st show ?thesis
      by (auto simp: clean_step_def intro: clean_stack_tl clean_stack_dd)
  qed
next
  case False
  assume "clean_stack r st" "slash \<notin> set seg"
  with False show ?thesis by (auto simp: clean_step_def plain_seg_def intro: clean_stack_Cons)
qed

lemma foldl_clean_stack:
  "clean_stack r st \<Longrightarrow> (\<And>s. s \<in> set xs \<Longrightarrow> slash \<notin> set s)
     \<Longrightarrow> clean_stack r (foldl (clean_step r) st xs)"
  by (induction xs arbitrary: st) (auto intro: clean_step_stack)

lemma clean_segs_stack: "clean_stack r (rev (clean_segs r (split_on slash p)))"
  unfolding clean_segs_def by (auto intro!: foldl_clean_stack dest: split_on_no_sep)

text \<open>On a stack of that shape the machine only pushes, so it computes a fixed point.\<close>

lemma foldl_plain:
  "(\<And>s. s \<in> set xs \<Longrightarrow> plain_seg s) \<Longrightarrow> foldl (clean_step r) st xs = rev xs @ st"
  by (induction xs arbitrary: st) (auto simp: clean_step_def plain_seg_def)

lemma foldl_dd: "foldl (clean_step False) (replicate k ''..'') (replicate n ''..'') = replicate (k + n) ''..''"
proof (induction n arbitrary: k)
  case (Suc n)
  have "clean_step False (replicate k ''..'') ''..'' = replicate (Suc k) ''..''"
    by (cases k) (simp_all add: clean_step_def)
  with Suc [of "Suc k"] show ?case by simp
qed simp

lemma clean_segs_fix: "clean_stack r (rev xs) \<Longrightarrow> clean_segs r xs = xs"
proof -
  assume "clean_stack r (rev xs)"
  then obtain a n where "rev xs = a @ replicate n ''..''"
    and a: "\<forall>s \<in> set a. plain_seg s" and n: "r \<longrightarrow> n = 0"
    by (auto simp: clean_stack_def)
  then have xs: "xs = replicate n ''..'' @ rev a"
    by (metis rev_append rev_replicate rev_rev_ident)
  have "foldl (clean_step r) [] (replicate n ''..'') = replicate n ''..''"
    using n foldl_dd [of 0 n] by (cases r) simp_all
  moreover have "foldl (clean_step r) (replicate n ''..'') (rev a) = a @ replicate n ''..''"
    using a foldl_plain [of "rev a"] by simp
  ultimately show ?thesis by (simp add: clean_segs_def xs)
qed

lemma clean_segs_skip_Nil [simp]: "clean_segs r ([] # xs) = clean_segs r xs"
  by (simp add: clean_segs_def clean_step_def)

lemma clean_stack_no_slash: "clean_stack r st \<Longrightarrow> s \<in> set st \<Longrightarrow> slash \<notin> set s \<and> s \<noteq> []"
proof -
  assume "clean_stack r st" and s: "s \<in> set st"
  then obtain a n where "st = a @ replicate n ''..''" and a: "\<forall>s \<in> set a. plain_seg s"
    by (auto simp: clean_stack_def)
  with s consider "s \<in> set a" | "s = ''..''" by (auto simp: set_replicate_conv_if split: if_splits)
  then show ?thesis
  proof cases
    case 1
    with a show ?thesis by (simp add: plain_seg_def)
  qed simp
qed

section \<open>Clean paths\<close>

lemma path_Clean_rooted: "path_Clean (slash # p) = abs_path (clean_segs True (split_on slash p))"
  by (simp add: path_Clean_def abs_path_def)

lemma split_abs_path:
  "(\<forall>s \<in> set ss. slash \<notin> set s) \<Longrightarrow> ss \<noteq> [] \<Longrightarrow> split_on slash (join ''/'' ss) = ss"
  by (simp add: split_on_join)

lemma clean_segs_join:
  assumes "clean_stack r (rev ss)"
  shows "clean_segs r (split_on slash (join ''/'' ss)) = ss"
proof (cases "ss = []")
  case True
  then show ?thesis by (simp add: clean_segs_def clean_step_def)
next
  case False
  with assms show ?thesis
    by (simp add: split_abs_path clean_segs_fix clean_stack_no_slash)
qed

text \<open>A relative clean path does not begin with a slash.\<close>

lemma join_hd_no_slash:
  "clean_stack False (rev ss) \<Longrightarrow> ss \<noteq> [] \<Longrightarrow> join ''/'' ss \<noteq> [] \<and> \<not> hasPrefix (join ''/'' ss) ''/''"
proof -
  assume c: "clean_stack False (rev ss)" and ne: "ss \<noteq> []"
  then obtain s rest where s: "ss = s # rest" by (cases ss) auto
  with c clean_stack_no_slash [of False "rev ss" s] have "slash \<notin> set s" "s \<noteq> []" by auto
  then obtain x xs where "s = x # xs" "x \<noteq> slash" by (cases s) auto
  with s show ?thesis by (cases rest) auto
qed

theorem path_Clean_idem [simp]: "path_Clean (path_Clean p) = path_Clean p"
proof (cases "hasPrefix p ''/''")
  case True
  then obtain q where q: "p = slash # q" by (elim hasPrefix_CharE)
  let ?ss = "clean_segs True (split_on slash q)"
  have "clean_stack True (rev ?ss)" by (rule clean_segs_stack)
  then show ?thesis
    by (simp add: q path_Clean_rooted abs_path_def clean_segs_join)
next
  case False
  let ?ss = "clean_segs False (split_on slash p)"
  have c: "clean_stack False (rev ?ss)" by (rule clean_segs_stack)
  show ?thesis
  proof (cases "p = [] \<or> ?ss = []")
    case True
    then have "path_Clean p = ''.''" using False by (auto simp: path_Clean_def)
    then show ?thesis by (simp add: path_Clean_def clean_segs_def clean_step_def)
  next
    case ne: False
    then have "path_Clean p = join ''/'' ?ss" using False by (simp add: path_Clean_def)
    with ne c show ?thesis
      by (simp add: path_Clean_def [of "join ''/'' ?ss"] join_hd_no_slash clean_segs_join)
  qed
qed

text \<open>The rooted paths that \<open>path.Clean\<close> leaves alone are those made of plain segments.\<close>

definition plain_path :: "string list \<Rightarrow> bool" where
  "plain_path ss \<longleftrightarrow> (\<forall>s \<in> set ss. plain_seg s)"

lemma clean_segs_plain: "plain_path (clean_segs True (split_on slash p))"
  using clean_segs_stack [of True p] by (simp add: plain_path_def)

lemma path_Clean_abs_path: "plain_path ss \<Longrightarrow> path_Clean (abs_path ss) = abs_path ss"
  by (simp add: abs_path_def path_Clean_def plain_path_def clean_segs_join)

theorem path_Clean_fixed_rooted:
  "hasPrefix p ''/'' \<Longrightarrow> path_Clean p = p \<longleftrightarrow> (\<exists>ss. plain_path ss \<and> p = abs_path ss)"
  by (metis clean_segs_plain hasPrefix_CharE path_Clean_abs_path path_Clean_rooted)

lemma segs_abs_path [simp]: "plain_path ss \<Longrightarrow> segs (abs_path ss) = ss"
proof -
  assume "plain_path ss"
  then have "\<forall>s \<in> set ss. s \<noteq> [] \<and> slash \<notin> set s" by (simp add: plain_path_def plain_seg_def)
  then show ?thesis
    by (cases "ss = []") (simp_all add: segs_def abs_path_def split_abs_path)
qed

lemma abs_path_inj: "plain_path xs \<Longrightarrow> plain_path ys \<Longrightarrow> abs_path xs = abs_path ys \<longleftrightarrow> xs = ys"
  by (metis segs_abs_path)

lemma abs_path_root [simp]: "abs_path [] = ''/''"
  by (simp add: abs_path_def)

lemma abs_path_append:
  "xs \<noteq> [] \<Longrightarrow> ys \<noteq> [] \<Longrightarrow> abs_path (xs @ ys) = abs_path xs @ abs_path ys"
  by (simp add: abs_path_def join_append)

lemma plain_path_append [simp]: "plain_path (xs @ ys) \<longleftrightarrow> plain_path xs \<and> plain_path ys"
  by (auto simp: plain_path_def)

text \<open>One clean rooted path is a strict string ancestor of another, slash included, exactly when
  its segments are a strict prefix.\<close>

theorem prefix_abs_path:
  assumes xs: "plain_path xs" "xs \<noteq> []" and ys: "plain_path ys"
  shows "hasPrefix (abs_path ys) (abs_path xs @ ''/'') \<longleftrightarrow> strict_prefix xs ys"
proof
  assume "strict_prefix xs ys"
  then obtain zs where "ys = xs @ zs" "zs \<noteq> []" by (auto elim: strict_prefixE')
  with xs(2) show "hasPrefix (abs_path ys) (abs_path xs @ ''/'')"
    by (simp add: abs_path_append) (simp add: abs_path_def hasPrefix_def)
next
  assume "hasPrefix (abs_path ys) (abs_path xs @ ''/'')"
  then obtain r where r: "abs_path ys = abs_path xs @ slash # r"
    by (auto simp: hasPrefix_iff prefix_def)
  then have "ys \<noteq> []" using xs(2) by (auto simp: abs_path_def)
  have nsx: "\<forall>s \<in> set xs. slash \<notin> set s" and nsy: "\<forall>s \<in> set ys. slash \<notin> set s"
    using xs(1) ys by (auto simp: plain_path_def plain_seg_def)
  have "join ''/'' ys = join ''/'' xs @ slash # r"
    using r by (simp add: abs_path_def)
  then have "split_on slash (join ''/'' ys) = split_on slash (join ''/'' xs) @ split_on slash r"
    by (simp add: split_on_append_sep)
  with nsx nsy xs(2) \<open>ys \<noteq> []\<close> have "ys = xs @ split_on slash r"
    by (simp add: split_abs_path)
  then show "strict_prefix xs ys"
    by (metis append_Nil2 prefixI same_append_eq split_on_ne strict_prefix_def)
qed

section \<open>path.Join under a clean root\<close>

lemma clean_segs_plain_append:
  "plain_path xs \<Longrightarrow> plain_path ys \<Longrightarrow> clean_segs r (xs @ ys) = xs @ ys"
  by (simp add: clean_segs_def foldl_plain plain_path_def)

lemma clean_segs_plain_dot: "plain_path xs \<Longrightarrow> clean_segs r (xs @ [''.'']) = xs"
  by (simp add: clean_segs_def foldl_plain plain_path_def clean_step_def)

lemma path_Join_abs_path:
  assumes "plain_path rs" and "sub \<noteq> []"
  shows "path_Join [abs_path rs, sub] = abs_path (clean_segs True (rs @ split_on slash sub))"
proof -
  have "path_Join [abs_path rs, sub] = path_Clean (slash # join ''/'' rs @ slash # sub)"
    using assms(2) by (simp add: path_Join_def abs_path_def)
  also have "\<dots> = abs_path (clean_segs True (split_on slash (join ''/'' rs) @ split_on slash sub))"
    by (simp add: path_Clean_rooted split_on_append_sep)
  also have "\<dots> = abs_path (clean_segs True (rs @ split_on slash sub))"
    using assms(1) by (cases "rs = []") (simp_all add: split_abs_path plain_path_def plain_seg_def)
  finally show ?thesis .
qed

lemma path_Join_single: "plain_path rs \<Longrightarrow> path_Join [abs_path rs, []] = abs_path rs"
  by (simp add: path_Join_def path_Clean_abs_path)

text \<open>A path and plain segments below it.\<close>

lemma path_Join_plain:
  assumes "plain_path rs" and "plain_path ss" and "ss \<noteq> []"
  shows "path_Join [abs_path rs, join ''/'' ss] = abs_path (rs @ ss)"
proof -
  have "split_on slash (join ''/'' ss) = ss"
    using assms(2,3) by (simp add: split_abs_path plain_path_def plain_seg_def)
  moreover have "join ''/'' ss \<noteq> []"
    using assms(2,3) by (cases ss; cases "tl ss") (auto simp: plain_path_def plain_seg_def)
  ultimately show ?thesis
    using assms by (simp add: path_Join_abs_path clean_segs_plain_append)
qed

lemma path_Join_dot: "plain_path rs \<Longrightarrow> path_Join [abs_path rs, ''.''] = abs_path rs"
  by (simp add: path_Join_abs_path clean_segs_plain_dot)

end
