(* ===== verification/Bwrap_Validate.thy ===== *)
theory Bwrap_Validate
  imports Go_Path
begin

text \<open>
  \<open>pkg/api/filesystem.go\<close>, \<open>pkg/bwrap/layout.go\<close> and \<open>pkg/bwrap/validate.go\<close>: the untrusted
  filesystem spec, the platform's layout and policy, isolation tiers, and \<open>Policy.Validate\<close>.
  Acceptance is characterised on path segments, which is what the mounts are about.
\<close>

section \<open>Data\<close>

text \<open>\<open>pkg/api/filesystem.go\<close>\<close>

record workspace =
  ws_Path :: string
  ws_SizeLimit :: string

record mount_source =
  src_Volume :: string
  src_SubPath :: string

record mount =
  m_Path :: string
  m_Source :: mount_source
  m_ReadOnly :: bool

record filesystem_spec =
  fs_Workspace :: workspace
  fs_Mounts :: "mount list"
  fs_AllowSystemPaths :: "string list"
  fs_Hide :: "string list"

definition DefaultWorkspacePath :: string where
  "DefaultWorkspacePath = ''/workspace''"

text \<open>\<open>type Tier string\<close>: a tier is read back from Pod labels, so any string can occur.\<close>

type_synonym tier = string

definition TierFilesystem :: tier where "TierFilesystem = ''filesystem''"
definition TierUserns :: tier where "TierUserns = ''userns''"
definition TierCapAdmin :: tier where "TierCapAdmin = ''capadmin''"
definition TierChroot :: tier where "TierChroot = ''chroot''"

lemmas tier_defs = TierFilesystem_def TierUserns_def TierCapAdmin_def TierChroot_def

definition Rank :: "tier \<Rightarrow> int" where
  "Rank t = (if t = TierUserns then 3 else if t = TierCapAdmin then 2
             else if t = TierChroot then 1 else 0)"

definition AtLeast :: "tier \<Rightarrow> tier \<Rightarrow> bool" where
  "AtLeast t mn =
     (if t = TierFilesystem \<or> mn = TierFilesystem then t = mn
      else Rank t > 0 \<and> Rank mn > 0 \<and> Rank t \<ge> Rank mn)"

record layout =
  BinDir :: string
  SkelDir :: string
  WorkspaceDir :: string
  VolumeRoot :: string
  IPCDir :: string
  IPCMount :: string
  InitTarget :: string

definition DefaultLayout :: layout where
  "DefaultLayout =
     \<lparr>BinDir = ''/opt/jdix/bin'', SkelDir = ''/var/lib/jdix/skel'',
      WorkspaceDir = ''/var/lib/jdix/workspace'', VolumeRoot = ''/var/lib/jdix/vol'',
      IPCDir = ''/var/lib/jdix/ipc'', IPCMount = ''/run/jdix'', InitTarget = ''/jdix-init''\<rparr>"

definition PlatformRoot :: string where "PlatformRoot = ''/opt/jdix''"
definition StateRoot :: string where "StateRoot = ''/var/lib/jdix''"

definition DefaultSystemPaths :: "string list" where
  "DefaultSystemPaths =
     [''/usr'', ''/bin'', ''/sbin'', ''/lib'', ''/lib64'',
      ''/etc/ssl'', ''/etc/ca-certificates'', ''/etc/alternatives'']"

definition MaxMountsConst :: int where "MaxMountsConst = 32"

record policy =
  SourceFDs :: "string \<rightharpoonup> int"
  Tier :: tier
  UID :: int
  GID :: int
  Hostname :: string
  MaxMounts :: int
  SystemAllowlist :: "string list"
  Volumes :: "string \<rightharpoonup> string"
  IsDirFunc :: "(string \<Rightarrow> bool) option"

definition DefaultPolicy :: "tier \<Rightarrow> policy" where
  "DefaultPolicy t =
     \<lparr>SourceFDs = Map.empty, Tier = t, UID = 1000, GID = 1000, Hostname = ''sandbox'',
      MaxMounts = MaxMountsConst, SystemAllowlist = DefaultSystemPaths,
      Volumes = Map.empty, IsDirFunc = None\<rparr>"

section \<open>Path tests\<close>

definition isAbsClean :: "string \<Rightarrow> bool" where
  "isAbsClean p =
     (if p = [] \<or> \<not> hasPrefix p ''/'' then False
      else if CHR 0x00 \<in> set p then False
      else if \<exists>seg \<in> set (split_on slash p). seg = ''..'' \<or> seg = ''.'' then False
      else path_Clean p = p)"

definition contains :: "string \<Rightarrow> string \<Rightarrow> bool" where
  "contains parent child =
     (if parent = child then True
      else if parent = ''/'' then True
      else hasPrefix child (parent @ ''/''))"

definition overlaps :: "string \<Rightarrow> string \<Rightarrow> bool" where
  "overlaps a b \<longleftrightarrow> contains a b \<or> contains b a"

definition protectedTargets :: "layout \<Rightarrow> string list" where
  "protectedTargets l =
     [''/proc'', ''/dev'', PlatformRoot, StateRoot, IPCMount l, InitTarget l,
      ''/etc/passwd'', ''/etc/group'', ''/etc/resolv.conf'']"

definition workspacePath :: "filesystem_spec \<Rightarrow> string" where
  "workspacePath spec =
     (if ws_Path (fs_Workspace spec) = [] then DefaultWorkspacePath
      else ws_Path (fs_Workspace spec))"

definition shadowable :: "policy \<Rightarrow> filesystem_spec \<Rightarrow> string list" where
  "shadowable p spec = SystemAllowlist p @ [workspacePath spec]"

section \<open>Validation\<close>

record validation_error =
  Field :: string
  Value :: string
  Reason :: string

definition verr :: "string \<Rightarrow> string \<Rightarrow> string \<Rightarrow> validation_error" where
  "verr field val reason = \<lparr>Field = field, Value = val, Reason = reason\<rparr>"

definition msgCanonical :: string where
  "msgCanonical = ''must be an absolute, canonical path with no '' @ sq ''.'' @ '' or '' @ sq ''..'' @ '' segments''"

definition msgChroot :: string where
  "msgChroot = ''isolation tier '' @ sq ''chroot''
     @ '' has no mount namespace; spec.mounts is unsupported on this node (DESIGN.md ''
     @ [CHR 0xC2, CHR 0xA7] @ ''04.4)''"

definition sortedKeys :: "string list \<Rightarrow> string list" where
  "sortedKeys ks = sort (remdups ks)"

definition validateSubPath :: "string \<Rightarrow> string \<Rightarrow> validation_error option" where
  "validateSubPath field sub =
     (if sub = [] then None
      else seqErr (failIf (hasPrefix sub ''/'') (verr field sub ''must be relative to the volume root''))
          (seqErr (failIf (CHR 0x00 \<in> set sub) (verr field sub ''must not contain NUL''))
          (seqErr (firstErr (\<lambda>seg. failIf (seg = ''..'')
                      (verr field sub (''must not contain '' @ sq ''..'' @ '' segments'')))
                    (split_on slash sub))
                  (failIf (path_Clean sub \<noteq> sub) (verr field sub ''must be in canonical form'')))))"

definition indexed :: "string \<Rightarrow> nat \<Rightarrow> string \<Rightarrow> string" where
  "indexed a i b = a @ ''['' @ Itoa (int i) @ '']'' @ b"

text \<open>The checks on \<open>spec.mounts[i]\<close>; \<open>seen\<close> holds the targets of the earlier entries.\<close>

definition validateMount ::
    "policy \<Rightarrow> layout \<Rightarrow> string list \<Rightarrow> nat \<Rightarrow> string list \<Rightarrow> mount \<Rightarrow> validation_error option" where
  "validateMount p l sh i seen m =
     (let field = indexed ''filesystem.mounts'' i ''.path'';
          sf = indexed ''filesystem.mounts'' i ''.source'';
          vol = src_Volume (m_Source m)
      in seqErr (failIf (\<not> isAbsClean (m_Path m)) (verr field (m_Path m)
                   msgCanonical))
        (seqErr (failIf (m_Path m = ''/'') (verr field (m_Path m) ''must not be the root directory''))
        (seqErr (failIf (m_Path m \<in> set seen) (verr field (m_Path m) ''duplicate mount target''))
        (seqErr (firstErr (\<lambda>prot. failIf (overlaps (m_Path m) prot)
                   (verr field (m_Path m) (''overlaps platform path '' @ prot))) (protectedTargets l))
        (seqErr (firstErr (\<lambda>s. failIf (contains (m_Path m) s)
                   (verr field (m_Path m) (''would replace '' @ s @ ''; mount inside it instead''))) sh)
        (seqErr (failIf (vol = []) (verr (sf @ ''.volume'') []
                   ''must name a volume declared by the SandboxTemplate''))
        (seqErr (failIf (Volumes p vol = None) (verr (sf @ ''.volume'') vol
                   ''not declared by the SandboxTemplate; templates may only mount volumes they declare''))
                (validateSubPath (sf @ ''.subPath'') (src_SubPath (m_Source m))))))))))"

fun validateMounts ::
    "policy \<Rightarrow> layout \<Rightarrow> string list \<Rightarrow> nat \<Rightarrow> string list \<Rightarrow> mount list \<Rightarrow> validation_error option" where
  "validateMounts p l sh i seen [] = None"
| "validateMounts p l sh i seen (m # ms) =
     seqErr (validateMount p l sh i seen m) (validateMounts p l sh (Suc i) (m_Path m # seen) ms)"

definition validateHide ::
    "layout \<Rightarrow> string list \<Rightarrow> string \<Rightarrow> mount list \<Rightarrow> nat \<Rightarrow> string \<Rightarrow> validation_error option" where
  "validateHide l sh ws mounts i h =
     (let field = indexed ''filesystem.hide'' i ''''
      in seqErr (failIf (\<not> isAbsClean h) (verr field h ''must be an absolute, canonical path''))
        (seqErr (firstErrI (\<lambda>j m. failIf (contains h (m_Path m)) (verr field h
                   (''would hide '' @ indexed ''filesystem.mounts'' j ''.path '' @ Quote (m_Path m)))) 0 mounts)
        (seqErr (failIf (contains h ws) (verr field h (''would hide the workspace at '' @ ws)))
        (seqErr (failIf (h = ''/'') (verr field h ''must not be the root directory''))
        (seqErr (firstErr (\<lambda>prot. failIf (overlaps h prot)
                   (verr field h (''overlaps platform path '' @ prot))) (protectedTargets l))
                (firstErr (\<lambda>s. failIf (contains h s) (verr field h (''would hide all of '' @ s))) sh))))))"

definition Validate :: "policy \<Rightarrow> filesystem_spec \<Rightarrow> layout \<Rightarrow> validation_error option" where
  "Validate p spec l =
     (let ws = workspacePath spec;
          mx = (if MaxMounts p \<le> 0 then MaxMountsConst else MaxMounts p);
          n = int (length (fs_Mounts spec));
          sh = shadowable p spec
      in seqErr (failIf (Tier p = TierChroot \<and> fs_Mounts spec \<noteq> []) (verr ''filesystem.mounts'' []
                   msgChroot))
        (seqErr (failIf (\<not> isAbsClean ws) (verr ''filesystem.workspace.path'' ws
                   msgCanonical))
        (seqErr (failIf (ws = ''/'') (verr ''filesystem.workspace.path'' ws ''must not be the root directory''))
        (seqErr (firstErr (\<lambda>prot. failIf (overlaps ws prot) (verr ''filesystem.workspace.path'' ws
                   (''overlaps platform path '' @ prot))) (protectedTargets l))
        (seqErr (failIf (n > mx) (verr ''filesystem.mounts'' (Itoa n)
                   (''at most '' @ Itoa mx @ '' mounts are allowed'')))
        (seqErr (firstErr (\<lambda>sp. seqErr
                   (failIf (\<not> isAbsClean sp) (verr ''filesystem.allowSystemPaths'' sp
                      ''must be an absolute, canonical path''))
                   (failIf (sp \<notin> set (SystemAllowlist p)) (verr ''filesystem.allowSystemPaths'' sp
                      (''not in the platform allowlist ('' @ join '', '' (sortedKeys (SystemAllowlist p)) @ '')''))))
                   (fs_AllowSystemPaths spec))
        (seqErr (validateMounts p l sh 0 [] (fs_Mounts spec))
                (firstErrI (validateHide l sh ws (fs_Mounts spec)) 0 (fs_Hide spec)))))))))"

section \<open>Canonical paths as segment lists\<close>

lemma isAbsClean_iff:
  "isAbsClean p \<longleftrightarrow> CHR 0x00 \<notin> set p \<and> (\<exists>ss. plain_path ss \<and> p = abs_path ss)"
proof
  assume h: "isAbsClean p"
  then have "hasPrefix p ''/''" and "path_Clean p = p" and "CHR 0x00 \<notin> set p"
    by (auto simp: isAbsClean_def split: if_splits)
  then show "CHR 0x00 \<notin> set p \<and> (\<exists>ss. plain_path ss \<and> p = abs_path ss)"
    by (simp add: path_Clean_fixed_rooted)
next
  assume "CHR 0x00 \<notin> set p \<and> (\<exists>ss. plain_path ss \<and> p = abs_path ss)"
  then obtain ss where nul: "CHR 0x00 \<notin> set p" and ss: "plain_path ss" "p = abs_path ss" by blast
  have "\<forall>seg \<in> set (split_on slash p). seg \<noteq> ''..'' \<and> seg \<noteq> ''.''"
    using ss by (cases "ss = []")
      (auto simp: abs_path_def split_on_join plain_path_def plain_seg_def)
  moreover have "hasPrefix p ''/''" "p \<noteq> []" using ss by (auto simp: abs_path_def)
  ultimately show "isAbsClean p"
    using nul ss path_Clean_abs_path by (auto simp: isAbsClean_def)
qed

lemma isAbsCleanE:
  assumes "isAbsClean p"
  obtains "plain_path (segs p)" "p = abs_path (segs p)" "CHR 0x00 \<notin> set p"
  using assms by (auto simp: isAbsClean_iff)

lemma segs_inject: "isAbsClean a \<Longrightarrow> isAbsClean b \<Longrightarrow> segs a = segs b \<longleftrightarrow> a = b"
  by (metis isAbsCleanE)

lemma segs_root [simp]: "segs ''/'' = []"
  by (simp add: segs_def)

lemma isAbsClean_root [simp]: "isAbsClean ''/''"
  by (simp add: isAbsClean_def path_Clean_def clean_segs_def clean_step_def)

lemma segs_Nil_iff: "isAbsClean p \<Longrightarrow> segs p = [] \<longleftrightarrow> p = ''/''"
  using segs_inject [of p "''/''"] by simp

text \<open>The code's string test is the prefix order on segments.\<close>

lemma contains_segs:
  assumes a: "isAbsClean a" and b: "isAbsClean b"
  shows "contains a b \<longleftrightarrow> prefix (segs a) (segs b)"
proof (cases "segs a = []")
  case True
  with a show ?thesis by (simp add: segs_Nil_iff contains_def)
next
  case False
  with a have nr: "a \<noteq> ''/''" by auto
  from a b have pa: "plain_path (segs a)" "a = abs_path (segs a)"
    and pb: "plain_path (segs b)" "b = abs_path (segs b)" by (auto elim: isAbsCleanE)
  have "hasPrefix b (a @ ''/'') \<longleftrightarrow> strict_prefix (segs a) (segs b)"
    using prefix_abs_path [OF pa(1) False pb(1)] pa(2) pb(2) by simp
  then show ?thesis
    using nr segs_inject [OF a b] by (auto simp: contains_def strict_prefix_def)
qed

definition apart :: "'a list \<Rightarrow> 'a list \<Rightarrow> bool" where
  "apart xs ys \<longleftrightarrow> \<not> prefix xs ys \<and> \<not> prefix ys xs"

lemma overlaps_apart: "isAbsClean a \<Longrightarrow> isAbsClean b \<Longrightarrow> overlaps a b \<longleftrightarrow> \<not> apart (segs a) (segs b)"
  by (simp add: overlaps_def contains_segs apart_def)

section \<open>What an accepted sub-path is\<close>

definition subpath_ok :: "string \<Rightarrow> bool" where
  "subpath_ok sub \<longleftrightarrow> sub = [] \<or> sub = ''.''
     \<or> (CHR 0x00 \<notin> set sub \<and> (\<exists>ss. ss \<noteq> [] \<and> plain_path ss \<and> sub = join ''/'' ss))"

lemma dd_segs_plain:
  assumes "clean_stack False (rev ss)" and "''..'' \<notin> set ss"
  shows "plain_path ss"
proof -
  obtain a n where an: "rev ss = a @ replicate n ''..''" and a: "\<forall>s \<in> set a. plain_seg s"
    using assms(1) by (auto simp: clean_stack_def)
  have "n = 0" using an assms(2) by (cases n) (auto simp: rev_swap)
  with an a show ?thesis by (metis append_Nil2 plain_path_def replicate_0 set_rev)
qed

lemma validateSubPath_None: "validateSubPath f sub = None \<longleftrightarrow> subpath_ok sub"
proof (cases "sub = [] \<or> sub = ''.''")
  case True
  moreover have "path_Clean ''.'' = ''.''" by (simp add: path_Clean_def clean_segs_def clean_step_def)
  ultimately show ?thesis
    by (elim disjE) (simp_all add: validateSubPath_def subpath_ok_def)
next
  case False
  let ?ss = "clean_segs False (split_on slash sub)"
  show ?thesis
  proof
    assume "validateSubPath f sub = None"
    with False have np: "\<not> hasPrefix sub ''/''" and nul: "CHR 0x00 \<notin> set sub"
      and dd: "''..'' \<notin> set (split_on slash sub)" and cl: "path_Clean sub = sub"
      by (auto simp: validateSubPath_def)
    from cl np False have eq: "?ss \<noteq> []" "join ''/'' ?ss = sub"
      by (auto simp: path_Clean_def Let_def split: if_splits)
    have st: "clean_stack False (rev ?ss)" by (rule clean_segs_stack)
    then have "split_on slash sub = ?ss"
      using eq clean_stack_no_slash [OF st] by (metis set_rev split_abs_path)
    with dd st have "plain_path ?ss" by (metis dd_segs_plain)
    with nul eq show "subpath_ok sub" unfolding subpath_ok_def by metis
  next
    assume "subpath_ok sub"
    with False obtain ss where nul: "CHR 0x00 \<notin> set sub"
      and ss: "ss \<noteq> []" "plain_path ss" "sub = join ''/'' ss" by (auto simp: subpath_ok_def)
    have st: "clean_stack False (rev ss)"
      using ss(2) by (force simp: clean_stack_def plain_path_def intro: exI [of _ "rev ss"] exI [of _ 0])
    have sp: "split_on slash sub = ss"
      using ss by (simp add: split_abs_path plain_path_def plain_seg_def)
    have "''..'' \<notin> set ss" using ss(2) by (auto simp: plain_path_def plain_seg_def)
    moreover have "\<not> hasPrefix sub ''/''" "sub \<noteq> []"
      using join_hd_no_slash [OF st ss(1)] ss(3) by auto
    moreover from this have "path_Clean sub = sub"
      using ss sp clean_segs_fix [OF st] by (simp add: path_Clean_def)
    ultimately show "validateSubPath f sub = None"
      using nul sp by (auto simp: validateSubPath_def)
  qed
qed

text \<open>Joining an accepted sub-path to a volume root stays lexically inside the root.\<close>

theorem path_Join_subpath:
  assumes root: "isAbsClean root" and sub: "subpath_ok sub"
  shows "isAbsClean (path_Join [root, sub]) \<and> prefix (segs root) (segs (path_Join [root, sub]))"
proof -
  from root have r: "plain_path (segs root)" "root = abs_path (segs root)" "CHR 0x00 \<notin> set root"
    by (auto elim: isAbsCleanE)
  consider "sub = []" | "sub = ''.''"
    | ss where "ss \<noteq> []" "plain_path ss" "sub = join ''/'' ss" "CHR 0x00 \<notin> set sub"
    using sub by (auto simp: subpath_ok_def)
  then show ?thesis
  proof cases
    case 1
    with r root path_Join_single [OF r(1)] show ?thesis by simp
  next
    case 2
    with r root path_Join_dot [OF r(1)] show ?thesis by simp
  next
    case 3
    then have j: "path_Join [root, sub] = abs_path (segs root @ ss)"
      using path_Join_plain [OF r(1), of ss] r(2) by simp
    have "CHR 0x00 \<notin> set (abs_path (segs root @ ss))"
    proof (cases "segs root = []")
      case True
      with 3 show ?thesis by (simp add: abs_path_def)
    next
      case False
      from r have "CHR 0x00 \<notin> set (abs_path (segs root))" by simp
      moreover from 3 have "CHR 0x00 \<notin> set (abs_path ss)" by (simp add: abs_path_def)
      ultimately show ?thesis using False 3 by (simp add: abs_path_append)
    qed
    moreover have "plain_path (segs root @ ss)" using 3 r by simp
    ultimately have "isAbsClean (abs_path (segs root @ ss))" unfolding isAbsClean_iff by blast
    with j 3 r show ?thesis by simp
  qed
qed

section \<open>What an accepted spec is\<close>

text \<open>A target that shares nothing with a protected path, in either direction.\<close>

definition free_target :: "layout \<Rightarrow> string \<Rightarrow> bool" where
  "free_target l t \<longleftrightarrow> isAbsClean t \<and> segs t \<noteq> []
     \<and> (\<forall>prot \<in> set (protectedTargets l). apart (segs t) (segs prot))"

definition safe_mount :: "policy \<Rightarrow> layout \<Rightarrow> string list \<Rightarrow> mount \<Rightarrow> bool" where
  "safe_mount p l sh m \<longleftrightarrow> free_target l (m_Path m)
     \<and> (\<forall>s \<in> set sh. \<not> prefix (segs (m_Path m)) (segs s))
     \<and> src_Volume (m_Source m) \<noteq> [] \<and> Volumes p (src_Volume (m_Source m)) \<noteq> None
     \<and> subpath_ok (src_SubPath (m_Source m))"

definition safe_hide :: "layout \<Rightarrow> string list \<Rightarrow> string \<Rightarrow> mount list \<Rightarrow> string \<Rightarrow> bool" where
  "safe_hide l sh ws ms h \<longleftrightarrow> free_target l h \<and> \<not> prefix (segs h) (segs ws)
     \<and> (\<forall>m \<in> set ms. \<not> prefix (segs h) (segs (m_Path m)))
     \<and> (\<forall>s \<in> set sh. \<not> prefix (segs h) (segs s))"

definition fs_safe :: "policy \<Rightarrow> filesystem_spec \<Rightarrow> layout \<Rightarrow> bool" where
  "fs_safe p spec l \<longleftrightarrow>
     (Tier p = TierChroot \<longrightarrow> fs_Mounts spec = [])
     \<and> int (length (fs_Mounts spec)) \<le> (if MaxMounts p \<le> 0 then 32 else MaxMounts p)
     \<and> set (fs_AllowSystemPaths spec) \<subseteq> set (SystemAllowlist p)
     \<and> free_target l (workspacePath spec)
     \<and> distinct (map m_Path (fs_Mounts spec))
     \<and> (\<forall>m \<in> set (fs_Mounts spec). safe_mount p l (shadowable p spec) m)
     \<and> (\<forall>h \<in> set (fs_Hide spec).
           safe_hide l (shadowable p spec) (workspacePath spec) (fs_Mounts spec) h)"

text \<open>The platform's own paths are canonical; the defaults are.\<close>

definition platform_ok :: "policy \<Rightarrow> layout \<Rightarrow> bool" where
  "platform_ok p l \<longleftrightarrow> isAbsClean (IPCMount l) \<and> isAbsClean (InitTarget l)
     \<and> (\<forall>s \<in> set (SystemAllowlist p). isAbsClean s)"

lemma isAbsClean_consts [simp]:
  "isAbsClean ''/proc''" "isAbsClean ''/dev''" "isAbsClean ''/opt/jdix''" "isAbsClean ''/var/lib/jdix''"
  "isAbsClean ''/etc/passwd''" "isAbsClean ''/etc/group''" "isAbsClean ''/etc/resolv.conf''"
  by (simp_all add: isAbsClean_def path_Clean_def clean_segs_def clean_step_def)

lemma protected_canonical:
  "platform_ok p l \<Longrightarrow> prot \<in> set (protectedTargets l) \<Longrightarrow> isAbsClean prot"
  by (auto simp: protectedTargets_def platform_ok_def PlatformRoot_def StateRoot_def)

lemma default_platform_ok: "platform_ok (DefaultPolicy t) DefaultLayout"
  by (simp add: platform_ok_def DefaultPolicy_def DefaultLayout_def DefaultSystemPaths_def
      isAbsClean_def path_Clean_def clean_segs_def clean_step_def)

lemma free_target_iff:
  assumes "platform_ok p l"
  shows "free_target l t \<longleftrightarrow>
    isAbsClean t \<and> t \<noteq> ''/'' \<and> (\<forall>prot \<in> set (protectedTargets l). \<not> overlaps t prot)"
  unfolding free_target_def
  using protected_canonical [OF assms] by (auto simp: overlaps_apart segs_Nil_iff)

lemma validateMount_None:
  assumes "platform_ok p l" and "\<forall>s \<in> set sh. isAbsClean s"
  shows "validateMount p l sh i seen m = None \<longleftrightarrow> m_Path m \<notin> set seen \<and> safe_mount p l sh m"
proof -
  have "isAbsClean (m_Path m) \<Longrightarrow>
    (\<forall>s \<in> set sh. \<not> contains (m_Path m) s) \<longleftrightarrow> (\<forall>s \<in> set sh. \<not> prefix (segs (m_Path m)) (segs s))"
    using assms(2) by (simp add: contains_segs)
  then show ?thesis
    unfolding validateMount_def Let_def err_simps safe_mount_def free_target_iff [OF assms(1)]
      validateSubPath_None by blast
qed

lemma validateMounts_None:
  assumes "platform_ok p l" and "\<forall>s \<in> set sh. isAbsClean s"
  shows "validateMounts p l sh i seen ms = None \<longleftrightarrow>
    distinct (map m_Path ms) \<and> set (map m_Path ms) \<inter> set seen = {} \<and> (\<forall>m \<in> set ms. safe_mount p l sh m)"
  by (induction ms arbitrary: i seen) (auto simp: validateMount_None [OF assms])

lemma validateHide_None:
  assumes "platform_ok p l" and "\<forall>s \<in> set sh. isAbsClean s" and "isAbsClean ws"
    and "\<forall>m \<in> set ms. isAbsClean (m_Path m)"
  shows "validateHide l sh ws ms i h = None \<longleftrightarrow> safe_hide l sh ws ms h"
proof (cases "isAbsClean h")
  case True
  then have "firstErrI (\<lambda>j m. failIf (contains h (m_Path m)) (e j m)) 0 ms = None \<longleftrightarrow>
      (\<forall>m \<in> set ms. \<not> prefix (segs h) (segs (m_Path m)))" for e :: "nat \<Rightarrow> mount \<Rightarrow> validation_error"
    using assms(4) by (subst firstErrI_None_set [where P = "\<lambda>m. \<not> contains h (m_Path m)"])
      (auto simp: contains_segs)
  moreover from True have "contains h ws \<longleftrightarrow> prefix (segs h) (segs ws)"
    and "\<forall>s \<in> set sh. contains h s \<longleftrightarrow> prefix (segs h) (segs s)"
    using assms by (auto simp: contains_segs)
  ultimately show ?thesis
    using True unfolding validateHide_def Let_def seqErr_None failIf_None firstErr_None
      safe_hide_def free_target_iff [OF assms(1)] by auto
next
  case False
  then show ?thesis unfolding validateHide_def Let_def seqErr_None failIf_None
    by (simp add: safe_hide_def free_target_def)
qed

lemma Validate_None_iff:
  assumes pl: "platform_ok p l"
  shows "Validate p spec l = None \<longleftrightarrow> fs_safe p spec l"
proof (cases "free_target l (workspacePath spec)")
  case False
  then show ?thesis
    unfolding Validate_def Let_def seqErr_None failIf_None firstErr_None fs_safe_def
      free_target_iff [OF pl] by blast
next
  case True
  then have ws: "isAbsClean (workspacePath spec)" by (simp add: free_target_def)
  have sh: "\<forall>s \<in> set (shadowable p spec). isAbsClean s"
    using pl ws by (auto simp: shadowable_def platform_ok_def)
  note ms = validateMounts_None [OF pl sh, of 0 "[]" "fs_Mounts spec"]
  have hide: "firstErrI (validateHide l (shadowable p spec) (workspacePath spec) (fs_Mounts spec)) 0 (fs_Hide spec) = None
      \<longleftrightarrow> (\<forall>h \<in> set (fs_Hide spec). safe_hide l (shadowable p spec) (workspacePath spec) (fs_Mounts spec) h)"
    if "\<forall>m \<in> set (fs_Mounts spec). safe_mount p l (shadowable p spec) m"
    using that validateHide_None [OF pl sh ws]
    by (subst firstErrI_None_set) (auto simp: safe_mount_def free_target_def)
  from True have "\<forall>prot \<in> set (protectedTargets l). \<not> overlaps (workspacePath spec) prot"
    and "workspacePath spec \<noteq> ''/''" by (simp_all add: free_target_iff [OF pl])
  moreover have "(\<forall>s \<in> set (fs_AllowSystemPaths spec). isAbsClean s \<and> s \<in> set (SystemAllowlist p))
      \<longleftrightarrow> set (fs_AllowSystemPaths spec) \<subseteq> set (SystemAllowlist p)"
    using pl by (auto simp: platform_ok_def)
  ultimately show ?thesis
    using True ws ms hide
    unfolding Validate_def Let_def seqErr_None failIf_None firstErr_None fs_safe_def
      MaxMountsConst_def not_less by auto
qed

lemma Rank_pos: "Rank t > 0 \<longleftrightarrow> t \<in> {TierUserns, TierCapAdmin, TierChroot}"
  by (auto simp: Rank_def)

lemma Rank_inj: "Rank a = Rank b \<Longrightarrow> Rank b > 0 \<Longrightarrow> a = b"
  by (auto simp: Rank_def split: if_splits)

section \<open>A worked spec\<close>

text \<open>A parent and a child mount, declared child first, with one hidden directory.\<close>

definition demoPolicy :: policy where
  "demoPolicy = (DefaultPolicy TierUserns)\<lparr>Volumes := [''data'' \<mapsto> ''/var/lib/jdix/vol/data'']\<rparr>"

definition demoMount :: "string \<Rightarrow> string \<Rightarrow> mount" where
  "demoMount t sub = \<lparr>m_Path = t, m_Source = \<lparr>src_Volume = ''data'', src_SubPath = sub\<rparr>, m_ReadOnly = False\<rparr>"

definition demoSpec :: "mount list \<Rightarrow> filesystem_spec" where
  "demoSpec ms = \<lparr>fs_Workspace = \<lparr>ws_Path = [], ws_SizeLimit = []\<rparr>, fs_Mounts = ms,
     fs_AllowSystemPaths = [], fs_Hide = [''/opt/secrets'']\<rparr>"

definition demoMounts :: "mount list" where
  "demoMounts = [demoMount ''/data/a'' ''x/y'', demoMount ''/data'' []]"

lemmas demo_defs = demoPolicy_def demoMount_def demoSpec_def demoMounts_def

lemma demo_platform_ok: "platform_ok demoPolicy DefaultLayout"
  using default_platform_ok [of TierUserns] by (simp add: demoPolicy_def platform_ok_def)

lemma demo_valid: "Validate demoPolicy (demoSpec demoMounts) DefaultLayout = None"
  by code_simp

section \<open>Properties\<close>

text \<open>C1: \<open>Policy.Validate\<close> accepts exactly the safe specs. For a platform whose own paths are
  canonical, a spec is accepted if and only if it declares at most the allowed number of mounts
  (none in the chroot tier), asks only for allow-listed system paths, and its workspace, every
  mount target and every hidden path is canonical, not the root and in neither direction nested
  with a protected path; mount targets are distinct and replace neither a system path nor the
  workspace; sources name declared volumes with a sub-path that does not climb; and no hidden
  path covers a mount, the workspace or a system path.\<close>

theorem Validate_accepts_exactly_safe_specs:
  assumes "platform_ok p l"
  shows "Validate p spec l = None \<longleftrightarrow> fs_safe p spec l"
  using assms by (rule Validate_None_iff)

theorem Validate_accepts_exactly_safe_specs_witness:
  "fs_safe demoPolicy (demoSpec demoMounts) DefaultLayout
   \<and> \<not> fs_safe demoPolicy (demoSpec [demoMount ''/var/lib'' []]) DefaultLayout"
proof -
  have "Validate demoPolicy (demoSpec [demoMount ''/var/lib'' []]) DefaultLayout \<noteq> None"
    by code_simp
  then show ?thesis
    using Validate_accepts_exactly_safe_specs [OF demo_platform_ok] demo_valid by simp
qed

text \<open>The order of isolation tiers. \<open>AtLeast\<close> is a partial order on the four tiers; the
  filesystem-only tier is comparable to itself alone, and a string that is no tier neither
  satisfies nor is satisfied by anything.\<close>

lemma AtLeast_partial_order:
  "(AtLeast t t \<longleftrightarrow> t \<in> {TierFilesystem, TierUserns, TierCapAdmin, TierChroot})
   \<and> (AtLeast a b \<longrightarrow> AtLeast b c \<longrightarrow> AtLeast a c)
   \<and> (AtLeast a b \<longrightarrow> AtLeast b a \<longrightarrow> a = b)
   \<and> (AtLeast TierFilesystem a \<longleftrightarrow> a = TierFilesystem) \<and> (AtLeast a TierFilesystem \<longleftrightarrow> a = TierFilesystem)"
  using Rank_inj [of a b] Rank_pos [of t] unfolding AtLeast_def by auto

end
