(* ===== verification/K8s_Types.thy ===== *)
theory K8s_Types
  imports Bwrap_Validate
begin

text \<open>
  The custom resources of \<open>pkg/apis/sandbox/v1alpha1\<close> with the parts of the Kubernetes core types
  the controllers read and write, and the API server itself as a record of operations on a state of
  arbitrary type: reads may come from a lagging cache, and every write may fail. Maps of labels and
  annotations are partial functions; a missing key reads as the empty string.
\<close>

section \<open>Object metadata and labels\<close>

type_synonym labels = "string \<rightharpoonup> string"

definition lbl :: "labels \<Rightarrow> string \<Rightarrow> string" where
  "lbl ls k = (case ls k of Some v \<Rightarrow> v | None \<Rightarrow> [])"

definition LabelPool :: string where "LabelPool = ''sandbox.jdix.io/pool''"
definition LabelTemplate :: string where "LabelTemplate = ''sandbox.jdix.io/template''"
definition LabelTemplateHash :: string where "LabelTemplateHash = ''sandbox.jdix.io/template-hash''"
definition LabelIsolationTier :: string where "LabelIsolationTier = ''sandbox.jdix.io/isolation-tier''"
definition LabelState :: string where "LabelState = ''sandbox.jdix.io/state''"
definition LabelSandboxID :: string where "LabelSandboxID = ''sandbox.jdix.io/sandbox-id''"
definition LabelTenant :: string where "LabelTenant = ''sandbox.jdix.io/tenant''"
definition LabelManagedBy :: string where "LabelManagedBy = ''app.kubernetes.io/managed-by''"
definition AnnotationTierProbe :: string where "AnnotationTierProbe = ''sandbox.jdix.io/tier-probe''"
definition StateIdle :: string where "StateIdle = ''idle''"
definition StateBound :: string where "StateBound = ''bound''"
definition StateDraining :: string where "StateDraining = ''draining''"
definition ManagedBy :: string where "ManagedBy = ''jdix-controller''"
definition FinalizerSandbox :: string where "FinalizerSandbox = ''sandbox.jdix.io/cleanup''"

lemmas label_defs = LabelPool_def LabelTemplate_def LabelTemplateHash_def LabelIsolationTier_def LabelState_def
  LabelSandboxID_def LabelTenant_def LabelManagedBy_def

lemma labels_distinct [simp]:
  "LabelState \<noteq> LabelSandboxID" "LabelState \<noteq> LabelTenant" "LabelState \<noteq> LabelPool" "LabelState \<noteq> LabelTemplate"
  "LabelState \<noteq> LabelTemplateHash" "LabelState \<noteq> LabelManagedBy" "LabelState \<noteq> LabelIsolationTier"
  "LabelSandboxID \<noteq> LabelState" "LabelSandboxID \<noteq> LabelTenant" "LabelSandboxID \<noteq> LabelPool"
  "LabelSandboxID \<noteq> LabelTemplate" "LabelSandboxID \<noteq> LabelTemplateHash" "LabelSandboxID \<noteq> LabelManagedBy"
  "LabelTenant \<noteq> LabelState" "LabelTenant \<noteq> LabelSandboxID" "LabelPool \<noteq> LabelState" "LabelPool \<noteq> LabelSandboxID"
  "LabelPool \<noteq> LabelTenant" "LabelTemplateHash \<noteq> LabelState" "LabelIsolationTier \<noteq> LabelState"
  "LabelIsolationTier \<noteq> LabelSandboxID" "LabelSandboxID \<noteq> LabelIsolationTier"
  by (simp_all add: label_defs)

lemma states_distinct [simp]:
  "StateIdle \<noteq> StateBound" "StateBound \<noteq> StateIdle" "StateBound \<noteq> StateDraining" "StateIdle \<noteq> StateDraining"
  by (simp_all add: StateIdle_def StateBound_def StateDraining_def)

record meta =
  o_Name :: string
  o_GenerateName :: string
  o_Namespace :: string
  o_Labels :: labels
  o_Annotations :: labels
  o_Finalizers :: "string list"
  o_Owner :: "string option"
  o_Version :: nat
  o_Created :: int
  o_Deleting :: bool

section \<open>Pods\<close>

record env_var =
  ev_Name :: string
  ev_Value :: string

record volume_mount =
  vm_Name :: string
  vm_MountPath :: string
  vm_ReadOnly :: bool

text \<open>\<open>emptyDir\<close> with its size limit, or a claim.\<close>

datatype volume_source = EmptyDir "string option" | Claim string bool

record volume =
  v_Name :: string
  v_Source :: volume_source

datatype seccomp_profile = RuntimeDefault | Unconfined | Localhost string

datatype proc_mount = UnmaskedProcMount | DefaultProcMount

record sec_context =
  sc_AllowPrivilegeEscalation :: "bool option"
  sc_Drop :: "string list"
  sc_ProcMount :: "proc_mount option"

record container =
  c_Name :: string
  c_Image :: string
  c_PullPolicy :: string
  c_Command :: "string list"
  c_Args :: "string list"
  c_Env :: "env_var list"
  c_Ports :: "(string \<times> int) list"
  c_Resources :: string
  c_VolumeMounts :: "volume_mount list"
  c_SecurityContext :: sec_context
  c_ReadinessProbe :: "(string \<times> int \<times> int \<times> int \<times> int) option"

record pod_security_context =
  psc_RunAsNonRoot :: "bool option"
  psc_RunAsUser :: "int option"
  psc_RunAsGroup :: "int option"
  psc_FSGroup :: "int option"
  psc_Seccomp :: "seccomp_profile option"

record pod_spec =
  ps_RestartPolicy :: string
  ps_AutomountServiceAccountToken :: "bool option"
  ps_RuntimeClassName :: "string option"
  ps_TerminationGracePeriodSeconds :: "int option"
  ps_SecurityContext :: pod_security_context
  ps_InitContainers :: "container list"
  ps_Containers :: "container list"
  ps_Volumes :: "volume list"
  ps_HostUsers :: "bool option"
  ps_HostNetwork :: bool
  ps_HostPID :: bool
  ps_ImagePullSecrets :: "string list"
  ps_NodeName :: string
  ps_NodeSelector :: "labels option"
  ps_Tolerations :: "string list option"
  ps_Affinity :: "string option"
  ps_PriorityClassName :: string
  ps_SchedulerName :: string

text \<open>The pod phase is a string; of a condition its type and status are read.\<close>

record pod =
  pod_Meta :: meta
  pod_Spec :: pod_spec
  pod_Phase :: string
  pod_PodIP :: string
  pod_Reason :: string
  pod_Conditions :: "(string \<times> string) list"

section \<open>The custom resources\<close>

record sandbox_spec =
  ss_TemplateRef :: string
  ss_TTLSeconds :: int
  ss_Filesystem :: filesystem_spec
  ss_Env :: "env_var list"
  ss_SecretRefs :: "string list"
  ss_Metadata :: "(string \<times> string) list"

definition PhasePending :: string where "PhasePending = ''Pending''"
definition PhaseBinding :: string where "PhaseBinding = ''Binding''"
definition PhaseRunning :: string where "PhaseRunning = ''Running''"
definition PhaseExpired :: string where "PhaseExpired = ''Expired''"
definition PhaseFailed :: string where "PhaseFailed = ''Failed''"

lemmas phase_defs = PhasePending_def PhaseBinding_def PhaseRunning_def PhaseExpired_def PhaseFailed_def

lemma phases_distinct [simp]:
  "PhaseFailed \<noteq> PhaseRunning" "PhaseFailed \<noteq> PhaseBinding" "PhaseExpired \<noteq> PhaseRunning" "PhaseRunning \<noteq> PhaseFailed"
  "PhaseBinding \<noteq> PhaseRunning" "PhaseRunning \<noteq> PhaseBinding" "PhaseExpired \<noteq> PhaseFailed" "PhaseFailed \<noteq> PhaseExpired"
  "PhaseRunning \<noteq> PhaseExpired" "PhasePending \<noteq> PhaseBinding" "PhaseBinding \<noteq> PhasePending" "PhaseFailed \<noteq> []"
  "PhaseFailed \<noteq> PhasePending" "PhaseRunning \<noteq> PhasePending" "PhaseRunning \<noteq> []" "PhaseBinding \<noteq> []"
  "PhaseBinding \<noteq> PhaseFailed" "PhaseBinding \<noteq> PhaseExpired" "PhaseExpired \<noteq> PhaseBinding" "PhaseExpired \<noteq> []"
  "PhaseExpired \<noteq> PhasePending"
  by (simp_all add: phase_defs)

record sandbox_status =
  st_Phase :: string
  st_PodName :: string
  st_PodIP :: string
  st_NodeName :: string
  st_IsolationTier :: tier
  st_ColdStart :: bool
  st_Endpoint :: string
  st_Token :: string
  st_BoundAt :: "int option"
  st_ExpiresAt :: "int option"
  st_Reason :: string
  st_Ready :: bool

record sandbox =
  sbx_Meta :: meta
  sbx_Spec :: sandbox_spec
  sbx_Status :: sandbox_status

record image_spec =
  im_Ref :: string
  im_Resolve :: "bool option"
  im_PullPolicy :: string
  im_PullSecretRef :: "string option"

definition ShouldResolve :: "image_spec \<Rightarrow> bool" where
  "ShouldResolve i \<longleftrightarrow> im_Resolve i = None \<or> im_Resolve i = Some True"

record template_volume =
  tv_Name :: string
  tv_ClaimName :: string
  tv_MountPath :: string
  tv_ReadOnly :: bool

record filesystem_defaults =
  fd_Workspace :: workspace
  fd_AllowSystemPaths :: "string list"

record template_spec =
  ts_MinIsolationTier :: tier
  ts_FilesystemIsolation :: string
  ts_PodUserNamespace :: "bool option"
  ts_RuntimeClassName :: string
  ts_DefaultTTLSeconds :: int
  ts_MaxTTLSeconds :: int
  ts_Image :: image_spec
  ts_FilesystemDefaults :: filesystem_defaults
  ts_Volumes :: "template_volume list"
  ts_Resources :: string
  ts_PodOverrides :: "pod_spec option"

definition RequiredIsolation :: "template_spec \<Rightarrow> tier" where
  "RequiredIsolation s =
     (if ts_FilesystemIsolation s = ''bwrap'' then TierFilesystem
      else if ts_MinIsolationTier s = [] then TierUserns else ts_MinIsolationTier s)"

definition AdmissionPending :: string where "AdmissionPending = ''Pending''"
definition AdmissionPendingReview :: string where "AdmissionPendingReview = ''PendingReview''"
definition AdmissionApproved :: string where "AdmissionApproved = ''Approved''"
definition AdmissionRejected :: string where "AdmissionRejected = ''Rejected''"

lemma admissions_distinct [simp]:
  "AdmissionApproved \<noteq> AdmissionRejected" "AdmissionRejected \<noteq> AdmissionApproved" "AdmissionPending \<noteq> AdmissionRejected"
  "AdmissionPendingReview \<noteq> AdmissionRejected" "AdmissionPending \<noteq> AdmissionApproved"
  "AdmissionPendingReview \<noteq> AdmissionApproved" "AdmissionRejected \<noteq> AdmissionPending" "AdmissionApproved \<noteq> AdmissionPending"
  "AdmissionRejected \<noteq> AdmissionPendingReview"
  by (simp_all add: AdmissionPending_def AdmissionPendingReview_def AdmissionApproved_def AdmissionRejected_def)

record template_status =
  tt_Hash :: string
  tt_Admission :: string
  tt_AdmissionReason :: string
  tt_ResolvedDigest :: string
  tt_ResolvedRef :: string
  tt_ResolvedAt :: "int option"
  tt_ImageBytes :: int
  tt_ImagePinned :: bool
  tt_HasVolumes :: bool

record tmpl =
  tp_Meta :: meta
  tp_Spec :: template_spec
  tp_Status :: template_status

record pool_spec =
  pl_TemplateRef :: string
  pl_Replicas :: int
  pl_MinReplicas :: int
  pl_MaxReplicas :: int
  pl_NotReadyTimeoutSeconds :: int
  pl_IdleTTLSeconds :: int
  pl_MaxSurge :: int

record pool_status =
  pt_IdleByTier :: "string \<rightharpoonup> int"
  pt_Idle :: int
  pt_Bound :: int
  pt_Stale :: int
  pt_NotReady :: int
  pt_TemplateHash :: string

record pool =
  po_Meta :: meta
  po_Spec :: pool_spec
  po_Status :: pool_status

section \<open>The API server\<close>

datatype kerr = NotFound | Conflict | KErr string

type_synonym key = "string \<times> string"

record 'k kube =
  kc_GetSandbox :: "key \<Rightarrow> 'k \<Rightarrow> (kerr, sandbox) result"
  kc_ListSandboxes :: "string \<Rightarrow> (string \<times> string) list \<Rightarrow> 'k \<Rightarrow> (kerr, sandbox list) result"
  kc_CreateSandbox :: "sandbox \<Rightarrow> 'k \<Rightarrow> kerr option \<times> 'k"
  kc_DeleteSandbox :: "key \<Rightarrow> 'k \<Rightarrow> kerr option \<times> 'k"
  kc_UpdateSandbox :: "sandbox \<Rightarrow> 'k \<Rightarrow> (kerr, sandbox) result \<times> 'k"
  kc_UpdateSandboxStatus :: "sandbox \<Rightarrow> 'k \<Rightarrow> kerr option \<times> 'k"
  kc_GetTemplate :: "key \<Rightarrow> 'k \<Rightarrow> (kerr, tmpl) result"
  kc_ListTemplates :: "string \<Rightarrow> 'k \<Rightarrow> (kerr, tmpl list) result"
  kc_UpdateTemplateStatus :: "tmpl \<Rightarrow> 'k \<Rightarrow> kerr option \<times> 'k"
  kc_GetPool :: "key \<Rightarrow> 'k \<Rightarrow> (kerr, pool) result"
  kc_CreatePool :: "pool \<Rightarrow> 'k \<Rightarrow> kerr option \<times> 'k"
  kc_UpdatePool :: "pool \<Rightarrow> 'k \<Rightarrow> kerr option \<times> 'k"
  kc_UpdatePoolStatus :: "pool \<Rightarrow> 'k \<Rightarrow> kerr option \<times> 'k"
  kc_GetPod :: "key \<Rightarrow> 'k \<Rightarrow> (kerr, pod) result"
  kc_ListPods :: "string \<Rightarrow> (string \<times> string) list \<Rightarrow> 'k \<Rightarrow> (kerr, pod list) result"
  kc_CreatePod :: "pod \<Rightarrow> 'k \<Rightarrow> (kerr, pod) result \<times> 'k"
  kc_UpdatePod :: "pod \<Rightarrow> 'k \<Rightarrow> kerr option \<times> 'k"
  kc_DeletePod :: "pod \<Rightarrow> 'k \<Rightarrow> kerr option \<times> 'k"
  kc_GetPVC :: "key \<Rightarrow> 'k \<Rightarrow> (kerr, string list) result"

text \<open>\<open>client.IgnoreNotFound\<close>, \<open>MatchingLabels\<close> on a selector whose values are given.\<close>

definition IgnoreNotFound :: "kerr option \<Rightarrow> kerr option" where
  "IgnoreNotFound e = (if e = Some NotFound then None else e)"

definition matchLabels :: "(string \<times> string) list \<Rightarrow> labels \<Rightarrow> bool" where
  "matchLabels sel ls \<longleftrightarrow> (\<forall>(k, v) \<in> set sel. ls k = Some v)"

section \<open>Outcome of a reconcile\<close>

text \<open>\<open>ctrl.Result\<close> (requeue after so many nanoseconds) or an error.\<close>

datatype outcome = Requeue int | Done | Failed kerr

definition conflictRetry :: int where "conflictRetry = 50 * 1000000"

definition requeueOnConflict :: "kerr option \<Rightarrow> outcome" where
  "requeueOnConflict e =
     (case e of None \<Rightarrow> Done | Some err \<Rightarrow> if err = Conflict then Requeue conflictRetry else Failed err)"

definition podReady :: "pod \<Rightarrow> bool" where
  "podReady p =
     (if pod_Phase p \<noteq> ''Running'' then False
      else case List.find (\<lambda>(t, s). t = ''Ready'') (pod_Conditions p) of
             Some (t, s) \<Rightarrow> s = ''True''
           | None \<Rightarrow> False)"

end
