(* ===== verification/Pod_Spec.thy ===== *)
theory Pod_Spec
  imports K8s_Types
begin

text \<open>
  \<open>pkg/controller/podspec.go\<close> and the reference handling of \<open>imageresolver.go\<close> and
  \<open>template_controller.go\<close>: image references and digests, the rendered Pod, its template hash, and
  what a template's overrides can change. The fingerprint of a Pod spec (JSON, SHA-256, twelve hex
  digits) and \<open>resource.ParseQuantity\<close> are parameters.
\<close>

section \<open>Image references\<close>

fun indexOf :: "string \<Rightarrow> string \<Rightarrow> nat option" where
  "indexOf sub [] = (if sub = [] then Some 0 else None)"
| "indexOf sub (c # cs) = (if hasPrefix (c # cs) sub then Some 0 else map_option Suc (indexOf sub cs))"

definition digestOf :: "string \<Rightarrow> string" where
  "digestOf ref =
     (case indexOf ''@sha256:'' ref of
        None \<Rightarrow> []
      | Some i \<Rightarrow> let d = drop (i + 1) ref in if length d \<noteq> 7 + 64 then [] else d)"

definition registryOf :: "string \<Rightarrow> string" where
  "registryOf ref0 =
     (let ref = takeWhile (\<lambda>c. c \<noteq> CHR ''@'') ref0
      in case cut slash ref of
           (first, rest, ok) \<Rightarrow>
             if \<not> ok then ''docker.io''
             else if \<not> (CHR ''.'' \<in> set first \<or> CHR '':'' \<in> set first) \<and> first \<noteq> ''localhost'' then ''docker.io''
             else first)"

definition splitRef :: "string \<Rightarrow> string \<times> string" where
  "splitRef ref =
     (case indexOf ''@sha256:'' ref of
        None \<Rightarrow> (ref, [])
      | Some i \<Rightarrow> let d = drop (i + 1) ref in if length d = 7 + 64 then (take i ref, d) else (ref, []))"

text \<open>\<open>strings.LastIndex\<close> answers -1 when there is none.\<close>

definition lastIndex :: "char \<Rightarrow> string \<Rightarrow> int" where
  "lastIndex c s = (case last_index c 0 s of Some i \<Rightarrow> int i | None \<Rightarrow> - 1)"

definition pinned :: "string \<Rightarrow> string \<Rightarrow> string" where
  "pinned ref digest =
     (case splitRef ref of
        (repo, existing) \<Rightarrow>
          if existing \<noteq> [] then ref
          else let i = lastIndex (CHR '':'') repo;
                   repo' = (if i > lastIndex slash repo then take (nat i) repo else repo)
               in repo' @ ''@'' @ digest)"

definition registryKey :: "string \<Rightarrow> string \<Rightarrow> string" where
  "registryKey defaultRegistry host0 =
     (let h1 = trimSuffix (trimPrefix (trimPrefix host0 ''https://'') ''http://'') ''/'';
          h2 = takeWhile (\<lambda>c. c \<noteq> slash) h1
      in if h2 = ''index.docker.io'' \<or> h2 = ''docker.io'' \<or> h2 = ''registry-1.docker.io''
         then defaultRegistry else h2)"

section \<open>The Pod\<close>

record platform_image =
  pi_Ref :: string
  pi_PullPolicy :: string

definition PortData :: int where "PortData = 8080"
definition PortControl :: int where "PortControl = 8081"
definition ControlTokenEnv :: string where "ControlTokenEnv = ''JDIX_CONTROL_TOKEN''"
definition installStagingPath :: string where "installStagingPath = ''/mnt/jdix''"

definition volumeMountPath :: "layout \<Rightarrow> template_volume \<Rightarrow> string" where
  "volumeMountPath l v = (if tv_MountPath v \<noteq> [] then tv_MountPath v else path_Join [VolumeRoot l, tv_Name v])"

definition VolumeArgs :: "layout \<Rightarrow> tmpl \<Rightarrow> string" where
  "VolumeArgs l t = join '','' (map (\<lambda>v. tv_Name v @ ''='' @ volumeMountPath l v) (ts_Volumes (tp_Spec t)))"

definition ImageRef :: "tmpl \<Rightarrow> string" where
  "ImageRef t =
     (let d = tt_ResolvedDigest (tp_Status t); ref = im_Ref (ts_Image (tp_Spec t))
      in if d \<noteq> [] then pinned ref d else ref)"

definition pullPolicyFor :: "tmpl \<Rightarrow> string" where
  "pullPolicyFor t =
     (let p = im_PullPolicy (ts_Image (tp_Spec t)) in if p \<noteq> [] then p else ''IfNotPresent'')"

definition procMountFor :: "bool \<Rightarrow> proc_mount option" where
  "procMountFor wantsUserns = (if \<not> wantsUserns then None else Some UnmaskedProcMount)"

definition installerMounts :: "layout \<Rightarrow> volume_mount list" where
  "installerMounts l =
     [\<lparr>vm_Name = ''jdix-bin'', vm_MountPath = installStagingPath, vm_ReadOnly = False\<rparr>,
      \<lparr>vm_Name = ''jdix-state'', vm_MountPath = StateRoot, vm_ReadOnly = False\<rparr>]"

definition platformMounts :: "layout \<Rightarrow> volume_mount list" where
  "platformMounts l =
     [\<lparr>vm_Name = ''jdix-bin'', vm_MountPath = PlatformRoot, vm_ReadOnly = False\<rparr>,
      \<lparr>vm_Name = ''jdix-state'', vm_MountPath = StateRoot, vm_ReadOnly = False\<rparr>]"

definition templateVolumeMounts :: "layout \<Rightarrow> tmpl \<Rightarrow> volume_mount list" where
  "templateVolumeMounts l t =
     map (\<lambda>v. \<lparr>vm_Name = ''vol-'' @ tv_Name v, vm_MountPath = volumeMountPath l v, vm_ReadOnly = tv_ReadOnly v\<rparr>)
       (ts_Volumes (tp_Spec t))"

definition podVolumes :: "(string \<Rightarrow> string option) \<Rightarrow> layout \<Rightarrow> tmpl \<Rightarrow> volume list" where
  "podVolumes parseQ l t =
     (let sl = ws_SizeLimit (fd_Workspace (ts_FilesystemDefaults (tp_Spec t)));
          limit = parseQ (if sl = [] then ''2Gi'' else sl)
      in [\<lparr>v_Name = ''jdix-bin'', v_Source = EmptyDir None\<rparr>, \<lparr>v_Name = ''jdix-state'', v_Source = EmptyDir limit\<rparr>]
         @ map (\<lambda>v. \<lparr>v_Name = ''vol-'' @ tv_Name v, v_Source = Claim (tv_ClaimName v) (tv_ReadOnly v)\<rparr>)
             (ts_Volumes (tp_Spec t)))"

definition mergeOverrides :: "pod_spec \<Rightarrow> pod_spec \<Rightarrow> pod_spec" where
  "mergeOverrides spec ov =
     (let s1 = (if ps_NodeSelector ov \<noteq> None then spec\<lparr>ps_NodeSelector := ps_NodeSelector ov\<rparr> else spec);
          s2 = (if ps_Tolerations ov \<noteq> None then s1\<lparr>ps_Tolerations := ps_Tolerations ov\<rparr> else s1);
          s3 = (if ps_Affinity ov \<noteq> None then s2\<lparr>ps_Affinity := ps_Affinity ov\<rparr> else s2);
          s4 = (if ps_PriorityClassName ov \<noteq> [] then s3\<lparr>ps_PriorityClassName := ps_PriorityClassName ov\<rparr> else s3)
      in if ps_SchedulerName ov \<noteq> [] then s4\<lparr>ps_SchedulerName := ps_SchedulerName ov\<rparr> else s4)"

definition lockedDown :: "proc_mount option \<Rightarrow> sec_context" where
  "lockedDown pm = \<lparr>sc_AllowPrivilegeEscalation = Some False, sc_Drop = [''ALL''], sc_ProcMount = pm\<rparr>"

definition installerContainer :: "platform_image \<Rightarrow> layout \<Rightarrow> container" where
  "installerContainer platform l =
     \<lparr>c_Name = ''jdix-installer'', c_Image = pi_Ref platform, c_PullPolicy = pi_PullPolicy platform,
      c_Command = [''/bin/sh'', ''-c''],
      c_Args = [''set -e; cp -a '' @ PlatformRoot @ ''/* '' @ installStagingPath @ ''/; mkdir -p '' @ WorkspaceDir l
        @ '' '' @ VolumeRoot l @ '' '' @ IPCDir l @ ''; chmod 700 '' @ IPCDir l @ ''; test -x ''
        @ installStagingPath @ ''/bin/jdix-execd''],
      c_Env = [], c_Ports = [], c_Resources = [], c_VolumeMounts = installerMounts l,
      c_SecurityContext = lockedDown None, c_ReadinessProbe = None\<rparr>"

definition sandboxContainer :: "layout \<Rightarrow> tmpl \<Rightarrow> string \<Rightarrow> bool \<Rightarrow> bool \<Rightarrow> container" where
  "sandboxContainer l t token wantsUserns filesystemMode =
     \<lparr>c_Name = ''sandbox'', c_Image = ImageRef t, c_PullPolicy = pullPolicyFor t,
      c_Command = [path_Join [PlatformRoot, ''bin'', ''jdix-execd'']],
      c_Args = [''--data-addr=:'' @ Itoa PortData, ''--control-addr=:'' @ Itoa PortControl,
        ''--bwrap='' @ path_Join [PlatformRoot, ''bin'', ''bwrap''], ''--volumes='' @ VolumeArgs l t]
        @ (if filesystemMode then [''--filesystem-isolation=bwrap''] else []),
      c_Env = [\<lparr>ev_Name = ControlTokenEnv, ev_Value = token\<rparr>],
      c_Ports = [(''data'', PortData), (''control'', PortControl)], c_Resources = ts_Resources (tp_Spec t),
      c_VolumeMounts = platformMounts l @ templateVolumeMounts l t,
      c_SecurityContext = lockedDown (procMountFor wantsUserns),
      c_ReadinessProbe = Some (''/internal/v1/probe'', PortControl, 1, 2, 30)\<rparr>"

definition buildPodSpec ::
    "(string \<Rightarrow> string option) \<Rightarrow> tmpl \<Rightarrow> platform_image \<Rightarrow> layout \<Rightarrow> string \<Rightarrow> pod_spec" where
  "buildPodSpec parseQ t platform l token =
     (let s = tp_Spec t;
          filesystemMode = (ts_FilesystemIsolation s = ''bwrap'');
          wantsUserns = (\<not> filesystemMode \<and> RequiredIsolation s = TierUserns);
          seccomp = (if filesystemMode then Localhost ''jdix/bwrap-setup.json''
                     else if wantsUserns then Unconfined else RuntimeDefault);
          hostUsers = (if filesystemMode
                       then (case ts_PodUserNamespace s of None \<Rightarrow> Some True | Some b \<Rightarrow> Some (\<not> b))
                       else if wantsUserns then Some False else None);
          spec = \<lparr>ps_RestartPolicy = ''Never'', ps_AutomountServiceAccountToken = Some False,
             ps_RuntimeClassName = (if ts_RuntimeClassName s = [] then None else Some (ts_RuntimeClassName s)),
             ps_TerminationGracePeriodSeconds = Some 10,
             ps_SecurityContext = \<lparr>psc_RunAsNonRoot = Some True, psc_RunAsUser = Some 1000, psc_RunAsGroup = Some 1000,
                psc_FSGroup = Some 1000, psc_Seccomp = Some seccomp\<rparr>,
             ps_InitContainers = [installerContainer platform l],
             ps_Containers = [sandboxContainer l t token wantsUserns filesystemMode],
             ps_Volumes = podVolumes parseQ l t, ps_HostUsers = hostUsers, ps_HostNetwork = False, ps_HostPID = False,
             ps_ImagePullSecrets = (case im_PullSecretRef (ts_Image s) of None \<Rightarrow> [] | Some n \<Rightarrow> [n]),
             ps_NodeName = [], ps_NodeSelector = None, ps_Tolerations = None, ps_Affinity = None,
             ps_PriorityClassName = [], ps_SchedulerName = []\<rparr>
      in case ts_PodOverrides s of None \<Rightarrow> spec | Some ov \<Rightarrow> mergeOverrides spec ov)"

text \<open>What the fingerprint and the quantity parser of the platform are.\<close>

record render =
  hashSpec :: "pod_spec \<Rightarrow> string"
  parseQuantity :: "string \<Rightarrow> string option"
  rPlatform :: platform_image
  rLayout :: layout

definition podSpecFor :: "render \<Rightarrow> tmpl \<Rightarrow> string \<Rightarrow> pod_spec" where
  "podSpecFor rd t token = buildPodSpec (parseQuantity rd) t (rPlatform rd) (rLayout rd) token"

definition TemplateHash :: "render \<Rightarrow> tmpl \<Rightarrow> string" where
  "TemplateHash rd t = hashSpec rd (podSpecFor rd t [])"

definition BuildPod :: "render \<Rightarrow> tmpl \<Rightarrow> string \<Rightarrow> string \<Rightarrow> pod" where
  "BuildPod rd t poolName token =
     (let hash = TemplateHash rd t
      in \<lparr>pod_Meta = \<lparr>o_Name = [], o_GenerateName = o_Name (tp_Meta t) @ ''-'' @ hash @ ''-'',
            o_Namespace = o_Namespace (tp_Meta t),
            o_Labels = [LabelPool \<mapsto> poolName, LabelTemplate \<mapsto> o_Name (tp_Meta t), LabelTemplateHash \<mapsto> hash,
                        LabelState \<mapsto> StateIdle, LabelManagedBy \<mapsto> ManagedBy],
            o_Annotations = Map.empty, o_Finalizers = [], o_Owner = None, o_Version = 0, o_Created = 0,
            o_Deleting = False\<rparr>,
          pod_Spec = podSpecFor rd t token, pod_Phase = [], pod_PodIP = [], pod_Reason = [], pod_Conditions = []\<rparr>)"

definition PodToken :: "pod \<Rightarrow> string" where
  "PodToken p =
     (case List.find (\<lambda>e. ev_Name e = ControlTokenEnv) (concat (map c_Env (ps_Containers (pod_Spec p)))) of
        Some e \<Rightarrow> ev_Value e
      | None \<Rightarrow> [])"

text \<open>\<open>NewControlToken\<close>; a failing random source panics.\<close>

definition NewControlToken :: "nat list option \<Rightarrow> string option" where
  "NewControlToken rnd = (case rnd of None \<Rightarrow> None | Some b \<Rightarrow> Some (''jct_'' @ hexEncode b))"

section \<open>Lemmas\<close>

lemma mergeOverrides_keeps:
  "ps_SecurityContext (mergeOverrides s ov) = ps_SecurityContext s"
  "ps_AutomountServiceAccountToken (mergeOverrides s ov) = ps_AutomountServiceAccountToken s"
  "ps_HostNetwork (mergeOverrides s ov) = ps_HostNetwork s" "ps_HostPID (mergeOverrides s ov) = ps_HostPID s"
  "ps_HostUsers (mergeOverrides s ov) = ps_HostUsers s" "ps_Volumes (mergeOverrides s ov) = ps_Volumes s"
  "ps_Containers (mergeOverrides s ov) = ps_Containers s" "ps_InitContainers (mergeOverrides s ov) = ps_InitContainers s"
  "ps_RuntimeClassName (mergeOverrides s ov) = ps_RuntimeClassName s"
  "ps_RestartPolicy (mergeOverrides s ov) = ps_RestartPolicy s"
  "ps_ImagePullSecrets (mergeOverrides s ov) = ps_ImagePullSecrets s"
  by (simp_all add: mergeOverrides_def Let_def)

lemma buildPodSpec_containers:
  "ps_Containers (buildPodSpec q t pl l token) =
     [sandboxContainer l t token (ts_FilesystemIsolation (tp_Spec t) \<noteq> ''bwrap'' \<and> RequiredIsolation (tp_Spec t) = TierUserns)
        (ts_FilesystemIsolation (tp_Spec t) = ''bwrap'')]"
  "ps_InitContainers (buildPodSpec q t pl l token) = [installerContainer pl l]"
  by (simp_all add: buildPodSpec_def Let_def mergeOverrides_keeps split: option.splits)

lemma buildPodSpec_fixed:
  "ps_AutomountServiceAccountToken (buildPodSpec q t pl l token) = Some False"
  "ps_HostNetwork (buildPodSpec q t pl l token) = False" "ps_HostPID (buildPodSpec q t pl l token) = False"
  "ps_Volumes (buildPodSpec q t pl l token) = podVolumes q l t"
  by (simp_all add: buildPodSpec_def Let_def mergeOverrides_keeps split: option.splits)

lemma buildPodSpec_security:
  "ps_SecurityContext (buildPodSpec q t pl l token) =
     \<lparr>psc_RunAsNonRoot = Some True, psc_RunAsUser = Some 1000, psc_RunAsGroup = Some 1000, psc_FSGroup = Some 1000,
      psc_Seccomp = Some (if ts_FilesystemIsolation (tp_Spec t) = ''bwrap'' then Localhost ''jdix/bwrap-setup.json''
                     else if RequiredIsolation (tp_Spec t) = TierUserns then Unconfined else RuntimeDefault)\<rparr>"
  "ts_FilesystemIsolation (tp_Spec t) \<noteq> ''bwrap'' \<Longrightarrow> RequiredIsolation (tp_Spec t) = TierUserns \<Longrightarrow>
     ps_HostUsers (buildPodSpec q t pl l token) = Some False"
  by (simp_all add: buildPodSpec_def Let_def mergeOverrides_keeps split: option.splits)

lemma containers_locked:
  "sc_Drop (c_SecurityContext (installerContainer pl l)) = [''ALL'']"
  "sc_AllowPrivilegeEscalation (c_SecurityContext (installerContainer pl l)) = Some False"
  "sc_Drop (c_SecurityContext (sandboxContainer l t token u f)) = [''ALL'']"
  "sc_AllowPrivilegeEscalation (c_SecurityContext (sandboxContainer l t token u f)) = Some False"
  "sc_ProcMount (c_SecurityContext (sandboxContainer l t token u f)) = procMountFor u"
  by (simp_all add: installerContainer_def sandboxContainer_def lockedDown_def)

lemma hasPrefix_self_append: "hasPrefix (p @ s) p"
  by (simp add: hasPrefix_def)

lemma indexOf_at: "CHR ''@'' \<notin> set r \<Longrightarrow> indexOf (CHR ''@'' # s) (r @ CHR ''@'' # s @ d) = Some (length r)"
  by (induction r) (auto simp: hasPrefix_def)

lemma take_no_at: "CHR ''@'' \<notin> set r \<Longrightarrow> takeWhile (\<lambda>c. c \<noteq> CHR ''@'') (r @ CHR ''@'' # d) = r"
  by (induction r) auto


lemma last_index_ge:
  "c \<in> set s \<Longrightarrow> \<exists>j. last_index c n s = Some j \<and> n + length (takeWhile (\<lambda>x. x \<noteq> c) s) \<le> j"
proof (induction s arbitrary: n)
  case (Cons x s)
  show ?case
  proof (cases "c \<in> set s")
    case True
    with Cons.IH [of "Suc n"] show ?thesis by (cases "x = c") auto
  next
    case False
    then have "last_index c m s = None" for m by (induction s arbitrary: m) auto
    with False Cons.prems show ?thesis by auto
  qed
qed simp

lemma last_index_none: "c \<notin> set s \<Longrightarrow> last_index c n s = None"
  by (induction s arbitrary: n) auto

lemma take_all_no_at: "CHR ''@'' \<notin> set r \<Longrightarrow> takeWhile (\<lambda>c. c \<noteq> CHR ''@'') r = r"
  by (simp add: takeWhile_eq_all_conv) blast

lemma registry_of_first:
  assumes "CHR ''@'' \<notin> set r"
  shows "registryOf (r @ CHR ''@'' # d) = registryOf r"
  unfolding registryOf_def take_no_at [OF assms] take_all_no_at [OF assms] by (rule refl)

text \<open>Cutting a tag off, after the last slash, leaves the registry alone.\<close>

lemma registry_without_tag:
  assumes at: "CHR ''@'' \<notin> set r" and i: "i > lastIndex slash r"
  shows "registryOf (take (nat i) r) = registryOf r"
proof -
  have tw: "takeWhile (\<lambda>c. c \<noteq> CHR ''@'') x = x" if "set x \<subseteq> set r" for x
    using at that by (intro take_all_no_at) blast
  show ?thesis
  proof (cases "slash \<in> set r")
    case False
    then have "cut slash (take k r) = (take k r, [], False)" for k by (intro cut_none) (meson in_set_takeD)
    from this [of "nat i"] this [of "length r"] show ?thesis
      unfolding registryOf_def by (simp only: tw set_take_subset subset_refl take_all order_refl prod.case Let_def
        simp_thms if_True)
  next
    case True
    then obtain a b where r: "r = a @ slash # b" "slash \<notin> set a" by (metis split_list_first)
    have "takeWhile (\<lambda>x. x \<noteq> slash) r = a"
      unfolding r(1) using r(2) by (subst takeWhile_append2) auto
    then obtain j where "last_index slash 0 r = Some j" "length a \<le> j"
      using last_index_ge [OF True, of 0] by auto
    with i have "length a < nat i" by (simp add: lastIndex_def)
    then obtain m where "nat i = length a + Suc m" by (metis less_iff_Suc_add add_Suc_right)
    then have "take (nat i) r = a @ slash # take m b" using r by simp
    then have "cut slash (take (nat i) r) = (a, take m b, True)" using cut_sep [OF r(2)] by simp
    moreover have "cut slash r = (a, b, True)" using cut_sep [OF r(2)] r by simp
    ultimately show ?thesis
      unfolding registryOf_def by (simp only: tw set_take_subset subset_refl prod.case Let_def)
  qed
qed

lemma no_at_no_digest: "CHR ''@'' \<notin> set r \<Longrightarrow> indexOf ''@sha256:'' r = None"
  by (induction r) (auto simp: hasPrefix_def)

section \<open>Properties\<close>


text \<open>Pinning keeps the image. For a reference without a digest, the reference a Pod runs carries exactly
  the resolved digest and comes from the same registry the template was admitted for, whether or not
  the reference has a tag and whether or not the registry has a port.\<close>

lemma pinned_keeps_registry_and_digest:
  assumes at: "CHR ''@'' \<notin> set ref" and d: "digest = ''sha256:'' @ hx" "length hx = 64"
  shows "digestOf (pinned ref digest) = digest \<and> registryOf (pinned ref digest) = registryOf ref
    \<and> pinned (pinned ref digest) other = pinned ref digest"
proof -
  let ?i = "lastIndex (CHR '':'') ref"
  define r where "r = (if ?i > lastIndex slash ref then take (nat ?i) ref else ref)"
  have sr: "splitRef ref = (ref, [])" using no_at_no_digest [OF at] by (simp add: splitRef_def)
  then have p: "pinned ref digest = r @ ''@'' @ digest" by (simp add: pinned_def Let_def r_def)
  have ra: "CHR ''@'' \<notin> set r" using at by (auto simp: r_def dest: in_set_takeD)
  have idx: "indexOf ''@sha256:'' (pinned ref digest) = Some (length r)"
    unfolding p using indexOf_at [OF ra, of "''sha256:''" hx] d(1) by simp
  have dr: "drop (Suc (length r)) (pinned ref digest) = digest" unfolding p by simp
  have "length digest = 71" using d by simp
  then have dg: "digestOf (pinned ref digest) = digest"
    using idx dr by (simp add: digestOf_def)
  have "registryOf (pinned ref digest) = registryOf r" unfolding p using registry_of_first [OF ra] by simp
  also have "\<dots> = registryOf ref" using registry_without_tag [OF at] by (simp add: r_def)
  finally have rg: "registryOf (pinned ref digest) = registryOf ref" .
  have "splitRef (pinned ref digest) = (take (length r) (pinned ref digest), digest)"
    using idx dr \<open>length digest = 71\<close> by (simp add: splitRef_def)
  moreover have "digest \<noteq> []" using d by simp
  ultimately have "pinned (pinned ref digest) other = pinned ref digest"
    by (subst pinned_def) simp
  with dg rg show ?thesis by blast
qed

text \<open>Warm Pods of one template are told apart only by their credential. The template hash does not depend
  on the token, the Pod carries it as its label, and the token a Pod was built with is read back from
  its spec.\<close>

lemma BuildPod_hash_and_token:
  "PodToken (BuildPod rd t poolName token) = token
   \<and> lbl (o_Labels (pod_Meta (BuildPod rd t poolName token))) LabelTemplateHash = TemplateHash rd t
   \<and> (podSpecFor rd t token = podSpecFor rd t [] \<longleftrightarrow> token = [])
   \<and> lbl (o_Labels (pod_Meta (BuildPod rd t poolName token))) LabelState = StateIdle"
proof -
  have c: "c_Env (sandboxContainer l t tok w f) = [\<lparr>ev_Name = ControlTokenEnv, ev_Value = tok\<rparr>]" for l tok w f
    by (simp add: sandboxContainer_def)
  have "podSpecFor rd t token \<noteq> podSpecFor rd t []" if "token \<noteq> []"
  proof
    assume "podSpecFor rd t token = podSpecFor rd t []"
    then have "concat (map c_Env (ps_Containers (podSpecFor rd t token))) = concat (map c_Env (ps_Containers (podSpecFor rd t [])))"
      by simp
    with that show False by (simp add: podSpecFor_def buildPodSpec_containers c)
  qed
  moreover have "PodToken (BuildPod rd t poolName token) = token"
    by (simp add: PodToken_def BuildPod_def Let_def podSpecFor_def buildPodSpec_containers c)
  moreover have "LabelManagedBy \<noteq> LabelTemplateHash" by (simp add: label_defs)
  ultimately show ?thesis
    by (auto simp: BuildPod_def Let_def lbl_def)
qed

end
