(* ===== verification/Template_Admission.thy ===== *)
theory Template_Admission
  imports Pod_Spec
begin

text \<open>
  \<open>pkg/controller/template_controller.go\<close>: admission of a \<open>SandboxTemplate\<close>. \<open>Reconcile\<close> reads
  the template, runs the static checks, resolves the image, runs the checks on the resolved image
  and its volumes, and publishes the verdict. The registry behind \<open>Resolver\<close> is a parameter.
\<close>

section \<open>Operations\<close>

definition AnnotationApprovedBy :: string where "AnnotationApprovedBy = ''sandbox.jdix.io/approved-by''"
definition resolveRetry :: int where "resolveRetry = 30 * second"
definition volumeRetry :: int where "volumeRetry = 15 * second"
definition defaultMaxImageBytes :: int where "defaultMaxImageBytes = 5 * 2 ^ 30"

record resolved_image =
  ri_Digest :: string
  ri_Bytes :: int

datatype resolve_error = ErrImageNotFound | ResolveErr string

text \<open>The reconciler's configuration; \<open>tr_FmtGiB\<close> renders the size message.\<close>

record template_reconciler =
  tr_AllowedRegistries :: "string list"
  tr_Render :: render
  tr_MaxImageBytes :: int
  tr_Resolver :: "(string \<Rightarrow> string list \<Rightarrow> string \<Rightarrow> (resolve_error, resolved_image) result) option"
  tr_Now :: int
  tr_FmtGiB :: "int \<Rightarrow> int \<Rightarrow> string"

definition registryAllowed :: "template_reconciler \<Rightarrow> string \<Rightarrow> bool" where
  "registryAllowed r host =
     (if tr_AllowedRegistries r = [] then True else host \<in> set (tr_AllowedRegistries r))"

definition underPlatform :: "string \<Rightarrow> bool" where
  "underPlatform p \<longleftrightarrow> p = ''/opt/jdix'' \<or> hasPrefix p ''/opt/jdix/'' \<or> p = ''/var/lib/jdix'' \<or> hasPrefix p ''/var/lib/jdix/''"

definition staticAdmit :: "template_reconciler \<Rightarrow> tmpl \<Rightarrow> string \<times> string" where
  "staticAdmit r t =
     (let s = tp_Spec t; ref = im_Ref (ts_Image s); ws = ws_Path (fd_Workspace (ts_FilesystemDefaults s)) in
      if ts_FilesystemIsolation s \<noteq> [] \<and> (ts_FilesystemIsolation s \<noteq> ''bwrap'' \<or> ts_MinIsolationTier s \<noteq> []) then
        (AdmissionRejected, ''filesystemIsolation=bwrap must not be combined with minIsolationTier'')
      else if ts_FilesystemIsolation s = [] \<and> (ts_PodUserNamespace s \<noteq> None \<or> ts_MinIsolationTier s = TierFilesystem) then
        (AdmissionRejected,
         ''podUserNamespace requires filesystemIsolation=bwrap; filesystem is not a legacy minIsolationTier'')
      else if ref = [] then (AdmissionRejected, ''spec.image.ref is required'')
      else if \<not> registryAllowed r (registryOf ref) then
        (AdmissionRejected, ''registry '' @ Quote (registryOf ref) @ '' is not on the allowlist (''
           @ join '', '' (tr_AllowedRegistries r) @ '')'')
      else if ws \<noteq> [] \<and> underPlatform ws then (AdmissionRejected, ''workspace path overlaps the platform directory'')
      else (AdmissionApproved, []))"

definition setStatus :: "(template_status \<Rightarrow> template_status) \<Rightarrow> tmpl \<Rightarrow> tmpl" where
  "setStatus f t = t\<lparr>tp_Status := f (tp_Status t)\<rparr>"

text \<open>The requeue delay (0 for none) and the template with its updated status.\<close>

definition resolveImage :: "template_reconciler \<Rightarrow> tmpl \<Rightarrow> int \<times> tmpl" where
  "resolveImage r t =
     (let im = ts_Image (tp_Spec t); ref = im_Ref im; d = digestOf ref in
      if d \<noteq> [] then
        (0, setStatus (\<lambda>s. s\<lparr>tt_ResolvedDigest := d, tt_ResolvedRef := ref, tt_ImagePinned := True\<rparr>) t)
      else if \<not> ShouldResolve im then
        (0, setStatus (\<lambda>s. s\<lparr>tt_ResolvedDigest := [], tt_ResolvedRef := [], tt_ResolvedAt := None,
              tt_ImageBytes := 0, tt_ImagePinned := False\<rparr>) t)
      else if tt_ResolvedDigest (tp_Status t) \<noteq> [] \<and> tt_ResolvedRef (tp_Status t) = ref then
        (0, setStatus (\<lambda>s. s\<lparr>tt_ImagePinned := True\<rparr>) t)
      else case tr_Resolver r of
        None \<Rightarrow>
          (0, setStatus (\<lambda>s. s\<lparr>tt_Admission := AdmissionRejected, tt_AdmissionReason :=
             ''this installation cannot resolve tags: either pin spec.image.ref by digest (name@sha256:...), or set spec.image.resolve=false to let the kubelet pull by tag''\<rparr>) t)
      | Some resolver \<Rightarrow>
          (case resolver ref (case im_PullSecretRef im of None \<Rightarrow> [] | Some n \<Rightarrow> [n]) (o_Namespace (tp_Meta t)) of
             Inl ErrImageNotFound \<Rightarrow>
               (0, setStatus (\<lambda>s. s\<lparr>tt_Admission := AdmissionRejected, tt_AdmissionReason :=
                  ''cannot pull '' @ ref @ '': it does not exist, or the pull secret cannot see it''\<rparr>) t)
           | Inl (ResolveErr e) \<Rightarrow>
               (resolveRetry, setStatus (\<lambda>s. s\<lparr>tt_AdmissionReason := ''resolving '' @ ref @ '': '' @ e\<rparr>) t)
           | Inr res \<Rightarrow>
               (0, setStatus (\<lambda>s. s\<lparr>tt_ResolvedDigest := ri_Digest res, tt_ResolvedRef := ref,
                  tt_ResolvedAt := Some (tr_Now r), tt_ImageBytes := ri_Bytes res, tt_ImagePinned := True,
                  tt_AdmissionReason := []\<rparr>) t)))"

definition resolvedAdmit :: "template_reconciler \<Rightarrow> tmpl \<Rightarrow> string \<times> string" where
  "resolvedAdmit r t =
     (let mx = (if tr_MaxImageBytes r \<le> 0 then defaultMaxImageBytes else tr_MaxImageBytes r);
          b = tt_ImageBytes (tp_Status t) in
      if b > 0 \<and> b > mx then (AdmissionRejected, tr_FmtGiB r b mx)
      else if ts_Volumes (tp_Spec t) \<noteq> [] \<and> lbl (o_Annotations (tp_Meta t)) AnnotationApprovedBy = [] then
        (AdmissionPendingReview,
         ''templates with volumes need review: a volume requires a warm pool, and warm capacity is charged to the platform'')
      else (AdmissionApproved, []))"

definition shareable :: "string list \<Rightarrow> bool" where
  "shareable modes \<longleftrightarrow> (\<exists>m \<in> set modes. m = ''ReadOnlyMany'' \<or> m = ''ReadWriteMany'')"

text \<open>The messages name the volume and the claim; their wording is a parameter of no consequence.\<close>

datatype volume_reason = ClaimMissing string string string | ClaimError string kerr | ClaimNotShareable string string "string list"

fun admitVolumes :: "'k kube \<Rightarrow> 'k \<Rightarrow> string \<Rightarrow> template_volume list \<Rightarrow> string \<times> volume_reason option \<times> int" where
  "admitVolumes kc k ns [] = (AdmissionApproved, None, 0)"
| "admitVolumes kc k ns (v # vs) =
     (case kc_GetPVC kc (ns, tv_ClaimName v) k of
        Inl e \<Rightarrow>
          if e = NotFound then (AdmissionPending, Some (ClaimMissing (tv_Name v) (tv_ClaimName v) ns), volumeRetry)
          else (AdmissionPending, Some (ClaimError (tv_ClaimName v) e), volumeRetry)
      | Inr modes \<Rightarrow>
          if \<not> shareable modes then
            (AdmissionRejected, Some (ClaimNotShareable (tv_Name v) (tv_ClaimName v) modes), 0)
          else admitVolumes kc k ns vs)"

definition publish :: "template_reconciler \<Rightarrow> 'k kube \<Rightarrow> tmpl \<Rightarrow> string \<Rightarrow> string \<Rightarrow> 'k \<Rightarrow> kerr option \<times> 'k" where
  "publish r kc t state reason k =
     (let hash = TemplateHash (tr_Render r) t; st = tp_Status t; hv = (ts_Volumes (tp_Spec t) \<noteq> []) in
      if tt_Hash st = hash \<and> tt_Admission st = state \<and> tt_AdmissionReason st = reason \<and> tt_HasVolumes st = hv then (None, k)
      else (case kc_UpdateTemplateStatus kc
                  (setStatus (\<lambda>s. s\<lparr>tt_Hash := hash, tt_Admission := state, tt_AdmissionReason := reason, tt_HasVolumes := hv\<rparr>) t) k of
              (Some e, k') \<Rightarrow> if e \<noteq> Conflict then (Some e, k') else (None, k')
            | (None, k') \<Rightarrow> (None, k')))"

definition outcomeOf :: "kerr option \<Rightarrow> outcome" where
  "outcomeOf e = (case e of None \<Rightarrow> Done | Some err \<Rightarrow> Failed err)"

text \<open>The verdict on a template as read, before it is published: state, reason and requeue delay.\<close>

definition verdict ::
    "template_reconciler \<Rightarrow> (volume_reason \<Rightarrow> string) \<Rightarrow> 'k kube \<Rightarrow> 'k \<Rightarrow> tmpl \<Rightarrow> tmpl \<times> string \<times> string \<times> int" where
  "verdict r fmt kc k t =
     (case staticAdmit r t of
        (state, reason) \<Rightarrow>
          if state = AdmissionRejected then (t, state, reason, 0)
          else (case resolveImage r t of
             (requeue, t1) \<Rightarrow>
               if requeue > 0 then (t1, AdmissionPending, tt_AdmissionReason (tp_Status t1), requeue)
               else if tt_Admission (tp_Status t1) = AdmissionRejected then
                 (t1, AdmissionRejected, tt_AdmissionReason (tp_Status t1), 0)
               else (case resolvedAdmit r t1 of
                  (state1, reason1) \<Rightarrow>
                    if state1 = AdmissionApproved then
                      (case admitVolumes kc k (o_Namespace (tp_Meta t1)) (ts_Volumes (tp_Spec t1)) of
                         (state2, reason2, requeue2) \<Rightarrow>
                           (t1, state2, (case reason2 of None \<Rightarrow> [] | Some vr \<Rightarrow> fmt vr), requeue2))
                    else (t1, state1, reason1, 0))))"

definition TemplateReconcile ::
    "template_reconciler \<Rightarrow> (volume_reason \<Rightarrow> string) \<Rightarrow> 'k kube \<Rightarrow> key \<Rightarrow> 'k \<Rightarrow> outcome \<times> 'k" where
  "TemplateReconcile r fmt kc nm k =
     (case kc_GetTemplate kc nm k of
        Inl e \<Rightarrow> (outcomeOf (IgnoreNotFound (Some e)), k)
      | Inr t \<Rightarrow>
          if o_Deleting (tp_Meta t) then (Done, k)
          else (case verdict r fmt kc k t of
             (t1, state, reason, requeue) \<Rightarrow>
               (case publish r kc t1 state reason k of
                  (Some e, k') \<Rightarrow> (Failed e, k')
                | (None, k') \<Rightarrow> (if requeue > 0 then Requeue requeue else Done, k'))))"

section \<open>What is approved\<close>

lemma admitVolumes_approved:
  "fst (admitVolumes kc k ns vs) = AdmissionApproved \<longleftrightarrow>
     (\<forall>v \<in> set vs. \<exists>modes. kc_GetPVC kc (ns, tv_ClaimName v) k = Inr modes \<and> shareable modes)"
  by (induction vs) (auto split: sum.splits)

lemma resolveImage_spec [simp]:
  "tp_Spec (snd (resolveImage r t)) = tp_Spec t" "tp_Meta (snd (resolveImage r t)) = tp_Meta t"
  by (simp_all add: resolveImage_def Let_def setStatus_def split: option.splits sum.splits resolve_error.splits)

lemma admitVolumes_no_requeue:
  "fst (admitVolumes kc k ns vs) = AdmissionApproved \<Longrightarrow> snd (snd (admitVolumes kc k ns vs)) = 0"
  by (induction vs) (auto split: sum.splits if_splits)

lemma staticAdmit_cases: "fst (staticAdmit r t) = AdmissionRejected \<or> staticAdmit r t = (AdmissionApproved, [])"
  by (simp add: staticAdmit_def Let_def)

lemma resolveImage_pins:
  assumes "resolveImage r t = (0, t1)" "tt_Admission (tp_Status t1) \<noteq> AdmissionRejected"
  shows "(ShouldResolve (ts_Image (tp_Spec t)) \<or> digestOf (im_Ref (ts_Image (tp_Spec t))) \<noteq> [] \<longrightarrow>
            tt_ImagePinned (tp_Status t1)
            \<and> tt_ResolvedRef (tp_Status t1) = im_Ref (ts_Image (tp_Spec t)))
     \<and> (\<not> ShouldResolve (ts_Image (tp_Spec t)) \<and> digestOf (im_Ref (ts_Image (tp_Spec t))) = [] \<longrightarrow>
            \<not> tt_ImagePinned (tp_Status t1) \<and> tt_ResolvedDigest (tp_Status t1) = [])"
proof -
  have "resolveRetry \<noteq> 0" by (simp add: resolveRetry_def second_def)
  with assms show ?thesis
    unfolding resolveImage_def Let_def setStatus_def
    by (auto split: if_splits option.splits sum.splits resolve_error.splits)
qed

section \<open>Properties\<close>


definition demoMeta :: "string \<Rightarrow> meta" where
  "demoMeta n = \<lparr>o_Name = n, o_GenerateName = [], o_Namespace = ''ns1'', o_Labels = Map.empty, o_Annotations = Map.empty,
     o_Finalizers = [], o_Owner = None, o_Version = 1, o_Created = 0, o_Deleting = False\<rparr>"

definition demoImage :: image_spec where
  "demoImage = \<lparr>im_Ref = ''reg.io/py:1'', im_Resolve = None, im_PullPolicy = [], im_PullSecretRef = None\<rparr>"

definition demoTplSpec :: template_spec where
  "demoTplSpec = \<lparr>ts_MinIsolationTier = ''capadmin'', ts_FilesystemIsolation = [], ts_PodUserNamespace = None,
     ts_RuntimeClassName = [], ts_DefaultTTLSeconds = 1800, ts_MaxTTLSeconds = 14400, ts_Image = demoImage,
     ts_FilesystemDefaults = \<lparr>fd_Workspace = \<lparr>ws_Path = [], ws_SizeLimit = []\<rparr>, fd_AllowSystemPaths = []\<rparr>,
     ts_Volumes = [], ts_Resources = [], ts_PodOverrides = None\<rparr>"

definition demoTpl :: "string \<Rightarrow> tmpl" where
  "demoTpl adm = \<lparr>tp_Meta = demoMeta ''py'', tp_Spec = demoTplSpec, tp_Status = \<lparr>tt_Hash = [], tt_Admission = adm,
     tt_AdmissionReason = ''old'', tt_ResolvedDigest = [], tt_ResolvedRef = [], tt_ResolvedAt = None, tt_ImageBytes = 0,
     tt_ImagePinned = False, tt_HasVolumes = False\<rparr>\<rparr>"

definition demoRender :: render where
  "demoRender = \<lparr>hashSpec = (\<lambda>s. ''h''), parseQuantity = Some, rPlatform = \<lparr>pi_Ref = ''p'', pi_PullPolicy = []\<rparr>, rLayout = DefaultLayout\<rparr>"

definition demoReconciler :: template_reconciler where
  "demoReconciler = \<lparr>tr_AllowedRegistries = [''reg.io''], tr_Render = demoRender, tr_MaxImageBytes = 0,
     tr_Resolver = Some (\<lambda>ref s ns. Inr \<lparr>ri_Digest = ''sha256:d'', ri_Bytes = 1000\<rparr>), tr_Now = 0, tr_FmtGiB = (\<lambda>a b. [])\<rparr>"

lemma demo_static: "staticAdmit demoReconciler (demoTpl adm) = (AdmissionApproved, [])"
  by (simp add: staticAdmit_def demoTpl_def demoTplSpec_def demoImage_def demoReconciler_def registryAllowed_def
      registryOf_def cut_def tier_defs)

lemma demo_resolve:
  "resolveImage demoReconciler (demoTpl adm) = (0, setStatus (\<lambda>s. s\<lparr>tt_ResolvedDigest := ''sha256:d'',
     tt_ResolvedRef := ''reg.io/py:1'', tt_ResolvedAt := Some 0, tt_ImageBytes := 1000, tt_ImagePinned := True,
     tt_AdmissionReason := []\<rparr>) (demoTpl adm))"
proof -
  have "digestOf ''reg.io/py:1'' = []" by (simp add: digestOf_def hasPrefix_def)
  then show ?thesis
    by (simp add: resolveImage_def demoTpl_def demoTplSpec_def demoImage_def demoReconciler_def ShouldResolve_def Let_def)
qed

definition demoResolved :: "string \<Rightarrow> tmpl" where
  "demoResolved adm = setStatus (\<lambda>s. s\<lparr>tt_ResolvedDigest := ''sha256:d'',
     tt_ResolvedRef := ''reg.io/py:1'', tt_ResolvedAt := Some 0, tt_ImageBytes := 1000, tt_ImagePinned := True,
     tt_AdmissionReason := []\<rparr>) (demoTpl adm)"

lemma demo_resolved_simps:
  "tt_Admission (tp_Status (demoResolved adm)) = adm" "tt_AdmissionReason (tp_Status (demoResolved adm)) = []"
  "ts_Volumes (tp_Spec (demoResolved adm)) = []" "tt_ImageBytes (tp_Status (demoResolved adm)) = 1000"
  "tr_MaxImageBytes demoReconciler = 0"
  by (simp_all add: demoResolved_def setStatus_def demoTpl_def demoTplSpec_def demoReconciler_def)

lemma demo_verdict:
  "verdict demoReconciler fmt kc k (demoTpl AdmissionPending) = (demoResolved AdmissionPending, AdmissionApproved, [], 0)"
proof -
  have r: "resolveImage demoReconciler (demoTpl AdmissionPending) = (0, demoResolved AdmissionPending)"
    by (simp only: demo_resolve demoResolved_def)
  have ra: "resolvedAdmit demoReconciler (demoResolved AdmissionPending) = (AdmissionApproved, [])"
    by (simp add: resolvedAdmit_def demo_resolved_simps defaultMaxImageBytes_def)
  show ?thesis
    unfolding verdict_def demo_static r by (simp add: ra demo_resolved_simps)
qed


text \<open>A rejected template stays rejected. Once the stored admission state is Rejected, every later
  reconcile that does not hit a registry outage publishes Rejected again, whatever the spec has been
  corrected to: the state read back is mistaken for a verdict of this pass.\<close>

lemma rejected_template_never_recovers:
  assumes "tt_Admission (tp_Status t) = AdmissionRejected"
    and "verdict r fmt kc k t = (t1, state, reason, requeue)"
  shows "state = AdmissionRejected \<or> requeue = resolveRetry"
proof -
  obtain q t' where ri: "resolveImage r t = (q, t')" by force
  have "tt_Admission (tp_Status t') = AdmissionRejected"
    using ri assms(1) by (auto simp: resolveImage_def Let_def setStatus_def
        split: if_splits option.splits sum.splits resolve_error.splits)
  moreover have "q > 0 \<Longrightarrow> q = resolveRetry"
    using ri by (auto simp: resolveImage_def Let_def split: if_splits option.splits sum.splits resolve_error.splits)
  ultimately show ?thesis
    using assms(2) ri unfolding verdict_def by (auto split: prod.splits if_splits)
qed

text \<open>A template whose reference was changed during a registry outage keeps the digest of the old
  reference, so a Pod built from it would run the new repository at the old digest.\<close>

lemma stale_digest_survives_outage:
  assumes "digestOf ref = []" "ref = im_Ref (ts_Image (tp_Spec t))" "ShouldResolve (ts_Image (tp_Spec t))"
    "tt_ResolvedDigest (tp_Status t) = d" "d \<noteq> []" "tt_ResolvedRef (tp_Status t) \<noteq> ref"
    "tr_Resolver r = Some rs" "\<And>s n. rs ref s n = Inl (ResolveErr e)"
  shows "ImageRef (snd (resolveImage r t)) = pinned ref d"
  using assms by (simp add: resolveImage_def ImageRef_def setStatus_def Let_def)

end
