(* ===== verification/Kube.thy ===== *)
theory Kube
  imports K8s_Types "HOL-Library.AList"
begin

text \<open>
  What the controllers and the API server rely on of Kubernetes, which is not part of this
  repository. Reads come from an informer cache and may be old; a write is checked against the
  resource version it was derived from; a write that reports neither success nor a lost race may
  or may not have happened. The laws speak of two views of the world: the pods and the sandboxes
  that the server holds. A small cluster that satisfies them is defined at the end; execd, which
  the controllers reach over HTTP, is the second interface.
\<close>

section \<open>Keys, references and requests\<close>

definition podKey :: "pod \<Rightarrow> key" where
  "podKey p = (o_Namespace (pod_Meta p), o_Name (pod_Meta p))"

definition sbxKey :: "sandbox \<Rightarrow> key" where
  "sbxKey s = (o_Namespace (sbx_Meta s), o_Name (sbx_Meta s))"

definition podLabel :: "pod \<Rightarrow> string \<Rightarrow> string" where
  "podLabel p l = lbl (o_Labels (pod_Meta p)) l"

text \<open>An owner reference names the kind and the object.\<close>

definition ownerRef :: "string \<Rightarrow> meta \<Rightarrow> string" where
  "ownerRef kind m = kind @ ''/'' @ o_Name m"

text \<open>\<open>controllerutil.SetControllerReference\<close>: refused across namespaces and for an object that has
  another controller.\<close>

definition SetControllerReference :: "string \<Rightarrow> meta \<Rightarrow> meta \<Rightarrow> (string, meta) result" where
  "SetControllerReference kind owner m =
     (if o_Namespace owner \<noteq> [] \<and> o_Namespace m \<noteq> o_Namespace owner then Inl ''cross-namespace owner reference''
      else if o_Owner m \<noteq> None \<and> o_Owner m \<noteq> Some (ownerRef kind owner) then Inl ''already owned''
      else Inr (m\<lparr>o_Owner := Some (ownerRef kind owner)\<rparr>))"

record pod_ref =
  pr_Namespace :: string
  pr_Name :: string
  pr_IP :: string
  pr_Token :: string

record bind_request =
  br_SandboxID :: string
  br_Tenant :: string
  br_Filesystem :: filesystem_spec
  br_Env :: "(string \<rightharpoonup> string) option"
  br_Secrets :: "(string \<rightharpoonup> string) option"
  br_TTLSeconds :: int
  br_Token :: string

record bind_response =
  bs_SandboxID :: string
  bs_IsolationTier :: tier
  bs_BoundAt :: int
  bs_ExpiresAt :: "int option"
  bs_BwrapArgs :: "string list"

text \<open>The binder and the prober: execd's control plane, reached by whichever transport.\<close>

record 'k execd_api =
  ex_Bind :: "pod_ref \<Rightarrow> bind_request \<Rightarrow> 'k \<Rightarrow> (string, bind_response) result \<times> 'k"
  ex_Unbind :: "pod_ref \<Rightarrow> 'k \<Rightarrow> string option \<times> 'k"
  ex_Probe :: "pod_ref \<Rightarrow> 'k \<Rightarrow> (string, tier \<times> string) result"

section \<open>The laws\<close>

text \<open>A pod that was read is what the server holds, if the version is still the same.\<close>

definition currentPod :: "(key \<Rightarrow> pod option) \<Rightarrow> pod \<Rightarrow> bool" where
  "currentPod ps p \<longleftrightarrow> (\<forall>q. ps (podKey p) = Some q \<longrightarrow> o_Version (pod_Meta q) = o_Version (pod_Meta p) \<longrightarrow> q = p)"

definition currentBox :: "(key \<Rightarrow> sandbox option) \<Rightarrow> sandbox \<Rightarrow> bool" where
  "currentBox bs s \<longleftrightarrow> (\<forall>q. bs (sbxKey s) = Some q \<longrightarrow> o_Version (sbx_Meta q) = o_Version (sbx_Meta s) \<longrightarrow> q = s)"

text \<open>An accepted update replaces the pod whose version it names.\<close>

definition podWritten :: "(key \<Rightarrow> pod option) \<Rightarrow> pod \<Rightarrow> (key \<Rightarrow> pod option) \<Rightarrow> bool" where
  "podWritten ps p ps' \<longleftrightarrow>
     (\<exists>q r. ps (podKey p) = Some q \<and> o_Version (pod_Meta q) = o_Version (pod_Meta p) \<and> ps' = ps(podKey p \<mapsto> r)
        \<and> o_Labels (pod_Meta r) = o_Labels (pod_Meta p) \<and> o_Owner (pod_Meta r) = o_Owner (pod_Meta p))"

definition podCreated :: "(key \<Rightarrow> pod option) \<Rightarrow> pod \<Rightarrow> (key \<Rightarrow> pod option) \<Rightarrow> bool" where
  "podCreated ps p ps' \<longleftrightarrow>
     (\<exists>nm r. ps nm = None \<and> ps' = ps(nm \<mapsto> r)
        \<and> o_Labels (pod_Meta r) = o_Labels (pod_Meta p) \<and> o_Owner (pod_Meta r) = o_Owner (pod_Meta p))"

text \<open>A pod that is deleted is gone at once or is shutting down.\<close>

definition podGone :: "(key \<Rightarrow> pod option) \<Rightarrow> key \<Rightarrow> bool" where
  "podGone ps nm \<longleftrightarrow> (case ps nm of None \<Rightarrow> True | Some p \<Rightarrow> o_Deleting (pod_Meta p))"

definition podRemoved :: "(key \<Rightarrow> pod option) \<Rightarrow> pod \<Rightarrow> (key \<Rightarrow> pod option) \<Rightarrow> bool" where
  "podRemoved ps p ps' \<longleftrightarrow> ps' = ps(podKey p := None)
     \<or> (\<exists>q r. ps (podKey p) = Some q \<and> ps' = ps(podKey p \<mapsto> r) \<and> o_Deleting (pod_Meta r)
          \<and> o_Labels (pod_Meta r) = o_Labels (pod_Meta q) \<and> o_Owner (pod_Meta r) = o_Owner (pod_Meta q))"

definition statusWritten :: "(key \<Rightarrow> sandbox option) \<Rightarrow> sandbox \<Rightarrow> (key \<Rightarrow> sandbox option) \<Rightarrow> bool" where
  "statusWritten bs s bs' \<longleftrightarrow>
     (\<exists>q r. bs (sbxKey s) = Some q \<and> o_Version (sbx_Meta q) = o_Version (sbx_Meta s) \<and> bs' = bs(sbxKey s \<mapsto> r)
        \<and> sbx_Status r = sbx_Status s \<and> sbx_Spec r = sbx_Spec q)"

definition boxWritten :: "(key \<Rightarrow> sandbox option) \<Rightarrow> sandbox \<Rightarrow> (key \<Rightarrow> sandbox option) \<Rightarrow> bool" where
  "boxWritten bs s bs' \<longleftrightarrow>
     (\<exists>q. bs (sbxKey s) = Some q \<and> o_Version (sbx_Meta q) = o_Version (sbx_Meta s)
        \<and> (bs' = bs(sbxKey s := None) \<or> (\<exists>r. bs' = bs(sbxKey s \<mapsto> r) \<and> sbx_Status r = sbx_Status q \<and> sbx_Spec r = sbx_Spec s
              \<and> o_Finalizers (sbx_Meta r) = o_Finalizers (sbx_Meta s))))"

locale api_laws =
  fixes kc :: "'k kube" and pods :: "'k \<Rightarrow> key \<Rightarrow> pod option" and boxes :: "'k \<Rightarrow> key \<Rightarrow> sandbox option"
  assumes list_pods: "\<And>ns sel k ps p. kc_ListPods kc ns sel k = Inr ps \<Longrightarrow> p \<in> set ps \<Longrightarrow>
      fst (podKey p) = ns \<and> matchLabels sel (o_Labels (pod_Meta p)) \<and> currentPod (pods k) p"
    and get_pod: "\<And>nm k p. kc_GetPod kc nm k = Inr p \<Longrightarrow> podKey p = nm \<and> currentPod (pods k) p"
    and get_sandbox: "\<And>nm k s. kc_GetSandbox kc nm k = Inr s \<Longrightarrow> sbxKey s = nm \<and> currentBox (boxes k) s"
    and get_template: "\<And>nm k t. kc_GetTemplate kc nm k = Inr t \<Longrightarrow> (o_Namespace (tp_Meta t), o_Name (tp_Meta t)) = nm"
    and update_pod: "\<And>p k e k'. kc_UpdatePod kc p k = (e, k') \<Longrightarrow>
      (e \<noteq> None \<and> pods k' = pods k) \<or> (e \<noteq> Some Conflict \<and> e \<noteq> Some NotFound \<and> podWritten (pods k) p (pods k'))"
    and create_pod: "\<And>p k r k'. kc_CreatePod kc p k = (r, k') \<Longrightarrow>
      (\<exists>e. r = Inl e \<and> pods k' = pods k) \<or> podCreated (pods k) p (pods k')"
    and created_pod: "\<And>p k q k'. kc_CreatePod kc p k = (Inr q, k') \<Longrightarrow>
      pods k (podKey q) = None \<and> pods k' = (pods k)(podKey q \<mapsto> q) \<and> o_Labels (pod_Meta q) = o_Labels (pod_Meta p)"
    and delete_pod: "\<And>p k e k'. kc_DeletePod kc p k = (e, k') \<Longrightarrow>
      (e \<noteq> None \<and> (e = Some NotFound \<longrightarrow> podGone (pods k) (podKey p)) \<and> pods k' = pods k) \<or> podRemoved (pods k) p (pods k')"
    and pod_frame: "\<And>p k. boxes (snd (kc_UpdatePod kc p k)) = boxes k" "\<And>p k. boxes (snd (kc_CreatePod kc p k)) = boxes k"
      "\<And>p k. boxes (snd (kc_DeletePod kc p k)) = boxes k"
    and update_status: "\<And>s k e k'. kc_UpdateSandboxStatus kc s k = (e, k') \<Longrightarrow>
      (e \<noteq> None \<and> boxes k' = boxes k) \<or> (e \<noteq> Some Conflict \<and> statusWritten (boxes k) s (boxes k'))"
    and update_sandbox: "\<And>s k r k'. kc_UpdateSandbox kc s k = (r, k') \<Longrightarrow>
      (\<exists>e. r = Inl e \<and> boxes k' = boxes k) \<or> (r \<noteq> Inl Conflict \<and> boxWritten (boxes k) s (boxes k'))"
    and updated_sandbox: "\<And>s k q k'. kc_UpdateSandbox kc s k = (Inr q, k') \<Longrightarrow>
      sbxKey q = sbxKey s \<and> o_Labels (sbx_Meta q) = o_Labels (sbx_Meta s) \<and> sbx_Spec q = sbx_Spec s
      \<and> o_Finalizers (sbx_Meta q) = o_Finalizers (sbx_Meta s) \<and> currentBox (boxes k') q"
    and sandbox_frame: "\<And>s k. pods (snd (kc_UpdateSandboxStatus kc s k)) = pods k"
      "\<And>s k. pods (snd (kc_UpdateSandbox kc s k)) = pods k"
    and pool_frame: "\<And>pl k. pods (snd (kc_UpdatePoolStatus kc pl k)) = pods k"

text \<open>With execd beside it: binding and unbinding change nothing the API server holds.\<close>

locale world_laws = api_laws kc pods boxes
  for kc :: "'k kube" and pods :: "'k \<Rightarrow> key \<Rightarrow> pod option" and boxes :: "'k \<Rightarrow> key \<Rightarrow> sandbox option" +
  fixes ex :: "'k execd_api"
  assumes bind_frame: "pods (snd (ex_Bind ex r q k)) = pods k" "boxes (snd (ex_Bind ex r q k)) = boxes k"
    and unbind_frame: "pods (snd (ex_Unbind ex r k)) = pods k" "boxes (snd (ex_Unbind ex r k)) = boxes k"

section \<open>A cluster\<close>

text \<open>
  Objects of each kind, held under their own namespace and name, and a counter that supplies
  resource versions and generated names. Reads are never stale here and deletion is immediate.
\<close>

record cluster =
  cl_Pods :: "pod list"
  cl_Boxes :: "sandbox list"
  cl_Tpls :: "tmpl list"
  cl_Pools :: "pool list"
  cl_PVCs :: "(key \<times> string list) list"
  cl_Next :: nat

definition metaKey :: "meta \<Rightarrow> key" where
  "metaKey m = (o_Namespace m, o_Name m)"

definition held :: "('a \<Rightarrow> meta) \<Rightarrow> 'a list \<Rightarrow> key \<Rightarrow> 'a option" where
  "held mt xs nm = List.find (\<lambda>x. metaKey (mt x) = nm) xs"

definition getObj :: "('a \<Rightarrow> meta) \<Rightarrow> 'a list \<Rightarrow> key \<Rightarrow> (kerr, 'a) result" where
  "getObj mt xs nm = (case held mt xs nm of None \<Rightarrow> Inl NotFound | Some x \<Rightarrow> Inr x)"

definition listObj :: "('a \<Rightarrow> meta) \<Rightarrow> 'a list \<Rightarrow> string \<Rightarrow> (string \<times> string) list \<Rightarrow> 'a list" where
  "listObj mt xs ns sel =
     filter (\<lambda>x. o_Namespace (mt x) = ns \<and> matchLabels sel (o_Labels (mt x)) \<and> held mt xs (metaKey (mt x)) = Some x) xs"

text \<open>The object a write of version \<open>v\<close> replaces, if it is accepted.\<close>

definition guarded :: "('a \<Rightarrow> meta) \<Rightarrow> 'a list \<Rightarrow> meta \<Rightarrow> (kerr, 'a) result" where
  "guarded mt xs m =
     (case held mt xs (metaKey m) of
        None \<Rightarrow> Inl NotFound
      | Some x \<Rightarrow> if o_Version (mt x) = o_Version m then Inr x else Inl Conflict)"

definition writeMeta :: "nat \<Rightarrow> meta \<Rightarrow> meta \<Rightarrow> meta" where
  "writeMeta v old new = old\<lparr>o_Labels := o_Labels new, o_Annotations := o_Annotations new, o_Finalizers := o_Finalizers new,
     o_Owner := o_Owner new, o_Version := v\<rparr>"

definition putObj :: "('a \<Rightarrow> meta) \<Rightarrow> 'a \<Rightarrow> 'a list \<Rightarrow> 'a list" where
  "putObj mt r xs = r # filter (\<lambda>x. metaKey (mt x) \<noteq> metaKey (mt r)) xs"

definition dropObj :: "('a \<Rightarrow> meta) \<Rightarrow> key \<Rightarrow> 'a list \<Rightarrow> 'a list" where
  "dropObj mt nm xs = filter (\<lambda>x. metaKey (mt x) \<noteq> nm) xs"

text \<open>A created object gets a version and, when it has only a name prefix, a name that no other has.\<close>

definition unusedSuffix :: "('a \<Rightarrow> meta) \<Rightarrow> 'a list \<Rightarrow> string" where
  "unusedSuffix mt xs = replicate (Suc (sum_list (map (\<lambda>x. length (o_Name (mt x))) xs))) (CHR ''x'')"

definition newMeta :: "('a \<Rightarrow> meta) \<Rightarrow> 'a list \<Rightarrow> nat \<Rightarrow> meta \<Rightarrow> meta" where
  "newMeta mt xs v m = m\<lparr>o_Name := (if o_Name m = [] then o_GenerateName m @ unusedSuffix mt xs else o_Name m), o_Version := v\<rparr>"

definition cl_CreatePod :: "pod \<Rightarrow> cluster \<Rightarrow> (kerr, pod) result \<times> cluster" where
  "cl_CreatePod p c =
     (let r = p\<lparr>pod_Meta := newMeta pod_Meta (cl_Pods c) (cl_Next c) (pod_Meta p)\<rparr> in
      if held pod_Meta (cl_Pods c) (podKey r) \<noteq> None then (Inl (KErr ''AlreadyExists''), c)
      else (Inr r, c\<lparr>cl_Pods := putObj pod_Meta r (cl_Pods c), cl_Next := cl_Next c + 1\<rparr>))"

definition cl_UpdatePod :: "pod \<Rightarrow> cluster \<Rightarrow> kerr option \<times> cluster" where
  "cl_UpdatePod p c =
     (case guarded pod_Meta (cl_Pods c) (pod_Meta p) of
        Inl e \<Rightarrow> (Some e, c)
      | Inr q \<Rightarrow> (None, c\<lparr>cl_Pods := putObj pod_Meta (q\<lparr>pod_Meta := writeMeta (cl_Next c) (pod_Meta q) (pod_Meta p)\<rparr>) (cl_Pods c),
                        cl_Next := cl_Next c + 1\<rparr>))"

definition cl_DeletePod :: "pod \<Rightarrow> cluster \<Rightarrow> kerr option \<times> cluster" where
  "cl_DeletePod p c =
     (case held pod_Meta (cl_Pods c) (podKey p) of
        None \<Rightarrow> (Some NotFound, c)
      | Some q \<Rightarrow> (None, c\<lparr>cl_Pods := dropObj pod_Meta (podKey p) (cl_Pods c)\<rparr>))"

definition cl_CreateSandbox :: "sandbox \<Rightarrow> cluster \<Rightarrow> kerr option \<times> cluster" where
  "cl_CreateSandbox s c =
     (let r = s\<lparr>sbx_Meta := newMeta sbx_Meta (cl_Boxes c) (cl_Next c) (sbx_Meta s)\<rparr> in
      if held sbx_Meta (cl_Boxes c) (sbxKey r) \<noteq> None then (Some (KErr ''AlreadyExists''), c)
      else (None, c\<lparr>cl_Boxes := putObj sbx_Meta r (cl_Boxes c), cl_Next := cl_Next c + 1\<rparr>))"

definition cl_DeleteSandbox :: "key \<Rightarrow> cluster \<Rightarrow> kerr option \<times> cluster" where
  "cl_DeleteSandbox nm c =
     (case held sbx_Meta (cl_Boxes c) nm of
        None \<Rightarrow> (Some NotFound, c)
      | Some q \<Rightarrow>
          if o_Finalizers (sbx_Meta q) = [] then (None, c\<lparr>cl_Boxes := dropObj sbx_Meta nm (cl_Boxes c)\<rparr>)
          else (None, c\<lparr>cl_Boxes := putObj sbx_Meta (q\<lparr>sbx_Meta := (sbx_Meta q)\<lparr>o_Deleting := True, o_Version := cl_Next c\<rparr>\<rparr>) (cl_Boxes c),
                       cl_Next := cl_Next c + 1\<rparr>))"

definition cl_UpdateSandbox :: "sandbox \<Rightarrow> cluster \<Rightarrow> (kerr, sandbox) result \<times> cluster" where
  "cl_UpdateSandbox s c =
     (case guarded sbx_Meta (cl_Boxes c) (sbx_Meta s) of
        Inl e \<Rightarrow> (Inl e, c)
      | Inr q \<Rightarrow>
          let r = q\<lparr>sbx_Meta := writeMeta (cl_Next c) (sbx_Meta q) (sbx_Meta s), sbx_Spec := sbx_Spec s\<rparr>
          in (Inr r, c\<lparr>cl_Boxes := (if o_Deleting (sbx_Meta q) \<and> o_Finalizers (sbx_Meta s) = [] then dropObj sbx_Meta (sbxKey s) (cl_Boxes c)
                                   else putObj sbx_Meta r (cl_Boxes c)), cl_Next := cl_Next c + 1\<rparr>))"

definition cl_UpdateSandboxStatus :: "sandbox \<Rightarrow> cluster \<Rightarrow> kerr option \<times> cluster" where
  "cl_UpdateSandboxStatus s c =
     (case guarded sbx_Meta (cl_Boxes c) (sbx_Meta s) of
        Inl e \<Rightarrow> (Some e, c)
      | Inr q \<Rightarrow>
          (None, c\<lparr>cl_Boxes := putObj sbx_Meta (q\<lparr>sbx_Meta := (sbx_Meta q)\<lparr>o_Version := cl_Next c\<rparr>, sbx_Status := sbx_Status s\<rparr>) (cl_Boxes c),
                   cl_Next := cl_Next c + 1\<rparr>))"

definition cl_UpdateTemplateStatus :: "tmpl \<Rightarrow> cluster \<Rightarrow> kerr option \<times> cluster" where
  "cl_UpdateTemplateStatus t c =
     (case guarded tp_Meta (cl_Tpls c) (tp_Meta t) of
        Inl e \<Rightarrow> (Some e, c)
      | Inr q \<Rightarrow>
          (None, c\<lparr>cl_Tpls := putObj tp_Meta (q\<lparr>tp_Meta := (tp_Meta q)\<lparr>o_Version := cl_Next c\<rparr>, tp_Status := tp_Status t\<rparr>) (cl_Tpls c),
                   cl_Next := cl_Next c + 1\<rparr>))"

definition cl_CreatePool :: "pool \<Rightarrow> cluster \<Rightarrow> kerr option \<times> cluster" where
  "cl_CreatePool p c =
     (let r = p\<lparr>po_Meta := newMeta po_Meta (cl_Pools c) (cl_Next c) (po_Meta p)\<rparr> in
      if held po_Meta (cl_Pools c) (metaKey (po_Meta r)) \<noteq> None then (Some (KErr ''AlreadyExists''), c)
      else (None, c\<lparr>cl_Pools := putObj po_Meta r (cl_Pools c), cl_Next := cl_Next c + 1\<rparr>))"

definition cl_UpdatePool :: "pool \<Rightarrow> cluster \<Rightarrow> kerr option \<times> cluster" where
  "cl_UpdatePool p c =
     (case guarded po_Meta (cl_Pools c) (po_Meta p) of
        Inl e \<Rightarrow> (Some e, c)
      | Inr q \<Rightarrow>
          (None, c\<lparr>cl_Pools := putObj po_Meta (q\<lparr>po_Meta := writeMeta (cl_Next c) (po_Meta q) (po_Meta p), po_Spec := po_Spec p\<rparr>) (cl_Pools c),
                   cl_Next := cl_Next c + 1\<rparr>))"

definition cl_UpdatePoolStatus :: "pool \<Rightarrow> cluster \<Rightarrow> kerr option \<times> cluster" where
  "cl_UpdatePoolStatus p c =
     (case guarded po_Meta (cl_Pools c) (po_Meta p) of
        Inl e \<Rightarrow> (Some e, c)
      | Inr q \<Rightarrow>
          (None, c\<lparr>cl_Pools := putObj po_Meta (q\<lparr>po_Meta := (po_Meta q)\<lparr>o_Version := cl_Next c\<rparr>, po_Status := po_Status p\<rparr>) (cl_Pools c),
                   cl_Next := cl_Next c + 1\<rparr>))"

definition clusterKube :: "cluster kube" where
  "clusterKube = \<lparr>
     kc_GetSandbox = (\<lambda>nm c. getObj sbx_Meta (cl_Boxes c) nm),
     kc_ListSandboxes = (\<lambda>ns sel c. Inr (listObj sbx_Meta (cl_Boxes c) ns sel)),
     kc_CreateSandbox = cl_CreateSandbox, kc_DeleteSandbox = cl_DeleteSandbox,
     kc_UpdateSandbox = cl_UpdateSandbox, kc_UpdateSandboxStatus = cl_UpdateSandboxStatus,
     kc_GetTemplate = (\<lambda>nm c. getObj tp_Meta (cl_Tpls c) nm),
     kc_ListTemplates = (\<lambda>ns c. Inr (listObj tp_Meta (cl_Tpls c) ns [])),
     kc_UpdateTemplateStatus = cl_UpdateTemplateStatus,
     kc_GetPool = (\<lambda>nm c. getObj po_Meta (cl_Pools c) nm),
     kc_CreatePool = cl_CreatePool, kc_UpdatePool = cl_UpdatePool, kc_UpdatePoolStatus = cl_UpdatePoolStatus,
     kc_GetPod = (\<lambda>nm c. getObj pod_Meta (cl_Pods c) nm),
     kc_ListPods = (\<lambda>ns sel c. Inr (listObj pod_Meta (cl_Pods c) ns sel)),
     kc_CreatePod = cl_CreatePod, kc_UpdatePod = cl_UpdatePod, kc_DeletePod = cl_DeletePod,
     kc_GetPVC = (\<lambda>nm c. case map_of (cl_PVCs c) nm of None \<Rightarrow> Inl NotFound | Some m \<Rightarrow> Inr m)\<rparr>"

definition clPods :: "cluster \<Rightarrow> key \<Rightarrow> pod option" where
  "clPods c = held pod_Meta (cl_Pods c)"

definition clBoxes :: "cluster \<Rightarrow> key \<Rightarrow> sandbox option" where
  "clBoxes c = held sbx_Meta (cl_Boxes c)"

text \<open>An execd that accepts every bind and reports the same tier for every pod.\<close>

definition agreeable :: "tier \<Rightarrow> cluster execd_api" where
  "agreeable t = \<lparr>
     ex_Bind = (\<lambda>r q c. (Inr \<lparr>bs_SandboxID = br_SandboxID q, bs_IsolationTier = t, bs_BoundAt = 0, bs_ExpiresAt = None, bs_BwrapArgs = []\<rparr>, c)),
     ex_Unbind = (\<lambda>r c. (None, c)),
     ex_Probe = (\<lambda>r c. Inr (t, []))\<rparr>"

lemma held_put: "held mt (putObj mt r xs) = (held mt xs)(metaKey (mt r) \<mapsto> r)"
proof
  fix nm
  show "held mt (putObj mt r xs) nm = ((held mt xs)(metaKey (mt r) \<mapsto> r)) nm"
    by (induction xs) (auto simp: held_def putObj_def)
qed

lemma held_drop: "held mt (dropObj mt nm xs) = (held mt xs)(nm := None)"
proof
  fix n
  show "held mt (dropObj mt nm xs) n = ((held mt xs)(nm := None)) n"
    by (induction xs) (auto simp: held_def dropObj_def)
qed

lemma held_key: "held mt xs nm = Some x \<Longrightarrow> metaKey (mt x) = nm"
  by (auto simp: held_def find_Some_iff)

lemma keys_metaKey: "podKey p = metaKey (pod_Meta p)" "sbxKey s = metaKey (sbx_Meta s)"
  by (simp_all add: podKey_def sbxKey_def metaKey_def)

lemma metaKey_kept [simp]: "metaKey (writeMeta v old new) = metaKey old" "metaKey (m\<lparr>o_Version := v\<rparr>) = metaKey m"
  by (simp_all add: metaKey_def writeMeta_def)

lemma guarded_Inr:
  assumes "guarded mt xs m = Inr q"
  shows "held mt xs (metaKey m) = Some q" "o_Version (mt q) = o_Version m" "metaKey (mt q) = metaKey m"
  using assms by (auto simp: guarded_def split: option.splits if_splits dest: held_key)

lemma getObj_Inr: "getObj mt xs nm = Inr x \<Longrightarrow> held mt xs nm = Some x \<and> metaKey (mt x) = nm"
  by (auto simp: getObj_def split: option.splits dest: held_key)

lemma cluster_update_pod:
  assumes "cl_UpdatePod p k = (e, k')"
  shows "(e \<noteq> None \<and> clPods k' = clPods k) \<or> (e \<noteq> Some Conflict \<and> e \<noteq> Some NotFound \<and> podWritten (clPods k) p (clPods k'))"
proof (cases "guarded pod_Meta (cl_Pods k) (pod_Meta p)")
  case (Inl x)
  then show ?thesis using assms by (auto simp: cl_UpdatePod_def)
next
  case (Inr q)
  let ?r = "q\<lparr>pod_Meta := writeMeta (cl_Next k) (pod_Meta q) (pod_Meta p)\<rparr>"
  have "clPods k' = (clPods k)(podKey p \<mapsto> ?r)" "e = None"
    using assms Inr guarded_Inr(3) [OF Inr] by (auto simp: cl_UpdatePod_def clPods_def held_put keys_metaKey)
  moreover have "o_Labels (pod_Meta ?r) = o_Labels (pod_Meta p)" "o_Owner (pod_Meta ?r) = o_Owner (pod_Meta p)"
    by (simp_all add: writeMeta_def)
  ultimately show ?thesis
    using guarded_Inr(1,2) [OF Inr] by (auto simp: podWritten_def clPods_def keys_metaKey)
qed

lemma cluster_update_status:
  assumes "cl_UpdateSandboxStatus s k = (e, k')"
  shows "(e \<noteq> None \<and> clBoxes k' = clBoxes k) \<or> (e \<noteq> Some Conflict \<and> statusWritten (clBoxes k) s (clBoxes k'))"
proof (cases "guarded sbx_Meta (cl_Boxes k) (sbx_Meta s)")
  case (Inl x)
  then show ?thesis using assms by (auto simp: cl_UpdateSandboxStatus_def)
next
  case (Inr q)
  then show ?thesis using assms guarded_Inr [OF Inr]
    by (auto simp: cl_UpdateSandboxStatus_def statusWritten_def clBoxes_def held_put keys_metaKey intro!: exI)
qed

lemma cluster_update_sandbox:
  assumes "cl_UpdateSandbox s k = (r, k')"
  shows "(\<exists>e. r = Inl e \<and> clBoxes k' = clBoxes k)
    \<or> (\<exists>q. r = Inr q \<and> boxWritten (clBoxes k) s (clBoxes k') \<and> sbxKey q = sbxKey s \<and> o_Labels (sbx_Meta q) = o_Labels (sbx_Meta s)
          \<and> sbx_Spec q = sbx_Spec s \<and> o_Finalizers (sbx_Meta q) = o_Finalizers (sbx_Meta s) \<and> currentBox (clBoxes k') q)"
proof (cases "guarded sbx_Meta (cl_Boxes k) (sbx_Meta s)")
  case (Inl x)
  then have "r = Inl x \<and> k' = k" using assms by (simp add: cl_UpdateSandbox_def)
  then show ?thesis by blast
next
  case (Inr q0)
  let ?r = "q0\<lparr>sbx_Meta := writeMeta (cl_Next k) (sbx_Meta q0) (sbx_Meta s), sbx_Spec := sbx_Spec s\<rparr>"
  have "clBoxes k' = (clBoxes k)(sbxKey s := None) \<or> clBoxes k' = (clBoxes k)(sbxKey s \<mapsto> ?r)" "r = Inr ?r"
    using assms Inr guarded_Inr(3) [OF Inr]
    by (auto simp: cl_UpdateSandbox_def Let_def clBoxes_def held_put held_drop keys_metaKey)
  moreover have "o_Finalizers (sbx_Meta ?r) = o_Finalizers (sbx_Meta s)" "o_Labels (sbx_Meta ?r) = o_Labels (sbx_Meta s)"
    by (simp_all add: writeMeta_def)
  moreover have "sbxKey ?r = sbxKey s" using guarded_Inr(3) [OF Inr] by (simp add: keys_metaKey)
  ultimately show ?thesis
    using guarded_Inr [OF Inr] by (auto simp: boxWritten_def currentBox_def clBoxes_def keys_metaKey)
qed

lemma cluster_create_pod:
  assumes "cl_CreatePod p k = (r, k')"
  shows "(\<exists>e. r = Inl e \<and> clPods k' = clPods k)
    \<or> (\<exists>q. r = Inr q \<and> clPods k (podKey q) = None \<and> clPods k' = (clPods k)(podKey q \<mapsto> q)
         \<and> o_Labels (pod_Meta q) = o_Labels (pod_Meta p) \<and> o_Owner (pod_Meta q) = o_Owner (pod_Meta p))"
  using assms
  by (auto simp: cl_CreatePod_def Let_def clPods_def held_put keys_metaKey newMeta_def split: if_splits)

lemma clusterKube_ops [simp]:
  "kc_GetPod clusterKube nm k = getObj pod_Meta (cl_Pods k) nm" "kc_GetSandbox clusterKube nm k = getObj sbx_Meta (cl_Boxes k) nm"
  "kc_GetTemplate clusterKube nm k = getObj tp_Meta (cl_Tpls k) nm" "kc_GetPool clusterKube nm k = getObj po_Meta (cl_Pools k) nm"
  "kc_ListPods clusterKube ns sel k = Inr (listObj pod_Meta (cl_Pods k) ns sel)"
  "kc_CreatePod clusterKube p k = cl_CreatePod p k" "kc_UpdatePod clusterKube p k = cl_UpdatePod p k"
  "kc_DeletePod clusterKube p k = cl_DeletePod p k" "kc_UpdateSandbox clusterKube s k = cl_UpdateSandbox s k"
  "kc_UpdateSandboxStatus clusterKube s k = cl_UpdateSandboxStatus s k" "kc_CreateSandbox clusterKube s k = cl_CreateSandbox s k"
  "kc_UpdatePoolStatus clusterKube pl k = cl_UpdatePoolStatus pl k"
  by (simp_all add: clusterKube_def)

lemma cluster_frames:
  "clBoxes (snd (cl_UpdatePod p k)) = clBoxes k" "clBoxes (snd (cl_CreatePod p k)) = clBoxes k"
  "clBoxes (snd (cl_DeletePod p k)) = clBoxes k" "clPods (snd (cl_UpdateSandboxStatus s k)) = clPods k"
  "clPods (snd (cl_UpdateSandbox s k)) = clPods k" "clPods (snd (cl_UpdatePoolStatus pl k)) = clPods k"
  by (simp_all add: clPods_def clBoxes_def cl_UpdatePod_def cl_CreatePod_def cl_DeletePod_def cl_UpdateSandboxStatus_def
      cl_UpdateSandbox_def cl_UpdatePoolStatus_def Let_def split: sum.splits option.splits)

lemma cluster_reads:
  "getObj pod_Meta (cl_Pods k) nm = Inr p \<Longrightarrow> podKey p = nm \<and> currentPod (clPods k) p"
  "p \<in> set (listObj pod_Meta (cl_Pods k) ns sel) \<Longrightarrow>
     fst (podKey p) = ns \<and> matchLabels sel (o_Labels (pod_Meta p)) \<and> currentPod (clPods k) p"
  by (auto simp: listObj_def currentPod_def clPods_def keys_metaKey dest!: getObj_Inr) (simp add: metaKey_def)

lemma cluster_delete_pod:
  "cl_DeletePod p k = (e, k') \<Longrightarrow>
     (e \<noteq> None \<and> (e = Some NotFound \<longrightarrow> podGone (clPods k) (podKey p)) \<and> clPods k' = clPods k) \<or> podRemoved (clPods k) p (clPods k')"
  by (auto simp: cl_DeletePod_def clPods_def podGone_def podRemoved_def held_drop split: option.splits)

text \<open>A generated name is always free, and reads are never behind.\<close>

lemma unused_name: "held mt xs (ns, g @ unusedSuffix mt xs) = None"
proof -
  have "length (o_Name (mt x)) \<le> sum_list (map (\<lambda>x. length (o_Name (mt x))) xs)" if "x \<in> set xs" for x
    using that by (simp add: member_le_sum_list)
  then have "x \<in> set xs \<Longrightarrow> o_Name (mt x) \<noteq> g @ unusedSuffix mt xs" for x
    by (auto simp: unusedSuffix_def dest!: arg_cong [of _ _ length]) fastforce
  then show ?thesis by (auto simp: held_def find_None_iff metaKey_def)
qed

lemma cluster_creates: "o_Name (pod_Meta p) = [] \<Longrightarrow> fst (kc_CreatePod clusterKube p k) \<noteq> Inl e"
  by (simp add: clusterKube_def cl_CreatePod_def Let_def newMeta_def podKey_def unused_name)

lemma finite_clPods: "finite (dom (clPods c))"
proof -
  have "dom (clPods c) \<subseteq> set (map podKey (cl_Pods c))"
    by (auto simp: clPods_def held_def find_Some_iff keys_metaKey in_set_conv_nth) (metis (no_types) image_eqI nth_mem)
  then show ?thesis by (rule finite_subset) simp
qed

interpretation cl: api_laws clusterKube clPods clBoxes
proof (unfold_locales, goal_cases)
  case (1 ns sel k ps p)
  then show ?case using cluster_reads(2) by auto
next
  case (2 nm k p)
  then show ?case using cluster_reads(1) by simp
next
  case (3 nm k s)
  then show ?case by (auto simp: keys_metaKey currentBox_def clBoxes_def dest!: getObj_Inr)
next
  case (4 nm k t)
  then show ?case by (auto simp: metaKey_def dest: getObj_Inr)
next
  case (5 p k e k')
  then show ?case using cluster_update_pod by simp
next
  case (6 p k r k')
  then show ?case using cluster_create_pod [of p k r k'] unfolding podCreated_def clusterKube_ops by blast
next
  case (7 p k q k')
  then show ?case using cluster_create_pod [of p k "Inr q" k'] by auto
next
  case (8 p k e k')
  then show ?case using cluster_delete_pod by simp
next
  case (12 s k e k')
  then show ?case using cluster_update_status by simp
next
  case (13 s k r k')
  then show ?case using cluster_update_sandbox [of s k r k'] by auto
next
  case (14 s k q k')
  then show ?case using cluster_update_sandbox [of s k "Inr q" k'] by auto
qed (simp_all add: cluster_frames)

interpretation clw: world_laws clusterKube clPods clBoxes "agreeable t"
  by unfold_locales (simp_all add: agreeable_def)

end
