(* ===== verification/Pool.thy ===== *)
theory Pool
  imports Template_Admission Kube
begin

text \<open>
  The warm-pool controller (\<open>pkg/controller/pool_controller.go\<close>): it sorts a pool's pods by what
  should become of them, measures the isolation of those that are ready, deletes, creates and trims,
  and publishes the counts. Every call to the API server passes the world on.
\<close>

definition poolResync :: int where "poolResync = 10 * second"

text \<open>\<open>Time.Sub\<close> saturates.\<close>

definition subTime :: "int \<Rightarrow> int \<Rightarrow> int" where
  "subTime a b = max (- (2 ^ 63)) (min (2 ^ 63 - 1) (a - b))"

text \<open>The reconciler's fields; the prober may be absent, and the tokens it mints are numbered.\<close>

record 'k pool_reconciler =
  pr_Kube :: "'k kube"
  pr_Render :: render
  pr_Prober :: "'k execd_api option"
  pr_NewToken :: "nat \<Rightarrow> string"
  pr_Now :: int

definition podRef :: "pod \<Rightarrow> pod_ref" where
  "podRef p = \<lparr>pr_Namespace = o_Namespace (pod_Meta p), pr_Name = o_Name (pod_Meta p), pr_IP = pod_PodIP p, pr_Token = PodToken p\<rparr>"

record pool_state =
  pst_idleCurrent :: "pod list"
  pst_pending :: "pod list"
  pst_stale :: "pod list"
  pst_stuck :: "pod list"
  pst_expired :: "pod list"
  pst_orphans :: "pod list"
  pst_bound :: int
  pst_byTier :: "string \<rightharpoonup> int"

definition emptyState :: pool_state where
  "emptyState = \<lparr>pst_idleCurrent = [], pst_pending = [], pst_stale = [], pst_stuck = [], pst_expired = [], pst_orphans = [],
     pst_bound = 0, pst_byTier = Map.empty\<rparr>"

section \<open>Classification\<close>

definition sandboxMissing :: "'k kube \<Rightarrow> pod \<Rightarrow> 'k \<Rightarrow> bool" where
  "sandboxMissing kc p k =
     (let sid = podLabel p LabelSandboxID in
      if sid = [] then False else kc_GetSandbox kc (o_Namespace (pod_Meta p), sid) k = Inl NotFound)"

text \<open>A measurement is returned with the pod as it now stands: the labelled copy if it could be saved.\<close>

definition measure_pod :: "'k pool_reconciler \<Rightarrow> pod \<Rightarrow> 'k \<Rightarrow> (string, tier) result \<times> pod \<times> 'k" where
  "measure_pod r p k =
     (case pr_Prober r of
        None \<Rightarrow> (Inl ''no Pod IP or no prober configured'', p, k)
      | Some pb \<Rightarrow>
          if pod_PodIP p = [] then (Inl ''no Pod IP or no prober configured'', p, k)
          else (case ex_Probe pb (podRef p) k of
             Inl e \<Rightarrow> (Inl e, p, k)
           | Inr (tier, reason) \<Rightarrow>
               let m = pod_Meta p;
                   patched = p\<lparr>pod_Meta := m\<lparr>o_Labels := (o_Labels m)(LabelIsolationTier \<mapsto> tier),
                                            o_Annotations := (o_Annotations m)(AnnotationTierProbe \<mapsto> reason)\<rparr>\<rparr>
               in (case kc_UpdatePod (pr_Kube r) patched k of
                     (None, k') \<Rightarrow> (Inr tier, patched, k')
                   | (Some e, k') \<Rightarrow> (Inr tier, p, k'))))"

definition notReadyTimeout :: "pool \<Rightarrow> int" where
  "notReadyTimeout pl =
     (let t = seconds (pl_NotReadyTimeoutSeconds (po_Spec pl)) in if t \<le> 0 then 300 * second else t)"

definition bumpTier :: "string \<Rightarrow> (string \<rightharpoonup> int) \<Rightarrow> (string \<rightharpoonup> int)" where
  "bumpTier t m = m(t \<mapsto> wrap32 ((case m t of None \<Rightarrow> 0 | Some n \<Rightarrow> n) + 1))"

text \<open>One iteration of the loop over the pods.\<close>

definition classify1 ::
    "'k pool_reconciler \<Rightarrow> pool \<Rightarrow> tmpl \<Rightarrow> string \<Rightarrow> pod \<Rightarrow> pool_state \<times> 'k \<Rightarrow> pool_state \<times> 'k" where
  "classify1 r pl t hash p stk =
     (case stk of (st, k) \<Rightarrow>
       (let idleTTL = seconds (pl_IdleTTLSeconds (po_Spec pl));
            age = subTime (pr_Now r) (o_Created (pod_Meta p)) in
        if o_Deleting (pod_Meta p) then (st, k)
        else if podLabel p LabelState = StateBound then
          (let st1 = st\<lparr>pst_bound := pst_bound st + 1\<rparr> in
           if sandboxMissing (pr_Kube r) p k then (st1\<lparr>pst_orphans := pst_orphans st1 @ [p]\<rparr>, k) else (st1, k))
        else if podLabel p LabelState = StateDraining then (st, k)
        else if pod_Phase p = ''Failed'' \<or> pod_Phase p = ''Succeeded'' then (st\<lparr>pst_stuck := pst_stuck st @ [p]\<rparr>, k)
        else if \<not> podReady p then
          (if age > notReadyTimeout pl then (st\<lparr>pst_stuck := pst_stuck st @ [p]\<rparr>, k)
           else (st\<lparr>pst_pending := pst_pending st @ [p]\<rparr>, k))
        else if podLabel p LabelTemplateHash \<noteq> hash then (st\<lparr>pst_stale := pst_stale st @ [p]\<rparr>, k)
        else if idleTTL > 0 \<and> age > idleTTL then (st\<lparr>pst_expired := pst_expired st @ [p]\<rparr>, k)
        else if podLabel p LabelIsolationTier = [] then
          (case measure_pod r p k of
             (Inl e, p', k') \<Rightarrow> (st\<lparr>pst_pending := pst_pending st @ [p']\<rparr>, k')
           | (Inr tier, p', k') \<Rightarrow>
               if \<not> AtLeast tier (RequiredIsolation (tp_Spec t)) then (st\<lparr>pst_stuck := pst_stuck st @ [p']\<rparr>, k')
               else (st\<lparr>pst_byTier := bumpTier tier (pst_byTier st), pst_idleCurrent := pst_idleCurrent st @ [p']\<rparr>, k'))
        else (st\<lparr>pst_byTier := bumpTier (podLabel p LabelIsolationTier) (pst_byTier st),
                 pst_idleCurrent := pst_idleCurrent st @ [p]\<rparr>, k)))"

definition classify ::
    "'k pool_reconciler \<Rightarrow> pool \<Rightarrow> tmpl \<Rightarrow> string \<Rightarrow> pod list \<Rightarrow> 'k \<Rightarrow> pool_state \<times> 'k" where
  "classify r pl t hash ps k = fold (classify1 r pl t hash) ps (emptyState, k)"

section \<open>The reconcile\<close>

definition desiredReplicas :: "pool \<Rightarrow> int" where
  "desiredReplicas pl =
     (let s = po_Spec pl;
          w0 = pl_Replicas s;
          w1 = (if w0 < pl_MinReplicas s then pl_MinReplicas s else w0);
          w2 = (if pl_MaxReplicas s > 0 \<and> w1 > pl_MaxReplicas s then pl_MaxReplicas s else w1)
      in if w2 < 0 then 0 else w2)"

definition publishStatus :: "'k kube \<Rightarrow> pool \<Rightarrow> pool_state \<Rightarrow> string \<Rightarrow> int \<Rightarrow> 'k \<Rightarrow> outcome \<times> 'k" where
  "publishStatus kc pl st hash requeue k =
     (case kc_UpdatePoolStatus kc
             (pl\<lparr>po_Status := (po_Status pl)\<lparr>pt_Idle := wrap32 (int (length (pst_idleCurrent st))), pt_Bound := wrap32 (pst_bound st),
                pt_Stale := wrap32 (int (length (pst_stale st))), pt_NotReady := wrap32 (int (length (pst_pending st))),
                pt_IdleByTier := pst_byTier st, pt_TemplateHash := hash\<rparr>\<rparr>) k of
        (Some e, k') \<Rightarrow> (requeueOnConflict (Some e), k')
      | (None, k') \<Rightarrow> (Requeue requeue, k'))"

text \<open>Deletions are best effort: their errors are dropped.\<close>

definition deletePods :: "'k kube \<Rightarrow> pod list \<Rightarrow> 'k \<Rightarrow> 'k" where
  "deletePods kc ps k = fold (\<lambda>p k. snd (kc_DeletePod kc p k)) ps k"

text \<open>The loop that creates \<open>n\<close> warm pods; the first failing creation ends it.\<close>

fun createWarm :: "'k pool_reconciler \<Rightarrow> pool \<Rightarrow> tmpl \<Rightarrow> nat \<Rightarrow> nat \<Rightarrow> 'k \<Rightarrow> (string, unit) result \<times> 'k" where
  "createWarm r pl t i 0 k = (Inr (), k)"
| "createWarm r pl t i (Suc n) k =
     (let pod = BuildPod (pr_Render r) t (o_Name (po_Meta pl)) (pr_NewToken r i) in
      (case SetControllerReference ''SandboxPool'' (po_Meta pl) (pod_Meta pod) of
         Inl e \<Rightarrow> (Inl e, k)
       | Inr m \<Rightarrow>
           (case kc_CreatePod (pr_Kube r) (pod\<lparr>pod_Meta := m\<rparr>) k of
              (Inl e, k') \<Rightarrow> (Inr (), k')
            | (Inr q, k') \<Rightarrow> createWarm r pl t (Suc i) n k')))"

definition surgeOf :: "pool \<Rightarrow> nat" where
  "surgeOf pl = (if pl_MaxSurge (po_Spec pl) \<le> 0 then 3 else nat (pl_MaxSurge (po_Spec pl)))"

text \<open>The pods a pass retires before it creates, and those it trims afterwards.\<close>

definition retired :: "pool \<Rightarrow> pool_state \<Rightarrow> pod list" where
  "retired pl st = take (surgeOf pl) (pst_stale st) @ pst_expired st @ pst_stuck st @ pst_orphans st"

definition missing :: "pool \<Rightarrow> pool_state \<Rightarrow> nat" where
  "missing pl st = nat (desiredReplicas pl - int (length (pst_idleCurrent st) + length (pst_pending st)))"

definition trimmed :: "pool \<Rightarrow> pool_state \<Rightarrow> pod list" where
  "trimmed pl st = take (nat (int (length (pst_idleCurrent st)) - desiredReplicas pl)) (pst_idleCurrent st)"

definition PoolReconcile :: "'k pool_reconciler \<Rightarrow> key \<Rightarrow> 'k \<Rightarrow> outcome \<times> 'k" where
  "PoolReconcile r nm k =
     (let kc = pr_Kube r in
      case kc_GetPool kc nm k of
        Inl e \<Rightarrow> ((if e = NotFound then Done else Failed e), k)
      | Inr pl \<Rightarrow>
          if o_Deleting (po_Meta pl) then (Done, k)
          else (case kc_GetTemplate kc (o_Namespace (po_Meta pl), pl_TemplateRef (po_Spec pl)) k of
             Inl e \<Rightarrow> ((if e = NotFound then Requeue poolResync else Failed e), k)
           | Inr t \<Rightarrow>
               let hash = TemplateHash (pr_Render r) t in
               if tt_Admission (tp_Status t) \<noteq> AdmissionApproved then publishStatus kc pl emptyState hash poolResync k
               else (case kc_ListPods kc (o_Namespace (po_Meta pl)) [(LabelPool, o_Name (po_Meta pl))] k of
                  Inl e \<Rightarrow> (Failed e, k)
                | Inr ps \<Rightarrow>
                    (case classify r pl t hash ps k of
                       (st, k1) \<Rightarrow>
                         (case createWarm r pl t 0 (missing pl st) (deletePods kc (retired pl st) k1) of
                            (Inl e, k2) \<Rightarrow> (Failed (KErr e), k2)
                          | (Inr u, k2) \<Rightarrow> publishStatus kc pl st hash poolResync (deletePods kc (trimmed pl st) k2))))))"

section \<open>What a pass may delete\<close>

text \<open>A pod on one of the lists is a pod of the namespace as it was read, up to the tier it was just given.\<close>

definition sameSlot :: "pod \<Rightarrow> pod \<Rightarrow> bool" where
  "sameSlot p q \<longleftrightarrow> podKey p = podKey q \<and> podLabel p LabelState = podLabel q LabelState"

lemma sameSlot_refl [simp]: "sameSlot p p" by (simp add: sameSlot_def)

lemma measure_same: "measure_pod r p k = (res, p', k') \<Longrightarrow> sameSlot p p'"
  by (auto simp: measure_pod_def Let_def sameSlot_def podKey_def podLabel_def lbl_def
      split: option.splits if_splits sum.splits prod.splits)

lemma measure_world:
  "measure_pod r p k = (res, p', k') \<Longrightarrow>
     k' = k \<or> (\<exists>q e. kc_UpdatePod (pr_Kube r) q k = (e, k') \<and> podKey q = podKey p \<and> o_Version (pod_Meta q) = o_Version (pod_Meta p))"
  unfolding measure_pod_def Let_def
  by (auto split: option.splits if_splits sum.splits prod.splits simp: podKey_def)

definition deletable :: "pod list \<Rightarrow> pod \<Rightarrow> bool" where
  "deletable ps p \<longleftrightarrow> (\<exists>q \<in> set ps. sameSlot q p \<and> podLabel q LabelState \<noteq> StateBound)"

definition listsOk :: "'k pool_reconciler \<Rightarrow> ('k \<Rightarrow> bool) \<Rightarrow> pod list \<Rightarrow> pool_state \<Rightarrow> bool" where
  "listsOk r W ps st \<longleftrightarrow>
     (\<forall>p \<in> set (pst_idleCurrent st @ pst_stale st @ pst_expired st @ pst_stuck st). deletable ps p)
     \<and> (\<forall>p \<in> set (pst_orphans st). p \<in> set ps \<and> (\<exists>k. W k \<and> sandboxMissing (pr_Kube r) p k))"

lemma classify1_lists:
  assumes "listsOk r W ps st" "p \<in> set ps" "W k" "classify1 r pl t hash p (st, k) = (st', k')"
  shows "listsOk r W ps st'"
proof (cases "podLabel p LabelState = StateBound")
  case True
  then show ?thesis
    using assms unfolding classify1_def Let_def listsOk_def by (auto split: if_splits)
next
  case False
  have d: "sameSlot p q \<Longrightarrow> deletable ps q" for q using False assms(2) unfolding deletable_def by blast
  note dp = d [OF sameSlot_refl]
  show ?thesis
    using assms(1,4) False dp unfolding classify1_def Let_def listsOk_def
    by (auto split: if_splits prod.splits sum.splits dest!: measure_same intro: d)
qed

lemma classify_lists:
  assumes "\<And>p st k. p \<in> set ps \<Longrightarrow> W k \<Longrightarrow> W (snd (classify1 r pl t hash p (st, k)))" "W k"
  shows "listsOk r W ps (fst (classify r pl t hash ps k)) \<and> W (snd (classify r pl t hash ps k))"
proof -
  have "set qs \<subseteq> set ps \<Longrightarrow> listsOk r W ps st \<Longrightarrow> W k \<Longrightarrow>
    listsOk r W ps (fst (fold (classify1 r pl t hash) qs (st, k))) \<and> W (snd (fold (classify1 r pl t hash) qs (st, k)))" for qs st k
  proof (induction qs arbitrary: st k)
    case (Cons q qs)
    obtain st' k' where c: "classify1 r pl t hash q (st, k) = (st', k')" by force
    moreover have "W k'" using assms(1) [of q k st] Cons.prems c by simp
    ultimately show ?case using Cons classify1_lists [of r W ps st q k pl t hash st' k'] by simp
  qed simp
  moreover have "listsOk r W ps emptyState" by (simp add: listsOk_def emptyState_def)
  ultimately show ?thesis using assms(2) unfolding classify_def by blast
qed

text \<open>Reads that are not behind: the listed pods are those the server holds, and a sandbox is reported
  missing only when it is.\<close>

definition freshReads ::
    "'k kube \<Rightarrow> ('k \<Rightarrow> key \<Rightarrow> pod option) \<Rightarrow> ('k \<Rightarrow> key \<Rightarrow> sandbox option) \<Rightarrow> 'k \<Rightarrow> bool" where
  "freshReads kc pods boxes k \<longleftrightarrow>
     (\<forall>ns sel ps. kc_ListPods kc ns sel k = Inr ps \<longrightarrow> (\<forall>q \<in> set ps. pods k (podKey q) = Some q))
     \<and> (\<forall>nm k'. kc_GetSandbox kc nm k' = Inl NotFound \<longrightarrow> boxes k' nm = None)"

lemma publishStatus_world: "\<exists>x. snd (publishStatus kc pl st hash requeue k) = snd (kc_UpdatePoolStatus kc x k)"
  unfolding publishStatus_def by (auto split: prod.splits option.splits) (metis snd_conv)+

context api_laws
begin

text \<open>The world keeps a pod as long as no deletion names its key and no update its version.\<close>

definition kept :: "key \<Rightarrow> pod \<Rightarrow> 'k \<Rightarrow> bool" where
  "kept nm p k \<longleftrightarrow> pods k nm = Some p"

lemma delete_keeps:
  assumes "kept nm p k" "podKey q \<noteq> nm"
  shows "kept nm p (snd (kc_DeletePod kc q k))"
proof -
  obtain e k' where d: "kc_DeletePod kc q k = (e, k')" by force
  then show ?thesis using delete_pod [OF d] assms unfolding kept_def podRemoved_def by auto
qed

lemma deletePods_keep:
  "kept nm p k \<Longrightarrow> \<forall>q \<in> set qs. podKey q \<noteq> nm \<Longrightarrow> kept nm p (deletePods kc qs k)"
  unfolding deletePods_def by (induction qs arbitrary: k) (auto intro: delete_keeps)

lemma create_keeps:
  assumes "kept nm p k" "kc_CreatePod kc q k = (res, k')"
  shows "kept nm p k'"
  using create_pod [OF assms(2)] assms(1) unfolding kept_def podCreated_def by auto

lemma createWarm_keeps:
  "pr_Kube r = kc \<Longrightarrow> kept nm p k \<Longrightarrow> kept nm p (snd (createWarm r pl t i n k))"
proof (induction n arbitrary: i k)
  case (Suc n)
  then show ?case
    by (auto simp: Let_def split: sum.splits prod.splits dest: create_keeps)
qed simp

lemma update_keeps:
  assumes "kept nm p k" "kc_UpdatePod kc q k = (e, k')"
    and "podKey q = nm \<Longrightarrow> o_Version (pod_Meta q) \<noteq> o_Version (pod_Meta p)"
  shows "kept nm p k'"
  using update_pod [OF assms(2)] assms(1,3) unfolding kept_def podWritten_def by auto

lemma measure_keeps:
  assumes "pr_Kube r = kc" "kept nm p k" "podKey q \<noteq> nm" "measure_pod r q k = (res, q', k')"
  shows "kept nm p k'"
  using measure_world [OF assms(4)] assms(1-3) update_keeps by metis

lemma classify1_keeps:
  assumes "pr_Kube r = kc" "kept nm p k" "podKey q = nm \<Longrightarrow> podLabel q LabelState = StateBound"
  shows "kept nm p (snd (classify1 r pl t hash q (st, k)))"
proof (cases "podKey q = nm")
  case True
  then show ?thesis using assms by (auto simp: classify1_def Let_def)
next
  case False
  obtain res q' k' where m: "measure_pod r q k = (res, q', k')" by (metis prod.exhaust)
  have "snd (classify1 r pl t hash q (st, k)) \<in> {k, k'}"
    unfolding classify1_def Let_def using m by (auto split: sum.splits)
  then show ?thesis using measure_keeps [OF assms(1,2) False m] assms(2) by auto
qed

lemma measure_boxes:
  "pr_Kube r = kc \<Longrightarrow> measure_pod r q k = (res, q', k') \<Longrightarrow> boxes k' = boxes k"
  using measure_world pod_frame(1) by (metis snd_conv)

lemma classify1_boxes:
  assumes "pr_Kube r = kc"
  shows "boxes (snd (classify1 r pl t hash q (st, k))) = boxes k"
proof -
  obtain res q' k' where m: "measure_pod r q k = (res, q', k')" by (metis prod.exhaust)
  have "snd (classify1 r pl t hash q (st, k)) \<in> {k, k'}"
    unfolding classify1_def Let_def using m by (auto split: sum.splits)
  then show ?thesis using measure_boxes [OF assms m] by auto
qed

lemma classified_deletions_spare:
  assumes kc: "pr_Kube r = kc" and h: "freshReads kc pods boxes k" and ps: "kc_ListPods kc ns sel k = Inr ps"
    and p: "pods k nm = Some p" "podKey p = nm" "podLabel p LabelState = StateBound" "boxes k (fst nm, podLabel p LabelSandboxID) \<noteq> None"
    and c: "classify r pl t hash ps k = (st, k1)"
  shows "kept nm p k1 \<and> (\<forall>q \<in> set (retired pl st @ trimmed pl st). podKey q \<noteq> nm)"
proof -
  define W where "W k' \<longleftrightarrow> kept nm p k' \<and> boxes k' = boxes k" for k'
  have same: "q \<in> set ps \<Longrightarrow> podKey q = nm \<Longrightarrow> q = p" for q using h ps p(1) unfolding freshReads_def by fastforce
  have "W k" using p(1) by (simp add: W_def kept_def)
  moreover have "q \<in> set ps \<Longrightarrow> W k' \<Longrightarrow> W (snd (classify1 r pl t hash q (st', k')))" for q st' k'
    using classify1_keeps [OF kc, of nm p k' q pl t hash st'] classify1_boxes [OF kc] same p(3) unfolding W_def by metis
  ultimately have l: "listsOk r W ps st" "W k1" using classify_lists [of ps W r pl t hash k] c by auto
  have d: "deletable ps q \<Longrightarrow> podKey q \<noteq> nm" for q
    using same p(3) unfolding deletable_def sameSlot_def by metis
  have "\<not> sandboxMissing kc p k'" if "W k'" for k'
  proof -
    have "kc_GetSandbox kc n k' = Inl NotFound \<Longrightarrow> boxes k n = None" for n
      using that h unfolding freshReads_def W_def by metis
    then show ?thesis using p(2,4) unfolding sandboxMissing_def podKey_def Let_def by auto
  qed
  then have "q \<in> set (pst_orphans st) \<Longrightarrow> podKey q \<noteq> nm" for q
    using l(1) same kc unfolding listsOk_def by metis
  with d l(1) have "\<forall>q \<in> set (retired pl st @ trimmed pl st). podKey q \<noteq> nm"
    unfolding listsOk_def retired_def trimmed_def by (auto dest!: in_set_takeD)
  with l(2) show ?thesis by (simp add: W_def)
qed

lemma publishStatus_pods: "pods (snd (publishStatus kc pl st hash requeue k)) = pods k"
  using publishStatus_world pool_frame by metis

lemma reconcile_spares:
  assumes kc: "pr_Kube r = kc" and h: "freshReads kc pods boxes k"
    and p: "pods k nm = Some p" "podKey p = nm" "podLabel p LabelState = StateBound" "boxes k (fst nm, podLabel p LabelSandboxID) \<noteq> None"
  shows "pods (snd (PoolReconcile r key k)) nm = Some p"
proof -
  have k0: "pods k nm = Some p" by (rule p(1))
  have step: "pods (snd (case createWarm r pl t 0 (missing pl st) (deletePods kc (retired pl st) k1) of
       (Inl e, k2) \<Rightarrow> (Failed (KErr e), k2)
     | (Inr u, k2) \<Rightarrow> publishStatus kc pl st hash poolResync (deletePods kc (trimmed pl st) k2))) nm = Some p"
    if "kc_ListPods kc ns sel k = Inr ps" "classify r pl t hash ps k = (st, k1)" for ns sel ps pl t hash st k1
  proof -
    from classified_deletions_spare [OF kc h that(1) p that(2)]
    have "kept nm p (snd (createWarm r pl t 0 (missing pl st) (deletePods kc (retired pl st) k1)))"
      and tr: "\<forall>q \<in> set (trimmed pl st). podKey q \<noteq> nm"
      using createWarm_keeps [OF kc] deletePods_keep by auto
    then show ?thesis
      using deletePods_keep [of nm p _ "trimmed pl st"]
      by (auto simp: publishStatus_pods kept_def split: prod.splits sum.splits)
  qed
  show ?thesis
    unfolding PoolReconcile_def Let_def kc
    using k0 step publishStatus_pods by (auto split: sum.splits prod.splits)
qed

lemma createWarm_adds:
  assumes "pr_Kube r = kc" "\<And>p k e. o_Name (pod_Meta p) = [] \<Longrightarrow> fst (kc_CreatePod kc p k) \<noteq> Inl e" "o_Namespace (tp_Meta t) = o_Namespace (po_Meta pl)"
    and "finite (dom (pods k))"
  shows "card (dom (pods (snd (createWarm r pl t i n k)))) = card (dom (pods k)) + n"
  using assms(4)
proof (induction n arbitrary: i k)
  case (Suc n)
  define pod where "pod = BuildPod (pr_Render r) t (o_Name (po_Meta pl)) (pr_NewToken r i)"
  have "o_Namespace (pod_Meta pod) = o_Namespace (po_Meta pl)" "o_Owner (pod_Meta pod) = None" "o_Name (pod_Meta pod) = []"
    using assms(3) by (simp_all add: pod_def BuildPod_def Let_def)
  then obtain m where m: "SetControllerReference ''SandboxPool'' (po_Meta pl) (pod_Meta pod) = Inr m" "o_Name m = []"
    by (auto simp: SetControllerReference_def)
  obtain q k' where c: "kc_CreatePod kc (pod\<lparr>pod_Meta := m\<rparr>) k = (Inr q, k')"
    using assms(2) [of "pod\<lparr>pod_Meta := m\<rparr>" k] m(2) by (cases "kc_CreatePod kc (pod\<lparr>pod_Meta := m\<rparr>) k", cases "fst (kc_CreatePod kc (pod\<lparr>pod_Meta := m\<rparr>) k)") auto
  have "podKey q \<notin> dom (pods k)" "dom (pods k') = insert (podKey q) (dom (pods k))"
    using created_pod [OF c] by auto
  then have "card (dom (pods k')) = Suc (card (dom (pods k)))" "finite (dom (pods k'))" using Suc.prems by simp_all
  with Suc.IH [of k' "Suc i"] show ?case
    using m(1) c assms(1) unfolding createWarm.simps Let_def pod_def [symmetric] by simp
qed simp

end

section \<open>Properties of a pass\<close>

text \<open>C18: the pool controller never takes a tenant's pod. When its reads are current, a pass leaves every
  bound pod whose sandbox exists exactly as it was: classification puts such a pod on none of the
  lists that are retired or trimmed, measurements and creations do not touch it.\<close>

theorem pool_spares_bound_pods:
  assumes "api_laws (pr_Kube r) pods boxes" "freshReads (pr_Kube r) pods boxes k"
    and "pods k nm = Some p" "podKey p = nm" "podLabel p LabelState = StateBound" "boxes k (fst nm, podLabel p LabelSandboxID) \<noteq> None"
  shows "pods (snd (PoolReconcile r key k)) nm = Some p"
  using api_laws.reconcile_spares [OF assms(1) refl assms(2-6)] .

text \<open>A pass replaces exactly the shortfall. The target lies between the bounds of the spec; if the
  API server refuses no creation, the number of pods grows by what is missing, and counting what
  was trimmed the pool then holds the target, or what was already starting on top of it.\<close>

lemma pool_replaces_shortfall:
  assumes "api_laws (pr_Kube r) pods boxes" "\<And>p k e. o_Name (pod_Meta p) = [] \<Longrightarrow> fst (kc_CreatePod (pr_Kube r) p k) \<noteq> Inl e"
    and "o_Namespace (tp_Meta t) = o_Namespace (po_Meta pl)" "finite (dom (pods k))"
  shows "card (dom (pods (snd (createWarm r pl t i (missing pl st) k)))) = card (dom (pods k)) + missing pl st
    \<and> int (length (pst_idleCurrent st) - length (trimmed pl st) + length (pst_pending st) + missing pl st)
        = max (desiredReplicas pl) (min (int (length (pst_idleCurrent st))) (desiredReplicas pl) + int (length (pst_pending st)))
    \<and> 0 \<le> desiredReplicas pl \<and> (pl_MaxReplicas (po_Spec pl) > 0 \<longrightarrow> desiredReplicas pl \<le> pl_MaxReplicas (po_Spec pl))
    \<and> (pl_MinReplicas (po_Spec pl) \<le> pl_MaxReplicas (po_Spec pl) \<or> pl_MaxReplicas (po_Spec pl) \<le> 0 \<longrightarrow> pl_MinReplicas (po_Spec pl) \<le> desiredReplicas pl)"
proof -
  have d: "0 \<le> desiredReplicas pl" by (simp add: desiredReplicas_def Let_def)
  have "int (length (pst_idleCurrent st) - length (trimmed pl st) + length (pst_pending st) + missing pl st)
        = max (desiredReplicas pl) (min (int (length (pst_idleCurrent st))) (desiredReplicas pl) + int (length (pst_pending st)))"
    unfolding trimmed_def missing_def length_take using d by linarith
  moreover have "pl_MaxReplicas (po_Spec pl) > 0 \<longrightarrow> desiredReplicas pl \<le> pl_MaxReplicas (po_Spec pl)"
    "pl_MinReplicas (po_Spec pl) \<le> pl_MaxReplicas (po_Spec pl) \<or> pl_MaxReplicas (po_Spec pl) \<le> 0 \<longrightarrow> pl_MinReplicas (po_Spec pl) \<le> desiredReplicas pl"
    by (auto simp: desiredReplicas_def Let_def)
  ultimately show ?thesis using d api_laws.createWarm_adds [OF assms(1) refl assms(2-4)] by blast
qed

section \<open>Concrete passes\<close>

definition demoPool :: "int \<Rightarrow> pool" where
  "demoPool n = \<lparr>po_Meta = demoMeta ''pool1'', po_Spec = \<lparr>pl_TemplateRef = ''py'', pl_Replicas = n, pl_MinReplicas = 0, pl_MaxReplicas = 10,
     pl_NotReadyTimeoutSeconds = 0, pl_IdleTTLSeconds = 0, pl_MaxSurge = 0\<rparr>,
     po_Status = \<lparr>pt_IdleByTier = Map.empty, pt_Idle = 0, pt_Bound = 0, pt_Stale = 0, pt_NotReady = 0, pt_TemplateHash = []\<rparr>\<rparr>"

definition demoPod :: "labels \<Rightarrow> nat \<Rightarrow> pod" where
  "demoPod ls v = \<lparr>pod_Meta = (demoMeta ''pod1'')\<lparr>o_Labels := ls, o_Version := v\<rparr>, pod_Spec = podSpecFor demoRender (demoTpl AdmissionApproved) ''tok'',
     pod_Phase = ''Running'', pod_PodIP = ''10.0.0.1'', pod_Reason = [], pod_Conditions = [(''Ready'', ''True'')]\<rparr>"

definition idleLabels :: labels where
  "idleLabels = [LabelPool \<mapsto> ''pool1'', LabelTemplate \<mapsto> ''py'', LabelTemplateHash \<mapsto> ''h'', LabelIsolationTier \<mapsto> TierUserns, LabelState \<mapsto> StateIdle]"

definition boundLabels :: labels where
  "boundLabels = idleLabels(LabelState \<mapsto> StateBound, LabelSandboxID \<mapsto> ''sb1'')"

definition demoFS :: filesystem_spec where
  "demoFS = \<lparr>fs_Workspace = \<lparr>ws_Path = [], ws_SizeLimit = []\<rparr>, fs_Mounts = [], fs_AllowSystemPaths = [], fs_Hide = []\<rparr>"

definition demoSandbox :: "string \<Rightarrow> sandbox" where
  "demoSandbox ph = \<lparr>sbx_Meta = (demoMeta ''sb1'')\<lparr>o_Finalizers := [FinalizerSandbox]\<rparr>,
     sbx_Spec = \<lparr>ss_TemplateRef = ''py'', ss_TTLSeconds = 60, ss_Filesystem = demoFS, ss_Env = [], ss_SecretRefs = [], ss_Metadata = []\<rparr>,
     sbx_Status = \<lparr>st_Phase = ph, st_PodName = ''pod1'', st_PodIP = [], st_NodeName = [], st_IsolationTier = [], st_ColdStart = False,
       st_Endpoint = [], st_Token = [], st_BoundAt = None, st_ExpiresAt = None, st_Reason = [], st_Ready = False\<rparr>\<rparr>"

definition demoCluster :: "pod \<Rightarrow> string \<Rightarrow> int \<Rightarrow> cluster" where
  "demoCluster p ph n = \<lparr>cl_Pods = [p], cl_Boxes = [demoSandbox ph], cl_Tpls = [demoTpl AdmissionApproved], cl_Pools = [demoPool n],
     cl_PVCs = [], cl_Next = 7\<rparr>"

definition demoPoolR :: "cluster kube \<Rightarrow> cluster pool_reconciler" where
  "demoPoolR kc = \<lparr>pr_Kube = kc, pr_Render = demoRender, pr_Prober = None, pr_NewToken = (\<lambda>_. ''tok''), pr_Now = 0\<rparr>"

lemma fresh_cluster: "freshReads clusterKube clPods clBoxes k"
  by (auto simp: freshReads_def clPods_def clBoxes_def listObj_def keys_metaKey getObj_def split: option.splits)

theorem pool_spares_bound_pods_witness:
  "clPods (snd (PoolReconcile (demoPoolR clusterKube) (''ns1'', ''pool1'') (demoCluster (demoPod boundLabels 3) PhaseRunning 0))) (''ns1'', ''pod1'')
     = Some (demoPod boundLabels 3)"
proof (rule pool_spares_bound_pods [where boxes = clBoxes])
  show "api_laws (pr_Kube (demoPoolR clusterKube)) clPods clBoxes" by (simp add: demoPoolR_def cl.api_laws_axioms)
  show "freshReads (pr_Kube (demoPoolR clusterKube)) clPods clBoxes (demoCluster (demoPod boundLabels 3) PhaseRunning 0)"
    by (simp add: demoPoolR_def fresh_cluster)
  show "podKey (demoPod boundLabels 3) = (''ns1'', ''pod1'')" "podLabel (demoPod boundLabels 3) LabelState = StateBound"
    by (simp_all add: podKey_def demoPod_def demoMeta_def podLabel_def lbl_def boundLabels_def)
  show "clPods (demoCluster (demoPod boundLabels 3) PhaseRunning 0) (''ns1'', ''pod1'') = Some (demoPod boundLabels 3)"
    by (simp add: clPods_def demoCluster_def held_def metaKey_def demoPod_def demoMeta_def)
  have "podLabel (demoPod boundLabels 3) LabelSandboxID = ''sb1''" by (simp add: demoPod_def demoMeta_def podLabel_def lbl_def boundLabels_def)
  then show "clBoxes (demoCluster (demoPod boundLabels 3) PhaseRunning 0) (fst (''ns1'', ''pod1''), podLabel (demoPod boundLabels 3) LabelSandboxID) \<noteq> None"
    by (simp add: clBoxes_def demoCluster_def held_def metaKey_def demoSandbox_def demoMeta_def)
qed

text \<open>A client whose pod list is behind.\<close>

definition laggingKube :: "pod list \<Rightarrow> cluster kube" where
  "laggingKube old = clusterKube\<lparr>kc_ListPods := \<lambda>ns sel c. Inr (listObj pod_Meta old ns sel)\<rparr>"

lemma laggingKube_ops:
  "kc_GetPool (laggingKube old) nm c = getObj po_Meta (cl_Pools c) nm" "kc_GetTemplate (laggingKube old) nm c = getObj tp_Meta (cl_Tpls c) nm"
  "kc_ListPods (laggingKube old) ns sel c = Inr (listObj pod_Meta old ns sel)" "kc_DeletePod (laggingKube old) p c = cl_DeletePod p c"
  "kc_UpdatePoolStatus (laggingKube old) pl c = cl_UpdatePoolStatus pl c"
  by (simp_all add: laggingKube_def clusterKube_def)

lemma demoPod_facts:
  "o_Deleting (pod_Meta (demoPod ls v)) = False" "podReady (demoPod ls v)" "pod_Phase (demoPod ls v) = ''Running''"
  "podLabel (demoPod ls v) x = lbl ls x" "podKey (demoPod ls v) = (''ns1'', ''pod1'')" "o_Version (pod_Meta (demoPod ls v)) = v"
  "o_Labels (pod_Meta (demoPod ls v)) = ls" "o_Namespace (pod_Meta (demoPod ls v)) = ''ns1''" "metaKey (pod_Meta (demoPod ls v)) = (''ns1'', ''pod1'')"
  by (simp_all add: demoPod_def demoMeta_def podReady_def podLabel_def podKey_def metaKey_def)

lemma idle_labels:
  "lbl idleLabels LabelState = StateIdle" "lbl idleLabels LabelTemplateHash = ''h''" "lbl idleLabels LabelIsolationTier = TierUserns"
  "idleLabels LabelPool = Some ''pool1''" "lbl boundLabels LabelSandboxID = ''sb1''" "lbl boundLabels LabelState = StateBound"
  by (simp_all add: idleLabels_def boundLabels_def lbl_def label_defs)

lemma demo_classify:
  "classify r (demoPool n) t ''h'' [demoPod idleLabels v] c =
     (emptyState\<lparr>pst_byTier := bumpTier TierUserns Map.empty, pst_idleCurrent := [demoPod idleLabels v]\<rparr>, c)"
proof -
  have "seconds (pl_IdleTTLSeconds (po_Spec (demoPool n))) = 0" by (simp add: demoPool_def seconds_def wrap64_def)
  moreover have "TierUserns \<noteq> []" by (simp add: TierUserns_def)
  ultimately show ?thesis
    unfolding classify_def fold.simps comp_def id_def classify1_def Let_def
    by (simp add: demoPod_facts idle_labels emptyState_def)
qed

lemma demo_reads:
  "getObj po_Meta [demoPool n] (''ns1'', ''pool1'') = Inr (demoPool n)" "getObj tp_Meta [demoTpl s] (''ns1'', ''py'') = Inr (demoTpl s)"
  "listObj pod_Meta [demoPod idleLabels v] ''ns1'' [(LabelPool, ''pool1'')] = [demoPod idleLabels v]"
  "TemplateHash demoRender t = ''h''" "tt_Admission (tp_Status (demoTpl s)) = s"
  "o_Deleting (po_Meta (demoPool n)) = False" "o_Namespace (po_Meta (demoPool n)) = ''ns1''" "o_Name (po_Meta (demoPool n)) = ''pool1''"
  "pl_TemplateRef (po_Spec (demoPool n)) = ''py''"
  by (simp_all add: getObj_def listObj_def held_def demoPool_def demoTpl_def demoMeta_def demoPod_facts metaKey_def matchLabels_def idle_labels
      TemplateHash_def demoRender_def)

text \<open>Deletion carries no precondition, so a list that is behind costs a tenant its pod. The pod below
  was idle when it was listed, has since been claimed by a sandbox that exists, and the pass trims it
  all the same, although the version it was listed with is no longer the current one.\<close>

lemma lagging_list_deletes_claimed_pod:
  "let c = demoCluster (demoPod boundLabels 3) PhaseRunning 0; kc = laggingKube [demoPod idleLabels 2] in
     clPods c (''ns1'', ''pod1'') = Some (demoPod boundLabels 3)
     \<and> clBoxes c (''ns1'', podLabel (demoPod boundLabels 3) LabelSandboxID) \<noteq> None
     \<and> kc_ListPods kc ''ns1'' [(LabelPool, ''pool1'')] c = Inr [demoPod idleLabels 2] \<and> currentPod (clPods c) (demoPod idleLabels 2)
     \<and> clPods (snd (PoolReconcile (demoPoolR kc) (''ns1'', ''pool1'') c)) (''ns1'', ''pod1'') = None"
proof -
  define c where "c = demoCluster (demoPod boundLabels 3) PhaseRunning 0"
  define kc where "kc = laggingKube [demoPod idleLabels 2]"
  define st where "st = emptyState\<lparr>pst_byTier := bumpTier TierUserns Map.empty, pst_idleCurrent := [demoPod idleLabels 2]\<rparr>"
  have c: "cl_Pods c = [demoPod boundLabels 3]" "cl_Boxes c = [demoSandbox PhaseRunning]" "cl_Tpls c = [demoTpl AdmissionApproved]" "cl_Pools c = [demoPool 0]"
    by (simp_all add: c_def demoCluster_def)
  note ko = laggingKube_ops [of "[demoPod idleLabels 2]", folded kc_def]
  have r: "pr_Kube (demoPoolR kc) = kc" "pr_Render (demoPoolR kc) = demoRender" by (simp_all add: demoPoolR_def)
  have lists: "missing (demoPool 0) st = 0" "retired (demoPool 0) st = []" "trimmed (demoPool 0) st = [demoPod idleLabels 2]"
    by (simp_all add: st_def emptyState_def missing_def retired_def trimmed_def desiredReplicas_def demoPool_def)
  have p1: "snd (PoolReconcile (demoPoolR kc) (''ns1'', ''pool1'') c)
      = snd (publishStatus kc (demoPool 0) st ''h'' poolResync (snd (cl_DeletePod (demoPod idleLabels 2) c)))"
    unfolding PoolReconcile_def Let_def r ko c demo_reads sum.case demo_classify [of _ 0 _ 2, folded st_def] prod.case lists
    by (simp only: deletePods_def fold.simps comp_def id_def createWarm.simps prod.case sum.case simp_thms if_True if_False ko)
  have p2: "clPods (snd (publishStatus kc (demoPool 0) st ''h'' poolResync k)) = clPods k" for k
    using publishStatus_world [of kc "demoPool 0" st "''h''" poolResync] by (metis ko(5) cluster_frames(6))
  have "clPods (snd (cl_DeletePod (demoPod idleLabels 2) c)) (''ns1'', ''pod1'') = None"
    by (simp add: cl_DeletePod_def c held_def demoPod_facts clPods_def dropObj_def)
  then have "clPods (snd (PoolReconcile (demoPoolR kc) (''ns1'', ''pool1'') c)) (''ns1'', ''pod1'') = None" unfolding p1 p2 .
  moreover have "clPods c (''ns1'', ''pod1'') = Some (demoPod boundLabels 3)" by (simp add: clPods_def c held_def demoPod_facts)
  moreover have "clBoxes c (''ns1'', ''sb1'') \<noteq> None"
    by (simp add: clBoxes_def c held_def metaKey_def demoSandbox_def demoMeta_def)
  moreover have "currentPod (clPods c) (demoPod idleLabels 2)"
    using calculation(2) by (simp add: currentPod_def demoPod_facts)
  moreover have "kc_ListPods kc ''ns1'' [(LabelPool, ''pool1'')] c = Inr [demoPod idleLabels 2]" by (simp only: ko demo_reads)
  ultimately show ?thesis unfolding c_def [symmetric] kc_def [symmetric] Let_def demoPod_facts idle_labels by blast
qed

end
