(* ===== verification/Sandbox_Controller.thy ===== *)
theory Sandbox_Controller
  imports Pool
begin

text \<open>
  The sandbox controller (\<open>pkg/controller/sandbox_controller.go\<close>): a sandbox goes from Pending to
  Binding when a pod is claimed or created for it, to Running when execd has accepted its filesystem
  spec, and to Expired or Failed. Each reconcile is one pass of this state machine over the world of
  the API server and of execd. The random order in which candidates are tried, the minted tokens, the
  clock and the text of API errors are fields of the reconciler.
\<close>

record 'k sandbox_reconciler =
  sr_Kube :: "'k kube"
  sr_Render :: render
  sr_Exec :: "'k execd_api"
  sr_EndpointFor :: "(string \<Rightarrow> string) option"
  sr_Now :: int
  sr_NewToken :: string
  sr_NewControlToken :: string
  sr_Shuffle :: "pod list \<Rightarrow> pod list"
  sr_ErrText :: "kerr \<Rightarrow> string"

definition requeueBinding :: int where "requeueBinding = 150 * 1000000"

text \<open>A \<open>metav1.Time\<close> is kept to the second.\<close>

definition metaTime :: "int \<Rightarrow> int" where
  "metaTime t = (t div second) * second"

definition setSbxStatus :: "(sandbox_status \<Rightarrow> sandbox_status) \<Rightarrow> sandbox \<Rightarrow> sandbox" where
  "setSbxStatus f s = s\<lparr>sbx_Status := f (sbx_Status s)\<rparr>"

section \<open>What a sandbox gets\<close>

definition ttlFor :: "sandbox \<Rightarrow> tmpl \<Rightarrow> int" where
  "ttlFor s t =
     (let w0 = ss_TTLSeconds (sbx_Spec s);
          w1 = (if w0 = 0 then ts_DefaultTTLSeconds (tp_Spec t) else w0);
          want = (if w1 = 0 then 1800 else w1);
          mx = ts_MaxTTLSeconds (tp_Spec t)
      in if want < 0 then (if mx > 0 then seconds mx else 0)
         else if mx > 0 \<and> want > mx then seconds mx else seconds want)"

definition filesystemFor :: "sandbox \<Rightarrow> tmpl \<Rightarrow> filesystem_spec" where
  "filesystemFor s t =
     (let f = ss_Filesystem (sbx_Spec s); d = ts_FilesystemDefaults (tp_Spec t);
          p0 = ws_Path (fs_Workspace f);
          p1 = (if p0 = [] then ws_Path (fd_Workspace d) else p0);
          p2 = (if p1 = [] then DefaultWorkspacePath else p1)
      in \<lparr>fs_Workspace = \<lparr>ws_Path = p2, ws_SizeLimit = ws_SizeLimit (fs_Workspace f)\<rparr>,
          fs_Mounts = fs_Mounts f,
          fs_AllowSystemPaths = (if fs_AllowSystemPaths f = [] then fd_AllowSystemPaths d else fs_AllowSystemPaths f),
          fs_Hide = fs_Hide f\<rparr>)"

definition envFor :: "sandbox \<Rightarrow> (string \<rightharpoonup> string) option" where
  "envFor s =
     (if ss_Env (sbx_Spec s) = [] then None
      else Some (fold (\<lambda>e m. m(ev_Name e \<mapsto> ev_Value e)) (ss_Env (sbx_Spec s)) Map.empty))"

section \<open>Leaving the active phases\<close>

definition fail :: "'k sandbox_reconciler \<Rightarrow> sandbox \<Rightarrow> string \<Rightarrow> string \<Rightarrow> 'k \<Rightarrow> outcome \<times> 'k" where
  "fail r s reason msg k =
     (case kc_UpdateSandboxStatus (sr_Kube r)
             (setSbxStatus (\<lambda>x. x\<lparr>st_Phase := PhaseFailed, st_Reason := reason @ '': '' @ msg, st_Token := []\<rparr>) s) k of
        (e, k') \<Rightarrow> (requeueOnConflict e, k'))"

definition deletePod :: "'k sandbox_reconciler \<Rightarrow> sandbox \<Rightarrow> 'k \<Rightarrow> kerr option \<times> 'k" where
  "deletePod r s k =
     (if st_PodName (sbx_Status s) = [] then (None, k)
      else (case kc_GetPod (sr_Kube r) (o_Namespace (sbx_Meta s), st_PodName (sbx_Status s)) k of
         Inl e \<Rightarrow> if e = NotFound then (None, k) else (Some e, k)
       | Inr p \<Rightarrow>
           let k1 = (if pod_PodIP p \<noteq> [] then snd (ex_Unbind (sr_Exec r) (podRef p) k) else k)
           in (case kc_DeletePod (sr_Kube r) p k1 of (e, k2) \<Rightarrow> (IgnoreNotFound e, k2))))"

definition expire :: "'k sandbox_reconciler \<Rightarrow> sandbox \<Rightarrow> string \<Rightarrow> 'k \<Rightarrow> outcome \<times> 'k" where
  "expire r s reason k =
     (case deletePod r s k of
        (Some e, k1) \<Rightarrow> (Failed e, k1)
      | (None, k1) \<Rightarrow>
          (case kc_UpdateSandboxStatus (sr_Kube r)
                  (setSbxStatus (\<lambda>x. x\<lparr>st_Phase := PhaseExpired, st_Reason := reason, st_Token := []\<rparr>) s) k1 of
             (e, k2) \<Rightarrow> (requeueOnConflict e, k2)))"

definition watchExpiry :: "'k sandbox_reconciler \<Rightarrow> sandbox \<Rightarrow> 'k \<Rightarrow> outcome \<times> 'k" where
  "watchExpiry r s k =
     (case st_ExpiresAt (sbx_Status s) of
        None \<Rightarrow> (Done, k)
      | Some t \<Rightarrow>
          let remaining = subTime t (sr_Now r) in
          if remaining > 0 then (Requeue (wrap64 (remaining + second)), k)
          else expire r s ''TTL elapsed'' k)"

definition finalize :: "'k sandbox_reconciler \<Rightarrow> sandbox \<Rightarrow> 'k \<Rightarrow> outcome \<times> 'k" where
  "finalize r s k =
     (case deletePod r s k of
        (Some e, k1) \<Rightarrow> (Failed e, k1)
      | (None, k1) \<Rightarrow>
          (case kc_UpdateSandbox (sr_Kube r)
                  (s\<lparr>sbx_Meta := (sbx_Meta s)\<lparr>o_Finalizers := removeAll FinalizerSandbox (o_Finalizers (sbx_Meta s))\<rparr>\<rparr>) k1 of
             (Inl e, k2) \<Rightarrow> (requeueOnConflict (Some e), k2)
           | (Inr s', k2) \<Rightarrow> (Done, k2)))"

section \<open>Acquiring a pod\<close>

definition template :: "'k sandbox_reconciler \<Rightarrow> sandbox \<Rightarrow> 'k \<Rightarrow> (string, tmpl) result" where
  "template r s k =
     (case kc_GetTemplate (sr_Kube r) (o_Namespace (sbx_Meta s), ss_TemplateRef (sbx_Spec s)) k of
        Inl e \<Rightarrow>
          Inl (if e = NotFound then ''template '' @ Quote (ss_TemplateRef (sbx_Spec s)) @ '' does not exist in namespace '' @ o_Namespace (sbx_Meta s)
               else sr_ErrText r e)
      | Inr t \<Rightarrow> Inr t)"

definition findClaimedPod :: "'k sandbox_reconciler \<Rightarrow> sandbox \<Rightarrow> 'k \<Rightarrow> (kerr, pod option) result" where
  "findClaimedPod r s k =
     (case kc_ListPods (sr_Kube r) (o_Namespace (sbx_Meta s)) [(LabelSandboxID, o_Name (sbx_Meta s))] k of
        Inl e \<Rightarrow> Inl e
      | Inr ps \<Rightarrow> Inr (List.find (\<lambda>p. \<not> o_Deleting (pod_Meta p)) ps))"

text \<open>The labels and the owner that hand a pod to a sandbox.\<close>

definition claimLabels :: "sandbox \<Rightarrow> labels \<Rightarrow> labels" where
  "claimLabels s ls =
     (let l1 = ls(LabelState \<mapsto> StateBound, LabelSandboxID \<mapsto> o_Name (sbx_Meta s));
          tenant = lbl (o_Labels (sbx_Meta s)) LabelTenant
      in if tenant \<noteq> [] then l1(LabelTenant \<mapsto> tenant) else l1)"

definition claimable :: "tmpl \<Rightarrow> pod \<Rightarrow> bool" where
  "claimable t p \<longleftrightarrow> podReady p \<and> \<not> o_Deleting (pod_Meta p)
     \<and> podLabel p LabelIsolationTier \<noteq> [] \<and> AtLeast (podLabel p LabelIsolationTier) (RequiredIsolation (tp_Spec t))
     \<and> PodToken p \<noteq> []"

fun tryClaim :: "'k kube \<Rightarrow> sandbox \<Rightarrow> pod list \<Rightarrow> 'k \<Rightarrow> (kerr, pod option) result \<times> 'k" where
  "tryClaim kc s [] k = (Inr None, k)"
| "tryClaim kc s (p # ps) k =
     (case SetControllerReference ''Sandbox'' (sbx_Meta s)
             ((pod_Meta p)\<lparr>o_Labels := claimLabels s (o_Labels (pod_Meta p)), o_Owner := None\<rparr>) of
        Inl e \<Rightarrow> (Inl (KErr e), k)
      | Inr m \<Rightarrow>
          (case kc_UpdatePod kc (p\<lparr>pod_Meta := m\<rparr>) k of
             (None, k') \<Rightarrow> (Inr (Some (p\<lparr>pod_Meta := m\<rparr>)), k')
           | (Some e, k') \<Rightarrow> if e = Conflict \<or> e = NotFound then tryClaim kc s ps k' else (Inl e, k')))"

definition claimWarmPod :: "'k sandbox_reconciler \<Rightarrow> sandbox \<Rightarrow> tmpl \<Rightarrow> 'k \<Rightarrow> (kerr, pod option) result \<times> 'k" where
  "claimWarmPod r s t k =
     (case kc_ListPods (sr_Kube r) (o_Namespace (sbx_Meta s))
             [(LabelTemplate, o_Name (tp_Meta t)), (LabelTemplateHash, TemplateHash (sr_Render r) t), (LabelState, StateIdle)] k of
        Inl e \<Rightarrow> (Inl e, k)
      | Inr ps \<Rightarrow> tryClaim (sr_Kube r) s (sr_Shuffle r (filter (claimable t) ps)) k)"

definition createPod :: "'k sandbox_reconciler \<Rightarrow> sandbox \<Rightarrow> tmpl \<Rightarrow> 'k \<Rightarrow> (string, pod) result \<times> 'k" where
  "createPod r s t k =
     (let pod = BuildPod (sr_Render r) t [] (sr_NewControlToken r) in
      (case SetControllerReference ''Sandbox'' (sbx_Meta s) ((pod_Meta pod)\<lparr>o_Labels := claimLabels s (o_Labels (pod_Meta pod))\<rparr>) of
         Inl e \<Rightarrow> (Inl e, k)
       | Inr m \<Rightarrow>
           (case kc_CreatePod (sr_Kube r) (pod\<lparr>pod_Meta := m\<rparr>) k of
              (Inl e, k') \<Rightarrow> (Inl (sr_ErrText r e), k')
            | (Inr q, k') \<Rightarrow> (Inr q, k'))))"

definition recordPod :: "'k sandbox_reconciler \<Rightarrow> sandbox \<Rightarrow> 'k \<Rightarrow> outcome \<times> 'k" where
  "recordPod r s k =
     (case kc_UpdateSandboxStatus (sr_Kube r) s k of
        (Some e, k') \<Rightarrow> (requeueOnConflict (Some e), k')
      | (None, k') \<Rightarrow> (Requeue requeueBinding, k'))"

definition acquirePod :: "'k sandbox_reconciler \<Rightarrow> sandbox \<Rightarrow> 'k \<Rightarrow> outcome \<times> 'k" where
  "acquirePod r s k =
     (case template r s k of
        Inl e \<Rightarrow> fail r s ''TemplateUnavailable'' e k
      | Inr t \<Rightarrow>
          if tt_Admission (tp_Status t) = AdmissionRejected then
            fail r s ''TemplateRejected'' (''template failed admission: '' @ tt_AdmissionReason (tp_Status t)) k
          else (case findClaimedPod r s k of
             Inl e \<Rightarrow> (Failed e, k)
           | Inr (Some p) \<Rightarrow> recordPod r (setSbxStatus (\<lambda>x. x\<lparr>st_Phase := PhaseBinding, st_PodName := o_Name (pod_Meta p)\<rparr>) s) k
           | Inr None \<Rightarrow>
               (case claimWarmPod r s t k of
                  (Inl e, k1) \<Rightarrow> (Failed e, k1)
                | (Inr (Some p), k1) \<Rightarrow>
                    recordPod r (setSbxStatus (\<lambda>x. x\<lparr>st_Phase := PhaseBinding, st_PodName := o_Name (pod_Meta p), st_ColdStart := False\<rparr>) s) k1
                | (Inr None, k1) \<Rightarrow>
                    (case createPod r s t k1 of
                       (Inl e, k2) \<Rightarrow> fail r s ''PodCreateFailed'' e k2
                     | (Inr p, k2) \<Rightarrow>
                         recordPod r (setSbxStatus (\<lambda>x. x\<lparr>st_Phase := PhaseBinding, st_PodName := o_Name (pod_Meta p), st_ColdStart := True\<rparr>) s) k2))))"

section \<open>Binding\<close>

definition bindRequest :: "'k sandbox_reconciler \<Rightarrow> sandbox \<Rightarrow> tmpl \<Rightarrow> bind_request" where
  "bindRequest r s t =
     \<lparr>br_SandboxID = o_Name (sbx_Meta s), br_Tenant = lbl (o_Labels (sbx_Meta s)) LabelTenant,
      br_Filesystem = filesystemFor s t, br_Env = envFor s, br_Secrets = None,
      br_TTLSeconds = ttlFor s t div second, br_Token = sr_NewToken r\<rparr>"

definition runningStatus :: "'k sandbox_reconciler \<Rightarrow> sandbox \<Rightarrow> tmpl \<Rightarrow> pod \<Rightarrow> bind_response \<Rightarrow> sandbox_status \<Rightarrow> sandbox_status" where
  "runningStatus r s t p resp x =
     x\<lparr>st_Phase := PhaseRunning, st_PodIP := pod_PodIP p, st_NodeName := ps_NodeName (pod_Spec p),
       st_IsolationTier := bs_IsolationTier resp, st_BoundAt := Some (metaTime (sr_Now r)),
       st_ExpiresAt := (if ttlFor s t > 0 then Some (metaTime (sr_Now r + ttlFor s t)) else None),
       st_Token := sr_NewToken r,
       st_Endpoint := (case sr_EndpointFor r of None \<Rightarrow> st_Endpoint x | Some f \<Rightarrow> f (o_Name (sbx_Meta s))),
       st_Ready := True\<rparr>"

definition measuredTier :: "'k sandbox_reconciler \<Rightarrow> pod \<Rightarrow> 'k \<Rightarrow> (string, tier) result" where
  "measuredTier r p k =
     (if podLabel p LabelIsolationTier \<noteq> [] then Inr (podLabel p LabelIsolationTier)
      else (case ex_Probe (sr_Exec r) (podRef p) k of Inl e \<Rightarrow> Inl e | Inr (tier, reason) \<Rightarrow> Inr tier))"

text \<open>The tail of \<open>bind\<close>, once execd has accepted: the status, then the tier label on the pod.\<close>

definition bindDone :: "'k sandbox_reconciler \<Rightarrow> sandbox \<Rightarrow> tmpl \<Rightarrow> pod \<Rightarrow> tier \<Rightarrow> bind_response \<Rightarrow> 'k \<Rightarrow> outcome \<times> 'k" where
  "bindDone r s t p tier resp k =
     (case kc_UpdateSandboxStatus (sr_Kube r) (setSbxStatus (runningStatus r s t p resp) s) k of
        (Some e, k1) \<Rightarrow> (requeueOnConflict (Some e), k1)
      | (None, k1) \<Rightarrow>
          let k2 = (if podLabel p LabelIsolationTier = [] then
                      snd (kc_UpdatePod (sr_Kube r)
                        (p\<lparr>pod_Meta := (pod_Meta p)\<lparr>o_Labels := (o_Labels (pod_Meta p))(LabelIsolationTier \<mapsto> tier)\<rparr>\<rparr>) k1)
                    else k1)
          in (if ttlFor s t \<le> 0 then Done else Requeue (ttlFor s t), k2))"

definition bind :: "'k sandbox_reconciler \<Rightarrow> sandbox \<Rightarrow> 'k \<Rightarrow> outcome \<times> 'k" where
  "bind r s k =
     (case kc_GetPod (sr_Kube r) (o_Namespace (sbx_Meta s), st_PodName (sbx_Status s)) k of
        Inl e \<Rightarrow>
          if e = NotFound then fail r s ''PodLost'' ''the Pod backing this sandbox disappeared before it was bound'' k
          else (Failed e, k)
      | Inr p \<Rightarrow>
          if pod_Phase p = ''Failed'' \<or> pod_Phase p = ''Succeeded'' then
            fail r s ''PodTerminated'' (''the Pod terminated before the sandbox was bound: '' @ pod_Reason p) k
          else if \<not> podReady p \<or> pod_PodIP p = [] then (Requeue requeueBinding, k)
          else (case template r s k of
             Inl e \<Rightarrow> fail r s ''TemplateUnavailable'' e k
           | Inr t \<Rightarrow>
               (case measuredTier r p k of
                  Inl e \<Rightarrow> (Requeue requeueBinding, k)
                | Inr tier \<Rightarrow>
                    if \<not> AtLeast tier (RequiredIsolation (tp_Spec t)) then
                      fail r s ''IsolationUnavailable''
                        (''node '' @ ps_NodeName (pod_Spec p) @ '' can only provide '' @ Quote tier
                           @ '' isolation but the template requires '' @ Quote (RequiredIsolation (tp_Spec t)))
                        (snd (kc_DeletePod (sr_Kube r) p k))
                    else (case ex_Bind (sr_Exec r) (podRef p) (bindRequest r s t) k of
                       (Inl e, k1) \<Rightarrow> fail r s ''BindFailed'' e (snd (kc_DeletePod (sr_Kube r) p k1))
                     | (Inr resp, k1) \<Rightarrow> bindDone r s t p tier resp k1))))"

section \<open>The reconcile\<close>

definition dispatch :: "'k sandbox_reconciler \<Rightarrow> sandbox \<Rightarrow> 'k \<Rightarrow> outcome \<times> 'k" where
  "dispatch r s k =
     (let ph = st_Phase (sbx_Status s) in
      if ph = [] \<or> ph = PhasePending then acquirePod r s k
      else if ph = PhaseBinding then bind r s k
      else if ph = PhaseRunning then watchExpiry r s k
      else if ph = PhaseExpired \<or> ph = PhaseFailed then (Done, k)
      else acquirePod r s k)"

definition SandboxReconcile :: "'k sandbox_reconciler \<Rightarrow> key \<Rightarrow> 'k \<Rightarrow> outcome \<times> 'k" where
  "SandboxReconcile r nm k =
     (case kc_GetSandbox (sr_Kube r) nm k of
        Inl e \<Rightarrow> ((if e = NotFound then Done else Failed e), k)
      | Inr s \<Rightarrow>
          if o_Deleting (sbx_Meta s) then finalize r s k
          else if FinalizerSandbox \<notin> set (o_Finalizers (sbx_Meta s)) then
            (case kc_UpdateSandbox (sr_Kube r)
                    (s\<lparr>sbx_Meta := (sbx_Meta s)\<lparr>o_Finalizers := o_Finalizers (sbx_Meta s) @ [FinalizerSandbox]\<rparr>\<rparr>) k of
               (Inl e, k1) \<Rightarrow> (requeueOnConflict (Some e), k1)
             | (Inr s', k1) \<Rightarrow> dispatch r s' k1)
          else dispatch r s k)"

section \<open>Pods stay with their sandbox\<close>

definition boundTo :: "pod \<Rightarrow> string \<Rightarrow> bool" where
  "boundTo p sid \<longleftrightarrow> podLabel p LabelState = StateBound \<and> podLabel p LabelSandboxID = sid"

text \<open>A pod that is bound to a sandbox is bound to that sandbox for as long as it exists.\<close>

definition keepsBound :: "(key \<Rightarrow> pod option) \<Rightarrow> (key \<Rightarrow> pod option) \<Rightarrow> bool" where
  "keepsBound ps ps' \<longleftrightarrow>
     (\<forall>nm p sid. ps nm = Some p \<longrightarrow> boundTo p sid \<longrightarrow> ps' nm = None \<or> (\<exists>p'. ps' nm = Some p' \<and> boundTo p' sid))"

lemma keepsBound_refl [simp]: "keepsBound ps ps"
  by (simp add: keepsBound_def)

lemma boundTo_labels: "o_Labels (pod_Meta p) = o_Labels (pod_Meta q) \<Longrightarrow> boundTo p sid = boundTo q sid"
  by (simp add: boundTo_def podLabel_def)

lemma keepsBound_upd:
  assumes "\<And>p sid. ps nm = Some p \<Longrightarrow> boundTo p sid \<Longrightarrow> boundTo r sid"
  shows "keepsBound ps (ps(nm \<mapsto> r))"
  unfolding keepsBound_def using assms by (metis fun_upd_apply)

lemma created_keeps: "podCreated ps p ps' \<Longrightarrow> keepsBound ps ps'"
  unfolding podCreated_def by (metis keepsBound_upd option.distinct(1))

lemma removed_keeps: "podRemoved ps p ps' \<Longrightarrow> keepsBound ps ps'"
proof -
  assume "podRemoved ps p ps'"
  then consider "ps' = ps(podKey p := None)"
    | q r where "ps (podKey p) = Some q" "ps' = ps(podKey p \<mapsto> r)" "o_Labels (pod_Meta r) = o_Labels (pod_Meta q)"
    unfolding podRemoved_def by blast
  then show ?thesis
  proof cases
    case 1
    then show ?thesis by (auto simp: keepsBound_def)
  next
    case 2
    then show ?thesis unfolding 2(2) using boundTo_labels [of r q] by (intro keepsBound_upd) simp
  qed
qed

text \<open>An accepted update of a copy that was read either starts from an unbound pod or keeps the binding.\<close>

lemma written_keeps:
  assumes "podWritten ps p' ps'" "currentPod ps p" "podKey p' = podKey p" "o_Version (pod_Meta p') = o_Version (pod_Meta p)"
    and "\<And>sid. boundTo p sid \<Longrightarrow> boundTo p' sid"
  shows "keepsBound ps ps'" "ps (podKey p) = Some p"
proof -
  obtain q r where w: "ps (podKey p') = Some q" "o_Version (pod_Meta q) = o_Version (pod_Meta p')" "ps' = ps(podKey p' \<mapsto> r)"
    "o_Labels (pod_Meta r) = o_Labels (pod_Meta p')"
    using assms(1) unfolding podWritten_def by blast
  then have q: "q = p" using assms(2-4) unfolding currentPod_def by auto
  show "ps (podKey p) = Some p" using w(1) q assms(3) by simp
  show "keepsBound ps ps'"
    unfolding w(3) using w q assms(5) boundTo_labels [of r p'] by (intro keepsBound_upd) auto
qed

lemma claim_meta:
  assumes "SetControllerReference kind ow ((pod_Meta p)\<lparr>o_Labels := ls, o_Owner := None\<rparr>) = Inr m"
  shows "m = (pod_Meta p)\<lparr>o_Labels := ls, o_Owner := Some (ownerRef kind ow)\<rparr>"
  using assms by (simp add: SetControllerReference_def split: if_splits)

lemma claim_meta_key:
  "podKey (p\<lparr>pod_Meta := (pod_Meta p)\<lparr>o_Labels := ls, o_Owner := ow\<rparr>\<rparr>) = podKey p"
  "o_Version (pod_Meta (p\<lparr>pod_Meta := (pod_Meta p)\<lparr>o_Labels := ls, o_Owner := ow\<rparr>\<rparr>)) = o_Version (pod_Meta p)"
  by (simp_all add: podKey_def)

lemma claimLabels_bound:
  "claimLabels s ls LabelState = Some StateBound" "claimLabels s ls LabelSandboxID = Some (o_Name (sbx_Meta s))"
  by (simp_all add: claimLabels_def Let_def)

definition isRunning :: "(key \<Rightarrow> sandbox option) \<Rightarrow> key \<Rightarrow> bool" where
  "isRunning bs nm \<longleftrightarrow> (\<exists>s. bs nm = Some s \<and> st_Phase (sbx_Status s) = PhaseRunning)"

text \<open>What holds when \<open>bind\<close> makes a sandbox Running.\<close>

definition boundProperly :: "'k sandbox_reconciler \<Rightarrow> sandbox \<Rightarrow> sandbox_status \<Rightarrow> 'k \<Rightarrow> bool" where
  "boundProperly r s st k \<longleftrightarrow> (\<exists>p t tier resp k1.
     kc_GetPod (sr_Kube r) (o_Namespace (sbx_Meta s), st_PodName (sbx_Status s)) k = Inr p \<and> podReady p
     \<and> kc_GetTemplate (sr_Kube r) (o_Namespace (sbx_Meta s), ss_TemplateRef (sbx_Spec s)) k = Inr t
     \<and> measuredTier r p k = Inr tier \<and> AtLeast tier (RequiredIsolation (tp_Spec t))
     \<and> ex_Bind (sr_Exec r) (podRef p) (bindRequest r s t) k = (Inr resp, k1)
     \<and> st = runningStatus r s t p resp (sbx_Status s))"

context world_laws
begin

text \<open>Claiming: nothing changes until an update is accepted, and the pod it replaces was the idle one.\<close>

lemma tryClaim_effect:
  assumes "\<And>p. p \<in> set ps \<Longrightarrow> currentPod (pods k) p \<and> podLabel p LabelState = StateIdle"
    and "tryClaim kc s ps k = (res, k')"
  shows "keepsBound (pods k) (pods k') \<and> (res = Inr None \<longrightarrow> pods k' = pods k)
    \<and> (\<forall>p'. res = Inr (Some p') \<longrightarrow> (\<exists>p \<in> set ps. pods k (podKey p) = Some p \<and> podKey p' = podKey p
          \<and> (\<exists>q. pods k' = (pods k)(podKey p \<mapsto> q) \<and> boundTo q (o_Name (sbx_Meta s))
                \<and> o_Owner (pod_Meta q) = Some (ownerRef ''Sandbox'' (sbx_Meta s)))))"
  using assms
proof (induction ps arbitrary: k)
  case (Cons p ps)
  let ?ls = "claimLabels s (o_Labels (pod_Meta p))"
  show ?case
  proof (cases "SetControllerReference ''Sandbox'' (sbx_Meta s) ((pod_Meta p)\<lparr>o_Labels := ?ls, o_Owner := None\<rparr>)")
    case (Inl e)
    then show ?thesis using Cons.prems by auto
  next
    case (Inr m)
    define p1 where "p1 = p\<lparr>pod_Meta := m\<rparr>"
    have m: "m = (pod_Meta p)\<lparr>o_Labels := ?ls, o_Owner := Some (ownerRef ''Sandbox'' (sbx_Meta s))\<rparr>" by (rule claim_meta [OF Inr])
    have key: "podKey p1 = podKey p" "o_Version (pod_Meta p1) = o_Version (pod_Meta p)"
      unfolding p1_def m by (rule claim_meta_key)+
    have cur: "currentPod (pods k) p" "podLabel p LabelState = StateIdle" using Cons.prems(1) by auto
    then have nb: "boundTo p sid \<Longrightarrow> boundTo p1 sid" for sid by (simp add: boundTo_def)
    obtain e k1 where u: "kc_UpdatePod kc p1 k = (e, k1)" by force
    note w = written_keeps [OF _ cur(1) key nb]
    consider "e = Some Conflict \<or> e = Some NotFound" "pods k1 = pods k"
      | "e \<noteq> None" "e \<noteq> Some Conflict" "e \<noteq> Some NotFound" "keepsBound (pods k) (pods k1)"
      | "e = None" "podWritten (pods k) p1 (pods k1)"
      using update_pod [OF u] w(1) [of "pods k1"] keepsBound_refl by metis
    then show ?thesis
    proof cases
      case 1
      then have "tryClaim kc s ps k1 = (res, k')" using Cons.prems(2) Inr u by (auto simp: p1_def)
      with Cons.IH [of k1] Cons.prems(1) 1(2) show ?thesis by auto
    next
      case 2
      then have "k' = k1" "\<exists>x. res = Inl x" using Cons.prems(2) Inr u by (auto simp: p1_def split: option.splits if_splits)
      with 2 show ?thesis by auto
    next
      case 3
      then have r: "k' = k1" "res = Inr (Some p1)" using Cons.prems(2) Inr u by (auto simp: p1_def)
      obtain q where q: "pods k1 = (pods k)(podKey p \<mapsto> q)" "o_Labels (pod_Meta q) = o_Labels (pod_Meta p1)" "o_Owner (pod_Meta q) = o_Owner (pod_Meta p1)"
        using 3(2) key unfolding podWritten_def by auto
      have "boundTo q (o_Name (sbx_Meta s))"
        using q(2) by (simp add: boundTo_def podLabel_def lbl_def p1_def m claimLabels_bound)
      moreover have "o_Owner (pod_Meta q) = Some (ownerRef ''Sandbox'' (sbx_Meta s))" using q(3) by (simp add: p1_def m)
      ultimately show ?thesis using q(1) w [OF 3(2)] key(1) unfolding r by (auto simp del: fun_upd_apply)
    qed
  qed
qed auto

lemma idle_selected: "matchLabels [a, b, (LabelState, StateIdle)] (o_Labels (pod_Meta p)) \<Longrightarrow> podLabel p LabelState = StateIdle"
  by (auto simp: matchLabels_def podLabel_def lbl_def)

lemma claimWarmPod_effect:
  assumes r: "sr_Kube r = kc" "\<And>xs. set (sr_Shuffle r xs) \<subseteq> set xs" and c: "claimWarmPod r s t k = (res, k')"
  shows "keepsBound (pods k) (pods k') \<and> (res = Inr None \<longrightarrow> pods k' = pods k)
    \<and> (\<forall>p'. res = Inr (Some p') \<longrightarrow> (\<exists>p. pods k (podKey p) = Some p \<and> podKey p' = podKey p \<and> claimable t p
          \<and> podLabel p LabelState = StateIdle \<and> podLabel p LabelTemplateHash = TemplateHash (sr_Render r) t \<and> fst (podKey p) = o_Namespace (sbx_Meta s)
          \<and> (\<exists>q. pods k' = (pods k)(podKey p \<mapsto> q) \<and> boundTo q (o_Name (sbx_Meta s))
                \<and> o_Owner (pod_Meta q) = Some (ownerRef ''Sandbox'' (sbx_Meta s)))))"
proof -
  define sel where "sel = [(LabelTemplate, o_Name (tp_Meta t)), (LabelTemplateHash, TemplateHash (sr_Render r) t), (LabelState, StateIdle)]"
  show ?thesis
  proof (cases "kc_ListPods kc (o_Namespace (sbx_Meta s)) sel k")
    case (Inl e)
    then show ?thesis using c r(1) unfolding claimWarmPod_def sel_def [symmetric] by auto
  next
    case (Inr ps)
    define cs where "cs = sr_Shuffle r (filter (claimable t) ps)"
    have t: "tryClaim kc s cs k = (res, k')" using c Inr r(1) unfolding claimWarmPod_def sel_def [symmetric] cs_def by simp
    have cs: "fst (podKey p) = o_Namespace (sbx_Meta s) \<and> currentPod (pods k) p \<and> podLabel p LabelState = StateIdle
        \<and> podLabel p LabelTemplateHash = TemplateHash (sr_Render r) t \<and> claimable t p" if "p \<in> set cs" for p
    proof -
      have "p \<in> set ps" "claimable t p" using that r(2) [of "filter (claimable t) ps"] unfolding cs_def by auto
      with list_pods [OF Inr, of p] show ?thesis
        unfolding sel_def by (auto simp: matchLabels_def podLabel_def lbl_def)
    qed
    from tryClaim_effect [OF _ t] cs show ?thesis by blast
  qed
qed

lemma createPod_keeps:
  assumes "sr_Kube r = kc" "createPod r s t k = (res, k')"
  shows "keepsBound (pods k) (pods k')"
proof -
  have "k' = k \<or> (\<exists>p x. kc_CreatePod kc p k = (x, k'))"
    using assms unfolding createPod_def Let_def by (auto split: sum.splits prod.splits)
  then show ?thesis using create_pod created_keeps keepsBound_refl by metis
qed

lemma status_pods: "kc_UpdateSandboxStatus kc s k = (e, k') \<Longrightarrow> pods k' = pods k"
  using sandbox_frame(1) [of s k] by simp

lemma fail_pods: "sr_Kube r = kc \<Longrightarrow> pods (snd (fail r s reason msg k)) = pods k"
  by (simp add: fail_def case_prod_beta sandbox_frame)

lemma recordPod_pods: "sr_Kube r = kc \<Longrightarrow> pods (snd (recordPod r s k)) = pods k"
  using sandbox_frame(1) [of s k] by (auto simp: recordPod_def split: prod.splits option.splits)

lemma acquirePod_keeps:
  assumes r: "sr_Kube r = kc" "\<And>xs. set (sr_Shuffle r xs) \<subseteq> set xs"
  shows "keepsBound (pods k) (pods (snd (acquirePod r s k)))"
proof -
  have claim: "keepsBound (pods k) (pods (snd (case claimWarmPod r s t k of
                  (Inl e, k1) \<Rightarrow> (Failed e, k1)
                | (Inr (Some p), k1) \<Rightarrow> recordPod r (f p) k1
                | (Inr None, k1) \<Rightarrow> (case createPod r s t k1 of
                       (Inl e, k2) \<Rightarrow> fail r s ''PodCreateFailed'' e k2
                     | (Inr p, k2) \<Rightarrow> recordPod r (g p) k2))))" for t f g
    using claimWarmPod_effect [OF r, of s t k] createPod_keeps [OF r(1), of s t]
    by (auto simp: recordPod_pods [OF r(1)] fail_pods [OF r(1)] split: prod.splits sum.splits option.splits) metis+
  show ?thesis
    unfolding acquirePod_def using claim
    by (auto simp: recordPod_pods [OF r(1)] fail_pods [OF r(1)] split: sum.splits option.splits)
qed

lemma delete_keeps_bound: "keepsBound (pods k) (pods (snd (kc_DeletePod kc p k)))"
  using delete_pod [of p k] removed_keeps keepsBound_refl by (metis prod.collapse)

lemma deletePod_keeps: "sr_Kube r = kc \<Longrightarrow> sr_Exec r = ex \<Longrightarrow> keepsBound (pods k) (pods (snd (deletePod r s k)))"
  using delete_keeps_bound [of k] delete_keeps_bound [of "snd (ex_Unbind ex q k)" for q]
  by (simp add: deletePod_def Let_def case_prod_beta unbind_frame split: sum.splits)

lemma expire_keeps:
  "sr_Kube r = kc \<Longrightarrow> sr_Exec r = ex \<Longrightarrow> keepsBound (pods k) (pods (snd (expire r s reason k)))"
  using deletePod_keeps [of r k s]
  by (cases "deletePod r s k", cases "fst (deletePod r s k)") (simp_all add: expire_def case_prod_beta sandbox_frame)

lemma finalize_keeps:
  "sr_Kube r = kc \<Longrightarrow> sr_Exec r = ex \<Longrightarrow> keepsBound (pods k) (pods (snd (finalize r s k)))"
  using deletePod_keeps [of r k s]
  by (cases "deletePod r s k", cases "fst (deletePod r s k)")
    (simp_all add: finalize_def case_prod_beta sandbox_frame split: sum.splits)

lemma bindDone_keeps:
  assumes "sr_Kube r = kc" "currentPod (pods k) p"
  shows "keepsBound (pods k) (pods (snd (bindDone r s t p tier resp k)))"
proof -
  define p1 where "p1 = p\<lparr>pod_Meta := (pod_Meta p)\<lparr>o_Labels := (o_Labels (pod_Meta p))(LabelIsolationTier \<mapsto> tier)\<rparr>\<rparr>"
  obtain e k1 where u: "kc_UpdateSandboxStatus kc (setSbxStatus (runningStatus r s t p resp) s) k = (e, k1)" by force
  have k1: "pods k1 = pods k" by (rule status_pods [OF u])
  have p1: "podKey p1 = podKey p" "o_Version (pod_Meta p1) = o_Version (pod_Meta p)" "boundTo p sid \<Longrightarrow> boundTo p1 sid" for sid
    by (simp_all add: p1_def podKey_def boundTo_def podLabel_def lbl_def)
  obtain e2 k2 where w: "kc_UpdatePod kc p1 k1 = (e2, k2)" by force
  have "keepsBound (pods k) (pods k2)"
    using update_pod [OF w] written_keeps(1) [of "pods k1" p1 "pods k2" p] p1 assms(2) k1 by auto
  then show ?thesis
    using u w k1 assms(1) by (auto simp: bindDone_def Let_def p1_def split: option.splits)
qed

lemma bind_keeps:
  assumes r: "sr_Kube r = kc" "sr_Exec r = ex"
  shows "keepsBound (pods k) (pods (snd (bind r s k)))"
proof (cases "kc_GetPod kc (o_Namespace (sbx_Meta s), st_PodName (sbx_Status s)) k")
  case (Inl e)
  then show ?thesis by (simp add: bind_def r fail_pods)
next
  case (Inr p)
  have cur: "currentPod (pods k) p" using get_pod [OF Inr] by simp
  have del: "keepsBound (pods k) (pods (snd (kc_DeletePod kc p (snd (ex_Bind ex x y k)))))" for x y
    using delete_keeps_bound [of "snd (ex_Bind ex x y k)" p] by (simp add: bind_frame)
  have fin: "keepsBound (pods k) (pods (snd (bindDone r s t p tier resp (snd (ex_Bind ex x y k)))))" for t tier resp x y
    using bindDone_keeps [OF r(1), of "snd (ex_Bind ex x y k)" p] cur by (simp add: bind_frame)
  show ?thesis
    using del [of "podRef p"] fin delete_keeps_bound [of k p]
    by (auto simp: bind_def r Inr fail_pods case_prod_beta split: sum.splits)
qed

lemma dispatch_keeps:
  assumes "sr_Kube r = kc" "sr_Exec r = ex" "\<And>xs. set (sr_Shuffle r xs) \<subseteq> set xs"
  shows "keepsBound (pods k) (pods (snd (dispatch r s k)))"
  using acquirePod_keeps [OF assms(1,3)] bind_keeps [OF assms(1,2)] expire_keeps [OF assms(1,2)]
  by (auto simp: dispatch_def watchExpiry_def Let_def split: option.splits)

lemma reconcile_keeps:
  assumes "sr_Kube r = kc" "sr_Exec r = ex" "\<And>xs. set (sr_Shuffle r xs) \<subseteq> set xs"
  shows "keepsBound (pods k) (pods (snd (SandboxReconcile r nm k)))"
proof -
  have "keepsBound (pods k) (pods (snd (case kc_UpdateSandbox kc s k of
      (Inl e, k1) \<Rightarrow> (requeueOnConflict (Some e), k1) | (Inr s', k1) \<Rightarrow> dispatch r s' k1)))" for s
    using sandbox_frame(2) [of s k] dispatch_keeps [OF assms, of "snd (kc_UpdateSandbox kc s k)"]
    by (cases "kc_UpdateSandbox kc s k", cases "fst (kc_UpdateSandbox kc s k)") simp_all
  then show ?thesis
    using dispatch_keeps [OF assms] finalize_keeps [OF assms(1,2)]
    by (auto simp: SandboxReconcile_def assms(1) split: sum.splits)
qed

text \<open>Which writes can make a sandbox Running: only the status that \<open>bind\<close> writes at its end.\<close>

lemma status_run:
  assumes "kc_UpdateSandboxStatus kc s k = (e, k')" "isRunning (boxes k') nm" "\<not> isRunning (boxes k) nm"
  shows "st_Phase (sbx_Status s) = PhaseRunning \<and> (\<exists>x. boxes k' nm = Some x \<and> sbx_Status x = sbx_Status s)"
  using update_status [OF assms(1)] assms(2,3) unfolding statusWritten_def isRunning_def by (auto split: if_splits)

lemma box_run:
  assumes "kc_UpdateSandbox kc s k = (e, k')" "isRunning (boxes k') nm"
  shows "isRunning (boxes k) nm"
  using update_sandbox [OF assms(1)] assms(2) unfolding boxWritten_def isRunning_def by (auto split: if_splits)

lemma fail_run:
  assumes "sr_Kube r = kc" "isRunning (boxes (snd (fail r s reason msg k))) nm"
  shows "isRunning (boxes k) nm"
proof (rule ccontr)
  assume n: "\<not> isRunning (boxes k) nm"
  obtain e k' where u: "kc_UpdateSandboxStatus kc (setSbxStatus (\<lambda>x. x\<lparr>st_Phase := PhaseFailed, st_Reason := reason @ '': '' @ msg, st_Token := []\<rparr>) s) k = (e, k')"
    by force
  then have "isRunning (boxes k') nm" using assms by (simp add: fail_def)
  from status_run [OF u this n] show False by (simp add: setSbxStatus_def)
qed

lemma recordPod_run:
  assumes "sr_Kube r = kc" "isRunning (boxes (snd (recordPod r s k))) nm" "st_Phase (sbx_Status s) \<noteq> PhaseRunning"
  shows "isRunning (boxes k) nm"
  using status_run [of s k _ _ nm] assms by (auto simp: recordPod_def split: prod.splits option.splits)

lemma pod_boxes:
  "kc_UpdatePod kc p k = (e, k') \<Longrightarrow> boxes k' = boxes k" "kc_CreatePod kc p k = (x, k') \<Longrightarrow> boxes k' = boxes k"
  using pod_frame [of p k] by simp_all

lemma tryClaim_boxes: "boxes (snd (tryClaim kc s ps k)) = boxes k"
  by (induction ps arbitrary: k) (auto split: sum.splits prod.splits option.splits dest: pod_boxes(1))

lemma acquirePod_run:
  assumes r: "sr_Kube r = kc" and n: "\<not> isRunning (boxes k) nm"
  shows "\<not> isRunning (boxes (snd (acquirePod r s k))) nm"
proof -
  have c: "boxes (snd (claimWarmPod r s t k)) = boxes k" for t
    using tryClaim_boxes r by (simp add: claimWarmPod_def split: sum.splits)
  have p: "boxes (snd (createPod r s t k')) = boxes k'" for t k'
    by (auto simp: createPod_def Let_def r split: sum.splits prod.splits dest: pod_boxes(2))
  have f: "\<not> isRunning (boxes k') nm \<Longrightarrow> \<not> isRunning (boxes (snd (fail r s a b k'))) nm" for a b k' using fail_run [OF r] by blast
  have rec: "\<not> isRunning (boxes k') nm \<Longrightarrow> st_Phase (f (sbx_Status s)) \<noteq> PhaseRunning \<Longrightarrow> \<not> isRunning (boxes (snd (recordPod r (setSbxStatus f s) k'))) nm" for f k'
    using recordPod_run [OF r, of "setSbxStatus f s" k' nm] by (simp add: setSbxStatus_def) blast
  have claim: "\<not> isRunning (boxes (snd (case claimWarmPod r s t k of
                  (Inl e, k1) \<Rightarrow> (Failed e, k1)
                | (Inr (Some q), k1) \<Rightarrow>
                    recordPod r (setSbxStatus (\<lambda>x. x\<lparr>st_Phase := PhaseBinding, st_PodName := o_Name (pod_Meta q), st_ColdStart := False\<rparr>) s) k1
                | (Inr None, k1) \<Rightarrow>
                    (case createPod r s t k1 of
                       (Inl e, k2) \<Rightarrow> fail r s ''PodCreateFailed'' e k2
                     | (Inr q, k2) \<Rightarrow>
                         recordPod r (setSbxStatus (\<lambda>x. x\<lparr>st_Phase := PhaseBinding, st_PodName := o_Name (pod_Meta q), st_ColdStart := True\<rparr>) s) k2)))) nm" for t
  proof -
    obtain res k1 where c1: "claimWarmPod r s t k = (res, k1)" by force
    then have n1: "\<not> isRunning (boxes k1) nm" using c [of t] n by simp
    obtain res2 k2 where c2: "createPod r s t k1 = (res2, k2)" by force
    then have "\<not> isRunning (boxes k2) nm" using p [of t k1] n1 by simp
    with n1 c1 c2 show ?thesis by (cases res; cases res2) (simp_all add: rec f split: option.splits)
  qed
  show ?thesis
    unfolding acquirePod_def using n claim by (simp add: rec f split: sum.splits option.splits)
qed

lemma deletePod_boxes: "sr_Kube r = kc \<Longrightarrow> sr_Exec r = ex \<Longrightarrow> boxes (snd (deletePod r s k)) = boxes k"
  by (simp add: deletePod_def Let_def case_prod_beta unbind_frame pod_frame split: sum.splits)

lemma expire_run:
  assumes "sr_Kube r = kc" "sr_Exec r = ex" "\<not> isRunning (boxes k) nm"
  shows "\<not> isRunning (boxes (snd (expire r s reason k))) nm"
proof -
  obtain e k1 where d: "deletePod r s k = (e, k1)" by force
  then have n: "\<not> isRunning (boxes k1) nm" using deletePod_boxes [OF assms(1,2), of s k] assms(3) by simp
  define s1 where "s1 = setSbxStatus (\<lambda>x. x\<lparr>st_Phase := PhaseExpired, st_Reason := reason, st_Token := []\<rparr>) s"
  have "\<not> isRunning (boxes (snd (kc_UpdateSandboxStatus kc s1 k1))) nm"
    using status_run [of s1 k1 _ _ nm] n by (cases "kc_UpdateSandboxStatus kc s1 k1") (auto simp: s1_def setSbxStatus_def)
  with n d assms(1) show ?thesis by (simp add: expire_def case_prod_beta s1_def split: option.splits)
qed

lemma finalize_run:
  assumes "sr_Kube r = kc" "sr_Exec r = ex" "\<not> isRunning (boxes k) nm"
  shows "\<not> isRunning (boxes (snd (finalize r s k))) nm"
proof -
  obtain e k1 where d: "deletePod r s k = (e, k1)" by force
  then have n: "\<not> isRunning (boxes k1) nm" using deletePod_boxes [OF assms(1,2), of s k] assms(3) by simp
  have "\<not> isRunning (boxes (snd (kc_UpdateSandbox kc s1 k1))) nm" for s1
    using box_run [of s1 k1 _ _ nm] n by (cases "kc_UpdateSandbox kc s1 k1") auto
  with n d assms(1) show ?thesis
    by (auto simp: finalize_def case_prod_beta split: option.splits sum.splits prod.splits)
qed

lemma bindDone_run:
  assumes "sr_Kube r = kc" "\<not> isRunning (boxes k) nm" "isRunning (boxes (snd (bindDone r s t p tier resp k))) nm"
  shows "\<exists>x. boxes (snd (bindDone r s t p tier resp k)) nm = Some x \<and> sbx_Status x = runningStatus r s t p resp (sbx_Status s)"
proof -
  obtain e k1 where u: "kc_UpdateSandboxStatus kc (setSbxStatus (runningStatus r s t p resp) s) k = (e, k1)" by force
  have b: "boxes (snd (bindDone r s t p tier resp k)) = boxes k1"
    using u assms(1) by (auto simp: bindDone_def Let_def pod_frame split: option.splits)
  from status_run [OF u _ assms(2)] assms(3) show ?thesis unfolding b by (simp add: setSbxStatus_def)
qed

lemma template_ok: "sr_Kube r = kc \<Longrightarrow> template r s k = Inr t \<Longrightarrow>
    kc_GetTemplate kc (o_Namespace (sbx_Meta s), ss_TemplateRef (sbx_Spec s)) k = Inr t"
  by (simp add: template_def split: sum.splits)

lemma bind_run:
  assumes r: "sr_Kube r = kc" "sr_Exec r = ex" and n: "\<not> isRunning (boxes k) nm" "isRunning (boxes (snd (bind r s k))) nm"
  shows "\<exists>x. boxes (snd (bind r s k)) nm = Some x \<and> boundProperly r s (sbx_Status x) k"
proof -
  have f: "\<not> isRunning (boxes k') nm \<Longrightarrow> \<not> isRunning (boxes (snd (fail r s a b k'))) nm" for a b k' using fail_run [OF r(1)] by blast
  obtain p where p: "kc_GetPod kc (o_Namespace (sbx_Meta s), st_PodName (sbx_Status s)) k = Inr p"
    using n f [OF n(1)] by (cases "kc_GetPod kc (o_Namespace (sbx_Meta s), st_PodName (sbx_Status s)) k") (auto simp: bind_def r split: if_splits)
  have rd: "podReady p" "\<not> (pod_Phase p = ''Failed'' \<or> pod_Phase p = ''Succeeded'')" "pod_PodIP p \<noteq> []"
    using n f [OF n(1)] by (auto simp: bind_def r p split: if_splits)
  obtain t where t: "template r s k = Inr t"
    using n f [OF n(1)] rd by (cases "template r s k") (auto simp: bind_def r p)
  obtain tier where ti: "measuredTier r p k = Inr tier"
    using n rd t by (cases "measuredTier r p k") (auto simp: bind_def r p)
  have al: "AtLeast tier (RequiredIsolation (tp_Spec t))"
    using n f [of "snd (kc_DeletePod kc p k)"] rd t ti by (auto simp: bind_def r p pod_frame split: if_splits)
  obtain res k1 where b: "ex_Bind ex (podRef p) (bindRequest r s t) k = (res, k1)" by force
  then have n1: "\<not> isRunning (boxes k1) nm" using n(1) bind_frame(2) [of "podRef p" "bindRequest r s t" k] by simp
  obtain resp where resp: "res = Inr resp"
    using n f [of "snd (kc_DeletePod kc p k1)"] n1 rd t ti al b by (cases res) (auto simp: bind_def r p pod_frame)
  have e: "bind r s k = bindDone r s t p tier resp k1"
    using rd t ti al b resp by (simp add: bind_def r p)
  from bindDone_run [OF r(1) n1 n(2) [unfolded e]] show ?thesis
    unfolding e boundProperly_def r using p rd template_ok [OF r(1) t] ti al b resp by blast
qed

lemma dispatch_run:
  assumes r: "sr_Kube r = kc" "sr_Exec r = ex" and n: "\<not> isRunning (boxes k) nm" "isRunning (boxes (snd (dispatch r s k))) nm"
  shows "\<exists>x. boxes (snd (dispatch r s k)) nm = Some x \<and> boundProperly r s (sbx_Status x) k"
proof -
  have "\<not> isRunning (boxes (snd (watchExpiry r s k))) nm"
    using expire_run [OF r n(1)] n(1) by (simp add: watchExpiry_def Let_def split: option.splits)
  then have "dispatch r s k = bind r s k"
    using n acquirePod_run [OF r(1) n(1)] by (auto simp: dispatch_def Let_def split: if_splits)
  then show ?thesis using bind_run [OF r n(1)] n(2) by simp
qed

lemma reconcile_run:
  assumes r: "sr_Kube r = kc" "sr_Exec r = ex" and n: "\<not> isRunning (boxes k) nm" "isRunning (boxes (snd (SandboxReconcile r key k))) nm"
  shows "\<exists>s x k1. sbxKey s = key \<and> boxes (snd (SandboxReconcile r key k)) nm = Some x \<and> boundProperly r s (sbx_Status x) k1"
proof -
  obtain s where s: "kc_GetSandbox kc key k = Inr s"
    using n by (cases "kc_GetSandbox kc key k") (auto simp: SandboxReconcile_def r)
  have d: "\<not> o_Deleting (sbx_Meta s)" using n finalize_run [OF r n(1)] by (auto simp: SandboxReconcile_def r s)
  define s1 where "s1 = s\<lparr>sbx_Meta := (sbx_Meta s)\<lparr>o_Finalizers := o_Finalizers (sbx_Meta s) @ [FinalizerSandbox]\<rparr>\<rparr>"
  obtain res k1 where u: "kc_UpdateSandbox kc s1 k = (res, k1)" by force
  have n1: "\<not> isRunning (boxes k1) nm" using box_run [OF u] n(1) by blast
  show ?thesis
  proof (cases "FinalizerSandbox \<in> set (o_Finalizers (sbx_Meta s))")
    case True
    then have e: "SandboxReconcile r key k = dispatch r s k" using d by (simp add: SandboxReconcile_def r s)
    from dispatch_run [OF r n(1) n(2) [unfolded e]] show ?thesis unfolding e using get_sandbox [OF s] by metis
  next
    case False
    then obtain s' where res: "res = Inr s'" using n(2) n1 d u by (cases res) (auto simp: SandboxReconcile_def r s s1_def)
    then have e: "SandboxReconcile r key k = dispatch r s' k1" using False d u by (simp add: SandboxReconcile_def r s s1_def)
    have "sbxKey s' = key" using updated_sandbox [of s1 k s' k1] u res get_sandbox [OF s] by (simp add: s1_def sbxKey_def)
    with dispatch_run [OF r n1 n(2) [unfolded e]] show ?thesis unfolding e by blast
  qed
qed

end

end
