(* ===== verification/Sandbox_Lifecycle.thy ===== *)
theory Sandbox_Lifecycle
  imports Sandbox_Controller
begin

text \<open>
  What the sandbox controller promises, on top of its model: the abstract life cycle of a sandbox and
  that every reconcile is a step of it, whose pod is whose, when a sandbox may be called Running, how
  long it lives and what is gone when it is released. The laws of the API server and of execd are
  hypotheses; the cluster of \<open>Kube\<close> satisfies them.
\<close>

section \<open>The life cycle\<close>

text \<open>The phases a sandbox goes through. Any phase that is not one of the five counts as Pending.\<close>

definition active :: "string \<Rightarrow> bool" where
  "active ph \<longleftrightarrow> ph \<notin> {PhaseBinding, PhaseRunning, PhaseExpired, PhaseFailed}"

inductive lifecycle :: "string \<Rightarrow> string \<Rightarrow> bool" where
  acquire: "active ph \<Longrightarrow> lifecycle ph PhaseBinding"
| refuse: "active ph \<Longrightarrow> lifecycle ph PhaseFailed"
| bound: "lifecycle PhaseBinding PhaseRunning"
| bindFailed: "lifecycle PhaseBinding PhaseFailed"
| expired: "lifecycle PhaseRunning PhaseExpired"

lemma active_not [simp]: "\<not> active PhaseFailed" "\<not> active PhaseExpired" "\<not> active PhaseRunning" "\<not> active PhaseBinding"
  by (simp_all add: active_def)

lemma terminal_phases: "\<not> lifecycle PhaseFailed ph" "\<not> lifecycle PhaseExpired ph"
  by (auto elim: lifecycle.cases)

definition phaseAt :: "(key \<Rightarrow> sandbox option) \<Rightarrow> key \<Rightarrow> string option" where
  "phaseAt bs nm = map_option (\<lambda>s. st_Phase (sbx_Status s)) (bs nm)"

text \<open>One status write, checked against the version that was read.\<close>

definition moves :: "sandbox \<Rightarrow> (key \<Rightarrow> sandbox option) \<Rightarrow> (key \<Rightarrow> sandbox option) \<Rightarrow> bool" where
  "moves s bs bs' \<longleftrightarrow> bs' = bs
     \<or> (\<exists>x. bs (sbxKey s) = Some s \<and> bs' = bs(sbxKey s \<mapsto> x) \<and> lifecycle (st_Phase (sbx_Status s)) (st_Phase (sbx_Status x)))"

lemma moves_refl [simp]: "moves s bs bs" by (simp add: moves_def)

context world_laws
begin

lemma status_moves:
  assumes "currentBox (boxes k) s" "lifecycle (st_Phase (sbx_Status s)) (st_Phase (f (sbx_Status s)))"
  shows "moves s (boxes k) (boxes (snd (kc_UpdateSandboxStatus kc (setSbxStatus f s) k)))"
proof -
  obtain e k' where u: "kc_UpdateSandboxStatus kc (setSbxStatus f s) k = (e, k')" by force
  have k: "sbxKey (setSbxStatus f s) = sbxKey s" "o_Version (sbx_Meta (setSbxStatus f s)) = o_Version (sbx_Meta s)"
    "sbx_Status (setSbxStatus f s) = f (sbx_Status s)"
    by (simp_all add: setSbxStatus_def sbxKey_def)
  from update_status [OF u] show ?thesis
  proof
    assume "e \<noteq> Some Conflict \<and> statusWritten (boxes k) (setSbxStatus f s) (boxes k')"
    then obtain q x where q: "boxes k (sbxKey s) = Some q" "o_Version (sbx_Meta q) = o_Version (sbx_Meta s)"
      "boxes k' = (boxes k)(sbxKey s \<mapsto> x)" "sbx_Status x = f (sbx_Status s)"
      unfolding statusWritten_def k by blast
    moreover have "q = s" using assms(1) q(1,2) unfolding currentBox_def by blast
    ultimately show ?thesis using assms(2) u unfolding moves_def by auto
  qed (simp add: u)
qed

lemma fail_moves:
  assumes "sr_Kube r = kc" "currentBox (boxes k) s" "lifecycle (st_Phase (sbx_Status s)) PhaseFailed"
  shows "moves s (boxes k) (boxes (snd (fail r s reason msg k)))"
  using status_moves [OF assms(2), of "\<lambda>x. x\<lparr>st_Phase := PhaseFailed, st_Reason := reason @ '': '' @ msg, st_Token := []\<rparr>"] assms(1,3)
  by (simp add: fail_def case_prod_beta)

lemma recordPod_moves:
  assumes "sr_Kube r = kc" "currentBox (boxes k) s" "lifecycle (st_Phase (sbx_Status s)) (st_Phase (f (sbx_Status s)))"
  shows "moves s (boxes k) (boxes (snd (recordPod r (setSbxStatus f s) k)))"
  using status_moves [OF assms(2), of f] assms(1,3)
  by (auto simp: recordPod_def split: prod.splits option.splits)

lemma claim_boxes: "sr_Kube r = kc \<Longrightarrow> boxes (snd (claimWarmPod r s t k)) = boxes k"
  using tryClaim_boxes by (simp add: claimWarmPod_def split: sum.splits)

lemma createPod_boxes: "sr_Kube r = kc \<Longrightarrow> boxes (snd (createPod r s t k)) = boxes k"
  by (simp add: createPod_def Let_def case_prod_beta pod_frame split: sum.splits)

lemma acquirePod_moves:
  assumes r: "sr_Kube r = kc" and c: "currentBox (boxes k) s" and a: "active (st_Phase (sbx_Status s))"
  shows "moves s (boxes k) (boxes (snd (acquirePod r s k)))"
proof -
  note f = fail_moves [OF r _ refuse [OF a]]
  note rec = recordPod_moves [OF r, of _ s]
  have l: "lifecycle (st_Phase (sbx_Status s)) PhaseBinding" by (rule acquire [OF a])
  have claim: "moves s (boxes k) (boxes (snd (case claimWarmPod r s t k of
                  (Inl e, k1) \<Rightarrow> (Failed e, k1)
                | (Inr (Some q), k1) \<Rightarrow>
                    recordPod r (setSbxStatus (\<lambda>x. x\<lparr>st_Phase := PhaseBinding, st_PodName := o_Name (pod_Meta q), st_ColdStart := False\<rparr>) s) k1
                | (Inr None, k1) \<Rightarrow>
                    (case createPod r s t k1 of
                       (Inl e, k2) \<Rightarrow> fail r s ''PodCreateFailed'' e k2
                     | (Inr q, k2) \<Rightarrow>
                         recordPod r (setSbxStatus (\<lambda>x. x\<lparr>st_Phase := PhaseBinding, st_PodName := o_Name (pod_Meta q), st_ColdStart := True\<rparr>) s) k2))))" for t
  proof -
    obtain res k1 where c1: "claimWarmPod r s t k = (res, k1)" by force
    then have b1: "boxes k1 = boxes k" using claim_boxes [OF r, of s t k] by simp
    obtain res2 k2 where c2: "createPod r s t k1 = (res2, k2)" by force
    then have b2: "boxes k2 = boxes k" using createPod_boxes [OF r, of s t k1] b1 by simp
    show ?thesis
      using rec [of k1] rec [of k2] f [of k2] b1 b2 c l c1 c2 by (cases res; cases res2) (simp_all split: option.splits)
  qed
  show ?thesis
    unfolding acquirePod_def using claim f [OF c] rec [of k] c l by (simp split: sum.splits option.splits)
qed

lemma bindDone_moves:
  assumes r: "sr_Kube r = kc" and c: "currentBox (boxes k) s" and p: "st_Phase (sbx_Status s) = PhaseBinding"
  shows "moves s (boxes k) (boxes (snd (bindDone r s t q tier resp k)))"
proof -
  obtain e k1 where u: "kc_UpdateSandboxStatus kc (setSbxStatus (runningStatus r s t q resp) s) k = (e, k1)" by force
  have "st_Phase (runningStatus r s t q resp (sbx_Status s)) = PhaseRunning" by (simp add: runningStatus_def)
  then have "moves s (boxes k) (boxes k1)" using status_moves [OF c, of "runningStatus r s t q resp"] u p bound by simp
  moreover have "boxes (snd (bindDone r s t q tier resp k)) = boxes k1"
    using u r by (auto simp: bindDone_def Let_def pod_frame split: option.splits)
  ultimately show ?thesis by simp
qed

lemma bind_moves:
  assumes r: "sr_Kube r = kc" "sr_Exec r = ex" and c: "currentBox (boxes k) s" and p: "st_Phase (sbx_Status s) = PhaseBinding"
  shows "moves s (boxes k) (boxes (snd (bind r s k)))"
proof -
  have f: "boxes k' = boxes k \<Longrightarrow> moves s (boxes k) (boxes (snd (fail r s a b k')))" for a b k'
    using fail_moves [OF r(1), of k' s] c p bindFailed by simp
  have d: "boxes k' = boxes k \<Longrightarrow> moves s (boxes k) (boxes (snd (bindDone r s t q tier resp k')))" for t q tier resp k'
    using bindDone_moves [OF r(1), of k' s] c p by simp
  show ?thesis
    by (auto simp: bind_def r case_prod_beta bind_frame pod_frame intro!: f d split: sum.splits)
qed

lemma watchExpiry_moves:
  assumes r: "sr_Kube r = kc" "sr_Exec r = ex" and c: "currentBox (boxes k) s" and p: "st_Phase (sbx_Status s) = PhaseRunning"
  shows "moves s (boxes k) (boxes (snd (watchExpiry r s k)))"
proof -
  obtain e k1 where d: "deletePod r s k = (e, k1)" by force
  then have "boxes k1 = boxes k" using deletePod_boxes [OF r, of s k] by simp
  then have "moves s (boxes k) (boxes (snd (expire r s reason k)))" for reason
    using status_moves [of k1 s "\<lambda>x. x\<lparr>st_Phase := PhaseExpired, st_Reason := reason, st_Token := []\<rparr>"] c p expired d r
    by (simp add: expire_def case_prod_beta split: option.splits)
  then show ?thesis by (simp add: watchExpiry_def Let_def split: option.splits)
qed

lemma dispatch_moves:
  assumes r: "sr_Kube r = kc" "sr_Exec r = ex" and c: "currentBox (boxes k) s"
  shows "moves s (boxes k) (boxes (snd (dispatch r s k)))"
  using acquirePod_moves [OF r(1) c] bind_moves [OF r c] watchExpiry_moves [OF r c]
  by (auto simp: dispatch_def Let_def active_def phase_defs)

lemma moves_phase:
  assumes "moves s bs bs'"
  shows "phaseAt bs' nm' = phaseAt bs nm'
    \<or> (nm' = sbxKey s \<and> (\<exists>a b. phaseAt bs nm' = Some a \<and> phaseAt bs' nm' = Some b \<and> lifecycle a b))"
  using assms unfolding moves_def phaseAt_def by (cases "nm' = sbxKey s") auto

text \<open>A write of the object itself keeps the status, or removes a sandbox that is being deleted.\<close>

lemma box_phase:
  assumes "kc_UpdateSandbox kc s k = (res, k')"
  shows "phaseAt (boxes k') nm' = phaseAt (boxes k) nm' \<or> (nm' = sbxKey s \<and> boxes k' nm' = None)"
  using update_sandbox [OF assms] unfolding boxWritten_def phaseAt_def by (cases "nm' = sbxKey s") auto

lemma finalize_phase:
  assumes r: "sr_Kube r = kc" "sr_Exec r = ex"
  shows "phaseAt (boxes (snd (finalize r s k))) nm' = phaseAt (boxes k) nm' \<or> (nm' = sbxKey s \<and> boxes (snd (finalize r s k)) nm' = None)"
proof -
  obtain e k1 where d: "deletePod r s k = (e, k1)" by force
  then have b: "boxes k1 = boxes k" using deletePod_boxes [OF r, of s k] by simp
  define s1 where "s1 = s\<lparr>sbx_Meta := (sbx_Meta s)\<lparr>o_Finalizers := removeAll FinalizerSandbox (o_Finalizers (sbx_Meta s))\<rparr>\<rparr>"
  have k: "sbxKey s1 = sbxKey s" by (simp add: s1_def sbxKey_def)
  obtain res k2 where u: "kc_UpdateSandbox kc s1 k1 = (res, k2)" by force
  have "snd (finalize r s k) \<in> {k1, k2}"
    using d u r by (cases e; cases res) (simp_all add: finalize_def s1_def)
  then show ?thesis using box_phase [OF u, of nm'] b k by auto
qed

lemma reconcile_phase:
  assumes r: "sr_Kube r = kc" "sr_Exec r = ex"
  shows "phaseAt (boxes (snd (SandboxReconcile r nm k))) nm' = phaseAt (boxes k) nm'
    \<or> (nm' = nm \<and> (boxes (snd (SandboxReconcile r nm k)) nm' = None
          \<or> (\<exists>a b. phaseAt (boxes k) nm' = Some a \<and> phaseAt (boxes (snd (SandboxReconcile r nm k))) nm' = Some b \<and> lifecycle a b)))"
proof (cases "kc_GetSandbox kc nm k")
  case (Inl e)
  then show ?thesis by (simp add: SandboxReconcile_def r)
next
  case (Inr s)
  note g = get_sandbox [OF Inr]
  define s1 where "s1 = s\<lparr>sbx_Meta := (sbx_Meta s)\<lparr>o_Finalizers := o_Finalizers (sbx_Meta s) @ [FinalizerSandbox]\<rparr>\<rparr>"
  have k: "sbxKey s1 = nm" using g by (simp add: s1_def sbxKey_def)
  obtain res k1 where u: "kc_UpdateSandbox kc s1 k = (res, k1)" by force
  consider "o_Deleting (sbx_Meta s)" | "\<not> o_Deleting (sbx_Meta s)" "FinalizerSandbox \<in> set (o_Finalizers (sbx_Meta s))"
    | "\<not> o_Deleting (sbx_Meta s)" "FinalizerSandbox \<notin> set (o_Finalizers (sbx_Meta s))" by blast
  then show ?thesis
  proof cases
    case 1
    then show ?thesis using finalize_phase [OF r, of s k nm'] g by (auto simp: SandboxReconcile_def r Inr)
  next
    case 2
    then show ?thesis using moves_phase [OF dispatch_moves [OF r, of k s], of nm'] g by (simp add: SandboxReconcile_def r Inr) metis
  next
    case 3
    note b = box_phase [OF u, of nm', unfolded k]
    show ?thesis
    proof (cases res)
      case (Inl e)
      then have "snd (SandboxReconcile r nm k) = k1" using 3 u by (simp add: SandboxReconcile_def r \<open>kc_GetSandbox kc nm k = Inr s\<close> s1_def)
      then show ?thesis using b by auto
    next
      case (Inr s')
      then have e: "SandboxReconcile r nm k = dispatch r s' k1"
        using 3 u by (simp add: SandboxReconcile_def r \<open>kc_GetSandbox kc nm k = Inr s\<close> s1_def)
      have s': "sbxKey s' = nm" "currentBox (boxes k1) s'" using updated_sandbox [of s1 k s' k1] u Inr k by simp_all
      note mv = moves_phase [OF dispatch_moves [OF r s'(2)], of nm', unfolded s'(1)]
      from b show ?thesis
      proof
        assume "phaseAt (boxes k1) nm' = phaseAt (boxes k) nm'"
        then show ?thesis using mv unfolding e by metis
      next
        assume "nm' = nm \<and> boxes k1 nm' = None"
        then show ?thesis using mv unfolding e by (auto simp: phaseAt_def)
      qed
    qed
  qed
qed

text \<open>When the pod of a sandbox has been deleted without error it is gone or shutting down.\<close>

lemma removed_gone: "podRemoved ps p ps' \<Longrightarrow> podGone ps' (podKey p)"
  by (auto simp: podRemoved_def podGone_def)

lemma deletePod_gone:
  assumes r: "sr_Kube r = kc" "sr_Exec r = ex" and h: "\<And>nm k. kc_GetPod kc nm k = Inl NotFound \<Longrightarrow> podGone (pods k) nm"
    and d: "deletePod r s k = (None, k1)" "st_PodName (sbx_Status s) \<noteq> []"
  shows "podGone (pods k1) (o_Namespace (sbx_Meta s), st_PodName (sbx_Status s))"
proof (cases "kc_GetPod kc (o_Namespace (sbx_Meta s), st_PodName (sbx_Status s)) k")
  case (Inl e)
  then show ?thesis using d h by (auto simp: deletePod_def r split: if_splits)
next
  case (Inr p)
  define k0 where "k0 = (if pod_PodIP p \<noteq> [] then snd (ex_Unbind ex (podRef p) k) else k)"
  obtain e where e: "kc_DeletePod kc p k0 = (e, k1)" "e = None \<or> e = Some NotFound"
    using d Inr by (auto simp: deletePod_def r k0_def Let_def IgnoreNotFound_def split: prod.splits if_splits)
  from delete_pod [OF e(1)] e(2) have "podGone (pods k1) (podKey p)" using removed_gone by auto
  then show ?thesis using get_pod [OF Inr] by simp
qed

lemma release_gone:
  assumes r: "sr_Kube r = kc" "sr_Exec r = ex" and h: "\<And>nm k. kc_GetPod kc nm k = Inl NotFound \<Longrightarrow> podGone (pods k) nm"
    and p: "st_PodName (sbx_Status s) \<noteq> []"
  shows "boxes (snd (expire r s reason k)) \<noteq> boxes k \<Longrightarrow> podGone (pods (snd (expire r s reason k))) (o_Namespace (sbx_Meta s), st_PodName (sbx_Status s))"
    and "boxes (snd (finalize r s k)) \<noteq> boxes k \<Longrightarrow> podGone (pods (snd (finalize r s k))) (o_Namespace (sbx_Meta s), st_PodName (sbx_Status s))"
proof -
  obtain e k1 where d: "deletePod r s k = (e, k1)" by force
  have b: "boxes k1 = boxes k" using deletePod_boxes [OF r, of s k] d by simp
  have g: "e = None \<Longrightarrow> podGone (pods k1) (o_Namespace (sbx_Meta s), st_PodName (sbx_Status s))" using deletePod_gone [OF r h _ p] d by simp
  show "podGone (pods (snd (expire r s reason k))) (o_Namespace (sbx_Meta s), st_PodName (sbx_Status s))" if "boxes (snd (expire r s reason k)) \<noteq> boxes k"
    using that g b d by (cases e) (simp_all add: expire_def r case_prod_beta sandbox_frame)
  show "podGone (pods (snd (finalize r s k))) (o_Namespace (sbx_Meta s), st_PodName (sbx_Status s))" if "boxes (snd (finalize r s k)) \<noteq> boxes k"
    using that g b d by (cases e) (simp_all add: finalize_def r case_prod_beta sandbox_frame split: sum.splits)
qed

lemma reconcile_release:
  assumes r: "sr_Kube r = kc" "sr_Exec r = ex" and h: "\<And>nm k. kc_GetPod kc nm k = Inl NotFound \<Longrightarrow> podGone (pods k) nm"
    and s: "kc_GetSandbox kc nm k = Inr s" "st_PodName (sbx_Status s) \<noteq> []"
    and c: "o_Deleting (sbx_Meta s) \<or> (FinalizerSandbox \<in> set (o_Finalizers (sbx_Meta s)) \<and> st_Phase (sbx_Status s) = PhaseRunning)"
    and b: "boxes (snd (SandboxReconcile r nm k)) \<noteq> boxes k"
  shows "podGone (pods (snd (SandboxReconcile r nm k))) (fst nm, st_PodName (sbx_Status s))"
proof -
  have ns: "o_Namespace (sbx_Meta s) = fst nm" using get_sandbox [OF s(1)] by (auto simp: sbxKey_def)
  show ?thesis
  proof (cases "o_Deleting (sbx_Meta s)")
    case True
    then have e: "SandboxReconcile r nm k = finalize r s k" by (simp add: SandboxReconcile_def r s)
    show ?thesis using release_gone(2) [OF r h s(2)] b ns unfolding e by simp
  next
    case False
    then have w: "SandboxReconcile r nm k = watchExpiry r s k"
      using c by (simp add: SandboxReconcile_def r s dispatch_def Let_def)
    with b have "SandboxReconcile r nm k = expire r s ''TTL elapsed'' k"
      by (auto simp: watchExpiry_def Let_def split: option.splits if_splits)
    then show ?thesis using release_gone(1) [OF r h s(2)] b ns by simp
  qed
qed

end

section \<open>Properties\<close>

text \<open>C13: a warm pod is claimed by one sandbox. When a claim succeeds, the pod the server held was idle,
  ready, of the current template hash, measured at or above the template's floor and in the
  sandbox's namespace; afterwards it is bound to the claiming sandbox and owned by it, and no other
  pod has changed. A copy that was out of date cannot be claimed.\<close>

theorem claim_is_exclusive:
  assumes "world_laws (sr_Kube r) pods boxes (sr_Exec r)" "\<And>xs. set (sr_Shuffle r xs) \<subseteq> set xs"
    and "claimWarmPod r s t k = (Inr (Some p'), k')"
  shows "\<exists>p q. pods k (podKey p') = Some p \<and> podLabel p LabelState = StateIdle \<and> claimable t p
      \<and> podLabel p LabelTemplateHash = TemplateHash (sr_Render r) t \<and> fst (podKey p') = o_Namespace (sbx_Meta s)
      \<and> pods k' = (pods k)(podKey p' \<mapsto> q) \<and> boundTo q (o_Name (sbx_Meta s))
      \<and> o_Owner (pod_Meta q) = Some (ownerRef ''Sandbox'' (sbx_Meta s))"
  using world_laws.claimWarmPod_effect [OF assms(1) refl assms(2,3)] by metis

text \<open>A pod never changes hands. Whatever a reconcile of any sandbox does, a pod that is bound to a
  sandbox is afterwards bound to the same sandbox or no longer exists.\<close>

lemma bound_pod_never_rebound:
  assumes "world_laws (sr_Kube r) pods boxes (sr_Exec r)" "\<And>xs. set (sr_Shuffle r xs) \<subseteq> set xs"
  shows "keepsBound (pods k) (pods (snd (SandboxReconcile r nm k)))"
  using world_laws.reconcile_keeps [OF assms(1) refl refl assms(2)] .

text \<open>C15: the controller refines the life cycle. A reconcile changes the phase of no other sandbox; its own
  sandbox keeps its phase, disappears with its last finalizer, or takes one step of the life cycle
  from the phase the server held, even when the copy that was read was old.\<close>

theorem reconcile_refines_lifecycle:
  assumes "world_laws (sr_Kube r) pods boxes (sr_Exec r)"
  shows "phaseAt (boxes (snd (SandboxReconcile r nm k))) nm' = phaseAt (boxes k) nm'
    \<or> (nm' = nm \<and> (boxes (snd (SandboxReconcile r nm k)) nm' = None
          \<or> (\<exists>a b. phaseAt (boxes k) nm' = Some a \<and> phaseAt (boxes (snd (SandboxReconcile r nm k))) nm' = Some b \<and> lifecycle a b)))"
  using world_laws.reconcile_phase [OF assms refl refl] .



text \<open>C17: everyone agrees on the deadline. For the 32-bit seconds of the API, the lifetime is never negative and never
  above the template's cap; it is unlimited exactly when the sandbox or the default asks for that and
  there is no cap; execd is given the same number of seconds that the status deadline is set from.\<close>

theorem deadline_is_consistent:
  assumes "int32 (ss_TTLSeconds (sbx_Spec s))" "int32 (ts_DefaultTTLSeconds (tp_Spec t))" "int32 (ts_MaxTTLSeconds (tp_Spec t))"
  shows "0 \<le> ttlFor s t \<and> (ts_MaxTTLSeconds (tp_Spec t) > 0 \<longrightarrow> 0 < ttlFor s t \<and> ttlFor s t \<le> ts_MaxTTLSeconds (tp_Spec t) * second)
    \<and> (ttlFor s t = 0 \<longleftrightarrow> ts_MaxTTLSeconds (tp_Spec t) \<le> 0 \<and>
         (ss_TTLSeconds (sbx_Spec s) < 0 \<or> ss_TTLSeconds (sbx_Spec s) = 0 \<and> ts_DefaultTTLSeconds (tp_Spec t) < 0))
    \<and> br_TTLSeconds (bindRequest r s t) * second = ttlFor s t
    \<and> (st_ExpiresAt (runningStatus r s t p resp x) = None \<longleftrightarrow> ttlFor s t = 0)
    \<and> (\<forall>d. st_ExpiresAt (runningStatus r s t p resp x) = Some d \<longrightarrow> \<bar>d - (sr_Now r + br_TTLSeconds (bindRequest r s t) * second)\<bar> < second)"
proof -
  define n where "n = (let w0 = ss_TTLSeconds (sbx_Spec s); w1 = (if w0 = 0 then ts_DefaultTTLSeconds (tp_Spec t) else w0);
      w = (if w1 = 0 then 1800 else w1); mx = ts_MaxTTLSeconds (tp_Spec t)
    in if w < 0 then (if mx > 0 then mx else 0) else if mx > 0 \<and> w > mx then mx else w)"
  have "int32 n" using assms by (auto simp: n_def Let_def int32_def)
  then have sec: "seconds n = n * second" by (rule seconds_int32)
  have ttl: "ttlFor s t = n * second"
    unfolding sec [symmetric] by (simp add: ttlFor_def n_def Let_def seconds_def wrap64_def)
  have pos: "0 < second" by (simp add: second_def)
  have "0 \<le> n" by (auto simp: n_def Let_def)
  moreover have "ts_MaxTTLSeconds (tp_Spec t) > 0 \<longrightarrow> 0 < n \<and> n \<le> ts_MaxTTLSeconds (tp_Spec t)" by (auto simp: n_def Let_def)
  moreover have "n = 0 \<longleftrightarrow> ts_MaxTTLSeconds (tp_Spec t) \<le> 0 \<and>
         (ss_TTLSeconds (sbx_Spec s) < 0 \<or> ss_TTLSeconds (sbx_Spec s) = 0 \<and> ts_DefaultTTLSeconds (tp_Spec t) < 0)"
    by (auto simp: n_def Let_def)
  moreover have br: "br_TTLSeconds (bindRequest r s t) * second = n * second" using pos by (simp add: bindRequest_def ttl)
  moreover have "\<bar>metaTime d - d\<bar> < second" for d
    using pos minus_div_mult_eq_mod [of d second] pos_mod_bound [OF pos, of d] pos_mod_sign [OF pos, of d] by (simp add: metaTime_def abs_less_iff)
  ultimately show ?thesis
    unfolding ttl br using pos by (auto simp: runningStatus_def ttl mult_le_0_iff zero_less_mult_iff)
qed

section \<open>Concrete reconciles\<close>

definition demoSR :: "cluster sandbox_reconciler" where
  "demoSR = \<lparr>sr_Kube = clusterKube, sr_Render = demoRender, sr_Exec = agreeable TierUserns, sr_EndpointFor = None, sr_Now = 0,
     sr_NewToken = ''sbt_1'', sr_NewControlToken = ''jct_1'', sr_Shuffle = rev, sr_ErrText = (\<lambda>_. [])\<rparr>"

lemma demoSR_fields [simp]:
  "sr_Kube demoSR = clusterKube" "sr_Exec demoSR = agreeable TierUserns" "set (sr_Shuffle demoSR xs) \<subseteq> set xs" "sr_Render demoSR = demoRender"
  "sr_Shuffle demoSR = rev"
  by (simp_all add: demoSR_def)

lemma demo_world: "world_laws (sr_Kube demoSR) clPods clBoxes (sr_Exec demoSR)"
  by (simp add: clw.world_laws_axioms)

lemma demoCluster_fields [simp]:
  "cl_Pods (demoCluster p ph n) = [p]" "cl_Boxes (demoCluster p ph n) = [demoSandbox ph]" "cl_Tpls (demoCluster p ph n) = [demoTpl AdmissionApproved]"
  by (simp_all add: demoCluster_def)

lemma demoSandbox_fields [simp]:
  "o_Name (sbx_Meta (demoSandbox ph)) = ''sb1''" "o_Namespace (sbx_Meta (demoSandbox ph)) = ''ns1''" "metaKey (sbx_Meta (demoSandbox ph)) = (''ns1'', ''sb1'')"
  "o_Deleting (sbx_Meta (demoSandbox ph)) = False" "o_Finalizers (sbx_Meta (demoSandbox ph)) = [FinalizerSandbox]"
  "st_Phase (sbx_Status (demoSandbox ph)) = ph" "st_PodName (sbx_Status (demoSandbox ph)) = ''pod1''" "ss_TemplateRef (sbx_Spec (demoSandbox ph)) = ''py''"
  by (simp_all add: demoSandbox_def demoMeta_def metaKey_def)

lemma demoPod_token: "PodToken (demoPod ls v) = ''tok''"
  by (simp add: PodToken_def demoPod_def podSpecFor_def buildPodSpec_containers sandboxContainer_def)

lemma demo_required: "RequiredIsolation (tp_Spec (demoTpl s)) = TierCapAdmin" "AtLeast TierUserns TierCapAdmin"
  by (simp_all add: RequiredIsolation_def demoTpl_def demoTplSpec_def tier_defs AtLeast_def Rank_def)

lemma demo_claimable: "claimable (demoTpl s) (demoPod idleLabels v)"
  using demo_required by (simp add: claimable_def demoPod_facts idle_labels demoPod_token TierUserns_def)

lemma demo_list:
  "listObj pod_Meta [demoPod idleLabels v] ''ns1'' [(LabelTemplate, ''py''), (LabelTemplateHash, ''h''), (LabelState, StateIdle)] = [demoPod idleLabels v]"
  by (simp add: listObj_def held_def demoPod_facts matchLabels_def) (simp add: idleLabels_def label_defs)

lemma demo_tpl_name: "o_Name (tp_Meta (demoTpl s)) = ''py''"
  by (simp add: demoTpl_def demoMeta_def)

lemma demo_claim:
  "\<exists>p' k'. claimWarmPod demoSR (demoSandbox ph) (demoTpl a) (demoCluster (demoPod idleLabels 2) ph 0) = (Inr (Some p'), k') \<and> podKey p' = (''ns1'', ''pod1'')"
proof -
  have "o_Namespace (sbx_Meta (demoSandbox ph)) = o_Namespace (pod_Meta (demoPod idleLabels 2))" by (simp add: demoPod_facts)
  then obtain m where m: "SetControllerReference ''Sandbox'' (sbx_Meta (demoSandbox ph))
      ((pod_Meta (demoPod idleLabels 2))\<lparr>o_Labels := claimLabels (demoSandbox ph) idleLabels, o_Owner := None\<rparr>) = Inr m"
    by (simp add: SetControllerReference_def)
  have m': "m = (pod_Meta (demoPod idleLabels 2))\<lparr>o_Labels := claimLabels (demoSandbox ph) idleLabels, o_Owner := Some (ownerRef ''Sandbox'' (sbx_Meta (demoSandbox ph)))\<rparr>"
    by (rule claim_meta [OF m])
  have "guarded pod_Meta [demoPod idleLabels 2] m = Inr (demoPod idleLabels 2)"
    unfolding m' by (simp add: guarded_def held_def metaKey_def demoPod_facts demoPod_def demoMeta_def)
  moreover have "podKey ((demoPod idleLabels 2)\<lparr>pod_Meta := m\<rparr>) = (''ns1'', ''pod1'')"
    unfolding m' by (simp add: podKey_def) (simp add: demoPod_def demoMeta_def)
  ultimately show ?thesis
    using m by (simp add: claimWarmPod_def demo_tpl_name demo_reads demo_list demo_claimable demoPod_facts cl_UpdatePod_def)
qed

theorem claim_is_exclusive_witness:
  "\<exists>p' k' q. claimWarmPod demoSR (demoSandbox []) (demoTpl AdmissionApproved) (demoCluster (demoPod idleLabels 2) [] 0) = (Inr (Some p'), k')
     \<and> clPods k' = (clPods (demoCluster (demoPod idleLabels 2) [] 0))(podKey p' \<mapsto> q) \<and> boundTo q ''sb1''"
proof -
  obtain p' k' where c: "claimWarmPod demoSR (demoSandbox []) (demoTpl AdmissionApproved) (demoCluster (demoPod idleLabels 2) [] 0) = (Inr (Some p'), k')"
    using demo_claim by blast
  from claim_is_exclusive [OF demo_world demoSR_fields(3) c] c show ?thesis by auto
qed

lemma demo_get:
  "getObj sbx_Meta [demoSandbox ph] (''ns1'', ''sb1'') = Inr (demoSandbox ph)" "getObj pod_Meta [demoPod ls v] (''ns1'', ''pod1'') = Inr (demoPod ls v)"
  by (simp_all add: getObj_def held_def demoPod_facts)

lemma demo_bind_runs:
  "isRunning (clBoxes (snd (SandboxReconcile demoSR (''ns1'', ''sb1'') (demoCluster (demoPod boundLabels 3) PhaseBinding 0)))) (''ns1'', ''sb1'')"
proof -
  define c where "c = demoCluster (demoPod boundLabels 3) PhaseBinding 0"
  define s where "s = demoSandbox PhaseBinding"
  have c: "cl_Pods c = [demoPod boundLabels 3]" "cl_Boxes c = [s]" "cl_Tpls c = [demoTpl AdmissionApproved]" by (simp_all add: c_def s_def)
  have tier: "measuredTier demoSR (demoPod boundLabels 3) c = Inr TierUserns"
    by (simp add: measuredTier_def demoPod_facts) (simp add: boundLabels_def idleLabels_def lbl_def label_defs TierUserns_def)
  then have lt: "podLabel (demoPod boundLabels 3) LabelIsolationTier \<noteq> []"
    by (simp add: demoPod_facts) (simp add: boundLabels_def idleLabels_def lbl_def label_defs TierUserns_def)
  define resp where "resp = \<lparr>bs_SandboxID = br_SandboxID (bindRequest demoSR s (demoTpl AdmissionApproved)), bs_IsolationTier = TierUserns,
    bs_BoundAt = 0, bs_ExpiresAt = None, bs_BwrapArgs = []\<rparr>"
  have b: "ex_Bind (agreeable TierUserns) x (bindRequest demoSR s (demoTpl AdmissionApproved)) c = (Inr resp, c)" for x
    by (simp add: agreeable_def resp_def)
  have t: "template demoSR s c = Inr (demoTpl AdmissionApproved)" by (simp add: template_def c demo_reads s_def)
  have ip: "pod_PodIP (demoPod boundLabels 3) \<noteq> []" by (simp add: demoPod_def)
  have "SandboxReconcile demoSR (''ns1'', ''sb1'') c = bind demoSR s c"
    by (simp add: SandboxReconcile_def c demo_get dispatch_def Let_def s_def)
  also have "\<dots> = bindDone demoSR s (demoTpl AdmissionApproved) (demoPod boundLabels 3) TierUserns resp c"
    using demo_required t tier b ip by (simp add: bind_def c demo_get demoPod_facts s_def)
  finally have e: "SandboxReconcile demoSR (''ns1'', ''sb1'') c = bindDone demoSR s (demoTpl AdmissionApproved) (demoPod boundLabels 3) TierUserns resp c" .
  let ?s1 = "setSbxStatus (runningStatus demoSR s (demoTpl AdmissionApproved) (demoPod boundLabels 3) resp) s"
  have "guarded sbx_Meta [s] (sbx_Meta ?s1) = Inr s" by (simp add: guarded_def held_def setSbxStatus_def)
  then have "snd (SandboxReconcile demoSR (''ns1'', ''sb1'') c) = c\<lparr>cl_Boxes := putObj sbx_Meta
      (s\<lparr>sbx_Meta := (sbx_Meta s)\<lparr>o_Version := cl_Next c\<rparr>, sbx_Status := sbx_Status ?s1\<rparr>) [s], cl_Next := cl_Next c + 1\<rparr>"
    unfolding e using lt by (simp add: bindDone_def Let_def cl_UpdateSandboxStatus_def c)
  then show ?thesis
    unfolding c_def [symmetric] by (simp add: isRunning_def clBoxes_def held_put s_def setSbxStatus_def runningStatus_def)
qed


theorem reconcile_refines_lifecycle_witness:
  "lifecycle PhaseBinding PhaseRunning \<and>
   phaseAt (clBoxes (snd (SandboxReconcile demoSR (''ns1'', ''sb1'') (demoCluster (demoPod boundLabels 3) PhaseBinding 0)))) (''ns1'', ''sb1'') = Some PhaseRunning"
proof -
  define c where "c = demoCluster (demoPod boundLabels 3) PhaseBinding 0"
  have "phaseAt (clBoxes c) (''ns1'', ''sb1'') = Some PhaseBinding" by (simp add: c_def phaseAt_def clBoxes_def held_def)
  moreover have "phaseAt (clBoxes (snd (SandboxReconcile demoSR (''ns1'', ''sb1'') c))) (''ns1'', ''sb1'') = Some PhaseRunning"
    using demo_bind_runs by (auto simp: c_def isRunning_def phaseAt_def)
  ultimately show ?thesis
    using reconcile_refines_lifecycle [OF demo_world, of "(''ns1'', ''sb1'')" c "(''ns1'', ''sb1'')"] unfolding c_def by (auto simp: phaseAt_def)
qed

definition deletedCluster :: cluster where
  "deletedCluster = (demoCluster (demoPod boundLabels 3) PhaseRunning 0)\<lparr>cl_Boxes :=
     [(demoSandbox PhaseRunning)\<lparr>sbx_Meta := (sbx_Meta (demoSandbox PhaseRunning))\<lparr>o_Deleting := True\<rparr>\<rparr>]\<rparr>"


theorem deadline_is_consistent_witness:
  "ttlFor (demoSandbox []) (demoTpl AdmissionApproved) = 60 * second \<and> 0 \<le> ttlFor (demoSandbox []) (demoTpl AdmissionApproved)"
proof -
  have "int32 (ss_TTLSeconds (sbx_Spec (demoSandbox [])))" "int32 (ts_DefaultTTLSeconds (tp_Spec (demoTpl AdmissionApproved)))"
    "int32 (ts_MaxTTLSeconds (tp_Spec (demoTpl AdmissionApproved)))"
    by (simp_all add: demoSandbox_def demoTpl_def demoTplSpec_def int32_def)
  from deadline_is_consistent [OF this] show ?thesis
    by (simp add: ttlFor_def demoSandbox_def demoTpl_def demoTplSpec_def seconds_def second_def wrap64_def)
qed

end
