(* ===== verification/Store.thy ===== *)
theory Store
  imports Go_Strings "HOL-Library.AList"
begin

text \<open>
  \<open>pkg/apiserver/store.go\<close>, \<open>memstore.go\<close> and \<open>pgstore.go\<close>: the persistence boundary as a record
  of operations, the in-memory store, and the Postgres store by the meaning of its statements on
  the tables of \<open>schema.sql\<close>. A table is an association list by primary key; a nullable text
  column that every read coalesces to the empty string is a string. The Postgres operations are
  given for a database that answers; a failed statement returns its error and changes nothing.
\<close>

section \<open>Records\<close>

text \<open>\<open>time.Time\<close> is a number of nanoseconds, a pointer to one an option.\<close>

record tenant =
  t_ID :: string
  t_Name :: string
  t_Namespace :: string
  t_Status :: string
  t_CreatedAt :: int

record quota =
  q_TenantID :: string
  q_MaxConcurrent :: int
  q_MaxCreatePerMinute :: int
  q_MaxSandboxSecondsDay :: int
  q_MaxIdlePods :: int

record api_key =
  k_KeyID :: string
  k_TenantID :: string
  k_Name :: string
  k_SecretHash :: string
  k_Scopes :: "string list"
  k_AllowedTemplates :: "string list"
  k_IPAllowlist :: "string list"
  k_ExpiresAt :: "int option"
  k_RevokedAt :: "int option"
  k_LastUsedAt :: "int option"
  k_CreatedAt :: int

record sandbox_record =
  sr_ID :: string
  sr_TenantID :: string
  sr_APIKeyID :: string
  sr_Template :: string
  sr_State :: string
  sr_ColdStart :: bool
  sr_IsolationTier :: string
  sr_Node :: string
  sr_CreatedAt :: int
  sr_ReadyAt :: "int option"
  sr_DeletedAt :: "int option"
  sr_DeleteReason :: string
  sr_Metadata :: "(string \<times> string) list"

record idempotency_record =
  i_Key :: string
  i_TenantID :: string
  i_RequestSum :: string
  i_SandboxID :: string
  i_CreatedAt :: int

record warmup_request =
  w_ID :: string
  w_TenantID :: string
  w_Template :: string
  w_Replicas :: int
  w_Reason :: string
  w_Status :: string
  w_RequestedBy :: string
  w_ReviewedBy :: string
  w_ReviewNote :: string
  w_CreatedAt :: int
  w_ReviewedAt :: "int option"

record pool_budget =
  b_TotalIdlePods :: int
  b_TotalCPU :: string
  b_TotalMemory :: string
  b_Allocated :: int
  b_UpdatedBy :: string
  b_UpdatedAt :: int

record audit_event =
  a_TenantID :: string
  a_Actor :: string
  a_Action :: string
  a_Target :: string
  a_RequestID :: string
  a_IP :: string
  a_UserAgent :: string
  a_At :: int
  a_Detail :: "(string \<times> string) list"

datatype store_error = ErrNotFound | StoreErr string

type_synonym 'a lookup = "(store_error, 'a) result"

section \<open>The interface\<close>

record 's store_ops =
  so_Tenant :: "string \<Rightarrow> 's \<Rightarrow> tenant lookup"
  so_APIKey :: "string \<Rightarrow> 's \<Rightarrow> api_key lookup"
  so_TouchAPIKey :: "string \<Rightarrow> int \<Rightarrow> 's \<Rightarrow> store_error option \<times> 's"
  so_Quota :: "string \<Rightarrow> 's \<Rightarrow> quota lookup"
  so_CountRunning :: "string \<Rightarrow> 's \<Rightarrow> int lookup"
  so_CountCreatedSince :: "string \<Rightarrow> int \<Rightarrow> 's \<Rightarrow> int lookup"
  so_RecordSandbox :: "sandbox_record \<Rightarrow> 's \<Rightarrow> store_error option \<times> 's"
  so_UpdateSandbox :: "sandbox_record \<Rightarrow> 's \<Rightarrow> store_error option \<times> 's"
  so_Sandbox :: "string \<Rightarrow> 's \<Rightarrow> sandbox_record lookup"
  so_ListSandboxes :: "string \<Rightarrow> int \<Rightarrow> string \<Rightarrow> 's \<Rightarrow> (sandbox_record list \<times> string) lookup"
  so_Idempotency :: "string \<Rightarrow> string \<Rightarrow> 's \<Rightarrow> idempotency_record lookup"
  so_SaveIdempotency :: "idempotency_record \<Rightarrow> 's \<Rightarrow> store_error option \<times> 's"
  so_WarmupRequests :: "string \<Rightarrow> 's \<Rightarrow> warmup_request list lookup"
  so_WarmupRequest :: "string \<Rightarrow> 's \<Rightarrow> warmup_request lookup"
  so_SaveWarmupRequest :: "warmup_request \<Rightarrow> 's \<Rightarrow> store_error option \<times> 's"
  so_PoolBudget :: "'s \<Rightarrow> pool_budget lookup"
  so_SetPoolBudget :: "pool_budget \<Rightarrow> 's \<Rightarrow> store_error option \<times> 's"
  so_Audit :: "audit_event \<Rightarrow> 's \<Rightarrow> store_error option \<times> 's"

section \<open>Tables\<close>

text \<open>The tables both stores keep; the key of the idempotency table differs.\<close>

record 'ik tables =
  tenants :: "(string \<times> tenant) list"
  keys :: "(string \<times> api_key) list"
  quotas :: "(string \<times> quota) list"
  boxes :: "(string \<times> sandbox_record) list"
  idem :: "('ik \<times> idempotency_record) list"
  warmups :: "(string \<times> warmup_request) list"
  budget :: "pool_budget option"
  audit :: "audit_event list"

type_synonym mem = "string tables"
type_synonym pg = "(string \<times> string) tables"

definition find_row :: "('k \<times> 'v) list \<Rightarrow> 'k \<Rightarrow> 'v lookup" where
  "find_row t k = (case map_of t k of Some v \<Rightarrow> Inr v | None \<Rightarrow> Inl ErrNotFound)"

definition rows_where :: "('v \<Rightarrow> bool) \<Rightarrow> ('k \<times> 'v) list \<Rightarrow> 'v list" where
  "rows_where P t = filter P (map snd t)"

definition ok_tables :: "'ik tables \<Rightarrow> bool" where
  "ok_tables s \<longleftrightarrow> distinct (map fst (boxes s)) \<and> (\<forall>(k, r) \<in> set (boxes s). k = sr_ID r)
     \<and> distinct (map fst (idem s)) \<and> distinct (map fst (warmups s)) \<and> (\<forall>(k, r) \<in> set (warmups s). k = w_ID r)"

definition running :: "string \<Rightarrow> sandbox_record \<Rightarrow> bool" where
  "running tenantID b \<longleftrightarrow> sr_TenantID b = tenantID \<and> sr_DeletedAt b = None"

definition newestFirst :: "sandbox_record \<Rightarrow> int \<times> string" where
  "newestFirst b = (- sr_CreatedAt b, sr_ID b)"

definition pageStart :: "string \<Rightarrow> int" where
  "pageStart cursor = (case Atoi cursor of Some n \<Rightarrow> if n > 0 then n else 0 | None \<Rightarrow> 0)"

definition pageLimit :: "int \<Rightarrow> int" where
  "pageLimit limit = (if limit \<le> 0 \<or> limit > 200 then 50 else limit)"

section \<open>The in-memory store\<close>

definition NewMemStore :: mem where
  "NewMemStore = \<lparr>tenants = [], keys = [], quotas = [], boxes = [], idem = [], warmups = [],
     budget = Some \<lparr>b_TotalIdlePods = 64, b_TotalCPU = ''16'', b_TotalMemory = ''32Gi'', b_Allocated = 0,
       b_UpdatedBy = [], b_UpdatedAt = 0\<rparr>, audit = []\<rparr>"

definition mem_AddTenant :: "tenant \<Rightarrow> mem \<Rightarrow> mem" where
  "mem_AddTenant t m = m\<lparr>tenants := AList.update (t_ID t) t (tenants m)\<rparr>"

definition mem_AddKey :: "api_key \<Rightarrow> mem \<Rightarrow> mem" where
  "mem_AddKey k m = m\<lparr>keys := AList.update (k_KeyID k) k (keys m)\<rparr>"

definition mem_SetQuota :: "quota \<Rightarrow> mem \<Rightarrow> mem" where
  "mem_SetQuota q m = m\<lparr>quotas := AList.update (q_TenantID q) q (quotas m)\<rparr>"

definition mem_Tenant :: "string \<Rightarrow> mem \<Rightarrow> tenant lookup" where
  "mem_Tenant i m = find_row (tenants m) i"

definition mem_APIKey :: "string \<Rightarrow> mem \<Rightarrow> api_key lookup" where
  "mem_APIKey keyID m = find_row (keys m) keyID"

definition mem_TouchAPIKey :: "string \<Rightarrow> int \<Rightarrow> mem \<Rightarrow> store_error option \<times> mem" where
  "mem_TouchAPIKey keyID at m =
     (case map_of (keys m) keyID of
        Some k \<Rightarrow> (None, m\<lparr>keys := AList.update keyID (k\<lparr>k_LastUsedAt := Some at\<rparr>) (keys m)\<rparr>)
      | None \<Rightarrow> (None, m))"

definition mem_Quota :: "string \<Rightarrow> mem \<Rightarrow> quota lookup" where
  "mem_Quota tenantID m = find_row (quotas m) tenantID"

definition mem_CountRunning :: "string \<Rightarrow> mem \<Rightarrow> int lookup" where
  "mem_CountRunning tenantID m = Inr (int (length (rows_where (running tenantID) (boxes m))))"

definition mem_CountCreatedSince :: "string \<Rightarrow> int \<Rightarrow> mem \<Rightarrow> int lookup" where
  "mem_CountCreatedSince tenantID since m =
     Inr (int (length (rows_where (\<lambda>b. sr_TenantID b = tenantID \<and> sr_CreatedAt b > since) (boxes m))))"

definition mem_RecordSandbox :: "sandbox_record \<Rightarrow> mem \<Rightarrow> store_error option \<times> mem" where
  "mem_RecordSandbox r m = (None, m\<lparr>boxes := AList.update (sr_ID r) r (boxes m)\<rparr>)"

definition mem_UpdateSandbox :: "sandbox_record \<Rightarrow> mem \<Rightarrow> store_error option \<times> mem" where
  "mem_UpdateSandbox r m = mem_RecordSandbox r m"

definition mem_Sandbox :: "string \<Rightarrow> mem \<Rightarrow> sandbox_record lookup" where
  "mem_Sandbox i m = find_row (boxes m) i"

definition mem_ListSandboxes :: "string \<Rightarrow> int \<Rightarrow> string \<Rightarrow> mem \<Rightarrow> (sandbox_record list \<times> string) lookup" where
  "mem_ListSandboxes tenantID limit0 cursor m =
     (let all = sort_key newestFirst (rows_where (\<lambda>b. sr_TenantID b = tenantID) (boxes m));
          n = int (length all);
          start0 = (if cursor = [] then 0 else pageStart cursor);
          start = (if start0 > n then n else start0);
          limit = pageLimit limit0;
          end0 = start + limit;
          next = (if end0 < n then Itoa end0 else []);
          stop = (if end0 < n then end0 else n)
      in Inr (take (nat (stop - start)) (drop (nat start) all), next))"

definition idemKey :: "string \<Rightarrow> string \<Rightarrow> string" where
  "idemKey tenantID key = tenantID @ ''/'' @ key"

definition mem_Idempotency :: "string \<Rightarrow> string \<Rightarrow> mem \<Rightarrow> idempotency_record lookup" where
  "mem_Idempotency tenantID key m = find_row (idem m) (idemKey tenantID key)"

definition mem_SaveIdempotency :: "idempotency_record \<Rightarrow> mem \<Rightarrow> store_error option \<times> mem" where
  "mem_SaveIdempotency r m = (None, m\<lparr>idem := AList.update (idemKey (i_TenantID r) (i_Key r)) r (idem m)\<rparr>)"

definition mem_Audit :: "audit_event \<Rightarrow> mem \<Rightarrow> store_error option \<times> mem" where
  "mem_Audit e m = (None, m\<lparr>audit := audit m @ [e]\<rparr>)"

definition mem_WarmupRequests :: "string \<Rightarrow> mem \<Rightarrow> warmup_request list lookup" where
  "mem_WarmupRequests status m =
     Inr (sort_key w_CreatedAt (rows_where (\<lambda>r. status = [] \<or> w_Status r = status) (warmups m)))"

definition mem_WarmupRequest :: "string \<Rightarrow> mem \<Rightarrow> warmup_request lookup" where
  "mem_WarmupRequest i m = find_row (warmups m) i"

definition mem_SaveWarmupRequest :: "warmup_request \<Rightarrow> mem \<Rightarrow> store_error option \<times> mem" where
  "mem_SaveWarmupRequest r m = (None, m\<lparr>warmups := AList.update (w_ID r) r (warmups m)\<rparr>)"

definition approvedReplicas :: "'ik tables \<Rightarrow> int" where
  "approvedReplicas s = sum_list (map w_Replicas (rows_where (\<lambda>r. w_Status r = ''approved'') (warmups s)))"

text \<open>The Go sum wraps at 64 bits.\<close>

definition mem_PoolBudget :: "mem \<Rightarrow> pool_budget lookup" where
  "mem_PoolBudget m =
     (case budget m of
        Some b \<Rightarrow> Inr (b\<lparr>b_Allocated := wrap64 (approvedReplicas m)\<rparr>)
      | None \<Rightarrow> Inl ErrNotFound)"

definition mem_SetPoolBudget :: "pool_budget \<Rightarrow> mem \<Rightarrow> store_error option \<times> mem" where
  "mem_SetPoolBudget b m = (None, m\<lparr>budget := Some b\<rparr>)"

definition memStore :: "mem store_ops" where
  "memStore = \<lparr>so_Tenant = mem_Tenant, so_APIKey = mem_APIKey, so_TouchAPIKey = mem_TouchAPIKey,
     so_Quota = mem_Quota, so_CountRunning = mem_CountRunning, so_CountCreatedSince = mem_CountCreatedSince,
     so_RecordSandbox = mem_RecordSandbox, so_UpdateSandbox = mem_UpdateSandbox, so_Sandbox = mem_Sandbox,
     so_ListSandboxes = mem_ListSandboxes, so_Idempotency = mem_Idempotency,
     so_SaveIdempotency = mem_SaveIdempotency, so_WarmupRequests = mem_WarmupRequests,
     so_WarmupRequest = mem_WarmupRequest, so_SaveWarmupRequest = mem_SaveWarmupRequest,
     so_PoolBudget = mem_PoolBudget, so_SetPoolBudget = mem_SetPoolBudget, so_Audit = mem_Audit\<rparr>"

section \<open>The Postgres store\<close>

text \<open>\<open>COALESCE(new, old)\<close> on a text column whose NULL is the empty string, and on a timestamp.\<close>

definition coalesce :: "string \<Rightarrow> string \<Rightarrow> string" where
  "coalesce new old = (if new = [] then old else new)"

definition coalesceT :: "int option \<Rightarrow> int option \<Rightarrow> int option" where
  "coalesceT new old = (case new of None \<Rightarrow> old | Some t \<Rightarrow> Some t)"

definition pg_Tenant :: "string \<Rightarrow> pg \<Rightarrow> tenant lookup" where
  "pg_Tenant i s = find_row (tenants s) i"

definition pg_APIKey :: "string \<Rightarrow> pg \<Rightarrow> api_key lookup" where
  "pg_APIKey keyID s = find_row (keys s) keyID"

definition pg_TouchAPIKey :: "string \<Rightarrow> int \<Rightarrow> pg \<Rightarrow> store_error option \<times> pg" where
  "pg_TouchAPIKey keyID at s =
     (None, s\<lparr>keys := map (\<lambda>(i, k). (i, if i = keyID then k\<lparr>k_LastUsedAt := Some at\<rparr> else k)) (keys s)\<rparr>)"

definition pg_Quota :: "string \<Rightarrow> pg \<Rightarrow> quota lookup" where
  "pg_Quota tenantID s = find_row (quotas s) tenantID"

definition pg_CountRunning :: "string \<Rightarrow> pg \<Rightarrow> int lookup" where
  "pg_CountRunning tenantID s = Inr (int (length (rows_where (running tenantID) (boxes s))))"

definition pg_CountCreatedSince :: "string \<Rightarrow> int \<Rightarrow> pg \<Rightarrow> int lookup" where
  "pg_CountCreatedSince tenantID since s =
     Inr (int (length (rows_where (\<lambda>b. sr_TenantID b = tenantID \<and> sr_CreatedAt b > since) (boxes s))))"

definition upsertSandbox :: "sandbox_record \<Rightarrow> sandbox_record \<Rightarrow> sandbox_record" where
  "upsertSandbox old r =
     old\<lparr>sr_State := sr_State r, sr_ColdStart := sr_ColdStart r,
         sr_IsolationTier := coalesce (sr_IsolationTier r) (sr_IsolationTier old),
         sr_Node := coalesce (sr_Node r) (sr_Node old),
         sr_ReadyAt := coalesceT (sr_ReadyAt r) (sr_ReadyAt old),
         sr_DeletedAt := coalesceT (sr_DeletedAt r) (sr_DeletedAt old),
         sr_DeleteReason := coalesce (sr_DeleteReason r) (sr_DeleteReason old)\<rparr>"

definition pg_RecordSandbox :: "sandbox_record \<Rightarrow> pg \<Rightarrow> store_error option \<times> pg" where
  "pg_RecordSandbox r s =
     (None, s\<lparr>boxes := AList.update (sr_ID r)
         (case map_of (boxes s) (sr_ID r) of None \<Rightarrow> r | Some old \<Rightarrow> upsertSandbox old r) (boxes s)\<rparr>)"

definition pg_UpdateSandbox :: "sandbox_record \<Rightarrow> pg \<Rightarrow> store_error option \<times> pg" where
  "pg_UpdateSandbox r s = pg_RecordSandbox r s"

definition pg_Sandbox :: "string \<Rightarrow> pg \<Rightarrow> sandbox_record lookup" where
  "pg_Sandbox i s = find_row (boxes s) i"

definition pg_ListSandboxes :: "string \<Rightarrow> int \<Rightarrow> string \<Rightarrow> pg \<Rightarrow> (sandbox_record list \<times> string) lookup" where
  "pg_ListSandboxes tenantID limit0 cursor s =
     (let limit = pageLimit limit0;
          offset = (if cursor = [] then 0 else pageStart cursor);
          out = take (nat (limit + 1)) (drop (nat offset)
                  (sort_key newestFirst (rows_where (\<lambda>b. sr_TenantID b = tenantID) (boxes s))))
      in if int (length out) > limit then Inr (take (nat limit) out, Itoa (offset + limit)) else Inr (out, []))"

definition pg_Idempotency :: "string \<Rightarrow> string \<Rightarrow> pg \<Rightarrow> idempotency_record lookup" where
  "pg_Idempotency tenantID key s = find_row (idem s) (tenantID, key)"

definition pg_SaveIdempotency :: "idempotency_record \<Rightarrow> pg \<Rightarrow> store_error option \<times> pg" where
  "pg_SaveIdempotency r s =
     (None, if map_of (idem s) (i_TenantID r, i_Key r) = None
            then s\<lparr>idem := AList.update (i_TenantID r, i_Key r) r (idem s)\<rparr> else s)"

definition pg_PurgeIdempotency :: "int \<Rightarrow> int \<Rightarrow> pg \<Rightarrow> pg" where
  "pg_PurgeIdempotency now age s = s\<lparr>idem := filter (\<lambda>(k, r). \<not> i_CreatedAt r < now - age) (idem s)\<rparr>"

definition pg_Audit :: "audit_event \<Rightarrow> pg \<Rightarrow> store_error option \<times> pg" where
  "pg_Audit e s = (None, s\<lparr>audit := audit s @ [e]\<rparr>)"

definition pg_WarmupRequests :: "string \<Rightarrow> pg \<Rightarrow> warmup_request list lookup" where
  "pg_WarmupRequests status s =
     Inr (sort_key w_CreatedAt (rows_where (\<lambda>r. status = [] \<or> w_Status r = status) (warmups s)))"

definition pg_WarmupRequest :: "string \<Rightarrow> pg \<Rightarrow> warmup_request lookup" where
  "pg_WarmupRequest i s = find_row (warmups s) i"

definition upsertWarmup :: "warmup_request \<Rightarrow> warmup_request \<Rightarrow> warmup_request" where
  "upsertWarmup old r =
     old\<lparr>w_Status := w_Status r, w_ReviewedBy := w_ReviewedBy r, w_ReviewNote := w_ReviewNote r,
         w_ReviewedAt := w_ReviewedAt r\<rparr>"

definition pg_SaveWarmupRequest :: "warmup_request \<Rightarrow> pg \<Rightarrow> store_error option \<times> pg" where
  "pg_SaveWarmupRequest r s =
     (None, s\<lparr>warmups := AList.update (w_ID r)
         (case map_of (warmups s) (w_ID r) of None \<Rightarrow> r | Some old \<Rightarrow> upsertWarmup old r) (warmups s)\<rparr>)"

definition pg_PoolBudget :: "pg \<Rightarrow> pool_budget lookup" where
  "pg_PoolBudget s =
     (case budget s of None \<Rightarrow> Inl ErrNotFound | Some b \<Rightarrow> Inr (b\<lparr>b_Allocated := approvedReplicas s\<rparr>))"

text \<open>An empty CPU or memory total becomes NULL, which the NOT NULL columns refuse.\<close>

definition pg_SetPoolBudget :: "int \<Rightarrow> pool_budget \<Rightarrow> pg \<Rightarrow> store_error option \<times> pg" where
  "pg_SetPoolBudget now b s =
     (if b_TotalCPU b = [] \<or> b_TotalMemory b = [] then (Some (StoreErr ''not-null violation''), s)
      else (None, s\<lparr>budget := Some (b\<lparr>b_Allocated := 0, b_UpdatedAt := now\<rparr>)\<rparr>))"

definition pgStore :: "int \<Rightarrow> pg store_ops" where
  "pgStore now = \<lparr>so_Tenant = pg_Tenant, so_APIKey = pg_APIKey, so_TouchAPIKey = pg_TouchAPIKey,
     so_Quota = pg_Quota, so_CountRunning = pg_CountRunning, so_CountCreatedSince = pg_CountCreatedSince,
     so_RecordSandbox = pg_RecordSandbox, so_UpdateSandbox = pg_UpdateSandbox, so_Sandbox = pg_Sandbox,
     so_ListSandboxes = pg_ListSandboxes, so_Idempotency = pg_Idempotency,
     so_SaveIdempotency = pg_SaveIdempotency, so_WarmupRequests = pg_WarmupRequests,
     so_WarmupRequest = pg_WarmupRequest, so_SaveWarmupRequest = pg_SaveWarmupRequest,
     so_PoolBudget = pg_PoolBudget, so_SetPoolBudget = pg_SetPoolBudget now, so_Audit = pg_Audit\<rparr>"

section \<open>Tables as maps\<close>

lemma update_fresh: "map_of al k = None \<Longrightarrow> AList.update k v al = al @ [(k, v)]"
  by (induction al) (auto split: if_splits)

lemma find_row_update: "find_row (AList.update k v t) k' = (if k' = k then Inr v else find_row t k')"
  by (simp add: find_row_def update_conv')

lemma find_row_None: "find_row t k = Inl ErrNotFound \<longleftrightarrow> map_of t k = None"
  by (simp add: find_row_def split: option.splits)

lemma rows_where_fresh:
  "map_of t k = None \<Longrightarrow> rows_where P (AList.update k v t) = rows_where P t @ (if P v then [v] else [])"
  by (simp add: update_fresh rows_where_def)

lemma update_keyed:
  "\<forall>(k, r) \<in> set t. k = key r \<Longrightarrow> key v = k0 \<Longrightarrow> \<forall>(k, r) \<in> set (AList.update k0 v t). k = key r"
  by (induction t) (auto split: if_splits)

section \<open>The contract\<close>

text \<open>
  What the API server relies on: a sandbox recorded under a fresh id is read back and counted once,
  for its own tenant only; an idempotency record saved under a fresh key is read back and other keys
  are untouched (for tenant ids that the store can tell apart, \<open>okT\<close>); audit, quota, sandbox and
  idempotency rows do not interfere.
\<close>

locale store_laws =
  fixes so :: "'s store_ops" and ok :: "'s \<Rightarrow> bool" and okT :: "string \<Rightarrow> bool"
  assumes record_ok: "ok s \<Longrightarrow> ok (snd (so_RecordSandbox so r s))"
    and record_new: "ok s \<Longrightarrow> so_Sandbox so (sr_ID r) s = Inl ErrNotFound
      \<Longrightarrow> so_Sandbox so (sr_ID r) (snd (so_RecordSandbox so r s)) = Inr r"
    and record_other: "ok s \<Longrightarrow> i \<noteq> sr_ID r
      \<Longrightarrow> so_Sandbox so i (snd (so_RecordSandbox so r s)) = so_Sandbox so i s"
    and count_new: "ok s \<Longrightarrow> so_Sandbox so (sr_ID r) s = Inl ErrNotFound \<Longrightarrow> sr_DeletedAt r = None
      \<Longrightarrow> so_CountRunning so t s = Inr n
      \<Longrightarrow> so_CountRunning so t (snd (so_RecordSandbox so r s)) = Inr (n + (if sr_TenantID r = t then 1 else 0))"
    and count_total: "\<exists>n. so_CountRunning so t s = Inr n"
    and quota_record: "so_Quota so t (snd (so_RecordSandbox so r s)) = so_Quota so t s"
    and idem_record: "so_Idempotency so t k (snd (so_RecordSandbox so r s)) = so_Idempotency so t k s"
    and audit_frame: "so_Idempotency so t k (snd (so_Audit so e s)) = so_Idempotency so t k s"
      "so_Sandbox so i (snd (so_Audit so e s)) = so_Sandbox so i s"
      "so_CountRunning so t (snd (so_Audit so e s)) = so_CountRunning so t s"
      "so_Quota so t (snd (so_Audit so e s)) = so_Quota so t s" "ok s \<Longrightarrow> ok (snd (so_Audit so e s))"
    and save_frame: "so_Sandbox so i (snd (so_SaveIdempotency so d s)) = so_Sandbox so i s"
      "so_CountRunning so t (snd (so_SaveIdempotency so d s)) = so_CountRunning so t s"
      "so_Quota so t (snd (so_SaveIdempotency so d s)) = so_Quota so t s"
      "ok s \<Longrightarrow> ok (snd (so_SaveIdempotency so d s))"
    and idem_save_new: "okT (i_TenantID d) \<Longrightarrow> so_Idempotency so (i_TenantID d) (i_Key d) s = Inl ErrNotFound
      \<Longrightarrow> so_Idempotency so (i_TenantID d) (i_Key d) (snd (so_SaveIdempotency so d s)) = Inr d"
    and idem_save_other: "okT (i_TenantID d) \<Longrightarrow> okT t \<Longrightarrow> (t, k) \<noteq> (i_TenantID d, i_Key d)
      \<Longrightarrow> so_Idempotency so t k (snd (so_SaveIdempotency so d s)) = so_Idempotency so t k s"

text \<open>A tenant id without a slash can be told apart from the idempotency key that follows it.\<close>

definition plainTenant :: "string \<Rightarrow> bool" where
  "plainTenant t \<longleftrightarrow> CHR ''/'' \<notin> set t"

lemma idemKey_inj: "plainTenant t \<Longrightarrow> plainTenant t' \<Longrightarrow> idemKey t k = idemKey t' k' \<longleftrightarrow> t = t' \<and> k = k'"
proof (induction t arbitrary: t')
  case Nil
  then show ?case by (cases t') (auto simp: idemKey_def plainTenant_def)
next
  case (Cons c t)
  then show ?case by (cases t') (auto simp: idemKey_def plainTenant_def)
qed

lemmas mem_defs = mem_Tenant_def mem_APIKey_def mem_TouchAPIKey_def mem_Quota_def mem_CountRunning_def
  mem_CountCreatedSince_def mem_RecordSandbox_def mem_UpdateSandbox_def mem_Sandbox_def
  mem_Idempotency_def mem_SaveIdempotency_def mem_Audit_def mem_WarmupRequests_def mem_WarmupRequest_def
  mem_SaveWarmupRequest_def mem_PoolBudget_def mem_SetPoolBudget_def

lemmas pg_defs = pg_Tenant_def pg_APIKey_def pg_TouchAPIKey_def pg_Quota_def pg_CountRunning_def
  pg_CountCreatedSince_def pg_RecordSandbox_def pg_UpdateSandbox_def pg_Sandbox_def
  pg_Idempotency_def pg_SaveIdempotency_def pg_Audit_def pg_WarmupRequests_def pg_WarmupRequest_def
  pg_SaveWarmupRequest_def pg_PoolBudget_def pg_SetPoolBudget_def

lemma ok_tables_boxes:
  "ok_tables s \<Longrightarrow> sr_ID v = i \<Longrightarrow> ok_tables (s\<lparr>boxes := AList.update i v (boxes s)\<rparr>)"
  using update_keyed [of "boxes s" sr_ID v i] unfolding ok_tables_def by (simp add: distinct_update)

lemma ok_tables_idem: "ok_tables s \<Longrightarrow> ok_tables (s\<lparr>idem := AList.update k v (idem s)\<rparr>)"
  unfolding ok_tables_def by (simp add: distinct_update)

lemma ok_tables_audit [simp]: "ok_tables (s\<lparr>audit := a\<rparr>) = ok_tables s"
  by (simp add: ok_tables_def)

lemma ok_tables_id: "ok_tables s \<Longrightarrow> map_of (boxes s) i = Some r \<Longrightarrow> sr_ID r = i"
  unfolding ok_tables_def using map_of_SomeD by fastforce

interpretation mem: store_laws memStore ok_tables plainTenant
  by unfold_locales (simp_all add: memStore_def mem_defs find_row_update find_row_None ok_tables_boxes
      ok_tables_idem idemKey_inj rows_where_fresh running_def, blast)

lemma upsertSandbox_ID [simp]: "sr_ID (upsertSandbox old r) = sr_ID old"
  by (simp add: upsertSandbox_def)

lemma pg_record_ok: "ok_tables s \<Longrightarrow> ok_tables (snd (pg_RecordSandbox r s))"
  by (auto simp: pg_RecordSandbox_def intro!: ok_tables_boxes dest: ok_tables_id split: option.splits)

interpretation pgi: store_laws "pgStore now" ok_tables "\<lambda>_. True"
  by unfold_locales (simp_all add: pgStore_def pg_record_ok,
      simp_all add: pg_defs find_row_update find_row_None ok_tables_idem rows_where_fresh running_def split: option.splits, blast)

section \<open>Paging\<close>

definition pageOf :: "'a list \<Rightarrow> nat \<Rightarrow> nat \<Rightarrow> 'a list \<times> string" where
  "pageOf xs limit off =
     (take limit (drop off xs), if off + limit < length xs then Itoa (int (off + limit)) else [])"

definition tenantBoxes :: "string \<Rightarrow> 'ik tables \<Rightarrow> sandbox_record list" where
  "tenantBoxes t s = sort_key newestFirst (rows_where (\<lambda>b. sr_TenantID b = t) (boxes s))"

lemma pageLimit_pos: "0 < pageLimit l" by (simp add: pageLimit_def)

lemma pageStart_nonneg: "0 \<le> pageStart c" by (simp add: pageStart_def split: option.splits)

definition cursorOff :: "string \<Rightarrow> nat" where
  "cursorOff c = (if c = [] then 0 else nat (pageStart c))"

lemma mem_page: "mem_ListSandboxes t l c m = Inr (pageOf (tenantBoxes t m) (nat (pageLimit l)) (cursorOff c))"
proof -
  have e: "int (cursorOff c) = (if c = [] then 0 else pageStart c)"
    by (simp add: cursorOff_def pageStart_nonneg)
  have l: "int (nat (pageLimit l)) = pageLimit l" using pageLimit_pos [of l] by simp
  show ?thesis
    unfolding mem_ListSandboxes_def Let_def e [symmetric] tenantBoxes_def [symmetric] pageOf_def
    using l pageLimit_pos [of l] by (auto simp: nat_add_distrib)
qed

lemma pg_page: "pg_ListSandboxes t l c s = Inr (pageOf (tenantBoxes t s) (nat (pageLimit l)) (cursorOff c))"
proof -
  obtain k where k: "pageLimit l = int k" using pageLimit_pos [of l] by (metis nonneg_int_cases less_imp_le)
  let ?L = "tenantBoxes t s" and ?o = "cursorOff c"
  have e: "(if c = [] then 0 else pageStart c) = int ?o"
    by (simp add: cursorOff_def pageStart_nonneg)
  have n: "nat (int k + 1) = Suc k" by simp
  have len: "int k < int (length (take (Suc k) (drop ?o ?L))) \<longleftrightarrow> ?o + k < length ?L" by auto
  have t1: "take k (take (Suc k) (drop ?o ?L)) = take k (drop ?o ?L)" by (simp add: min_def)
  have "\<not> ?o + k < length ?L \<Longrightarrow> take (Suc k) (drop ?o ?L) = take k (drop ?o ?L)" by simp
  then show ?thesis
    unfolding pg_ListSandboxes_def Let_def e tenantBoxes_def [symmetric] pageOf_def k n nat_int len t1
    by (simp del: take_Suc)
qed

text \<open>A client that asks for the next page until there is none.\<close>

fun followPages :: "nat \<Rightarrow> (string \<Rightarrow> 'a list \<times> string) \<Rightarrow> string \<Rightarrow> 'a list option" where
  "followPages 0 page c = None"
| "followPages (Suc n) page c =
     (case page c of (xs, nx) \<Rightarrow>
        if nx = [] then Some xs
        else (case followPages n page nx of None \<Rightarrow> None | Some ys \<Rightarrow> Some (xs @ ys)))"

lemma cursorOff_Itoa: "0 < off \<Longrightarrow> int64 (int off) \<Longrightarrow> cursorOff (Itoa (int off)) = off"
  by (simp add: cursorOff_def pageStart_def Atoi_Itoa)

lemma followPages_from:
  assumes "0 < l" and "int64 (int (length xs))"
  shows "cursorOff c = off \<Longrightarrow> length xs < off + n * l \<Longrightarrow> 0 < n
    \<Longrightarrow> followPages n (\<lambda>c. pageOf xs l (cursorOff c)) c = Some (drop off xs)"
proof (induction n arbitrary: c off)
  case (Suc n)
  show ?case
  proof (cases "off + l < length xs")
    case True
    then have "int64 (int (off + l))" using assms(2) by (simp add: int64_def)
    then have co: "cursorOff (Itoa (int (off + l))) = off + l" using assms(1) by (intro cursorOff_Itoa) simp_all
    have "length xs < off + l + n * l" using Suc.prems(2) by (simp add: algebra_simps)
    moreover from this True have "0 < n" by (cases n) simp_all
    ultimately have "followPages n (\<lambda>c. pageOf xs l (cursorOff c)) (Itoa (int (off + l))) = Some (drop (off + l) xs)"
      by (intro Suc.IH [OF co])
    moreover have "take l (drop off xs) @ drop (off + l) xs = drop off xs"
      by (metis add.commute append_take_drop_id drop_drop)
    ultimately show ?thesis using True Suc.prems(1) by (simp add: pageOf_def)
  next
    case False
    with Suc.prems(1) show ?thesis by (simp add: pageOf_def)
  qed
qed simp

section \<open>Properties\<close>

definition pageFun :: "(sandbox_record list \<times> string) lookup \<Rightarrow> sandbox_record list \<times> string" where
  "pageFun r = (case r of Inr p \<Rightarrow> p | Inl e \<Rightarrow> ([], []))"

text \<open>C8: paging is complete and both stores page alike. On the same sandbox table the in-memory and the
  Postgres store return the same page for every tenant, limit and cursor, and a client that starts
  with an empty cursor and follows the returned ones gets every sandbox of the tenant exactly once,
  newest first with ties by id, in finitely many requests.\<close>

theorem paging_enumerates_sandboxes:
  assumes "boxes m = boxes p" and "int64 (int (length (boxes m)))"
  shows "mem_ListSandboxes t limit c m = pg_ListSandboxes t limit c p
    \<and> followPages (Suc (length (boxes m))) (\<lambda>c. pageFun (mem_ListSandboxes t limit c m)) []
        = Some (sort_key newestFirst (rows_where (\<lambda>b. sr_TenantID b = t) (boxes m)))"
proof
  show "mem_ListSandboxes t limit c m = pg_ListSandboxes t limit c p"
    by (simp add: mem_page pg_page tenantBoxes_def assms(1))
  let ?L = "tenantBoxes t m" and ?l = "nat (pageLimit limit)"
  have len: "length ?L \<le> length (boxes m)"
    using length_filter_le [of "\<lambda>b. sr_TenantID b = t" "map snd (boxes m)"]
    by (simp add: tenantBoxes_def rows_where_def)
  have l: "0 < ?l" using pageLimit_pos [of limit] by simp
  have "length ?L < 0 + Suc (length (boxes m)) * ?l"
    using len mult_le_mono2 [of 1 ?l "Suc (length (boxes m))"] l
    by (metis Suc_leI le_imp_less_Suc less_le_trans mult.right_neutral One_nat_def plus_nat.add_0)
  then have "followPages (Suc (length (boxes m))) (\<lambda>c. pageOf ?L ?l (cursorOff c)) [] = Some (drop 0 ?L)"
    using l len assms(2) by (intro followPages_from) (simp_all add: int64_def cursorOff_def)
  then show "followPages (Suc (length (boxes m))) (\<lambda>c. pageFun (mem_ListSandboxes t limit c m)) []
        = Some (sort_key newestFirst (rows_where (\<lambda>b. sr_TenantID b = t) (boxes m)))"
    by (simp add: mem_page pageFun_def tenantBoxes_def)
qed

definition demoBox :: "string \<Rightarrow> int \<Rightarrow> sandbox_record" where
  "demoBox i at = \<lparr>sr_ID = i, sr_TenantID = ''t1'', sr_APIKeyID = ''k'', sr_Template = ''py'', sr_State = ''Pending'',
     sr_ColdStart = False, sr_IsolationTier = [], sr_Node = [], sr_CreatedAt = at, sr_ReadyAt = None,
     sr_DeletedAt = None, sr_DeleteReason = [], sr_Metadata = []\<rparr>"

definition demoMem :: mem where
  "demoMem = NewMemStore\<lparr>boxes := map (\<lambda>b. (sr_ID b, b)) [demoBox ''a'' 1, demoBox ''b'' 2, demoBox ''c'' 2]\<rparr>"

definition emptyPG :: pg where
  "emptyPG = \<lparr>tenants = [], keys = [], quotas = [], boxes = [], idem = [], warmups = [],
     budget = Some \<lparr>b_TotalIdlePods = 64, b_TotalCPU = ''16'', b_TotalMemory = ''32Gi'', b_Allocated = 0,
       b_UpdatedBy = [], b_UpdatedAt = 0\<rparr>, audit = []\<rparr>"

theorem paging_enumerates_sandboxes_witness:
  "followPages 4 (\<lambda>c. pageFun (mem_ListSandboxes ''t1'' 1 c demoMem)) []
     = Some [demoBox ''b'' 2, demoBox ''c'' 2, demoBox ''a'' 1]"
proof -
  have "boxes demoMem = boxes (emptyPG\<lparr>boxes := boxes demoMem\<rparr>)" by simp
  moreover have len: "length (boxes demoMem) = 3" by (simp add: demoMem_def)
  moreover have "sort_key newestFirst (rows_where (\<lambda>b. sr_TenantID b = ''t1'') (boxes demoMem))
      = [demoBox ''b'' 2, demoBox ''c'' 2, demoBox ''a'' 1]"
    by code_simp
  ultimately show ?thesis
    using conjunct2 [OF paging_enumerates_sandboxes [of demoMem "emptyPG\<lparr>boxes := boxes demoMem\<rparr>" "''t1''" 1 "[]"]]
    by (simp only: len) (simp add: int64_def eval_nat_numeral)
qed

text \<open>An idempotency record under a Postgres store is decided by the first writer and survives every
  later save, whichever request it comes from, and records of other tenants or keys are untouched. The
  in-memory store keeps other records only for tenant ids without a slash, and lets the last
  writer decide.\<close>

lemma idempotency_first_writer_wins:
  assumes "pg_Idempotency t k s = Inr r"
  shows "pg_Idempotency t k (snd (pg_SaveIdempotency d s)) = Inr r
    \<and> (\<exists>m d'. mem_Idempotency t k m = Inr r \<and> mem_Idempotency t k (snd (mem_SaveIdempotency d' m)) \<noteq> Inr r)"
proof
  show "pg_Idempotency t k (snd (pg_SaveIdempotency d s)) = Inr r"
    using assms by (auto simp: pg_defs find_row_def update_conv' split: option.splits)
  let ?m = "NewMemStore\<lparr>idem := [(idemKey t k, r)]\<rparr>"
  let ?d = "r\<lparr>i_TenantID := t, i_Key := k, i_SandboxID := CHR ''x'' # i_SandboxID r\<rparr>"
  have "?d \<noteq> r" by (metis idempotency_record.ext_inject idempotency_record.select_convs(4)
      idempotency_record.surjective idempotency_record.update_convs(4) not_Cons_self2)
  then have "mem_Idempotency t k ?m = Inr r \<and> mem_Idempotency t k (snd (mem_SaveIdempotency ?d ?m)) \<noteq> Inr r"
    by (simp add: mem_defs find_row_def)
  then show "\<exists>m d'. mem_Idempotency t k m = Inr r \<and> mem_Idempotency t k (snd (mem_SaveIdempotency d' m)) \<noteq> Inr r"
    by blast
qed

definition demoIdem :: "string \<Rightarrow> idempotency_record" where
  "demoIdem sbx = \<lparr>i_Key = ''k1'', i_TenantID = ''t1'', i_RequestSum = ''s'', i_SandboxID = sbx, i_CreatedAt = 0\<rparr>"

end
