(* ===== verification/Api_Auth.thy ===== *)
theory Api_Auth
  imports Store
begin

text \<open>
  \<open>pkg/apiserver/apikey.go\<close> and \<open>auth.go\<close>: minting, parsing and verifying API keys, scopes, the
  authenticator with its cache in front of the store, and the middleware's answers. Random bytes,
  \<open>argon2.IDKey\<close> and the CIDR test of package \<open>net\<close> are parameters; the store is any value of
  the interface. The clock is read once per request.
\<close>

section \<open>Keys\<close>

definition KeyPrefix :: string where "KeyPrefix = ''jdix_sk_''"
definition keyIDLen :: nat where "keyIDLen = 12"
definition secretBytes :: nat where "secretBytes = 24"
definition argonTime :: nat where "argonTime = 1"
definition argonMemory :: nat where "argonMemory = 64 * 1024"
definition argonThreads :: nat where "argonThreads = 4"
definition argonKeyLen :: nat where "argonKeyLen = 32"

datatype auth_error = ErrMalformedKey | ErrKeyNotFound | ErrKeyRevoked | ErrKeyExpired
  | ErrUnauthenticated | ErrIPNotAllowed | RandErr string

record generated_key =
  g_KeyID :: string
  g_Plaintext :: string
  g_Hash :: string

text \<open>\<open>argon2.IDKey(secret, salt, time, memory, threads, keyLen)\<close>.\<close>

type_synonym argon = "string \<Rightarrow> nat list \<Rightarrow> nat \<Rightarrow> nat \<Rightarrow> nat \<Rightarrow> nat \<Rightarrow> nat list"

definition HashSecret :: "argon \<Rightarrow> (string, nat list) result \<Rightarrow> string \<Rightarrow> (auth_error, string) result" where
  "HashSecret idKey randSalt secret =
     (case randSalt of
        Inl e \<Rightarrow> Inl (RandErr e)
      | Inr salt \<Rightarrow>
          Inr (''argon2id$'' @ b64enc b64std salt @ ''$''
               @ b64enc b64std (idKey secret salt argonTime argonMemory argonThreads argonKeyLen)))"

definition GenerateKey ::
    "argon \<Rightarrow> (string, nat list) result \<Rightarrow> (string, nat list) result \<Rightarrow> (string, nat list) result
     \<Rightarrow> (auth_error, generated_key) result" where
  "GenerateKey idKey randID randSecret randSalt =
     (case randID of
        Inl e \<Rightarrow> Inl (RandErr e)
      | Inr idBytes \<Rightarrow>
     (case randSecret of
        Inl e \<Rightarrow> Inl (RandErr e)
      | Inr secret \<Rightarrow>
          let keyID = hexEncode idBytes;
              secretStr = b64enc b64url secret
          in case HashSecret idKey randSalt secretStr of
               Inl e \<Rightarrow> Inl e
             | Inr hash \<Rightarrow>
                 Inr \<lparr>g_KeyID = keyID, g_Plaintext = KeyPrefix @ keyID @ ''_'' @ secretStr, g_Hash = hash\<rparr>))"

definition ParseKey :: "string \<Rightarrow> (auth_error, string \<times> string) result" where
  "ParseKey presented =
     (if \<not> hasPrefix presented KeyPrefix then Inl ErrMalformedKey
      else case cut (CHR ''_'') (trimPrefix presented KeyPrefix) of
             (keyID, secret, found) \<Rightarrow>
               if \<not> found \<or> length keyID \<noteq> keyIDLen \<or> secret = [] then Inl ErrMalformedKey
               else Inr (keyID, secret))"

definition VerifySecret :: "argon \<Rightarrow> string \<Rightarrow> string \<Rightarrow> bool" where
  "VerifySecret idKey secret stored =
     (case split_on (CHR ''$'') stored of
        [alg, saltStr, sumStr] \<Rightarrow>
          if alg \<noteq> ''argon2id'' then False
          else (case b64dec b64std saltStr of
                  None \<Rightarrow> False
                | Some salt \<Rightarrow>
                    (case b64dec b64std sumStr of
                       None \<Rightarrow> False
                     | Some want \<Rightarrow>
                         idKey secret salt argonTime argonMemory argonThreads (length want) = want))
      | _ \<Rightarrow> False)"

definition ScopeSandboxCreate :: string where "ScopeSandboxCreate = ''sandbox:create''"
definition ScopeSandboxRead :: string where "ScopeSandboxRead = ''sandbox:read''"
definition ScopeSandboxDelete :: string where "ScopeSandboxDelete = ''sandbox:delete''"
definition ScopeTemplateRead :: string where "ScopeTemplateRead = ''template:read''"
definition ScopeTemplateWrite :: string where "ScopeTemplateWrite = ''template:write''"
definition ScopeAdmin :: string where "ScopeAdmin = ''admin:*''"

lemmas scope_defs = ScopeSandboxCreate_def ScopeSandboxRead_def ScopeSandboxDelete_def
  ScopeTemplateRead_def ScopeTemplateWrite_def ScopeAdmin_def

definition Allows :: "api_key \<Rightarrow> string \<Rightarrow> bool" where
  "Allows k s = (\<exists>have \<in> set (k_Scopes k). have = ScopeAdmin \<or> have = s)"

definition AllowsTemplate :: "api_key \<Rightarrow> string \<Rightarrow> bool" where
  "AllowsTemplate k name = (if k_AllowedTemplates k = [] then True else name \<in> set (k_AllowedTemplates k))"

definition Valid :: "api_key \<Rightarrow> int \<Rightarrow> auth_error option" where
  "Valid k now =
     (if k_RevokedAt k \<noteq> None then Some ErrKeyRevoked
      else case k_ExpiresAt k of
             None \<Rightarrow> None
           | Some t \<Rightarrow> if now > t then Some ErrKeyExpired else None)"

section \<open>The authenticator\<close>

record principal =
  p_TenantID :: string
  p_Namespace :: string
  p_KeyID :: string
  p_Key :: api_key

definition cacheTTL :: int where "cacheTTL = 60 * second"

record cache_entry =
  ce_key :: api_key
  ce_tenant :: tenant
  ce_cachedAt :: int

type_synonym auth_cache = "string \<rightharpoonup> cache_entry"

definition Invalidate :: "string \<Rightarrow> auth_cache \<Rightarrow> auth_cache" where
  "Invalidate keyID c = c(keyID := None)"

definition auth_lookup ::
    "'s store_ops \<Rightarrow> int \<Rightarrow> string \<Rightarrow> auth_cache \<Rightarrow> 's \<Rightarrow> (store_error, api_key \<times> tenant) result \<times> auth_cache" where
  "auth_lookup so now keyID c s =
     (let fresh = (case so_APIKey so keyID s of
                     Inl e \<Rightarrow> (Inl e, c)
                   | Inr key \<Rightarrow>
                       (case so_Tenant so (k_TenantID key) s of
                          Inl e \<Rightarrow> (Inl e, c)
                        | Inr tn \<Rightarrow>
                            (Inr (key, tn), c(keyID \<mapsto> \<lparr>ce_key = key, ce_tenant = tn, ce_cachedAt = now\<rparr>))))
      in case c keyID of
           Some e \<Rightarrow> if now - ce_cachedAt e < cacheTTL then (Inr (ce_key e, ce_tenant e), c) else fresh
         | None \<Rightarrow> fresh)"

text \<open>\<open>cidr entry ip\<close>: \<open>net.ParseCIDR(entry)\<close> succeeds, \<open>net.ParseIP(ip)\<close> does, and the network contains it.\<close>

definition ipAllowed :: "(string \<Rightarrow> string \<Rightarrow> bool) \<Rightarrow> string list \<Rightarrow> string \<Rightarrow> bool" where
  "ipAllowed cidr allowlist ip =
     (if allowlist = [] then True
      else \<exists>entry \<in> set allowlist. if CHR ''/'' \<in> set entry then cidr entry ip else entry = ip)"

definition Verify ::
    "'s store_ops \<Rightarrow> argon \<Rightarrow> (string \<Rightarrow> string \<Rightarrow> bool) \<Rightarrow> int \<Rightarrow> string \<Rightarrow> string \<Rightarrow> auth_cache \<Rightarrow> 's
     \<Rightarrow> (auth_error, principal) result \<times> auth_cache \<times> 's" where
  "Verify so idKey cidr now presented clientIP c s =
     (if presented = [] then (Inl ErrUnauthenticated, c, s)
      else case ParseKey presented of
        Inl e \<Rightarrow> (Inl ErrUnauthenticated, c, s)
      | Inr (keyID, secret) \<Rightarrow>
     (case auth_lookup so now keyID c s of
        (Inl e, c1) \<Rightarrow> (Inl ErrUnauthenticated, c1, s)
      | (Inr (key, tn), c1) \<Rightarrow>
          if \<not> VerifySecret idKey secret (k_SecretHash key) then (Inl ErrUnauthenticated, c1, s)
          else (case Valid key now of
             Some e \<Rightarrow> (Inl e, c1, s)
           | None \<Rightarrow>
               if \<not> ipAllowed cidr (k_IPAllowlist key) clientIP then (Inl ErrIPNotAllowed, c1, s)
               else (Inr \<lparr>p_TenantID = t_ID tn, p_Namespace = t_Namespace tn, p_KeyID = keyID, p_Key = key\<rparr>,
                     c1, snd (so_TouchAPIKey so keyID now s)))))"

section \<open>Requests and answers\<close>

record request =
  rq_Method :: string
  rq_Path :: string
  rq_Header :: "string \<Rightarrow> string"
  rq_Query :: "string \<Rightarrow> string"
  rq_RemoteAddr :: string
  rq_UserAgent :: string

text \<open>\<open>api.Error\<close> with its status and headers, or a JSON document with its status.\<close>

datatype 'b response = ErrResp int string string "(string \<times> string) list" | JSON int 'b

definition writeErr :: "int \<Rightarrow> string \<Rightarrow> string \<Rightarrow> 'b response" where
  "writeErr code errCode msg = ErrResp code errCode msg []"

fun statusOf :: "'b response \<Rightarrow> int" where
  "statusOf (ErrResp c e m h) = c"
| "statusOf (JSON c b) = c"

definition unauthorized :: "'b response" where
  "unauthorized = writeErr 401 ''unauthorized'' ''invalid or missing API key''"

fun authMsg :: "auth_error \<Rightarrow> string" where
  "authMsg ErrMalformedKey = ''malformed API key''"
| "authMsg ErrKeyNotFound = ''API key not found''"
| "authMsg ErrKeyRevoked = ''API key revoked''"
| "authMsg ErrKeyExpired = ''API key expired''"
| "authMsg ErrUnauthenticated = ''invalid or missing API key''"
| "authMsg ErrIPNotAllowed = ''this API key may only be used from its allowlisted addresses''"
| "authMsg (RandErr e) = e"

definition WriteAuthError :: "auth_error \<Rightarrow> 'b response" where
  "WriteAuthError err =
     (if err = ErrIPNotAllowed then writeErr 403 ''ip_not_allowed'' (authMsg err)
      else if err = ErrKeyRevoked \<or> err = ErrKeyExpired then
        writeErr 401 (''key_'' @ trimPrefix (authMsg err) ''API key '') (authMsg err)
      else unauthorized)"

definition bearerToken :: "request \<Rightarrow> string" where
  "bearerToken r =
     (let h = rq_Header r ''Authorization''
      in if hasPrefix h ''Bearer '' then TrimSpace (trimPrefix h ''Bearer '') else rq_Header r ''X-Jdix-Api-Key'')"

definition clientIP :: "request \<Rightarrow> string" where
  "clientIP r = (case SplitHostPort (rq_RemoteAddr r) of None \<Rightarrow> rq_RemoteAddr r | Some (host, _) \<Rightarrow> host)"

text \<open>The middleware: \<open>next\<close> is the handler behind it, which gets the principal.\<close>

definition Authenticate ::
    "'s store_ops \<Rightarrow> argon \<Rightarrow> (string \<Rightarrow> string \<Rightarrow> bool) \<Rightarrow> int \<Rightarrow> request
     \<Rightarrow> (principal \<Rightarrow> 's \<Rightarrow> 'b response \<times> 's) \<Rightarrow> auth_cache \<Rightarrow> 's \<Rightarrow> 'b response \<times> auth_cache \<times> 's" where
  "Authenticate so idKey cidr now r nxt c s =
     (case Verify so idKey cidr now (bearerToken r) (clientIP r) c s of
        (Inl e, c1, s1) \<Rightarrow> (WriteAuthError e, c1, s1)
      | (Inr p, c1, s1) \<Rightarrow> (case nxt p s1 of (resp, s2) \<Rightarrow> (resp, c1, s2)))"

definition RequireScope ::
    "string \<Rightarrow> (principal \<Rightarrow> 's \<Rightarrow> 'b response \<times> 's) \<Rightarrow> principal \<Rightarrow> 's \<Rightarrow> 'b response \<times> 's" where
  "RequireScope sc nxt p s =
     (if \<not> Allows (p_Key p) sc
      then (writeErr 403 ''insufficient_scope'' (''this API key does not carry the '' @ sc @ '' scope''), s)
      else nxt p s)"

section \<open>Lemmas\<close>

lemma hex_digit_no_underscore: "d < 16 \<Longrightarrow> hex_digit d \<noteq> CHR ''_''"
proof -
  assume "d < 16"
  then have "of_char (hex_digit d) \<noteq> (95 :: nat)" by (auto simp: hex_digit_def)
  then show ?thesis by auto
qed

lemma ParseKey_plaintext:
  assumes "bytes idb" "2 * length idb = keyIDLen" "secret \<noteq> []"
  shows "ParseKey (KeyPrefix @ hexEncode idb @ ''_'' @ secret) = Inr (hexEncode idb, secret)"
proof -
  have "CHR ''_'' \<notin> set (hexEncode idb)" using hexEncode_chars [OF assms(1)] hex_digit_no_underscore by metis
  then have "cut (CHR ''_'') (hexEncode idb @ CHR ''_'' # secret) = (hexEncode idb, secret, True)"
    by (rule cut_sep)
  moreover have "hasPrefix (KeyPrefix @ x) KeyPrefix" "trimPrefix (KeyPrefix @ x) KeyPrefix = x" for x
    by (simp_all add: hasPrefix_def trimPrefix_def)
  ultimately show ?thesis using assms by (simp add: ParseKey_def)
qed

lemma dollar_not_b64std: "CHR ''$'' \<notin> set b64std"
  by (simp add: b64std_def)

lemma VerifySecret_HashSecret:
  assumes hash: "HashSecret idKey (Inr salt) secret = Inr h" and "bytes salt"
    and "\<And>p s t m n k. length (idKey p s t m n k) = k \<and> bytes (idKey p s t m n k)"
  shows "VerifySecret idKey secret' h \<longleftrightarrow>
    idKey secret' salt argonTime argonMemory argonThreads argonKeyLen
      = idKey secret salt argonTime argonMemory argonThreads argonKeyLen"
proof -
  let ?sum = "idKey secret salt argonTime argonMemory argonThreads argonKeyLen"
  have no: "CHR ''$'' \<notin> set (b64enc b64std bs)" if "bytes bs" for bs
    using b64enc_chars [OF good_alphabets(1) that] dollar_not_b64std by blast
  have h: "h = join [CHR ''$''] [''argon2id'', b64enc b64std salt, b64enc b64std ?sum]"
    using hash by (simp add: HashSecret_def)
  have "split_on (CHR ''$'') h = [''argon2id'', b64enc b64std salt, b64enc b64std ?sum]"
    unfolding h using no [OF assms(2)] no [of ?sum] assms(3) by (intro split_on_join) auto
  then show ?thesis
    using assms(2,3) by (simp add: VerifySecret_def b64_round_trip)
qed

text \<open>What a successful verification rests on.\<close>

definition vouched :: "'s store_ops \<Rightarrow> int \<Rightarrow> string \<Rightarrow> auth_cache \<Rightarrow> 's \<Rightarrow> api_key \<Rightarrow> tenant \<Rightarrow> bool" where
  "vouched so now keyID c s key tn \<longleftrightarrow>
     (\<exists>e. c keyID = Some e \<and> now - ce_cachedAt e < cacheTTL \<and> ce_key e = key \<and> ce_tenant e = tn)
     \<or> (so_APIKey so keyID s = Inr key \<and> so_Tenant so (k_TenantID key) s = Inr tn)"

lemma auth_lookup_vouched:
  "auth_lookup so now keyID c s = (Inr (key, tn), c') \<Longrightarrow> vouched so now keyID c s key tn"
  by (auto simp: auth_lookup_def vouched_def Let_def split: option.splits sum.splits if_splits)

lemma Verify_Inr:
  assumes "Verify so idKey cidr now presented ip c s = (Inr p, c', s')"
  obtains secret tn where "ParseKey presented = Inr (p_KeyID p, secret)"
    "VerifySecret idKey secret (k_SecretHash (p_Key p))" "Valid (p_Key p) now = None"
    "ipAllowed cidr (k_IPAllowlist (p_Key p)) ip" "vouched so now (p_KeyID p) c s (p_Key p) tn"
    "p_TenantID p = t_ID tn" "p_Namespace p = t_Namespace tn"
  using assms unfolding Verify_def
  by (auto split: sum.splits prod.splits option.splits if_splits dest!: auth_lookup_vouched intro: that)

section \<open>Revocation\<close>

text \<open>
  Stores in which a revoked key stays revoked under the only write a verification makes, its
  last-used stamp.
\<close>

locale key_store =
  fixes so :: "'s store_ops" and revoked :: "string \<Rightarrow> 's \<Rightarrow> bool"
  assumes revoked_read: "revoked keyID s \<Longrightarrow> so_APIKey so keyID s = Inr k \<Longrightarrow> k_RevokedAt k \<noteq> None"
    and revoked_touch: "revoked keyID s \<Longrightarrow> revoked keyID (snd (so_TouchAPIKey so i at s))"
begin

definition stale_only :: "int \<Rightarrow> string \<Rightarrow> auth_cache \<times> 's \<Rightarrow> bool" where
  "stale_only T keyID st \<longleftrightarrow> revoked keyID (snd st)
     \<and> (\<forall>e. fst st keyID = Some e \<longrightarrow> k_RevokedAt (ce_key e) \<noteq> None \<or> ce_cachedAt e \<le> T)"

lemma lookup_stale_only:
  "stale_only T keyID (c, s) \<Longrightarrow> auth_lookup so now i c s = (r, c') \<Longrightarrow> stale_only T keyID (c', s)"
  unfolding stale_only_def auth_lookup_def Let_def
  by (auto split: option.splits sum.splits if_splits) (metis revoked_read not_None_eq)+

lemma verify_stale_only:
  assumes "stale_only T keyID (c, s)" "Verify so idKey cidr now presented ip c s = (r, c', s')"
  shows "stale_only T keyID (c', s')"
proof -
  from assms have "(c' = c \<or> (\<exists>i r0. auth_lookup so now i c s = (r0, c')))
      \<and> (s' = s \<or> (\<exists>i. s' = snd (so_TouchAPIKey so i now s)))"
    unfolding Verify_def by (auto split: sum.splits prod.splits option.splits if_splits)
  then have "stale_only T keyID (c', s)" and "revoked keyID s \<Longrightarrow> revoked keyID s'"
    using assms(1) lookup_stale_only revoked_touch by auto
  then show ?thesis by (simp add: stale_only_def)
qed

lemma revoked_refused:
  assumes "stale_only T keyID (c, s)" "now \<ge> T + cacheTTL" "ParseKey presented = Inr (keyID, secret)"
  shows "\<exists>e. fst (Verify so idKey cidr now presented ip c s) = Inl e"
proof (rule ccontr)
  assume "\<not> ?thesis"
  then obtain p c' s' where v: "Verify so idKey cidr now presented ip c s = (Inr p, c', s')"
    by (metis prod.collapse sum.exhaust_sel)
  from v obtain tn where p: "p_KeyID p = keyID" "Valid (p_Key p) now = None" "vouched so now keyID c s (p_Key p) tn"
    using assms(3) by (elim Verify_Inr) auto
  then have "k_RevokedAt (p_Key p) = None" by (auto simp: Valid_def split: if_splits)
  with p assms show False
    unfolding vouched_def stale_only_def by (auto dest: revoked_read)
qed

end

definition mem_revoked :: "string \<Rightarrow> 'ik tables \<Rightarrow> bool" where
  "mem_revoked keyID m \<longleftrightarrow> (\<exists>k. map_of (keys m) keyID = Some k \<and> k_RevokedAt k \<noteq> None)"

interpretation memkeys: key_store memStore mem_revoked
  by unfold_locales (auto simp: memStore_def mem_defs mem_revoked_def find_row_def update_conv' split: option.splits)

lemma map_of_touch:
  "map_of (map (\<lambda>(i, k). (i, if i = j then f k else k)) t) i = (if i = j then map_option f (map_of t i) else map_of t i)"
  by (induction t) auto

interpretation pgkeys: key_store "pgStore now0" mem_revoked
  by unfold_locales (auto simp: pgStore_def pg_defs mem_revoked_def find_row_def map_of_touch split: option.splits)

text \<open>A sequence of verifications, each at its own time.\<close>

definition authStep ::
    "'s store_ops \<Rightarrow> argon \<Rightarrow> (string \<Rightarrow> string \<Rightarrow> bool) \<Rightarrow> int \<times> string \<times> string
     \<Rightarrow> auth_cache \<times> 's \<Rightarrow> auth_cache \<times> 's" where
  "authStep so idKey cidr rq st =
     (case rq of (now, presented, ip) \<Rightarrow> snd (Verify so idKey cidr now presented ip (fst st) (snd st)))"

interpretation pgauth: step_system "authStep (pgStore now0) idKey cidr" "pgkeys.stale_only T keyID"
proof
  fix st and e :: "int \<times> string \<times> string"
  assume ok: "pgkeys.stale_only T keyID st"
  obtain now presented ip where e: "e = (now, presented, ip)" by (cases e)
  obtain r c' s' where v: "Verify (pgStore now0) idKey cidr now presented ip (fst st) (snd st) = (r, c', s')"
    by (metis prod.exhaust)
  show "pgkeys.stale_only T keyID (authStep (pgStore now0) idKey cidr e st)"
    using pgkeys.verify_stale_only [OF _ v] ok e v by (simp add: authStep_def)
qed

section \<open>Properties\<close>

text \<open>A minted key works and only its own secret does. The plaintext of a generated key parses back to
  its id and secret, whatever random bytes it was made of (the secret may itself contain the
  separator), and a secret verifies against the stored hash exactly when argon2id maps it to the
  same digest under the key's salt.\<close>

lemma generated_key_round_trip:
  assumes gen: "GenerateKey idKey (Inr idb) (Inr sec) (Inr salt) = Inr g"
    and rnd: "bytes idb" "length idb = keyIDLen div 2" "length sec = secretBytes" "bytes salt"
    and kdf: "\<And>p s t m n k. length (idKey p s t m n k) = k \<and> bytes (idKey p s t m n k)"
  shows "\<exists>secret. ParseKey (g_Plaintext g) = Inr (g_KeyID g, secret)
    \<and> (\<forall>other. VerifySecret idKey other (g_Hash g) \<longleftrightarrow>
          idKey other salt argonTime argonMemory argonThreads argonKeyLen
            = idKey secret salt argonTime argonMemory argonThreads argonKeyLen)"
proof -
  from gen obtain h where h: "HashSecret idKey (Inr salt) (b64enc b64url sec) = Inr h"
    and g: "g = \<lparr>g_KeyID = hexEncode idb, g_Plaintext = KeyPrefix @ hexEncode idb @ ''_'' @ b64enc b64url sec, g_Hash = h\<rparr>"
    by (auto simp: GenerateKey_def Let_def split: sum.splits)
  have "sec \<noteq> []" using rnd(3) by (auto simp: secretBytes_def)
  then have "ParseKey (g_Plaintext g) = Inr (g_KeyID g, b64enc b64url sec)"
    using ParseKey_plaintext [OF rnd(1), of "b64enc b64url sec"] b64enc_ne rnd(2) g by (simp add: keyIDLen_def)
  then show ?thesis using VerifySecret_HashSecret [OF h rnd(4) kdf] g by auto
qed

text \<open>A principal is only ever made from a live credential. When \<open>Verify\<close> succeeds, the presented key
  parsed to the principal's key id, its secret verified against the hash of a key that the store
  holds now or held within the last 60 seconds, that key is neither revoked nor expired as of then,
  the address is allowed, and tenant and namespace are those of the key's tenant.\<close>

lemma Verify_sound:
  assumes "Verify so idKey cidr now presented ip c s = (Inr p, c', s')"
  shows "\<exists>secret tn. ParseKey presented = Inr (p_KeyID p, secret)
    \<and> VerifySecret idKey secret (k_SecretHash (p_Key p)) \<and> Valid (p_Key p) now = None
    \<and> ipAllowed cidr (k_IPAllowlist (p_Key p)) ip \<and> vouched so now (p_KeyID p) c s (p_Key p) tn
    \<and> p_TenantID p = t_ID tn \<and> p_Namespace p = t_Namespace tn"
  using assms by (rule Verify_Inr) blast

definition demoIdKey :: argon where
  "demoIdKey p s t m n k = replicate k (length p mod 256)"

definition demoTenant :: tenant where
  "demoTenant = \<lparr>t_ID = ''t1'', t_Name = ''T'', t_Namespace = ''ns1'', t_Status = ''active'', t_CreatedAt = 0\<rparr>"

definition demoKey :: "int option \<Rightarrow> api_key" where
  "demoKey rv = \<lparr>k_KeyID = ''0123456789ab'', k_TenantID = ''t1'', k_Name = ''k'', k_SecretHash = ''argon2id$AQ$AwMD'',
     k_Scopes = [''sandbox:create'', ''sandbox:read''], k_AllowedTemplates = [], k_IPAllowlist = [], k_ExpiresAt = None,
     k_RevokedAt = rv, k_LastUsedAt = None, k_CreatedAt = 0\<rparr>"

definition demoAuthPG :: "int option \<Rightarrow> pg" where
  "demoAuthPG rv = emptyPG\<lparr>tenants := [(''t1'', demoTenant)], keys := [(''0123456789ab'', demoKey rv)]\<rparr>"

definition demoPresented :: string where
  "demoPresented = ''jdix_sk_0123456789ab_abc''"

lemma demo_parse: "ParseKey demoPresented = Inr (''0123456789ab'', ''abc'')"
  by (simp add: ParseKey_def demoPresented_def KeyPrefix_def hasPrefix_def trimPrefix_def cut_def keyIDLen_def)

lemma demo_verify:
  "fst (Verify (pgStore 0) demoIdKey (\<lambda>_ _. False) 5 demoPresented ''10.0.0.1'' Map.empty (demoAuthPG None))
     = Inr \<lparr>p_TenantID = ''t1'', p_Namespace = ''ns1'', p_KeyID = ''0123456789ab'', p_Key = demoKey None\<rparr>"
  by code_simp

text \<open>C9: revocation takes effect within the cache window. Once the store holds a key as revoked at time T,
  no request with that key succeeds from T plus 60 seconds on, whatever requests were made in between
  and at whatever times, and whatever entries the cache had at T.\<close>

theorem revocation_takes_effect:
  assumes "mem_revoked keyID s" and "\<forall>e. c keyID = Some e \<longrightarrow> ce_cachedAt e \<le> T"
    and "ParseKey presented = Inr (keyID, secret)" and "now \<ge> T + cacheTTL"
  shows "let (c', s') = fold (authStep (pgStore now0) idKey cidr) reqs (c, s)
         in \<exists>e. fst (Verify (pgStore now0) idKey cidr now presented ip c' s') = Inl e"
proof -
  have "pgkeys.stale_only T keyID (c, s)" using assms by (simp add: pgkeys.stale_only_def)
  then have "pgkeys.stale_only T keyID (fold (authStep (pgStore now0) idKey cidr) reqs (c, s))"
    by (rule pgauth.run_ok)
  then show ?thesis using pgkeys.revoked_refused assms(3,4) by (auto split: prod.splits)
qed

theorem revocation_takes_effect_witness:
  "\<exists>e. fst (Verify (pgStore 0) demoIdKey (\<lambda>_ _. False) (100 + cacheTTL) demoPresented ''10.0.0.1''
      [''0123456789ab'' \<mapsto> \<lparr>ce_key = demoKey None, ce_tenant = demoTenant, ce_cachedAt = 99\<rparr>] (demoAuthPG (Some 100))) = Inl e"
proof -
  let ?c = "[''0123456789ab'' \<mapsto> \<lparr>ce_key = demoKey None, ce_tenant = demoTenant, ce_cachedAt = 99\<rparr>]"
  have "mem_revoked ''0123456789ab'' (demoAuthPG (Some 100))" "\<forall>e. ?c ''0123456789ab'' = Some e \<longrightarrow> ce_cachedAt e \<le> 100"
    by (simp_all add: mem_revoked_def demoAuthPG_def demoKey_def)
  from revocation_takes_effect [of "''0123456789ab''" _ ?c 100, OF this demo_parse, of "100 + cacheTTL" 0 demoIdKey "\<lambda>_ _. False" "[]"]
  show ?thesis by simp
qed

end
