(* ===== verification/Go_Mux.thy ===== *)
theory Go_Mux
  imports Go_Path
begin

text \<open>
  \<open>http.ServeMux\<close> as the servers use it: a table of methods, patterns and handlers. A wildcard of a pattern matches one
  segment that is not empty, and the match yields the segment of the (only) wildcard; a GET pattern also serves HEAD. The
  mux answers a path that is not clean with a redirect to the clean one, so no handler sees it.
\<close>

type_synonym 'h route_table = "(string \<times> string \<times> 'h) list"

fun matchSegs :: "string list \<Rightarrow> string list \<Rightarrow> string option" where
  "matchSegs [] [] = Some []"
| "matchSegs (q # qs) (x # xs) =
     (if hasPrefix q ''{'' then (if x = [] then None else (case matchSegs qs xs of None \<Rightarrow> None | Some v \<Rightarrow> Some x))
      else if q = x then matchSegs qs xs else None)"
| "matchSegs qs xs = None"

definition matchPath :: "string \<Rightarrow> string \<Rightarrow> string option" where
  "matchPath pat path = matchSegs (split_on slash pat) (split_on slash path)"

definition matchMethod :: "string \<Rightarrow> string \<Rightarrow> bool" where
  "matchMethod m r \<longleftrightarrow> m = r \<or> m = ''GET'' \<and> r = ''HEAD''"

fun findRoute :: "'h route_table \<Rightarrow> string \<Rightarrow> string \<Rightarrow> ('h \<times> string) option" where
  "findRoute [] meth path = None"
| "findRoute ((m, pat, h) # rs) meth path =
     (case (if matchMethod m meth then matchPath pat path else None) of
        Some v \<Rightarrow> Some (h, v)
      | None \<Rightarrow> findRoute rs meth path)"

lemma findRoute_in:
  "findRoute rs meth path = Some (h, v) \<Longrightarrow> \<exists>m pat. (m, pat, h) \<in> set rs \<and> matchMethod m meth \<and> matchPath pat path = Some v"
  by (induction rs meth path rule: findRoute.induct) (auto split: option.splits if_splits)

lemma findRoute_None:
  "findRoute rs meth path = None \<longleftrightarrow> (\<forall>(m, pat, h) \<in> set rs. matchMethod m meth \<longrightarrow> matchPath pat path = None)"
  by (induction rs meth path rule: findRoute.induct) (auto split: option.splits)

text \<open>No two rows of a table are for the same request: then the order of the rows does not matter, as \<open>ServeMux\<close> has it.\<close>

definition segFits :: "string \<Rightarrow> string \<Rightarrow> bool" where
  "segFits q x \<longleftrightarrow> (if hasPrefix q ''{'' then x \<noteq> [] else q = x)"

definition segsMeet :: "string list \<Rightarrow> string list \<Rightarrow> bool" where
  "segsMeet ps qs \<longleftrightarrow> list_all2 (\<lambda>p q. hasPrefix p ''{'' \<or> hasPrefix q ''{'' \<or> p = q) ps qs"

definition rowsMeet :: "string \<times> string \<times> 'h \<Rightarrow> string \<times> string \<times> 'h \<Rightarrow> bool" where
  "rowsMeet a b \<longleftrightarrow> fst a = fst b \<and> segsMeet (split_on slash (fst (snd a))) (split_on slash (fst (snd b)))"

fun unambiguous :: "'h route_table \<Rightarrow> bool" where
  "unambiguous [] = True"
| "unambiguous (r # rs) = ((\<forall>s \<in> set rs. \<not> rowsMeet r s) \<and> fst r \<noteq> ''HEAD'' \<and> unambiguous rs)"

lemma segFits_cases [simp]: "hasPrefix q ''{'' \<Longrightarrow> segFits q x \<longleftrightarrow> x \<noteq> []" "\<not> hasPrefix q ''{'' \<Longrightarrow> segFits q x \<longleftrightarrow> q = x"
  by (simp_all add: segFits_def)

lemma matchSegs_fits: "matchSegs ps xs \<noteq> None \<longleftrightarrow> list_all2 segFits ps xs"
  by (induction ps xs rule: matchSegs.induct) (auto split: option.splits)

lemma both_match_meet:
  assumes "matchPath p path \<noteq> None" "matchPath q path \<noteq> None"
  shows "segsMeet (split_on slash p) (split_on slash q)"
  unfolding segsMeet_def
proof (rule list_all2_trans [of segFits "\<lambda>x p. segFits p x"])
  show "list_all2 segFits (split_on slash p) (split_on slash path)" using assms(1) matchSegs_fits by (simp add: matchPath_def)
  show "list_all2 (\<lambda>x p. segFits p x) (split_on slash path) (split_on slash q)"
    using assms(2) matchSegs_fits by (simp add: matchPath_def list_all2_conv_all_nth)
qed (auto simp: segFits_def split: if_splits)

lemma same_method: "matchMethod m meth \<Longrightarrow> matchMethod m' meth \<Longrightarrow> m \<noteq> ''HEAD'' \<Longrightarrow> m' \<noteq> ''HEAD'' \<Longrightarrow> m = m'"
  by (auto simp: matchMethod_def)

lemma unambiguous_HEAD: "unambiguous rs \<Longrightarrow> (m, pat, h) \<in> set rs \<Longrightarrow> m \<noteq> ''HEAD''"
  by (induction rs) auto

text \<open>In such a table a request that matches a row is served by it.\<close>

lemma findRoute_row:
  assumes "unambiguous rs" "(m, pat, h) \<in> set rs" "matchMethod m meth" "matchPath pat path = Some v"
  shows "findRoute rs meth path = Some (h, v)"
  using assms(1,2)
proof (induction rs)
  case (Cons r rs)
  obtain m' pat' h' where r: "r = (m', pat', h')" by (cases r)
  show ?case
  proof (cases "r = (m, pat, h)")
    case True
    then show ?thesis using assms(3,4) by simp
  next
    case False
    then have tail: "(m, pat, h) \<in> set rs" using Cons.prems by simp
    have "\<not> (matchMethod m' meth \<and> matchPath pat' path \<noteq> None)"
    proof
      assume a: "matchMethod m' meth \<and> matchPath pat' path \<noteq> None"
      then have "m' = m" using same_method [OF _ assms(3)] Cons.prems unambiguous_HEAD [OF _ tail] r by auto
      moreover have "segsMeet (split_on slash pat') (split_on slash pat)"
        using a assms(4) both_match_meet by blast
      ultimately have "rowsMeet r (m, pat, h)" by (simp add: rowsMeet_def r)
      then show False using Cons.prems tail by auto
    qed
    then show ?thesis using Cons.IH Cons.prems tail by (auto simp: r split: option.splits)
  qed
qed simp

end
