(* ===== verification/Api_Server.thy ===== *)
theory Api_Server
  imports Api_Auth Kube Go_Mux
begin

text \<open>
  The tenant-facing REST API (\<open>pkg/apiserver/server.go\<close>, \<open>quota.go\<close>, \<open>warmup.go\<close>). A handler takes
  the authenticated principal and the decoded body, and passes on two states: the store and the
  Kubernetes API. Waiting for a sandbox is a loop over the moments at which it is polled; each moment
  has its own view of the cluster and its clock readings. SHA-256 of the request, the decoder and the
  text of errors are fields of the server.
\<close>

section \<open>Wire types\<close>

record create_request =
  cr_Template :: string
  cr_TTLSeconds :: int
  cr_Filesystem :: "filesystem_spec option"
  cr_Env :: "(string \<times> string) list"
  cr_Metadata :: "(string \<times> string) list"

record sandbox_response =
  rs_ID :: string
  rs_State :: string
  rs_Template :: string
  rs_IsolationTier :: string
  rs_Endpoint :: string
  rs_ExpiresAt :: "int option"
  rs_ColdStart :: bool
  rs_Reason :: string

record tpl_resp =
  tr_Name :: string
  tr_Admission :: string
  tr_Reason :: string
  tr_MinTier :: string
  tr_DefaultTTL :: int
  tr_MaxTTL :: int
  tr_HasVolumes :: bool

record warmup_body =
  wb_Replicas :: int
  wb_Reason :: string

record review_body =
  rb_Approve :: bool
  rb_Replicas :: int
  rb_Note :: string

text \<open>\<open>warmupView\<close> is the request without the requesting key.\<close>

record warmup_view =
  wv_ID :: string
  wv_TenantID :: string
  wv_Template :: string
  wv_Replicas :: int
  wv_Reason :: string
  wv_Status :: string
  wv_ReviewedBy :: string
  wv_ReviewNote :: string
  wv_CreatedAt :: int
  wv_ReviewedAt :: "int option"

datatype body = BSandbox sandbox_response | BSandboxes "sandbox_response list" | BTemplates "tpl_resp list"
  | BUnlimited | BQuota int int int | BWarmup warmup_view | BWarmups "warmup_view list"
  | BBudget int int int string string | BDeleted string | BHealthy

record ('s, 'k) server =
  sv_Client :: "'k kube"
  sv_APIReader :: "(key \<Rightarrow> 'k \<Rightarrow> (kerr, sandbox) result) option"
  sv_Store :: "'s store_ops"
  sv_ReadyTimeout :: int
  sv_ReadyPoll :: int
  sv_NewID :: string
  sv_WarmupID :: string
  sv_Now :: int
  sv_Sum :: "create_request \<Rightarrow> string"
  sv_ErrText :: "kerr \<Rightarrow> string"
  sv_StoreText :: "store_error \<Rightarrow> string"

section \<open>Reading a sandbox\<close>

definition toResponse :: "sandbox \<Rightarrow> sandbox_response" where
  "toResponse s =
     (let st = sbx_Status s; state = ToLower (st_Phase st)
      in \<lparr>rs_ID = o_Name (sbx_Meta s), rs_State = (if state = [] then ''pending'' else state),
          rs_Template = ss_TemplateRef (sbx_Spec s), rs_IsolationTier = st_IsolationTier st, rs_Endpoint = st_Endpoint st,
          rs_ExpiresAt = st_ExpiresAt st, rs_ColdStart = st_ColdStart st, rs_Reason = st_Reason st\<rparr>)"

definition fetchSandbox :: "('s, 'k) server \<Rightarrow> key \<Rightarrow> 'k \<Rightarrow> (kerr, sandbox) result" where
  "fetchSandbox sv nm k =
     (case kc_GetSandbox (sv_Client sv) nm k of
        Inl e \<Rightarrow> (if e \<noteq> NotFound then Inl e
                 else case sv_APIReader sv of None \<Rightarrow> Inl e | Some get \<Rightarrow> get nm k)
      | Inr s \<Rightarrow> Inr s)"

text \<open>The object the loop starts from: the zero value of the struct.\<close>

definition zeroSandbox :: sandbox where
  "zeroSandbox = \<lparr>sbx_Meta = \<lparr>o_Name = [], o_GenerateName = [], o_Namespace = [], o_Labels = Map.empty, o_Annotations = Map.empty,
       o_Finalizers = [], o_Owner = None, o_Version = 0, o_Created = 0, o_Deleting = False\<rparr>,
     sbx_Spec = \<lparr>ss_TemplateRef = [], ss_TTLSeconds = 0,
       ss_Filesystem = \<lparr>fs_Workspace = \<lparr>ws_Path = [], ws_SizeLimit = []\<rparr>, fs_Mounts = [], fs_AllowSystemPaths = [], fs_Hide = []\<rparr>,
       ss_Env = [], ss_SecretRefs = [], ss_Metadata = []\<rparr>,
     sbx_Status = \<lparr>st_Phase = [], st_PodName = [], st_PodIP = [], st_NodeName = [], st_IsolationTier = [], st_ColdStart = False,
       st_Endpoint = [], st_Token = [], st_BoundAt = None, st_ExpiresAt = None, st_Reason = [], st_Ready = False\<rparr>\<rparr>"

text \<open>One turn of the loop: what the cluster looks like when it is read, the clock at its two deadline
  checks, and whether the client has gone when it would sleep.\<close>

record 'k tick =
  tk_World :: 'k
  tk_Now1 :: int
  tk_Now2 :: int
  tk_Done :: bool

definition readyTimeout :: "('s, 'k) server \<Rightarrow> int" where
  "readyTimeout sv = (if sv_ReadyTimeout sv \<le> 0 then 8 * second else sv_ReadyTimeout sv)"

text \<open>The loop from turn \<open>i\<close> for at most \<open>n\<close> turns; None is a loop that is still running.\<close>

fun waitLoop ::
    "('s, 'k) server \<Rightarrow> key \<Rightarrow> int \<Rightarrow> (nat \<Rightarrow> 'k tick) \<Rightarrow> nat \<Rightarrow> nat \<Rightarrow> sandbox \<Rightarrow> (kerr, sandbox) result option" where
  "waitLoop sv nm deadline tks i 0 sbx = None"
| "waitLoop sv nm deadline tks i (Suc n) sbx =
     (let t = tks i in
      case fetchSandbox sv nm (tk_World t) of
        Inl e \<Rightarrow>
          if e \<noteq> NotFound \<or> tk_Now1 t > deadline then Some (Inl e)
          else if st_Phase (sbx_Status sbx) \<in> {PhaseRunning, PhaseFailed, PhaseExpired} then Some (Inr sbx)
          else if tk_Now2 t > deadline \<or> tk_Done t then Some (Inr sbx)
          else waitLoop sv nm deadline tks (Suc i) n sbx
      | Inr s \<Rightarrow>
          if st_Phase (sbx_Status s) \<in> {PhaseRunning, PhaseFailed, PhaseExpired} then Some (Inr s)
          else if tk_Now2 t > deadline \<or> tk_Done t then Some (Inr s)
          else waitLoop sv nm deadline tks (Suc i) n s)"

definition waitReady ::
    "('s, 'k) server \<Rightarrow> key \<Rightarrow> (nat \<Rightarrow> 'k tick) \<Rightarrow> nat \<Rightarrow> (kerr, sandbox) result option" where
  "waitReady sv nm tks n = waitLoop sv nm (sv_Now sv + readyTimeout sv) tks 0 n zeroSandbox"

text \<open>The answer to a read that has ended.\<close>

definition respond :: "('s, 'k) server \<Rightarrow> (kerr, sandbox) result \<Rightarrow> body response" where
  "respond sv res =
     (case res of
        Inl e \<Rightarrow> if e = NotFound then writeErr 404 ''not_found'' ''this sandbox no longer exists''
                else writeErr 500 ''read_failed'' (sv_ErrText sv e)
      | Inr s \<Rightarrow> JSON (if st_Phase (sbx_Status s) = PhaseFailed then 200 else 201) (BSandbox (toResponse s)))"

definition respondWithSandbox ::
    "('s, 'k) server \<Rightarrow> principal \<Rightarrow> string \<Rightarrow> (nat \<Rightarrow> 'k tick) \<Rightarrow> nat \<Rightarrow> body response option" where
  "respondWithSandbox sv p sid tks n = map_option (respond sv) (waitReady sv (p_Namespace p, sid) tks n)"

section \<open>Quota\<close>

datatype quota_result = Within | Over string string int | QuotaErr store_error

definition checkQuota :: "('s, 'k) server \<Rightarrow> principal \<Rightarrow> 's \<Rightarrow> quota_result" where
  "checkQuota sv p s =
     (let so = sv_Store sv; tn = p_TenantID p in
      case so_Quota so tn s of
        Inl e \<Rightarrow> if e = ErrNotFound then Within else QuotaErr e
      | Inr q \<Rightarrow>
          (let first = (if q_MaxConcurrent q > 0
             then (case so_CountRunning so tn s of
                Inl e \<Rightarrow> QuotaErr e
              | Inr n \<Rightarrow> if n \<ge> q_MaxConcurrent q
                  then Over ''quota_concurrent''
                    (''this tenant already has '' @ Itoa n @ '' of '' @ Itoa (q_MaxConcurrent q)
                       @ '' sandboxes running; delete one or wait for a TTL to elapse'') 30
                  else Within)
             else Within)
           in if first \<noteq> Within then first
              else if q_MaxCreatePerMinute q > 0
              then (case so_CountCreatedSince so tn (sv_Now sv - 60 * second) s of
                 Inl e \<Rightarrow> QuotaErr e
               | Inr n \<Rightarrow> if n \<ge> q_MaxCreatePerMinute q
                   then Over ''quota_create_rate''
                     (''this tenant has created '' @ Itoa n @ '' sandboxes in the last minute, at a limit of '' @ Itoa (q_MaxCreatePerMinute q)) 10
                   else Within)
              else Within))"

section \<open>Creating\<close>

definition toCRDFilesystem :: "filesystem_spec \<Rightarrow> filesystem_spec" where
  "toCRDFilesystem f =
     \<lparr>fs_Workspace = \<lparr>ws_Path = ws_Path (fs_Workspace f), ws_SizeLimit = ws_SizeLimit (fs_Workspace f)\<rparr>,
      fs_Mounts = map (\<lambda>m. \<lparr>m_Path = m_Path m, m_Source = \<lparr>src_Volume = src_Volume (m_Source m), src_SubPath = src_SubPath (m_Source m)\<rparr>,
                             m_ReadOnly = m_ReadOnly m\<rparr>) (fs_Mounts f),
      fs_AllowSystemPaths = fs_AllowSystemPaths f, fs_Hide = fs_Hide f\<rparr>"

definition newSandbox :: "('s, 'k) server \<Rightarrow> principal \<Rightarrow> create_request \<Rightarrow> sandbox" where
  "newSandbox sv p req =
     zeroSandbox\<lparr>
       sbx_Meta := (sbx_Meta zeroSandbox)\<lparr>o_Name := sv_NewID sv, o_Namespace := p_Namespace p,
         o_Labels := [LabelTenant \<mapsto> p_TenantID p, LabelTemplate \<mapsto> cr_Template req]\<rparr>,
       sbx_Spec := (sbx_Spec zeroSandbox)\<lparr>ss_TemplateRef := cr_Template req, ss_TTLSeconds := wrap32 (cr_TTLSeconds req),
         ss_Metadata := cr_Metadata req,
         ss_Filesystem := (case cr_Filesystem req of None \<Rightarrow> ss_Filesystem (sbx_Spec zeroSandbox) | Some f \<Rightarrow> toCRDFilesystem f),
         ss_Env := map (\<lambda>(k, v). \<lparr>ev_Name = k, ev_Value = v\<rparr>) (cr_Env req)\<rparr>\<rparr>"

definition auditOf :: "('s, 'k) server \<Rightarrow> request \<Rightarrow> string \<Rightarrow> string \<Rightarrow> string \<Rightarrow> string \<Rightarrow> (string \<times> string) list \<Rightarrow> audit_event" where
  "auditOf sv rq tn actor act target detail =
     \<lparr>a_TenantID = tn, a_Actor = actor, a_Action = act, a_Target = target, a_RequestID = [], a_IP = clientIP rq,
      a_UserAgent = rq_UserAgent rq, a_At = sv_Now sv, a_Detail = detail\<rparr>"

definition newRecord :: "('s, 'k) server \<Rightarrow> principal \<Rightarrow> create_request \<Rightarrow> sandbox_record" where
  "newRecord sv p req =
     \<lparr>sr_ID = sv_NewID sv, sr_TenantID = p_TenantID p, sr_APIKeyID = p_KeyID p, sr_Template = cr_Template req, sr_State = PhasePending,
      sr_ColdStart = False, sr_IsolationTier = [], sr_Node = [], sr_CreatedAt = sv_Now sv, sr_ReadyAt = None, sr_DeletedAt = None,
      sr_DeleteReason = [], sr_Metadata = cr_Metadata req\<rparr>"

definition newIdem :: "('s, 'k) server \<Rightarrow> principal \<Rightarrow> string \<Rightarrow> create_request \<Rightarrow> idempotency_record" where
  "newIdem sv p ikey req =
     \<lparr>i_Key = ikey, i_TenantID = p_TenantID p, i_RequestSum = sv_Sum sv req, i_SandboxID = sv_NewID sv, i_CreatedAt = sv_Now sv\<rparr>"

text \<open>What is written down once the object exists; errors of these writes are dropped.\<close>

definition bookkeeping :: "('s, 'k) server \<Rightarrow> principal \<Rightarrow> request \<Rightarrow> create_request \<Rightarrow> 's \<Rightarrow> 's" where
  "bookkeeping sv p rq req s =
     (let so = sv_Store sv; ikey = rq_Header rq ''Idempotency-Key'';
          s1 = snd (so_RecordSandbox so (newRecord sv p req) s);
          s2 = snd (so_Audit so (auditOf sv rq (p_TenantID p) (p_KeyID p) ''sandbox.create'' (sv_NewID sv) []) s1)
      in if ikey \<noteq> [] then snd (so_SaveIdempotency so (newIdem sv p ikey req) s2) else s2)"

text \<open>A create ends at once with an answer, or goes on to wait for the sandbox it names.\<close>

datatype reply = Now "body response" | Await string

definition startSandbox ::
    "('s, 'k) server \<Rightarrow> principal \<Rightarrow> request \<Rightarrow> create_request \<Rightarrow> 's \<times> 'k \<Rightarrow> reply \<times> 's \<times> 'k" where
  "startSandbox sv p rq req w =
     (case w of (s, k) \<Rightarrow>
       (case checkQuota sv p s of
          Over code msg retry \<Rightarrow> (Now (ErrResp 429 code msg [(''Retry-After'', Itoa retry)]), s, k)
        | QuotaErr e \<Rightarrow> (Now (writeErr 500 ''quota_check_failed'' (sv_StoreText sv e)), s, k)
        | Within \<Rightarrow>
            (case kc_CreateSandbox (sv_Client sv) (newSandbox sv p req) k of
               (Some e, k1) \<Rightarrow>
                 (Now (if e = NotFound then writeErr 400 ''template_not_found'' (sv_ErrText sv e)
                       else writeErr 500 ''create_failed'' (sv_ErrText sv e)), s, k1)
             | (None, k1) \<Rightarrow> (Await (sv_NewID sv), bookkeeping sv p rq req s, k1))))"

definition createSandbox ::
    "('s, 'k) server \<Rightarrow> principal \<Rightarrow> request \<Rightarrow> (string, create_request) result \<Rightarrow> 's \<times> 'k \<Rightarrow> reply \<times> 's \<times> 'k" where
  "createSandbox sv p rq dec w =
     (case dec of
        Inl e \<Rightarrow> (Now (writeErr 400 ''invalid_body'' e), w)
      | Inr req \<Rightarrow>
          if cr_Template req = [] then (Now (writeErr 400 ''invalid_request'' ''template is required''), w)
          else if \<not> AllowsTemplate (p_Key p) (cr_Template req) then
            (Now (writeErr 403 ''template_not_allowed'' ''this API key is restricted to a different set of templates''), w)
          else (let ikey = rq_Header rq ''Idempotency-Key'' in
            if ikey = [] then startSandbox sv p rq req w
            else (case so_Idempotency (sv_Store sv) (p_TenantID p) ikey (fst w) of
               Inr prev \<Rightarrow>
                 if i_RequestSum prev \<noteq> sv_Sum sv req then
                   (Now (writeErr 409 ''idempotency_mismatch'' ''this Idempotency-Key was used with a different request body''), w)
                 else (Await (i_SandboxID prev), w)
             | Inl e \<Rightarrow>
                 if e \<noteq> ErrNotFound then (Now (writeErr 500 ''store_error'' (sv_StoreText sv e)), w)
                 else startSandbox sv p rq req w)))"

text \<open>The answer the client gets after at most \<open>n\<close> polls.\<close>

definition answer :: "('s, 'k) server \<Rightarrow> principal \<Rightarrow> reply \<Rightarrow> (nat \<Rightarrow> 'k tick) \<Rightarrow> nat \<Rightarrow> body response option" where
  "answer sv p rep tks n = (case rep of Now r \<Rightarrow> Some r | Await sid \<Rightarrow> respondWithSandbox sv p sid tks n)"

section \<open>The other sandbox operations\<close>

definition getSandbox :: "('s, 'k) server \<Rightarrow> principal \<Rightarrow> string \<Rightarrow> 'k \<Rightarrow> body response" where
  "getSandbox sv p sid k =
     (case fetchSandbox sv (p_Namespace p, sid) k of
        Inl e \<Rightarrow> if e = NotFound then writeErr 404 ''not_found'' ''no such sandbox'' else writeErr 500 ''read_failed'' (sv_ErrText sv e)
      | Inr s \<Rightarrow>
          if lbl (o_Labels (sbx_Meta s)) LabelTenant \<noteq> p_TenantID p then writeErr 404 ''not_found'' ''no such sandbox''
          else JSON 200 (BSandbox (toResponse s)))"

definition listSandboxes :: "('s, 'k) server \<Rightarrow> principal \<Rightarrow> request \<Rightarrow> 'k \<Rightarrow> body response" where
  "listSandboxes sv p rq k =
     (case kc_ListSandboxes (sv_Client sv) (p_Namespace p) [(LabelTenant, p_TenantID p)] k of
        Inl e \<Rightarrow> writeErr 500 ''list_failed'' (sv_ErrText sv e)
      | Inr xs \<Rightarrow>
          let want = rq_Query rq ''state''
          in JSON 200 (BSandboxes (filter (\<lambda>r. want = [] \<or> EqualFold (rs_State r) want) (map toResponse xs))))"

definition deleteSandbox :: "('s, 'k) server \<Rightarrow> principal \<Rightarrow> request \<Rightarrow> string \<Rightarrow> 's \<times> 'k \<Rightarrow> body response \<times> 's \<times> 'k" where
  "deleteSandbox sv p rq sid w =
     (case w of (s, k) \<Rightarrow>
       (case fetchSandbox sv (p_Namespace p, sid) k of
          Inl e \<Rightarrow> ((if e = NotFound then writeErr 404 ''not_found'' ''no such sandbox'' else writeErr 500 ''read_failed'' (sv_ErrText sv e)), s, k)
        | Inr x \<Rightarrow>
            if lbl (o_Labels (sbx_Meta x)) LabelTenant \<noteq> p_TenantID p then (writeErr 404 ''not_found'' ''no such sandbox'', s, k)
            else (case kc_DeleteSandbox (sv_Client sv) (sbxKey x) k of
               (e, k1) \<Rightarrow>
                 if e \<noteq> None \<and> e \<noteq> Some NotFound then (writeErr 500 ''delete_failed'' (sv_ErrText sv (the e)), s, k1)
                 else (JSON 200 (BDeleted sid),
                       snd (so_Audit (sv_Store sv) (auditOf sv rq (p_TenantID p) (p_KeyID p) ''sandbox.delete'' sid []) s), k1))))"

definition tplResp :: "tmpl \<Rightarrow> tpl_resp" where
  "tplResp t =
     \<lparr>tr_Name = o_Name (tp_Meta t), tr_Admission = tt_Admission (tp_Status t), tr_Reason = tt_AdmissionReason (tp_Status t),
      tr_MinTier = RequiredIsolation (tp_Spec t), tr_DefaultTTL = ts_DefaultTTLSeconds (tp_Spec t), tr_MaxTTL = ts_MaxTTLSeconds (tp_Spec t),
      tr_HasVolumes = tt_HasVolumes (tp_Status t)\<rparr>"

definition listTemplates :: "('s, 'k) server \<Rightarrow> principal \<Rightarrow> 'k \<Rightarrow> body response" where
  "listTemplates sv p k =
     (case kc_ListTemplates (sv_Client sv) (p_Namespace p) k of
        Inl e \<Rightarrow> writeErr 500 ''list_failed'' (sv_ErrText sv e)
      | Inr ts \<Rightarrow> JSON 200 (BTemplates (map tplResp (filter (\<lambda>t. AllowsTemplate (p_Key p) (o_Name (tp_Meta t))) ts))))"

definition getQuota :: "('s, 'k) server \<Rightarrow> principal \<Rightarrow> 's \<Rightarrow> body response" where
  "getQuota sv p s =
     (case so_Quota (sv_Store sv) (p_TenantID p) s of
        Inl e \<Rightarrow> if e = ErrNotFound then JSON 200 BUnlimited else writeErr 500 ''quota_read_failed'' (sv_StoreText sv e)
      | Inr q \<Rightarrow>
          JSON 200 (BQuota (q_MaxConcurrent q)
            (case so_CountRunning (sv_Store sv) (p_TenantID p) s of Inl e \<Rightarrow> 0 | Inr n \<Rightarrow> n) (q_MaxCreatePerMinute q)))"

section \<open>Warm capacity\<close>

definition viewOf :: "warmup_request \<Rightarrow> warmup_view" where
  "viewOf r =
     \<lparr>wv_ID = w_ID r, wv_TenantID = w_TenantID r, wv_Template = w_Template r, wv_Replicas = w_Replicas r, wv_Reason = w_Reason r,
      wv_Status = w_Status r, wv_ReviewedBy = w_ReviewedBy r, wv_ReviewNote = w_ReviewNote r, wv_CreatedAt = w_CreatedAt r,
      wv_ReviewedAt = w_ReviewedAt r\<rparr>"

definition newWarmup :: "('s, 'k) server \<Rightarrow> principal \<Rightarrow> string \<Rightarrow> warmup_body \<Rightarrow> warmup_request" where
  "newWarmup sv p tname b =
     \<lparr>w_ID = sv_WarmupID sv, w_TenantID = p_TenantID p, w_Template = tname, w_Replicas = wb_Replicas b, w_Reason = wb_Reason b,
      w_Status = ''pending'', w_RequestedBy = p_KeyID p, w_ReviewedBy = [], w_ReviewNote = [], w_CreatedAt = sv_Now sv, w_ReviewedAt = None\<rparr>"

definition requestWarmup ::
    "('s, 'k) server \<Rightarrow> principal \<Rightarrow> request \<Rightarrow> string \<Rightarrow> (string, warmup_body) result \<Rightarrow> 's \<times> 'k \<Rightarrow> body response \<times> 's \<times> 'k" where
  "requestWarmup sv p rq tname dec w =
     (case dec of
        Inl e \<Rightarrow> (writeErr 400 ''invalid_body'' e, w)
      | Inr b \<Rightarrow>
          if wb_Replicas b \<le> 0 then (writeErr 400 ''invalid_request'' ''replicas must be greater than zero'', w)
          else if \<not> AllowsTemplate (p_Key p) tname then
            (writeErr 403 ''template_not_allowed'' ''this API key is restricted to a different set of templates'', w)
          else (case kc_GetTemplate (sv_Client sv) (p_Namespace p, tname) (snd w) of
             Inl e \<Rightarrow> ((if e = NotFound then writeErr 404 ''template_not_found'' ''no such template'' else writeErr 500 ''read_failed'' (sv_ErrText sv e)), w)
           | Inr t \<Rightarrow>
               let req = newWarmup sv p tname b
               in (case so_SaveWarmupRequest (sv_Store sv) req (fst w) of
                     (Some e, s1) \<Rightarrow> (writeErr 500 ''store_error'' (sv_StoreText sv e), s1, snd w)
                   | (None, s1) \<Rightarrow>
                       (JSON 202 (BWarmup (viewOf req)),
                        snd (so_Audit (sv_Store sv) (auditOf sv rq (p_TenantID p) (p_KeyID p) ''warmup.request'' tname
                               [(''replicas'', Itoa (wb_Replicas b))]) s1), snd w))))"

definition listWarmupRequests :: "('s, 'k) server \<Rightarrow> request \<Rightarrow> 's \<Rightarrow> body response" where
  "listWarmupRequests sv rq s =
     (let q = rq_Query rq ''status''; status = (if q = [] then ''pending'' else q) in
      case so_WarmupRequests (sv_Store sv) status s of
        Inl e \<Rightarrow> writeErr 500 ''store_error'' (sv_StoreText sv e)
      | Inr rs \<Rightarrow> JSON 200 (BWarmups (map viewOf rs)))"

definition newPool :: "string \<Rightarrow> warmup_request \<Rightarrow> int \<Rightarrow> pool" where
  "newPool ns req replicas =
     \<lparr>po_Meta = (sbx_Meta zeroSandbox)\<lparr>o_Name := w_Template req, o_Namespace := ns\<rparr>,
      po_Spec = \<lparr>pl_TemplateRef = w_Template req, pl_Replicas = wrap32 replicas, pl_MinReplicas = 1,
        pl_MaxReplicas = wrap32 (wrap32 replicas * 3), pl_NotReadyTimeoutSeconds = 300, pl_IdleTTLSeconds = 3600, pl_MaxSurge = 3\<rparr>,
      po_Status = \<lparr>pt_IdleByTier = Map.empty, pt_Idle = 0, pt_Bound = 0, pt_Stale = 0, pt_NotReady = 0, pt_TemplateHash = []\<rparr>\<rparr>"

datatype pool_error = PoolStore store_error | PoolKube kerr

definition upsertPool :: "('s, 'k) server \<Rightarrow> warmup_request \<Rightarrow> int \<Rightarrow> 's \<Rightarrow> 'k \<Rightarrow> pool_error option \<times> 'k" where
  "upsertPool sv req replicas s k =
     (case so_Tenant (sv_Store sv) (w_TenantID req) s of
        Inl e \<Rightarrow> (Some (PoolStore e), k)
      | Inr tn \<Rightarrow>
          (case kc_GetPool (sv_Client sv) (t_Namespace tn, w_Template req) k of
             Inl e \<Rightarrow>
               if e = NotFound then
                 (case kc_CreatePool (sv_Client sv) (newPool (t_Namespace tn) req replicas) k of (r, k1) \<Rightarrow> (map_option PoolKube r, k1))
               else (Some (PoolKube e), k)
           | Inr pl \<Rightarrow>
               let sp = (po_Spec pl)\<lparr>pl_Replicas := wrap32 replicas\<rparr>;
                   sp1 = (if pl_MaxReplicas sp < wrap32 replicas then sp\<lparr>pl_MaxReplicas := wrap32 (wrap32 replicas * 3)\<rparr> else sp)
               in (case kc_UpdatePool (sv_Client sv) (pl\<lparr>po_Spec := sp1\<rparr>) k of (r, k1) \<Rightarrow> (map_option PoolKube r, k1))))"

definition poolErrText :: "('s, 'k) server \<Rightarrow> pool_error \<Rightarrow> string" where
  "poolErrText sv e = (case e of PoolStore x \<Rightarrow> sv_StoreText sv x | PoolKube x \<Rightarrow> sv_ErrText sv x)"

text \<open>The decision on a pending request, once it has been read.\<close>

definition decideWarmup ::
    "('s, 'k) server \<Rightarrow> principal \<Rightarrow> request \<Rightarrow> review_body \<Rightarrow> warmup_request \<Rightarrow> 's \<times> 'k \<Rightarrow> body response \<times> 's \<times> 'k" where
  "decideWarmup sv p rq b req0 w =
     (let so = sv_Store sv; s = fst w; k = snd w;
          replicas = (if rb_Replicas b \<le> 0 then w_Replicas req0 else rb_Replicas b);
          req = req0\<lparr>w_ReviewedBy := p_KeyID p, w_ReviewNote := rb_Note b, w_ReviewedAt := Some (sv_Now sv)\<rparr> in
      if \<not> rb_Approve b then
        (let rej = req\<lparr>w_Status := ''rejected''\<rparr> in
         case so_SaveWarmupRequest so rej s of
           (Some e, s1) \<Rightarrow> (writeErr 500 ''store_error'' (sv_StoreText sv e), s1, k)
         | (None, s1) \<Rightarrow> (JSON 200 (BWarmup (viewOf rej)), s1, k))
      else (case so_PoolBudget so s of
         Inl e \<Rightarrow> (writeErr 500 ''store_error'' (sv_StoreText sv e), s, k)
       | Inr bu \<Rightarrow>
           if replicas > wrap64 (b_TotalIdlePods bu - b_Allocated bu) then
             (writeErr 409 ''budget_exceeded''
                (''approving '' @ Itoa replicas @ '' warm Pods would exceed the platform budget: '' @ Itoa (b_Allocated bu) @ '' of ''
                   @ Itoa (b_TotalIdlePods bu) @ '' are already allocated''), s, k)
           else (case upsertPool sv req replicas s k of
              (Some e, k1) \<Rightarrow> (writeErr 500 ''pool_write_failed'' (poolErrText sv e), s, k1)
            | (None, k1) \<Rightarrow>
                let app = req\<lparr>w_Status := ''approved'', w_Replicas := replicas\<rparr>
                in (case so_SaveWarmupRequest so app s of
                      (Some e, s1) \<Rightarrow> (writeErr 500 ''store_error'' (sv_StoreText sv e), s1, k1)
                    | (None, s1) \<Rightarrow>
                        (JSON 200 (BWarmup (viewOf app)),
                         snd (so_Audit so (auditOf sv rq (w_TenantID req) (p_KeyID p) ''warmup.approve'' (w_Template req)
                                [(''replicas'', Itoa replicas)]) s1), k1)))))"

definition reviewWarmup ::
    "('s, 'k) server \<Rightarrow> principal \<Rightarrow> request \<Rightarrow> string \<Rightarrow> (string, review_body) result \<Rightarrow> 's \<times> 'k \<Rightarrow> body response \<times> 's \<times> 'k" where
  "reviewWarmup sv p rq wid dec w =
     (case dec of
        Inl e \<Rightarrow> (writeErr 400 ''invalid_body'' e, w)
      | Inr b \<Rightarrow>
          (case so_WarmupRequest (sv_Store sv) wid (fst w) of
             Inl e \<Rightarrow> ((if e = ErrNotFound then writeErr 404 ''not_found'' ''no such warm-up request'' else writeErr 500 ''store_error'' (sv_StoreText sv e)), w)
           | Inr req \<Rightarrow>
               if w_Status req \<noteq> ''pending'' then (writeErr 409 ''already_reviewed'' (''this request was already '' @ w_Status req), w)
               else decideWarmup sv p rq b req w))"

definition getBudget :: "('s, 'k) server \<Rightarrow> 's \<Rightarrow> body response" where
  "getBudget sv s =
     (case so_PoolBudget (sv_Store sv) s of
        Inl e \<Rightarrow> writeErr 500 ''store_error'' (sv_StoreText sv e)
      | Inr b \<Rightarrow> JSON 200 (BBudget (b_TotalIdlePods b) (b_Allocated b) (wrap64 (b_TotalIdlePods b - b_Allocated b)) (b_TotalCPU b) (b_TotalMemory b)))"

section \<open>Routing\<close>

datatype action = ACreate | AList | AGet | ADelete | ATemplates | AWarmup | AQuota | AWarmups | AReview | ABudget

text \<open>The table: method, path, scope and handler.\<close>

definition Routes :: "(string \<times> action) route_table" where
  "Routes = [
     (''POST'', ''/v1/sandboxes'', ScopeSandboxCreate, ACreate),
     (''GET'', ''/v1/sandboxes'', ScopeSandboxRead, AList),
     (''GET'', ''/v1/sandboxes/{id}'', ScopeSandboxRead, AGet),
     (''DELETE'', ''/v1/sandboxes/{id}'', ScopeSandboxDelete, ADelete),
     (''GET'', ''/v1/templates'', ScopeTemplateRead, ATemplates),
     (''POST'', ''/v1/templates/{name}/warmup-request'', ScopeTemplateRead, AWarmup),
     (''GET'', ''/v1/quota'', ScopeSandboxRead, AQuota),
     (''GET'', ''/v1/admin/warmup-requests'', ScopeAdmin, AWarmups),
     (''POST'', ''/v1/admin/warmup-requests/{id}/review'', ScopeAdmin, AReview),
     (''GET'', ''/v1/admin/budget'', ScopeAdmin, ABudget)]"

text \<open>The bodies a request may decode to, one per handler that reads one.\<close>

record decoded =
  d_Create :: "(string, create_request) result"
  d_Warmup :: "(string, warmup_body) result"
  d_Review :: "(string, review_body) result"

fun serve ::
    "('s, 'k) server \<Rightarrow> request \<Rightarrow> decoded \<Rightarrow> action \<Rightarrow> string \<Rightarrow> principal \<Rightarrow> 's \<times> 'k \<Rightarrow> reply \<times> 's \<times> 'k" where
  "serve sv rq d ACreate v p w = createSandbox sv p rq (d_Create d) w"
| "serve sv rq d AList v p w = (Now (listSandboxes sv p rq (snd w)), w)"
| "serve sv rq d AGet v p w = (Now (getSandbox sv p v (snd w)), w)"
| "serve sv rq d ADelete v p w = (case deleteSandbox sv p rq v w of (r, w') \<Rightarrow> (Now r, w'))"
| "serve sv rq d ATemplates v p w = (Now (listTemplates sv p (snd w)), w)"
| "serve sv rq d AWarmup v p w = (case requestWarmup sv p rq v (d_Warmup d) w of (r, w') \<Rightarrow> (Now r, w'))"
| "serve sv rq d AQuota v p w = (Now (getQuota sv p (fst w)), w)"
| "serve sv rq d AWarmups v p w = (Now (listWarmupRequests sv rq (fst w)), w)"
| "serve sv rq d AReview v p w = (case reviewWarmup sv p rq v (d_Review d) w of (r, w') \<Rightarrow> (Now r, w'))"
| "serve sv rq d ABudget v p w = (Now (getBudget sv (fst w)), w)"

text \<open>The whole chain: authentication around the table, the scope check around each handler.\<close>

definition routed :: "('s, 'k) server \<Rightarrow> request \<Rightarrow> decoded \<Rightarrow> principal \<Rightarrow> 's \<times> 'k \<Rightarrow> reply \<times> 's \<times> 'k" where
  "routed sv rq d p w =
     (case findRoute Routes (rq_Method rq) (rq_Path rq) of
        None \<Rightarrow> (Now (if (\<exists>(m, pat, sc, a) \<in> set Routes. matchPath pat (rq_Path rq) \<noteq> None)
                     then writeErr 405 [] ''Method Not Allowed'' else writeErr 404 [] ''404 page not found''), w)
      | Some ((sc, a), v) \<Rightarrow>
          if \<not> Allows (p_Key p) sc
          then (Now (writeErr 403 ''insufficient_scope'' (''this API key does not carry the '' @ sc @ '' scope'')), w)
          else serve sv rq d a v p w)"

definition Handler ::
    "('s, 'k) server \<Rightarrow> argon \<Rightarrow> (string \<Rightarrow> string \<Rightarrow> bool) \<Rightarrow> request \<Rightarrow> decoded \<Rightarrow> auth_cache \<Rightarrow> 's \<times> 'k
     \<Rightarrow> reply \<times> auth_cache \<times> 's \<times> 'k" where
  "Handler sv idKey cidr rq d c w =
     (if hasPrefix (rq_Path rq) ''/v1/'' then
        (case Verify (sv_Store sv) idKey cidr (sv_Now sv) (bearerToken rq) (clientIP rq) c (fst w) of
           (Inl e, c1, s1) \<Rightarrow> (Now (WriteAuthError e), c1, s1, snd w)
         | (Inr p, c1, s1) \<Rightarrow> (case routed sv rq d p (s1, snd w) of (rep, w') \<Rightarrow> (rep, c1, w')))
      else if rq_Path rq = ''/healthz'' then
        (Now (if matchMethod ''GET'' (rq_Method rq) then JSON 200 BHealthy else writeErr 405 [] ''Method Not Allowed''), c, w)
      else (Now (writeErr 404 [] ''404 page not found''), c, w))"

section \<open>A small installation\<close>

definition demoSrv :: "(mem, cluster) server" where
  "demoSrv = \<lparr>sv_Client = clusterKube, sv_APIReader = None, sv_Store = memStore, sv_ReadyTimeout = 0, sv_ReadyPoll = 0,
     sv_NewID = ''sbx-1'', sv_WarmupID = ''wr-1'', sv_Now = 0, sv_Sum = cr_Template, sv_ErrText = (\<lambda>_. ''err''), sv_StoreText = (\<lambda>_. ''err'')\<rparr>"

definition noCluster :: cluster where
  "noCluster = \<lparr>cl_Pods = [], cl_Boxes = [], cl_Tpls = [], cl_Pools = [], cl_PVCs = [], cl_Next = 1\<rparr>"

definition demoPrincipal :: principal where
  "demoPrincipal = \<lparr>p_TenantID = ''t1'', p_Namespace = ''ns1'', p_KeyID = ''k1'', p_Key = demoKey None\<rparr>"

definition demoReq :: request where
  "demoReq = \<lparr>rq_Method = ''POST'', rq_Path = ''/v1/sandboxes'',
     rq_Header = (\<lambda>h. if h = ''Idempotency-Key'' then ''i1'' else if h = ''Authorization'' then ''Bearer '' @ demoPresented else []),
     rq_Query = (\<lambda>_. []), rq_RemoteAddr = ''10.0.0.1:9'', rq_UserAgent = []\<rparr>"

definition demoCreate :: create_request where
  "demoCreate = \<lparr>cr_Template = ''py'', cr_TTLSeconds = 60, cr_Filesystem = None, cr_Env = [], cr_Metadata = []\<rparr>"

lemmas demo_api = demoSrv_def noCluster_def demoPrincipal_def demoReq_def demoCreate_def demoKey_def

section \<open>Properties\<close>

subsection \<open>Waiting\<close>

lemma waitLoop_ends:
  "tk_Now2 (tks (i + n)) > deadline \<Longrightarrow> \<exists>r. waitLoop sv nm deadline tks i (Suc n) s = Some r"
proof (induction n arbitrary: i s)
  case 0
  then show ?case by (auto simp: Let_def split: sum.splits)
next
  case (Suc n)
  from Suc.IH [of "Suc i"] Suc.prems have "\<exists>r. waitLoop sv nm deadline tks (Suc i) (Suc n) s' = Some r" for s' by simp
  then show ?case by (subst waitLoop.simps(2)) (auto simp: Let_def simp del: waitLoop.simps split: sum.splits)
qed

lemma waitLoop_more:
  "waitLoop sv nm deadline tks i n s = Some r \<Longrightarrow> waitLoop sv nm deadline tks i (n + m) s = Some r"
  by (induction n arbitrary: i s) (auto simp: Let_def split: sum.splits if_splits)



text \<open>What the loop started from can be what it returns: a create whose reads stay behind past the deadline
  is answered 201 with a sandbox that has no id.\<close>

lemma unseen_sandbox_is_created:
  assumes "fetchSandbox sv nm (tk_World (tks 0)) = Inl NotFound" "tk_Now1 (tks 0) \<le> sv_Now sv + readyTimeout sv"
    and "tk_Now2 (tks 0) > sv_Now sv + readyTimeout sv \<or> tk_Done (tks 0)"
  shows "\<exists>b. map_option (respond sv) (waitReady sv nm tks 1) = Some (JSON 201 (BSandbox b)) \<and> rs_ID b = []"
  using assms by (auto simp: waitReady_def respond_def zeroSandbox_def toResponse_def Let_def
      PhaseRunning_def PhaseFailed_def PhaseExpired_def)

subsection \<open>Retries and quota\<close>

lemma checkQuota_concurrent:
  assumes "so_Quota (sv_Store sv) (p_TenantID p) s = Inr q" "q_MaxConcurrent q > 0" "so_CountRunning (sv_Store sv) (p_TenantID p) s = Inr n"
  shows "checkQuota sv p s = Within \<Longrightarrow> n < q_MaxConcurrent q"
    and "n \<ge> q_MaxConcurrent q \<Longrightarrow> \<exists>msg. checkQuota sv p s = Over ''quota_concurrent'' msg 30"
  using assms by (simp_all add: checkQuota_def Let_def split: if_splits)

lemma startSandbox_cases:
  assumes "startSandbox sv p rq req (s, k) = (rep, s1, k1)"
  obtains (started) "rep = Await (sv_NewID sv)" "checkQuota sv p s = Within" "kc_CreateSandbox (sv_Client sv) (newSandbox sv p req) k = (None, k1)"
      "s1 = bookkeeping sv p rq req s"
  | (refused) r where "rep = Now r" "s1 = s"
proof (cases "checkQuota sv p s")
  case Within
  obtain e k' where c: "kc_CreateSandbox (sv_Client sv) (newSandbox sv p req) k = (e, k')" by force
  show thesis
  proof (cases e)
    case None
    with assms Within c show thesis by (intro started) (simp_all add: startSandbox_def)
  next
    case (Some x)
    with assms Within c show thesis by (auto simp: startSandbox_def intro: refused)
  qed
qed (use assms in \<open>auto simp: startSandbox_def intro: refused\<close>)

lemma createSandbox_cases:
  assumes "createSandbox sv p rq dec (s, k) = (rep, s1, k1)"
  obtains (answered) r where "rep = Now r" "s1 = s"
  | (retry) req prev where "dec = Inr req" "rq_Header rq ''Idempotency-Key'' \<noteq> []"
      "so_Idempotency (sv_Store sv) (p_TenantID p) (rq_Header rq ''Idempotency-Key'') s = Inr prev" "i_RequestSum prev = sv_Sum sv req"
      "rep = Await (i_SandboxID prev)" "s1 = s" "k1 = k"
  | (started) req where "dec = Inr req" "cr_Template req \<noteq> []" "AllowsTemplate (p_Key p) (cr_Template req)"
      "rq_Header rq ''Idempotency-Key'' \<noteq> [] \<longrightarrow> so_Idempotency (sv_Store sv) (p_TenantID p) (rq_Header rq ''Idempotency-Key'') s = Inl ErrNotFound"
      "startSandbox sv p rq req (s, k) = (rep, s1, k1)"
proof (cases dec)
  case (Inl e)
  then show thesis using assms by (auto simp: createSandbox_def intro: answered)
next
  case (Inr req)
  define key where "key = rq_Header rq ''Idempotency-Key''"
  note d = createSandbox_def [of sv p rq dec "(s, k)", unfolded Inr sum.case Let_def fst_conv, folded key_def]
  consider "cr_Template req = [] \<or> \<not> AllowsTemplate (p_Key p) (cr_Template req)"
    | "cr_Template req \<noteq> []" "AllowsTemplate (p_Key p) (cr_Template req)" by blast
  then show thesis
  proof cases
    case 1
    then show thesis using assms Inr d answered by (auto split: if_splits)
  next
    case 2
    show thesis
    proof (cases "so_Idempotency (sv_Store sv) (p_TenantID p) key s")
      case (Inl e)
      with 2 assms Inr d started answered show thesis unfolding key_def [symmetric] by (auto split: if_splits)
    next
      case i: (Inr prev)
      with 2 assms Inr d started answered retry show thesis unfolding key_def [symmetric] by (auto split: if_splits)
    qed
  qed
qed

context store_laws
begin

lemma bookkeeping_idem:
  assumes "sv_Store sv = so" "okT (p_TenantID p)" "rq_Header rq ''Idempotency-Key'' \<noteq> []"
    and "so_Idempotency so (p_TenantID p) (rq_Header rq ''Idempotency-Key'') s = Inl ErrNotFound"
  shows "so_Idempotency so (p_TenantID p) (rq_Header rq ''Idempotency-Key'') (bookkeeping sv p rq req s)
    = Inr (newIdem sv p (rq_Header rq ''Idempotency-Key'') req)"
  using assms idem_save_new [of "newIdem sv p (rq_Header rq ''Idempotency-Key'') req"]
  by (simp add: bookkeeping_def Let_def newIdem_def idem_record audit_frame)

lemma bookkeeping_count:
  assumes "sv_Store sv = so" "ok s" "so_Sandbox so (sv_NewID sv) s = Inl ErrNotFound" "so_CountRunning so t s = Inr n"
  shows "so_CountRunning so t (bookkeeping sv p rq req s) = Inr (n + (if p_TenantID p = t then 1 else 0))"
    and "so_Quota so t (bookkeeping sv p rq req s) = so_Quota so t s" and "ok (bookkeeping sv p rq req s)"
  using assms count_new [of s "newRecord sv p req" t n] record_ok [of s "newRecord sv p req"]
  by (simp_all add: bookkeeping_def Let_def save_frame audit_frame quota_record newRecord_def)

text \<open>A reply that names a sandbox leaves an idempotency row that names it too.\<close>

lemma create_saves:
  assumes "sv_Store sv = so" "okT (p_TenantID p)" "rq_Header rq ''Idempotency-Key'' \<noteq> []"
    and "createSandbox sv p rq (Inr req) (s, k) = (Await sid, s1, k1)"
  shows "\<exists>prev. so_Idempotency so (p_TenantID p) (rq_Header rq ''Idempotency-Key'') s1 = Inr prev
    \<and> i_RequestSum prev = sv_Sum sv req \<and> i_SandboxID prev = sid \<and> cr_Template req \<noteq> [] \<and> AllowsTemplate (p_Key p) (cr_Template req)"
  using assms(4)
proof (cases rule: createSandbox_cases)
  case (started req')
  from started(5) have "s1 = bookkeeping sv p rq req s" "sid = sv_NewID sv" using started(1) by (auto elim: startSandbox_cases)
  then show ?thesis using started bookkeeping_idem [OF assms(1-3)] assms(1,3) by (simp add: newIdem_def)
next
  case (retry req' prev)
  then show ?thesis using assms by (auto simp: createSandbox_def Let_def split: if_splits)
qed simp

end


lemma demo_create:
  "\<exists>s1 k1. createSandbox demoSrv demoPrincipal demoReq (Inr demoCreate) (NewMemStore, noCluster) = (Await ''sbx-1'', s1, k1)"
  by (simp add: createSandbox_def startSandbox_def checkQuota_def demo_api memStore_def mem_defs NewMemStore_def find_row_def AllowsTemplate_def
      cl_CreateSandbox_def newSandbox_def zeroSandbox_def newMeta_def held_def Let_def)



definition fullMem :: mem where
  "fullMem = demoMem\<lparr>quotas := [(''t1'', \<lparr>q_TenantID = ''t1'', q_MaxConcurrent = 3, q_MaxCreatePerMinute = 0, q_MaxSandboxSecondsDay = 0, q_MaxIdlePods = 0\<rparr>)]\<rparr>"


subsection \<open>Tenants\<close>

text \<open>C21: a tenant sees and deletes its own sandboxes only. A sandbox is shown, or the cluster is changed by a delete, only
  when the object carries the caller's tenant label; for a sandbox of another tenant both calls
  answer exactly as they would if it did not exist.\<close>

theorem tenant_isolation:
  "(\<forall>c b. getSandbox sv p sid k = JSON c b \<longrightarrow> (\<exists>x. fetchSandbox sv (p_Namespace p, sid) k = Inr x
       \<and> lbl (o_Labels (sbx_Meta x)) LabelTenant = p_TenantID p \<and> b = BSandbox (toResponse x)))
   \<and> (snd (deleteSandbox sv p rq sid (s, k)) \<noteq> (s, k) \<longrightarrow> (\<exists>x. fetchSandbox sv (p_Namespace p, sid) k = Inr x
       \<and> lbl (o_Labels (sbx_Meta x)) LabelTenant = p_TenantID p))
   \<and> (\<forall>x k0. fetchSandbox sv (p_Namespace p, sid) k = Inr x \<longrightarrow> lbl (o_Labels (sbx_Meta x)) LabelTenant \<noteq> p_TenantID p \<longrightarrow>
        fetchSandbox sv (p_Namespace p, sid) k0 = Inl NotFound \<longrightarrow>
        getSandbox sv p sid k = getSandbox sv p sid k0
        \<and> fst (deleteSandbox sv p rq sid (s, k)) = fst (deleteSandbox sv p rq sid (s, k0)))"
  by (auto simp: getSandbox_def deleteSandbox_def writeErr_def split: sum.splits if_splits)

definition foreignCluster :: cluster where
  "foreignCluster = noCluster\<lparr>cl_Boxes := [newSandbox demoSrv (demoPrincipal\<lparr>p_TenantID := ''t2''\<rparr>) demoCreate]\<rparr>"

theorem tenant_isolation_witness:
  "getSandbox demoSrv demoPrincipal ''sbx-1'' foreignCluster = getSandbox demoSrv demoPrincipal ''sbx-1'' noCluster
   \<and> fst (deleteSandbox demoSrv demoPrincipal demoReq ''sbx-1'' (NewMemStore, foreignCluster))
     = fst (deleteSandbox demoSrv demoPrincipal demoReq ''sbx-1'' (NewMemStore, noCluster))"
proof -
  let ?x = "newSandbox demoSrv (demoPrincipal\<lparr>p_TenantID := ''t2''\<rparr>) demoCreate"
  have "fetchSandbox demoSrv (p_Namespace demoPrincipal, ''sbx-1'') foreignCluster = Inr ?x"
    by (simp add: fetchSandbox_def foreignCluster_def demo_api getObj_def held_def metaKey_def newSandbox_def zeroSandbox_def)
  moreover have "lbl (o_Labels (sbx_Meta ?x)) LabelTenant \<noteq> p_TenantID demoPrincipal"
    by (simp add: newSandbox_def demo_api lbl_def LabelTenant_def LabelTemplate_def)
  moreover have "fetchSandbox demoSrv (p_Namespace demoPrincipal, ''sbx-1'') noCluster = Inl NotFound"
    by (simp add: fetchSandbox_def demo_api getObj_def held_def)
  ultimately show ?thesis using tenant_isolation [of demoSrv demoPrincipal "''sbx-1''" foreignCluster demoReq NewMemStore] by blast
qed

section \<open>The chain around the handlers\<close>

lemma adminRoutes: "(m, pat, sc, a) \<in> set Routes \<Longrightarrow> a \<in> {AWarmups, AReview, ABudget} \<Longrightarrow> sc = ScopeAdmin"
  by (auto simp: Routes_def)

text \<open>C22: every call is authorised. Whatever the request and the state of the key cache, the cluster is changed, a
  sandbox is waited for, or a document other than the health check is returned, only if the
  presented key verified, the request matches a route, and the key carries the scope of that route;
  the administrative actions take the admin scope itself.\<close>

theorem every_call_is_authorised:
  assumes "Handler sv idKey cidr rq d c (s, k) = (rep, c1, s1, k1)"
    and "k1 \<noteq> k \<or> (\<exists>sid. rep = Await sid) \<or> (\<exists>code b. rep = Now (JSON code b) \<and> b \<noteq> BHealthy)"
  shows "\<exists>p c' s' sc a v. Verify (sv_Store sv) idKey cidr (sv_Now sv) (bearerToken rq) (clientIP rq) c s = (Inr p, c', s')
    \<and> findRoute Routes (rq_Method rq) (rq_Path rq) = Some ((sc, a), v) \<and> Allows (p_Key p) sc
    \<and> serve sv rq d a v p (s', k) = (rep, s1, k1)
    \<and> (a \<in> {AWarmups, AReview, ABudget} \<longrightarrow> ScopeAdmin \<in> set (k_Scopes (p_Key p)))"
proof -
  obtain r c' s' where v: "Verify (sv_Store sv) idKey cidr (sv_Now sv) (bearerToken rq) (clientIP rq) c s = (r, c', s')"
    by (metis prod.exhaust)
  have h: "hasPrefix (rq_Path rq) ''/v1/''" using assms by (auto simp: Handler_def writeErr_def split: if_splits)
  obtain p where r: "r = Inr p"
    using assms h v by (cases r) (auto simp: Handler_def WriteAuthError_def unauthorized_def writeErr_def split: if_splits)
  have rt: "routed sv rq d p (s', k) = (rep, s1, k1)" using assms(1) h v r by (auto simp: Handler_def split: prod.splits)
  obtain sc a v' where f: "findRoute Routes (rq_Method rq) (rq_Path rq) = Some ((sc, a), v')"
    using rt assms(2) by (auto simp: routed_def writeErr_def split: option.splits if_splits)
  have al: "Allows (p_Key p) sc" and sv: "serve sv rq d a v' p (s', k) = (rep, s1, k1)"
    using rt f assms(2) by (auto simp: routed_def writeErr_def split: if_splits)
  have "a \<in> {AWarmups, AReview, ABudget} \<Longrightarrow> ScopeAdmin \<in> set (k_Scopes (p_Key p))"
    using findRoute_in [OF f] adminRoutes al by (auto simp: Allows_def)
  then show ?thesis using v r f al sv by blast
qed

theorem every_call_is_authorised_witness:
  "\<exists>p c' s'. Verify (pgStore 0) demoIdKey (\<lambda>_ _. False) 5 demoPresented ''10.0.0.1'' Map.empty (demoAuthPG None) = (Inr p, c', s')
     \<and> Allows (p_Key p) ScopeSandboxRead"
proof -
  let ?sv = "\<lparr>sv_Client = clusterKube, sv_APIReader = None, sv_Store = pgStore 0, sv_ReadyTimeout = 0, sv_ReadyPoll = 0,
     sv_NewID = ''sbx-1'', sv_WarmupID = ''wr-1'', sv_Now = 5, sv_Sum = cr_Template, sv_ErrText = (\<lambda>_. ''err''), sv_StoreText = (\<lambda>_. ''err'')\<rparr>"
  let ?rq = "demoReq\<lparr>rq_Method := ''GET''\<rparr>"
  have b: "bearerToken ?rq = demoPresented" "clientIP ?rq = ''10.0.0.1''" by code_simp+
  have f: "findRoute Routes ''GET'' ''/v1/sandboxes'' = Some ((ScopeSandboxRead, AList), [])" by code_simp
  obtain c' s' where v: "Verify (pgStore 0) demoIdKey (\<lambda>_ _. False) 5 demoPresented ''10.0.0.1'' Map.empty (demoAuthPG None)
      = (Inr \<lparr>p_TenantID = ''t1'', p_Namespace = ''ns1'', p_KeyID = ''0123456789ab'', p_Key = demoKey None\<rparr>, c', s')"
    using demo_verify by (metis prod.collapse)
  have a: "Allows (demoKey None) ScopeSandboxRead" by code_simp
  have "\<exists>bd. Handler ?sv demoIdKey (\<lambda>_ _. False) ?rq d Map.empty (demoAuthPG None, noCluster) = (Now (JSON 200 (BSandboxes bd)), c', s', noCluster)" for d
    using v b f a by (simp add: Handler_def routed_def demoReq_def hasPrefix_def listSandboxes_def clusterKube_def)
  then show ?thesis using every_call_is_authorised [of ?sv demoIdKey "\<lambda>_ _. False" ?rq _ Map.empty "demoAuthPG None" noCluster] b f v
    by (fastforce simp: demoReq_def)
qed

section \<open>The warm-capacity budget\<close>

text \<open>The requests are keyed by their ids, ask for something, and what has been approved fits the budget.\<close>

definition budgetHeld :: "mem \<Rightarrow> bool" where
  "budgetHeld m \<longleftrightarrow> ok_tables m \<and> (\<forall>r \<in> snd ` set (warmups m). 0 < w_Replicas r)
     \<and> (case budget m of None \<Rightarrow> False | Some b \<Rightarrow> int64 (b_TotalIdlePods b) \<and> approvedReplicas m \<le> b_TotalIdlePods b)"

definition granted :: "warmup_request \<Rightarrow> int" where
  "granted r = (if w_Status r = ''approved'' then w_Replicas r else 0)"

lemma approvedReplicas_sum: "approvedReplicas m = sum_list (map granted (map snd (warmups m)))"
  by (simp add: approvedReplicas_def rows_where_def sum_list_map_filter' granted_def [abs_def])

lemma sum_update:
  fixes f :: "'v \<Rightarrow> int"
  assumes "distinct (map fst al)"
  shows "sum_list (map f (map snd (AList.update k v al)))
    = sum_list (map f (map snd al)) + f v - (case map_of al k of None \<Rightarrow> 0 | Some u \<Rightarrow> f u)"
  using assms
proof (induction al)
  case (Cons x al)
  then show ?case by (cases x) (auto simp: map_of_eq_None_iff)
qed simp

lemma approved_nonneg: "budgetHeld m \<Longrightarrow> 0 \<le> approvedReplicas m"
  unfolding approvedReplicas_sum budgetHeld_def by (intro sum_list_nonneg) (force simp: granted_def)

lemma budgetHeld_save:
  assumes "budgetHeld m" "0 < w_Replicas r" "budget m = Some b"
    and "granted r - (case map_of (warmups m) (w_ID r) of None \<Rightarrow> 0 | Some u \<Rightarrow> granted u) \<le> b_TotalIdlePods b - approvedReplicas m"
  shows "budgetHeld (m\<lparr>warmups := AList.update (w_ID r) r (warmups m)\<rparr>)"
proof -
  have d: "distinct (map fst (warmups m))" using assms(1) by (simp add: budgetHeld_def ok_tables_def)
  have "ok_tables (m\<lparr>warmups := AList.update (w_ID r) r (warmups m)\<rparr>)"
    using assms(1) update_keyed [of "warmups m" w_ID r "w_ID r"] unfolding budgetHeld_def ok_tables_def by (simp add: distinct_update)
  moreover have "snd ` set (AList.update k v xs) \<subseteq> insert v (snd ` set xs)" for k :: string and v :: warmup_request and xs
    by (induction xs) auto
  ultimately show ?thesis
    using assms sum_update [OF d, of granted "w_ID r" r] unfolding budgetHeld_def approvedReplicas_sum by fastforce
qed

lemma budgetHeld_same:
  "budgetHeld m \<Longrightarrow> ok_tables m' \<Longrightarrow> warmups m' = warmups m \<Longrightarrow> budget m' = budget m \<Longrightarrow> budgetHeld m'"
  by (auto simp: budgetHeld_def approvedReplicas_def split: option.splits)

lemma budgetHeld_audit [simp]: "budgetHeld (m\<lparr>audit := x\<rparr>) = budgetHeld m"
  by (auto simp: budgetHeld_def approvedReplicas_def split: option.splits)

lemma bookkeeping_budget:
  assumes "sv_Store sv = memStore" "budgetHeld m"
  shows "budgetHeld (bookkeeping sv p rq req m) \<and> budget (bookkeeping sv p rq req m) = budget m"
proof -
  have "ok_tables m" using assms(2) by (simp add: budgetHeld_def)
  then have "ok_tables (bookkeeping sv p rq req m)"
    using mem.record_ok mem.audit_frame(5) mem.save_frame(4) by (simp add: bookkeeping_def Let_def assms(1))
  moreover have "warmups (bookkeeping sv p rq req m) = warmups m" "budget (bookkeeping sv p rq req m) = budget m"
    using assms(1) by (simp_all add: bookkeeping_def Let_def memStore_def mem_defs)
  ultimately show ?thesis using budgetHeld_same [OF assms(2)] by simp
qed

lemma decideWarmup_budget:
  assumes "sv_Store sv = memStore" "budgetHeld m" "map_of (warmups m) (w_ID r) = Some r" "w_Status r = ''pending''"
    and "decideWarmup sv p rq b r (m, k) = (rep, m1, k1)"
  shows "budgetHeld m1 \<and> budget m1 = budget m"
proof -
  obtain bu where bu: "budget m = Some bu" "int64 (b_TotalIdlePods bu)" "approvedReplicas m \<le> b_TotalIdlePods bu"
    using assms(2) by (auto simp: budgetHeld_def split: option.splits)
  have pos: "0 < w_Replicas r" using assms(2,3) by (force simp: budgetHeld_def dest: map_of_SomeD)
  define n where "n = (if rb_Replicas b \<le> 0 then w_Replicas r else rb_Replicas b)"
  define req where "req = r\<lparr>w_ReviewedBy := p_KeyID p, w_ReviewNote := rb_Note b, w_ReviewedAt := Some (sv_Now sv)\<rparr>"
  define app where "app = req\<lparr>w_Status := ''approved'', w_Replicas := n\<rparr>"
  define rej where "rej = req\<lparr>w_Status := ''rejected''\<rparr>"
  have n: "0 < n" using pos by (simp add: n_def)
  have g: "granted r = 0" "granted rej = 0" "granted app = n" "w_ID app = w_ID r" "w_ID rej = w_ID r" "0 < w_Replicas app" "0 < w_Replicas rej"
    using assms(4) n pos by (simp_all add: granted_def rej_def app_def req_def)
  have w: "wrap64 (approvedReplicas m) = approvedReplicas m"
      "wrap64 (b_TotalIdlePods bu - approvedReplicas m) = b_TotalIdlePods bu - approvedReplicas m"
    using approved_nonneg [OF assms(2)] bu by (auto simp: int64_def intro!: wrap64_id)
  have rejH: "budgetHeld (m\<lparr>warmups := AList.update (w_ID r) rej (warmups m)\<rparr>)"
    using budgetHeld_save [OF assms(2) g(7) bu(1)] bu(3) g assms(3) by simp
  have appH: "n \<le> b_TotalIdlePods bu - approvedReplicas m \<Longrightarrow> budgetHeld (m\<lparr>warmups := AList.update (w_ID r) app (warmups m)\<rparr>)"
    using budgetHeld_save [OF assms(2) g(6) bu(1)] g assms(3) by simp
  note d = assms(5) [unfolded decideWarmup_def Let_def, folded n_def req_def, folded app_def rej_def]
  show ?thesis
    using d rejH appH assms(2) bu(1) w
    by (auto simp: assms(1) memStore_def mem_defs g split: if_splits prod.splits option.splits)
qed

text \<open>C23: approvals never overspend. With the in-memory store, whatever handler runs, on whatever input, the warm Pods
  approved in total stay within the platform's budget, and no handler changes that budget; the counter is
  derived from the requests, so this is an invariant of the queue itself.\<close>

theorem budget_never_exceeded:
  assumes "sv_Store sv = memStore" "budgetHeld m" "serve sv rq d a v p (m, k) = (rep, m1, k1)"
  shows "budgetHeld m1 \<and> budget m1 = budget m"
proof (cases a)
  case ACreate
  with assms(3) have c: "createSandbox sv p rq (d_Create d) (m, k) = (rep, m1, k1)" by simp
  then have "m1 = m \<or> (\<exists>req. m1 = bookkeeping sv p rq req m)"
    by (cases rule: createSandbox_cases) (auto elim: startSandbox_cases)
  then show ?thesis using bookkeeping_budget [OF assms(1,2)] assms(2) by auto
next
  case ADelete
  with assms show ?thesis
    by (auto simp: deleteSandbox_def memStore_def mem_defs split: prod.splits sum.splits if_splits)
next
  case AWarmup
  have "granted r \<le> 0 \<Longrightarrow> 0 < w_Replicas r \<Longrightarrow> budgetHeld (m\<lparr>warmups := AList.update (w_ID r) r (warmups m)\<rparr>)" for r
  proof (cases "budget m")
    case (Some b)
    assume "granted r \<le> 0" "0 < w_Replicas r"
    moreover have "0 \<le> (case map_of (warmups m) (w_ID r) of None \<Rightarrow> 0 | Some u \<Rightarrow> granted u)"
      using assms(2) by (force simp: granted_def budgetHeld_def dest: map_of_SomeD split: option.splits)
    moreover have "approvedReplicas m \<le> b_TotalIdlePods b" using assms(2) Some by (simp add: budgetHeld_def)
    ultimately show ?thesis using budgetHeld_save [OF assms(2) _ Some, of r] by linarith
  qed (use assms(2) in \<open>simp add: budgetHeld_def\<close>)
  note held = this [of "newWarmup sv p v b" for b, unfolded granted_def]
  have "w_Status (newWarmup sv p v b) \<noteq> ''approved''" "w_Replicas (newWarmup sv p v b) = wb_Replicas b" for b
    by (simp_all add: newWarmup_def)
  then show ?thesis using AWarmup assms held
    by (auto simp: requestWarmup_def Let_def memStore_def mem_defs split: prod.splits sum.splits if_splits)
next
  case AReview
  have "ok_tables m" using assms(2) by (simp add: budgetHeld_def)
  then have i: "map_of (warmups m) i = Some r \<Longrightarrow> w_ID r = i" for i r by (force simp: ok_tables_def dest: map_of_SomeD)
  have dec: "map_of (warmups m) v = Some r \<Longrightarrow> w_Status r = ''pending'' \<Longrightarrow> decideWarmup sv p rq b r (m, k) = (x, m1, k1)
      \<Longrightarrow> budgetHeld m1 \<and> budget m1 = budget m" for r b x
    using decideWarmup_budget [OF assms(1,2), of r] i by blast
  have "reviewWarmup sv p rq v (d_Review d) (m, k) = (x, m1, k1) \<Longrightarrow> budgetHeld m1 \<and> budget m1 = budget m" for x
    using assms(2) by (auto simp: reviewWarmup_def assms(1) memStore_def mem_defs find_row_def dest: dec split: sum.splits if_splits option.splits)
  then show ?thesis using AReview assms(3) by (auto split: prod.splits)
qed (use assms in auto)

definition demoWarmup :: warmup_request where
  "demoWarmup = (newWarmup demoSrv demoPrincipal ''py'' \<lparr>wb_Replicas = 4, wb_Reason = []\<rparr>)"

theorem budget_never_exceeded_witness:
  "\<exists>rep m1 k1. serve demoSrv demoReq \<lparr>d_Create = Inl [], d_Warmup = Inl [], d_Review = Inr \<lparr>rb_Approve = True, rb_Replicas = 65, rb_Note = []\<rparr>\<rparr>
       AReview ''wr-1'' demoPrincipal (NewMemStore\<lparr>warmups := [(''wr-1'', demoWarmup)]\<rparr>, noCluster) = (rep, m1, k1) \<and> approvedReplicas m1 \<le> 64"
proof -
  let ?m = "NewMemStore\<lparr>warmups := [(''wr-1'', demoWarmup)]\<rparr>"
  obtain rep m1 k1 where c: "serve demoSrv demoReq \<lparr>d_Create = Inl [], d_Warmup = Inl [], d_Review = Inr \<lparr>rb_Approve = True, rb_Replicas = 65, rb_Note = []\<rparr>\<rparr>
       AReview ''wr-1'' demoPrincipal (?m, noCluster) = (rep, m1, k1)" by (metis prod.exhaust)
  have "budgetHeld ?m" by (simp add: budgetHeld_def ok_tables_def NewMemStore_def demoWarmup_def newWarmup_def demoSrv_def
        int64_def approvedReplicas_def rows_where_def)
  then have "budgetHeld m1 \<and> budget m1 = budget ?m" using budget_never_exceeded [OF _ _ c] by (simp add: demoSrv_def)
  then have "approvedReplicas m1 \<le> 64" by (auto simp: budgetHeld_def NewMemStore_def)
  then show ?thesis using c by blast
qed

text \<open>The Postgres store keeps the row's own replica count when an approval is saved, so what was granted
  beyond (or below) the request is not what the budget counts.\<close>

lemma pg_approval_miscounted:
  assumes "distinct (map fst (warmups s))" "map_of (warmups s) (w_ID r) = Some r" "w_Status r = ''pending''"
  shows "approvedReplicas (snd (pg_SaveWarmupRequest (r\<lparr>w_Status := ''approved'', w_Replicas := n\<rparr>) s)) = approvedReplicas s + w_Replicas r"
  using assms sum_update [OF assms(1), of granted "w_ID r"] by (simp add: approvedReplicas_sum pg_defs upsertWarmup_def granted_def del: map_map)

text \<open>A time to live of \<open>2^32 - 1\<close> seconds is stored as \<open>-1\<close>.\<close>

lemma ttl_truncated: "ss_TTLSeconds (sbx_Spec (newSandbox sv p (req\<lparr>cr_TTLSeconds := 4294967295\<rparr>))) = -1"
  by (simp add: newSandbox_def wrap32_def)

end
