(* ===== verification/Control_Plane.thy ===== *)
theory Control_Plane
  imports Sandbox_Lifecycle Api_Server
begin

text \<open>
  The control plane as a whole: the sandbox, pool and template controllers and the API server take their steps in any order on
  one cluster, between them nodes, users and the garbage collector take theirs, and reads come from caches that may be old.
  A step is one reconcile or one request. The invariant says whose Pod is whose: the Pod a sandbox has in its status, while
  it exists, carries that sandbox's name, so no two sandboxes ever share one.
\<close>

section \<open>Who occupies which Pod\<close>

text \<open>A Pod that names a sandbox is bound.\<close>

definition wellLabelled :: "pod \<Rightarrow> bool" where
  "wellLabelled p \<longleftrightarrow> (o_Labels (pod_Meta p) LabelSandboxID \<noteq> None \<longrightarrow> podLabel p LabelState = StateBound)"

abbreviation podNameOf :: "sandbox \<Rightarrow> string" where
  "podNameOf s \<equiv> st_PodName (sbx_Status s)"

text \<open>\<open>ps\<close> and \<open>bs\<close> are what the API server holds, \<open>cs\<close> the copies that a cache may still give out.\<close>

definition occupied :: "(key \<Rightarrow> pod option) \<Rightarrow> (key \<Rightarrow> pod set) \<Rightarrow> (key \<Rightarrow> sandbox option) \<Rightarrow> bool" where
  "occupied ps cs bs \<longleftrightarrow>
     (\<forall>nm p. p \<in> cs nm \<or> ps nm = Some p \<longrightarrow> wellLabelled p)
     \<and> (\<forall>nm p sid q. p \<in> cs nm \<longrightarrow> boundTo p sid \<longrightarrow> ps nm = Some q \<longrightarrow> boundTo q sid)
     \<and> (\<forall>nm s q. bs nm = Some s \<longrightarrow> podNameOf s \<noteq> [] \<longrightarrow> ps (fst nm, podNameOf s) = Some q \<longrightarrow> boundTo q (snd nm))"

text \<open>After a step a cache gives out what it could give out before, or what the server now holds.\<close>

definition catchesUp :: "(key \<Rightarrow> pod set) \<Rightarrow> (key \<Rightarrow> pod option) \<Rightarrow> (key \<Rightarrow> pod set) \<Rightarrow> bool" where
  "catchesUp cs ps' cs' \<longleftrightarrow> (\<forall>nm p. p \<in> cs' nm \<longrightarrow> p \<in> cs nm \<or> ps' nm = Some p)"

text \<open>A name that no cache and no status remembers.\<close>

definition unusedKey :: "(key \<Rightarrow> pod set) \<Rightarrow> (key \<Rightarrow> sandbox option) \<Rightarrow> key \<Rightarrow> bool" where
  "unusedKey cs bs nm \<longleftrightarrow> cs nm = {} \<and> (\<forall>b s. bs b = Some s \<longrightarrow> (fst b, podNameOf s) \<noteq> nm)"

lemma occupiedD:
  "occupied ps cs bs \<Longrightarrow> p \<in> cs nm \<or> ps nm = Some p \<Longrightarrow> wellLabelled p"
  "occupied ps cs bs \<Longrightarrow> p \<in> cs nm \<Longrightarrow> boundTo p sid \<Longrightarrow> ps nm = Some q \<Longrightarrow> boundTo q sid"
  "occupied ps cs bs \<Longrightarrow> bs nm = Some s \<Longrightarrow> podNameOf s \<noteq> [] \<Longrightarrow> ps (fst nm, podNameOf s) = Some q \<Longrightarrow> boundTo q (snd nm)"
  unfolding occupied_def by blast+

lemma wellLabelled_labels: "o_Labels (pod_Meta p) = o_Labels (pod_Meta q) \<Longrightarrow> wellLabelled p \<longleftrightarrow> wellLabelled q"
  by (simp add: wellLabelled_def podLabel_def)

lemma occupied_pods:
  assumes o: "occupied ps cs bs" and c: "catchesUp cs ps' cs'" and k: "keepsBound ps ps'"
    and w: "\<And>nm q. ps' nm = Some q \<Longrightarrow> wellLabelled q"
    and f: "\<And>nm q. ps nm = None \<Longrightarrow> ps' nm = Some q \<Longrightarrow> unusedKey cs bs nm"
  shows "occupied ps' cs' bs"
proof -
  have b: "boundTo q sid" if "ps nm = Some q0" "boundTo q0 sid" "ps' nm = Some q" for nm q0 q sid
    using k that unfolding keepsBound_def by (metis option.distinct(1) option.inject)
  have "boundTo q sid" if p: "p \<in> cs' nm" "boundTo p sid" "ps' nm = Some q" for nm p sid q
  proof (cases "ps nm")
    case None
    then have "ps' nm = Some p" using f [OF None p(3)] c p(1) unfolding catchesUp_def unusedKey_def by blast
    then show ?thesis using p by simp
  next
    case (Some q0)
    then have "p \<in> cs nm \<or> p = q" using c p unfolding catchesUp_def by (metis option.inject)
    then show ?thesis using p(2) b [OF Some _ p(3)] occupiedD(2) [OF o _ p(2) Some] by blast
  qed
  moreover have "boundTo q (snd nm)" if s: "bs nm = Some s" "podNameOf s \<noteq> []" "ps' (fst nm, podNameOf s) = Some q" for nm s q
  proof (cases "ps (fst nm, podNameOf s)")
    case None
    then show ?thesis using f [OF None s(3)] s unfolding unusedKey_def by blast
  next
    case (Some q0)
    then show ?thesis using b [OF Some _ s(3)] occupiedD(3) [OF o s(1,2)] by blast
  qed
  moreover have "wellLabelled p" if "p \<in> cs' nm \<or> ps' nm = Some p" for nm p
    using that w o c unfolding occupied_def catchesUp_def by blast
  ultimately show ?thesis unfolding occupied_def by blast
qed

lemma occupied_boxes:
  assumes o: "occupied ps cs bs" and c: "catchesUp cs ps cs'"
    and s: "\<And>nm s q. bs' nm = Some s \<Longrightarrow> podNameOf s \<noteq> [] \<Longrightarrow> ps (fst nm, podNameOf s) = Some q \<Longrightarrow>
      (\<exists>s0. bs nm = Some s0 \<and> podNameOf s0 = podNameOf s) \<or> boundTo q (snd nm)"
  shows "occupied ps cs' bs'"
proof -
  have "boundTo q (snd nm)" if b: "bs' nm = Some x" "podNameOf x \<noteq> []" "ps (fst nm, podNameOf x) = Some q" for nm x q
    using s [OF b] b occupiedD(3) [OF o] by metis
  moreover have "p \<in> cs' nm \<Longrightarrow> p \<in> cs nm \<or> ps nm = Some p" for nm p using c unfolding catchesUp_def by blast
  moreover have "boundTo q sid" if "p \<in> cs' nm" "boundTo p sid" "ps nm = Some q" for nm p sid q
    using calculation(2) [OF that(1)] occupiedD(2) [OF o _ that(2,3)] that by auto
  ultimately show ?thesis using occupiedD(1) [OF o] unfolding occupied_def by blast
qed

lemma keepsBound_trans: "keepsBound ps ps1 \<Longrightarrow> keepsBound ps1 ps2 \<Longrightarrow> (\<And>nm. ps1 nm = None \<Longrightarrow> ps nm \<noteq> None \<Longrightarrow> ps2 nm = None) \<Longrightarrow> keepsBound ps ps2"
  unfolding keepsBound_def by (metis option.distinct(1))

section \<open>The interface\<close>

text \<open>What the whole needs of the API server beyond the laws of \<open>world_laws\<close>: a list names each object once, generated names are
  not used again, a create stores the status it is given and nothing else writes to sandboxes or Pods.\<close>

locale plane_laws = world_laws kc pods boxes ex
  for kc :: "'k kube" and pods :: "'k \<Rightarrow> key \<Rightarrow> pod option" and boxes :: "'k \<Rightarrow> key \<Rightarrow> sandbox option" and ex :: "'k execd_api" +
  fixes copies :: "'k \<Rightarrow> key \<Rightarrow> pod set"
  assumes listed: "kc_ListPods kc ns sel k = Inr ps \<Longrightarrow> distinct (map podKey ps) \<and> (\<forall>p \<in> set ps. p \<in> copies k (podKey p))"
    and fresh_name: "kc_CreatePod kc p k = (r, k') \<Longrightarrow> pods k nm = None \<Longrightarrow> pods k' nm \<noteq> None \<Longrightarrow> unusedKey (copies k) (boxes k) nm"
    and caches: "catchesUp (copies k) (pods (snd (kc_UpdatePod kc p k))) (copies (snd (kc_UpdatePod kc p k)))"
      "catchesUp (copies k) (pods (snd (kc_CreatePod kc p k))) (copies (snd (kc_CreatePod kc p k)))"
      "catchesUp (copies k) (pods (snd (kc_DeletePod kc p k))) (copies (snd (kc_DeletePod kc p k)))"
      "catchesUp (copies k) (pods (snd (kc_UpdateSandbox kc s k))) (copies (snd (kc_UpdateSandbox kc s k)))"
      "catchesUp (copies k) (pods (snd (kc_UpdateSandboxStatus kc s k))) (copies (snd (kc_UpdateSandboxStatus kc s k)))"
      "catchesUp (copies k) (pods (snd (kc_CreateSandbox kc s k))) (copies (snd (kc_CreateSandbox kc s k)))"
      "catchesUp (copies k) (pods (snd (kc_DeleteSandbox kc nm k))) (copies (snd (kc_DeleteSandbox kc nm k)))"
      "catchesUp (copies k) (pods (snd (kc_UpdateTemplateStatus kc t k))) (copies (snd (kc_UpdateTemplateStatus kc t k)))"
      "catchesUp (copies k) (pods (snd (kc_CreatePool kc pl k))) (copies (snd (kc_CreatePool kc pl k)))"
      "catchesUp (copies k) (pods (snd (kc_UpdatePool kc pl k))) (copies (snd (kc_UpdatePool kc pl k)))"
      "catchesUp (copies k) (pods (snd (kc_UpdatePoolStatus kc pl k))) (copies (snd (kc_UpdatePoolStatus kc pl k)))"
      "catchesUp (copies k) (pods (snd (ex_Bind ex ref q k))) (copies (snd (ex_Bind ex ref q k)))"
      "catchesUp (copies k) (pods (snd (ex_Unbind ex ref k))) (copies (snd (ex_Unbind ex ref k)))"
    and other_pods: "pods (snd (kc_CreateSandbox kc s k)) = pods k" "pods (snd (kc_DeleteSandbox kc nm k)) = pods k"
      "pods (snd (kc_UpdateTemplateStatus kc t k)) = pods k" "pods (snd (kc_CreatePool kc pl k)) = pods k"
      "pods (snd (kc_UpdatePool kc pl k)) = pods k"
    and other_boxes: "boxes (snd (kc_UpdateTemplateStatus kc t k)) = boxes k" "boxes (snd (kc_CreatePool kc pl k)) = boxes k"
      "boxes (snd (kc_UpdatePool kc pl k)) = boxes k" "boxes (snd (kc_UpdatePoolStatus kc pl k)) = boxes k"
    and create_sandbox: "kc_CreateSandbox kc s k = (e, k') \<Longrightarrow> boxes k' nm = Some x \<Longrightarrow> boxes k nm = Some x \<or> sbx_Status x = sbx_Status s"
    and created_in: "kc_CreatePod kc p k = (Inr p', k') \<Longrightarrow> o_Namespace (pod_Meta p') = o_Namespace (pod_Meta p)"
    and delete_sandbox: "kc_DeleteSandbox kc key k = (e, k') \<Longrightarrow> boxes k' nm = Some x \<Longrightarrow>
      \<exists>y. boxes k nm = Some y \<and> sbx_Status x = sbx_Status y"
begin

abbreviation tidy :: "'k \<Rightarrow> bool" where
  "tidy k \<equiv> occupied (pods k) (copies k) (boxes k)"

text \<open>One call at a time.\<close>

lemma frame_tidy: "tidy k \<Longrightarrow> pods k' = pods k \<Longrightarrow> boxes k' = boxes k \<Longrightarrow> catchesUp (copies k) (pods k') (copies k') \<Longrightarrow> tidy k'"
  using occupied_boxes [of "pods k" "copies k" "boxes k" "copies k'" "boxes k'"] by auto

lemma delete_tidy: "tidy k \<Longrightarrow> tidy (snd (kc_DeletePod kc p k))"
proof -
  assume t: "tidy k"
  obtain e k' where d: "kc_DeletePod kc p k = (e, k')" by force
  have "pods k' = pods k \<or> podRemoved (pods k) p (pods k')" using delete_pod [OF d] by blast
  then have "(pods k' nm = Some q \<longrightarrow> wellLabelled q) \<and> (pods k nm = None \<longrightarrow> pods k' nm = None)" for nm q
    using occupiedD(1) [OF t, of _ nm] unfolding podRemoved_def by (auto split: if_splits dest: wellLabelled_labels)
  moreover have "keepsBound (pods k) (pods k')" using delete_keeps_bound [of k p] d by simp
  ultimately have "occupied (pods k') (copies k') (boxes k)"
    using caches(3) [of k p] d by (intro occupied_pods [OF t]) auto
  then show ?thesis using pod_frame(3) [of p k] d by simp
qed

lemma create_tidy: "tidy k \<Longrightarrow> wellLabelled p \<Longrightarrow> tidy (snd (kc_CreatePod kc p k))"
proof -
  assume t: "tidy k" and w: "wellLabelled p"
  obtain r k' where c: "kc_CreatePod kc p k = (r, k')" by force
  have k: "pods k' = pods k \<or> podCreated (pods k) p (pods k')" using create_pod [OF c] by blast
  then have "pods k' nm = Some q \<longrightarrow> wellLabelled q" for nm q
    using occupiedD(1) [OF t, of _ nm] w unfolding podCreated_def by (auto split: if_splits dest: wellLabelled_labels)
  moreover have "keepsBound (pods k) (pods k')" using k created_keeps by auto
  ultimately have "occupied (pods k') (copies k') (boxes k)"
    using caches(2) [of k p] c fresh_name [OF c] by (intro occupied_pods [OF t]) auto
  then show ?thesis using pod_frame(2) [of p k] c by simp
qed

text \<open>An update made from a copy that was read keeps the binding of the Pod it replaces.\<close>

lemma update_tidy:
  assumes t: "tidy k" and p: "currentPod (pods k) p" "podKey p' = podKey p" "o_Version (pod_Meta p') = o_Version (pod_Meta p)"
    and b: "\<And>sid. boundTo p sid \<Longrightarrow> boundTo p' sid" and w: "wellLabelled p \<Longrightarrow> wellLabelled p'"
  shows "tidy (snd (kc_UpdatePod kc p' k))"
proof -
  obtain e k' where u: "kc_UpdatePod kc p' k = (e, k')" by force
  have "pods k' = pods k \<or> podWritten (pods k) p' (pods k')" using update_pod [OF u] by blast
  then have "occupied (pods k') (copies k') (boxes k)"
  proof
    assume "pods k' = pods k"
    then show ?thesis using frame_tidy [OF t, of k'] pod_frame(1) [of p' k] caches(1) [of k p'] u by simp
  next
    assume wr: "podWritten (pods k) p' (pods k')"
    note kb = written_keeps [OF wr p b]
    have "wellLabelled p'" using kb(2) occupiedD(1) [OF t] w by blast
    then have "pods k' nm = Some q \<longrightarrow> wellLabelled q" "pods k nm = None \<longrightarrow> pods k' nm = None" for nm q
      using wr occupiedD(1) [OF t, of _ nm] unfolding podWritten_def by (auto split: if_splits dest: wellLabelled_labels)
    then show ?thesis using caches(1) [of k p'] u kb(1) by (intro occupied_pods [OF t]) auto
  qed
  then show ?thesis using pod_frame(1) [of p' k] u by simp
qed

text \<open>A status written from a sandbox that was read, with the Pod it had or one that is bound to it.\<close>

lemma status_tidy:
  assumes t: "tidy k" and s: "currentBox (boxes k) s" "sbxKey s' = sbxKey s" "o_Version (sbx_Meta s') = o_Version (sbx_Meta s)"
    and p: "podNameOf s' = podNameOf s \<or> (\<forall>q. pods k (fst (sbxKey s), podNameOf s') = Some q \<longrightarrow> boundTo q (snd (sbxKey s)))"
  shows "tidy (snd (kc_UpdateSandboxStatus kc s' k))"
proof -
  obtain e k' where u: "kc_UpdateSandboxStatus kc s' k = (e, k')" by force
  have pk: "pods k' = pods k" using sandbox_frame(1) [of s' k] u by simp
  have "(\<exists>s0. boxes k nm = Some s0 \<and> podNameOf s0 = podNameOf x) \<or> boundTo q (snd nm)"
    if x: "boxes k' nm = Some x" "pods k (fst nm, podNameOf x) = Some q" for nm x q
  proof (cases "boxes k' = boxes k")
    case False
    then obtain q0 r where w: "boxes k (sbxKey s) = Some q0" "o_Version (sbx_Meta q0) = o_Version (sbx_Meta s)"
      "boxes k' = (boxes k)(sbxKey s \<mapsto> r)" "sbx_Status r = sbx_Status s'"
      using update_status [OF u] s(2,3) unfolding statusWritten_def by auto
    moreover have "q0 = s" using s(1) w(1,2) unfolding currentBox_def by blast
    ultimately show ?thesis using x p by (cases "nm = sbxKey s") auto
  qed (use x in auto)
  then have "occupied (pods k) (copies k') (boxes k')"
    using caches(5) [of k s'] u pk by (intro occupied_boxes [OF t]) auto
  then show ?thesis using u pk by simp
qed

lemma box_tidy: "tidy k \<Longrightarrow> tidy (snd (kc_UpdateSandbox kc s k))"
proof -
  assume t: "tidy k"
  obtain r k' where u: "kc_UpdateSandbox kc s k = (r, k')" by force
  have pk: "pods k' = pods k" using sandbox_frame(2) [of s k] u by simp
  have "\<exists>s0. boxes k nm = Some s0 \<and> podNameOf s0 = podNameOf x" if "boxes k' nm = Some x" for nm x
    using update_sandbox [OF u] that unfolding boxWritten_def by (auto split: if_splits)
  then have "occupied (pods k) (copies k') (boxes k')"
    using caches(4) [of k s] u pk by (intro occupied_boxes [OF t]) auto
  then show ?thesis using u pk by simp
qed

lemma execd_tidy: "tidy k \<Longrightarrow> tidy (snd (ex_Bind ex ref q k))" "tidy k \<Longrightarrow> tidy (snd (ex_Unbind ex ref k))"
  using frame_tidy [OF _ bind_frame caches(12)] frame_tidy [OF _ unbind_frame caches(13)] by auto

end

section \<open>The sandbox controller keeps order\<close>

lemma set_status_key [simp]:
  "sbxKey (setSbxStatus f s) = sbxKey s" "o_Version (sbx_Meta (setSbxStatus f s)) = o_Version (sbx_Meta s)"
  "sbx_Status (setSbxStatus f s) = f (sbx_Status s)" "sbx_Meta (setSbxStatus f s) = sbx_Meta s"
  by (simp_all add: setSbxStatus_def sbxKey_def)

lemma labels_bound:
  "o_Labels (pod_Meta p) = claimLabels s ls \<Longrightarrow> wellLabelled p \<and> boundTo p (o_Name (sbx_Meta s))"
  by (simp add: wellLabelled_def boundTo_def podLabel_def lbl_def claimLabels_bound)

lemma tier_label:
  assumes "o_Labels (pod_Meta p') = (o_Labels (pod_Meta p))(LabelIsolationTier \<mapsto> t)"
  shows "boundTo p sid \<Longrightarrow> boundTo p' sid" "wellLabelled p \<Longrightarrow> wellLabelled p'"
  using assms by (simp_all add: wellLabelled_def boundTo_def podLabel_def lbl_def)

context plane_laws
begin

lemma status_same_tidy:
  assumes "tidy k" "currentBox (boxes k) s" "st_PodName (f (sbx_Status s)) = podNameOf s"
  shows "tidy (snd (kc_UpdateSandboxStatus kc (setSbxStatus f s) k))"
  using status_tidy [OF assms(1,2), of "setSbxStatus f s"] assms(3) by simp

lemma fail_tidy: "sr_Kube r = kc \<Longrightarrow> tidy k \<Longrightarrow> currentBox (boxes k) s \<Longrightarrow> tidy (snd (fail r s reason msg k))"
  by (simp add: fail_def case_prod_beta status_same_tidy)

lemma recordPod_tidy:
  assumes "sr_Kube r = kc" "tidy k" "currentBox (boxes k) s"
    and "\<And>q. pods k (fst (sbxKey s), st_PodName (f (sbx_Status s))) = Some q \<Longrightarrow> boundTo q (snd (sbxKey s))"
  shows "tidy (snd (recordPod r (setSbxStatus f s) k))"
  using status_tidy [OF assms(2,3), of "setSbxStatus f s"] assms(1,4) by (auto simp: recordPod_def split: prod.splits option.splits)

lemma deletePod_tidy: "sr_Kube r = kc \<Longrightarrow> sr_Exec r = ex \<Longrightarrow> tidy k \<Longrightarrow> tidy (snd (deletePod r s k))"
  by (simp add: deletePod_def Let_def case_prod_beta delete_tidy execd_tidy split: sum.splits)

lemma expire_tidy:
  assumes "sr_Kube r = kc" "sr_Exec r = ex" "tidy k" "currentBox (boxes k) s"
  shows "tidy (snd (expire r s reason k))"
proof -
  obtain e k1 where d: "deletePod r s k = (e, k1)" by force
  have "tidy k1" "boxes k1 = boxes k" using deletePod_tidy [OF assms(1-3), of s] deletePod_boxes [OF assms(1,2), of s k] d by simp_all
  then show ?thesis using assms(1,4) d status_same_tidy [of k1 s] by (simp add: expire_def case_prod_beta split: option.splits)
qed

lemma finalize_tidy:
  assumes "sr_Kube r = kc" "sr_Exec r = ex" "tidy k"
  shows "tidy (snd (finalize r s k))"
proof -
  obtain e k1 where d: "deletePod r s k = (e, k1)" by force
  then have "tidy k1" using deletePod_tidy [OF assms, of s] by simp
  then have "tidy (snd (kc_UpdateSandbox kc x k1))" for x by (rule box_tidy)
  with \<open>tidy k1\<close> show ?thesis using assms(1) d
    by (simp add: finalize_def split: option.splits sum.splits prod.splits) (metis snd_conv)
qed

lemma tryClaim_tidy:
  assumes "tidy k" "\<And>p. p \<in> set ps \<Longrightarrow> currentPod (pods k) p \<and> podLabel p LabelState = StateIdle"
  shows "tidy (snd (tryClaim kc s ps k))"
  using assms
proof (induction ps arbitrary: k)
  case (Cons p ps)
  let ?ls = "claimLabels s (o_Labels (pod_Meta p))"
  show ?case
  proof (cases "SetControllerReference ''Sandbox'' (sbx_Meta s) ((pod_Meta p)\<lparr>o_Labels := ?ls, o_Owner := None\<rparr>)")
    case (Inl e)
    then show ?thesis using Cons.prems by simp
  next
    case (Inr m)
    define p1 where "p1 = p\<lparr>pod_Meta := m\<rparr>"
    note m = claim_meta [OF Inr]
    have l: "o_Labels (pod_Meta p1) = ?ls" by (simp add: p1_def m)
    have key: "podKey p1 = podKey p" "o_Version (pod_Meta p1) = o_Version (pod_Meta p)"
      unfolding p1_def m by (rule claim_meta_key)+
    have p: "currentPod (pods k) p" "\<not> boundTo p sid" for sid using Cons.prems(2) by (auto simp: boundTo_def)
    obtain e k1 where u: "kc_UpdatePod kc p1 k = (e, k1)" by force
    have t: "tidy k1"
      using update_tidy [OF Cons.prems(1) p(1) key] p(2) labels_bound [OF l] u by simp
    have "e = Some Conflict \<or> e = Some NotFound \<Longrightarrow> pods k1 = pods k" using update_pod [OF u] by auto
    then have "e = Some Conflict \<or> e = Some NotFound \<Longrightarrow> tidy (snd (tryClaim kc s ps k1))"
      using Cons.IH [OF t] Cons.prems(2) by simp
    then show ?thesis using t Inr u by (auto simp: p1_def split: option.splits)
  qed
qed simp

lemma claimWarmPod_tidy:
  assumes "sr_Kube r = kc" "\<And>xs. set (sr_Shuffle r xs) \<subseteq> set xs" "tidy k"
  shows "tidy (snd (claimWarmPod r s t k))"
proof -
  define sel where "sel = [(LabelTemplate, o_Name (tp_Meta t)), (LabelTemplateHash, TemplateHash (sr_Render r) t), (LabelState, StateIdle)]"
  show ?thesis
  proof (cases "kc_ListPods kc (o_Namespace (sbx_Meta s)) sel k")
    case (Inl e)
    then show ?thesis using assms(1,3) unfolding claimWarmPod_def sel_def [symmetric] by simp
  next
    case (Inr ps)
    have "p \<in> set (sr_Shuffle r (filter (claimable t) ps)) \<Longrightarrow> currentPod (pods k) p \<and> podLabel p LabelState = StateIdle" for p
      using list_pods [OF Inr, of p] assms(2) [of "filter (claimable t) ps"] idle_selected unfolding sel_def by fastforce
    with tryClaim_tidy [OF assms(3)] show ?thesis
      using Inr assms(1) unfolding claimWarmPod_def sel_def [symmetric] by simp
  qed
qed

lemma createPod_tidy:
  assumes "sr_Kube r = kc" "tidy k" "o_Namespace (tp_Meta t) = o_Namespace (sbx_Meta s)" "createPod r s t k = (res, k')"
  shows "tidy k'" "res = Inr q \<Longrightarrow> pods k' (fst (sbxKey s), o_Name (pod_Meta q)) = Some q \<and> boundTo q (snd (sbxKey s))"
proof -
  define pod where "pod = BuildPod (sr_Render r) t [] (sr_NewControlToken r)"
  let ?ls = "claimLabels s (o_Labels (pod_Meta pod))"
  have o: "o_Owner (pod_Meta pod) = None" "o_Namespace (pod_Meta pod) = o_Namespace (sbx_Meta s)"
    using assms(3) by (simp_all add: pod_def BuildPod_def Let_def)
  define p where "p = pod\<lparr>pod_Meta := (pod_Meta pod)\<lparr>o_Labels := ?ls, o_Owner := Some (ownerRef ''Sandbox'' (sbx_Meta s))\<rparr>\<rparr>"
  have m: "SetControllerReference ''Sandbox'' (sbx_Meta s) ((pod_Meta pod)\<lparr>o_Labels := ?ls\<rparr>) = Inr (pod_Meta p)"
    using o by (simp add: SetControllerReference_def p_def)
  have l: "o_Labels (pod_Meta p) = ?ls" "o_Namespace (pod_Meta p) = o_Namespace (sbx_Meta s)" "pod\<lparr>pod_Meta := pod_Meta p\<rparr> = p"
    using o by (simp_all add: p_def)
  obtain x k1 where c: "kc_CreatePod kc p k = (x, k1)" by force
  then have e: "k' = k1" "res = Inr q \<Longrightarrow> x = Inr q"
    using assms(1,4) m l(3) unfolding createPod_def pod_def [symmetric] Let_def by (auto split: sum.splits)
  show "tidy k'" using create_tidy [OF assms(2), of p] labels_bound [OF l(1)] c e(1) by simp
  assume "res = Inr q"
  then have q: "kc_CreatePod kc p k = (Inr q, k1)" using c e(2) by simp
  have "o_Labels (pod_Meta q) = ?ls" using created_pod [OF q] l(1) by simp
  moreover have "podKey q = (fst (sbxKey s), o_Name (pod_Meta q))"
    using created_in [OF q] l(2) by (simp add: podKey_def sbxKey_def)
  ultimately show "pods k' (fst (sbxKey s), o_Name (pod_Meta q)) = Some q \<and> boundTo q (snd (sbxKey s))"
    using created_pod [OF q] labels_bound e(1) by (simp add: sbxKey_def)
qed

text \<open>A Pod found by its label is the sandbox's, however old the copy.\<close>

lemma findClaimedPod_bound:
  assumes "sr_Kube r = kc" "tidy k" "findClaimedPod r s k = Inr (Some p)" "pods k (fst (sbxKey s), o_Name (pod_Meta p)) = Some q"
  shows "boundTo q (snd (sbxKey s))"
proof -
  obtain ps where ps: "kc_ListPods kc (o_Namespace (sbx_Meta s)) [(LabelSandboxID, o_Name (sbx_Meta s))] k = Inr ps"
    "List.find (\<lambda>p. \<not> o_Deleting (pod_Meta p)) ps = Some p"
    using assms(1,3) by (auto simp: findClaimedPod_def split: sum.splits)
  then have p: "p \<in> set ps" by (auto simp: find_Some_iff)
  note l = list_pods [OF ps(1) p]
  have c: "p \<in> copies k (podKey p)" using listed [OF ps(1)] p by blast
  have "o_Labels (pod_Meta p) LabelSandboxID = Some (o_Name (sbx_Meta s))" using l by (simp add: matchLabels_def)
  then have "boundTo p (o_Name (sbx_Meta s))"
    using occupiedD(1) [OF assms(2), of p "podKey p"] c by (simp add: wellLabelled_def boundTo_def podLabel_def lbl_def)
  moreover have "podKey p = (fst (sbxKey s), o_Name (pod_Meta p))" using l by (simp add: podKey_def sbxKey_def)
  ultimately show ?thesis using occupiedD(2) [OF assms(2) c] assms(4) by (simp add: sbxKey_def)
qed

lemma acquirePod_tidy:
  assumes r: "sr_Kube r = kc" "\<And>xs. set (sr_Shuffle r xs) \<subseteq> set xs" and k: "tidy k" "currentBox (boxes k) s"
  shows "tidy (snd (acquirePod r s k))"
proof (cases "template r s k")
  case (Inl e)
  then show ?thesis by (simp add: acquirePod_def fail_tidy r k)
next
  case (Inr t)
  have ns: "o_Namespace (tp_Meta t) = o_Namespace (sbx_Meta s)" using get_template [OF template_ok [OF r(1) Inr]] by simp
  obtain c k1 where c: "claimWarmPod r s t k = (c, k1)" by force
  have k1: "tidy k1" "currentBox (boxes k1) s"
    using claimWarmPod_tidy [OF r k(1), of s t] claim_boxes [OF r(1), of s t k] c k(2) by simp_all
  obtain d k2 where d: "createPod r s t k1 = (d, k2)" by force
  note created = createPod_tidy [OF r(1) k1(1) ns d]
  have k2: "tidy k2" "currentBox (boxes k2) s"
    using created(1) createPod_boxes [OF r(1), of s t k1] d k1(2) by simp_all
  have claimed: "boundTo q (snd (sbxKey s))" if cp: "c = Inr (Some p)" "pods k1 (fst (sbxKey s), o_Name (pod_Meta p)) = Some q" for p q
  proof -
    obtain p0 q0 where "podKey p = podKey p0" "fst (podKey p0) = o_Namespace (sbx_Meta s)" "pods k1 = (pods k)(podKey p0 \<mapsto> q0)"
      "boundTo q0 (o_Name (sbx_Meta s))"
      using claimWarmPod_effect [OF r c] cp(1) by blast
    moreover from this have "podKey p0 = (fst (sbxKey s), o_Name (pod_Meta p))" by (simp add: podKey_def sbxKey_def)
    ultimately show ?thesis using cp(2) by (simp add: sbxKey_def)
  qed
  have rec: "tidy (snd (recordPod r (setSbxStatus (\<lambda>x. x\<lparr>st_Phase := PhaseBinding, st_PodName := o_Name (pod_Meta p)\<rparr>) s) k))"
    if "findClaimedPod r s k = Inr (Some p)" for p
    using findClaimedPod_bound [OF r(1) k(1) that] by (intro recordPod_tidy [OF r(1) k]) simp
  have rec1: "tidy (snd (recordPod r (setSbxStatus (\<lambda>x. x\<lparr>st_Phase := PhaseBinding, st_PodName := o_Name (pod_Meta p), st_ColdStart := False\<rparr>) s) k1))"
    if "c = Inr (Some p)" for p
    using claimed [OF that] by (intro recordPod_tidy [OF r(1) k1]) simp
  have rec2: "tidy (snd (recordPod r (setSbxStatus (\<lambda>x. x\<lparr>st_Phase := PhaseBinding, st_PodName := o_Name (pod_Meta p), st_ColdStart := True\<rparr>) s) k2))"
    if "d = Inr p" for p
    using created(2) [OF that] by (intro recordPod_tidy [OF r(1) k2]) auto
  show ?thesis
    using k(1) k1(1) rec rec1 rec2 by (simp add: acquirePod_def Inr c d fail_tidy r k k2 split: sum.splits option.splits)
qed

lemma bindDone_tidy:
  assumes "sr_Kube r = kc" "tidy k" "currentBox (boxes k) s" "currentPod (pods k) p"
  shows "tidy (snd (bindDone r s t p tier resp k))"
proof -
  define p1 where "p1 = p\<lparr>pod_Meta := (pod_Meta p)\<lparr>o_Labels := (o_Labels (pod_Meta p))(LabelIsolationTier \<mapsto> tier)\<rparr>\<rparr>"
  obtain e k1 where u: "kc_UpdateSandboxStatus kc (setSbxStatus (runningStatus r s t p resp) s) k = (e, k1)" by force
  have k1: "tidy k1" "pods k1 = pods k"
    using status_same_tidy [OF assms(2,3), of "runningStatus r s t p resp"] status_pods [OF u] u by (simp_all add: runningStatus_def)
  have p1: "podKey p1 = podKey p" "o_Version (pod_Meta p1) = o_Version (pod_Meta p)"
    "o_Labels (pod_Meta p1) = (o_Labels (pod_Meta p))(LabelIsolationTier \<mapsto> tier)"
    by (simp_all add: p1_def podKey_def)
  have "tidy (snd (kc_UpdatePod kc p1 k1))"
    by (rule update_tidy [OF k1(1) _ p1(1,2) tier_label [OF p1(3)]]) (simp_all add: k1(2) assms(4))
  then show ?thesis using u k1 assms(1) by (auto simp: bindDone_def Let_def p1_def split: option.splits)
qed

lemma bind_tidy:
  assumes r: "sr_Kube r = kc" "sr_Exec r = ex" and k: "tidy k" "currentBox (boxes k) s"
  shows "tidy (snd (bind r s k))"
proof (cases "kc_GetPod kc (o_Namespace (sbx_Meta s), podNameOf s) k")
  case (Inl e)
  then show ?thesis by (simp add: bind_def r fail_tidy k)
next
  case (Inr p)
  have cur: "currentPod (pods k) p" using get_pod [OF Inr] by simp
  have del: "tidy (snd (fail r s a b (snd (kc_DeletePod kc p k'))))" if "tidy k'" "boxes k' = boxes k" for a b k'
    using fail_tidy [OF r(1) delete_tidy [OF that(1)], of p s] that(2) k(2) by (simp add: pod_frame)
  have fin: "tidy (snd (bindDone r s t p tier resp (snd (ex_Bind ex x y k))))" for t tier resp x y
    using bindDone_tidy [OF r(1) execd_tidy(1) [OF k(1)]] cur k(2) by (simp add: bind_frame)
  show ?thesis
    using k del [OF k(1)] del [OF execd_tidy(1) [OF k(1)]] fin
    by (simp add: bind_def r Inr fail_tidy case_prod_beta bind_frame split: sum.splits)
qed

lemma dispatch_tidy:
  assumes "sr_Kube r = kc" "sr_Exec r = ex" "\<And>xs. set (sr_Shuffle r xs) \<subseteq> set xs" "tidy k" "currentBox (boxes k) s"
  shows "tidy (snd (dispatch r s k))"
  using acquirePod_tidy [OF assms(1,3,4,5)] bind_tidy [OF assms(1,2,4,5)] expire_tidy [OF assms(1,2,4,5)] assms(4)
  by (auto simp: dispatch_def watchExpiry_def Let_def split: option.splits)

lemma reconcile_tidy:
  assumes r: "sr_Kube r = kc" "sr_Exec r = ex" "\<And>xs. set (sr_Shuffle r xs) \<subseteq> set xs" and k: "tidy k"
  shows "tidy (snd (SandboxReconcile r nm k))"
proof (cases "kc_GetSandbox kc nm k")
  case (Inl e)
  then show ?thesis by (simp add: SandboxReconcile_def r k)
next
  case (Inr s)
  define s1 where "s1 = s\<lparr>sbx_Meta := (sbx_Meta s)\<lparr>o_Finalizers := o_Finalizers (sbx_Meta s) @ [FinalizerSandbox]\<rparr>\<rparr>"
  obtain x k1 where u: "kc_UpdateSandbox kc s1 k = (x, k1)" by force
  have "tidy k1" using box_tidy [OF k, of s1] u by simp
  moreover have "x = Inr s' \<Longrightarrow> currentBox (boxes k1) s'" for s' using updated_sandbox [of s1 k s' k1] u by simp
  ultimately show ?thesis
    using dispatch_tidy [OF r, of k1] dispatch_tidy [OF r k, of s] finalize_tidy [OF r(1,2) k] get_sandbox [OF Inr] u
    by (simp add: SandboxReconcile_def r Inr s1_def split: sum.splits)
qed

end

section \<open>The pool controller keeps order\<close>

lemma warm_labels: "wellLabelled (BuildPod rd t pl tok)"
  "SetControllerReference kind ow (pod_Meta p) = Inr m \<Longrightarrow> wellLabelled p \<Longrightarrow> wellLabelled (p\<lparr>pod_Meta := m\<rparr>)"
  by (auto simp: BuildPod_def Let_def wellLabelled_def podLabel_def SetControllerReference_def split: if_splits)

context plane_laws
begin

lemma update_elsewhere: "kc_UpdatePod kc q k = (e, k') \<Longrightarrow> nm \<noteq> podKey q \<Longrightarrow> pods k' nm = pods k nm"
  using update_pod [of q k e k'] unfolding podWritten_def by auto

lemma measure_tidy:
  assumes "pr_Kube r = kc" "tidy k" "currentPod (pods k) p" "measure_pod r p k = (res, p', k')"
  shows "tidy k' \<and> (\<forall>nm. nm \<noteq> podKey p \<longrightarrow> pods k' nm = pods k nm)"
proof -
  have "tidy (snd (kc_UpdatePod kc q k)) \<and> (\<forall>nm. nm \<noteq> podKey p \<longrightarrow> pods (snd (kc_UpdatePod kc q k)) nm = pods k nm)"
    if "q = p\<lparr>pod_Meta := (pod_Meta p)\<lparr>o_Labels := (o_Labels (pod_Meta p))(LabelIsolationTier \<mapsto> ti), o_Annotations := an\<rparr>\<rparr>" for q ti an
  proof -
    have q: "podKey q = podKey p" "o_Version (pod_Meta q) = o_Version (pod_Meta p)"
      "o_Labels (pod_Meta q) = (o_Labels (pod_Meta p))(LabelIsolationTier \<mapsto> ti)"
      unfolding that by (simp_all add: podKey_def)
    show ?thesis
      using update_tidy [OF assms(2,3) q(1,2) tier_label [OF q(3)]] update_elsewhere [of q k] q(1) by (metis prod.collapse)
  qed
  then show ?thesis
    using assms(1,2,4) unfolding measure_pod_def Let_def
    by (auto split: option.splits if_splits sum.splits prod.splits) (metis snd_conv)+
qed

lemma classify_tidy:
  assumes kc: "pr_Kube r = kc" and k: "tidy k" "distinct (map podKey ps)" "\<And>p. p \<in> set ps \<Longrightarrow> currentPod (pods k) p"
  shows "tidy (snd (fold (classify1 r pl t hash) ps (st, k)))"
  using k
proof (induction ps arbitrary: st k)
  case (Cons p ps)
  obtain res p' k' where m: "measure_pod r p k = (res, p', k')" by (metis prod.exhaust)
  obtain st1 k1 where c: "classify1 r pl t hash p (st, k) = (st1, k1)" by force
  have "k1 = k \<or> k1 = k'" using c m unfolding classify1_def Let_def by (auto split: if_splits sum.splits)
  with measure_tidy [OF kc Cons.prems(1) _ m] Cons.prems(1,3)
  have k1: "tidy k1" "\<And>nm. nm \<noteq> podKey p \<Longrightarrow> pods k1 nm = pods k nm" by auto
  have "currentPod (pods k1) q" if q: "q \<in> set ps" for q
  proof -
    have "podKey q \<noteq> podKey p" using Cons.prems(2) imageI [OF q, of podKey] by auto
    then show ?thesis using Cons.prems(3) [of q] q k1(2) unfolding currentPod_def by simp
  qed
  then show ?case using Cons.IH [OF k1(1)] Cons.prems(2) c by simp
qed simp

lemma deletePods_tidy: "tidy k \<Longrightarrow> tidy (deletePods kc ps k)"
  unfolding deletePods_def by (induction ps arbitrary: k) (simp_all add: delete_tidy)

lemma createWarm_tidy: "pr_Kube r = kc \<Longrightarrow> tidy k \<Longrightarrow> tidy (snd (createWarm r pl t i n k))"
proof (induction n arbitrary: i k)
  case (Suc n)
  define pod where "pod = BuildPod (pr_Render r) t (o_Name (po_Meta pl)) (pr_NewToken r i)"
  have "tidy (snd (kc_CreatePod kc (pod\<lparr>pod_Meta := m\<rparr>) k))"
    if "SetControllerReference ''SandboxPool'' (po_Meta pl) (pod_Meta pod) = Inr m" for m
    using create_tidy [OF Suc.prems(2) warm_labels(2) [OF that]] warm_labels(1) by (simp add: pod_def)
  then show ?case
    using Suc unfolding createWarm.simps Let_def pod_def [symmetric] by (auto split: sum.splits prod.splits)
qed simp

lemma publishStatus_tidy: "tidy k \<Longrightarrow> tidy (snd (publishStatus kc pl st hash requeue k))"
  using publishStatus_world [of kc pl st hash requeue k] frame_tidy [OF _ pool_frame other_boxes(4) caches(11)] by metis

lemma pool_tidy:
  assumes kc: "pr_Kube r = kc" and k: "tidy k"
  shows "tidy (snd (PoolReconcile r nm k))"
proof -
  have "tidy (snd (case createWarm r pl t 0 (missing pl st) (deletePods kc (retired pl st) k1) of
       (Inl e, k2) \<Rightarrow> (Failed (KErr e), k2)
     | (Inr u, k2) \<Rightarrow> publishStatus kc pl st hash poolResync (deletePods kc (trimmed pl st) k2)))"
    if "kc_ListPods kc ns sel k = Inr ps" "classify r pl t hash ps k = (st, k1)" for ns sel ps pl t hash st k1
  proof -
    have "tidy k1" using classify_tidy [OF kc k, of ps pl t hash emptyState] listed [OF that(1)] list_pods [OF that(1)] that(2)
      by (simp add: classify_def)
    then have "tidy (snd (createWarm r pl t 0 (missing pl st) (deletePods kc (retired pl st) k1)))"
      by (intro createWarm_tidy [OF kc] deletePods_tidy)
    moreover obtain u k2 where "createWarm r pl t 0 (missing pl st) (deletePods kc (retired pl st) k1) = (u, k2)" by force
    ultimately show ?thesis by (simp add: publishStatus_tidy deletePods_tidy split: sum.splits)
  qed
  then show ?thesis
    using k publishStatus_tidy by (simp add: PoolReconcile_def Let_def kc split: sum.splits prod.splits)
qed

end

section \<open>The API server and the world outside\<close>

text \<open>What may happen to the cluster besides: Pods change without changing their labels, disappear, or are created by others, who do
  not use the platform's labels nor a name that is remembered; sandboxes appear without a Pod, disappear, or are edited, but
  the Pod in their status is written by the controller alone.\<close>

definition outside ::
    "('k \<Rightarrow> key \<Rightarrow> pod option) \<Rightarrow> ('k \<Rightarrow> key \<Rightarrow> pod set) \<Rightarrow> ('k \<Rightarrow> key \<Rightarrow> sandbox option) \<Rightarrow> 'k \<Rightarrow> 'k \<Rightarrow> bool" where
  "outside pv cv bv k k' \<longleftrightarrow>
     catchesUp (cv k) (pv k') (cv k')
     \<and> (\<forall>nm q. pv k' nm = Some q \<longrightarrow>
          (case pv k nm of
             Some p \<Rightarrow> o_Labels (pod_Meta q) = o_Labels (pod_Meta p)
           | None \<Rightarrow> o_Labels (pod_Meta q) LabelSandboxID = None \<and> unusedKey (cv k) (bv k) nm))
     \<and> (\<forall>nm s. bv k' nm = Some s \<longrightarrow> podNameOf s = [] \<or> (\<exists>s0. bv k nm = Some s0 \<and> podNameOf s0 = podNameOf s))"

text \<open>One step of the whole: the records of the API server beside the cluster.\<close>

inductive plane :: "'k kube \<Rightarrow> 'k execd_api \<Rightarrow> ('k \<Rightarrow> 'k \<Rightarrow> bool) \<Rightarrow> 's \<times> 'k \<Rightarrow> 's \<times> 'k \<Rightarrow> bool"
  for kc ex env where
  sandbox: "sr_Kube r = kc \<Longrightarrow> sr_Exec r = ex \<Longrightarrow> (\<forall>xs. set (sr_Shuffle r xs) \<subseteq> set xs)
    \<Longrightarrow> plane kc ex env (s, k) (s, snd (SandboxReconcile r nm k))"
| pool: "pr_Kube pr = kc \<Longrightarrow> plane kc ex env (s, k) (s, snd (PoolReconcile pr nm k))"
| template: "plane kc ex env (s, k) (s, snd (TemplateReconcile tr fmt kc nm k))"
| request: "sv_Client sv = kc \<Longrightarrow> Handler sv idKey cidr rq d c (s, k) = (rep, c', w) \<Longrightarrow> plane kc ex env (s, k) w"
| world: "env k k' \<Longrightarrow> plane kc ex env (s, k) (s, k')"

text \<open>A decision on a warm-up request touches the cluster only by writing the pool.\<close>

lemma decideWarmup_world:
  "\<exists>q n. snd (snd (decideWarmup sv p rq b req w)) = snd w
     \<or> snd (snd (decideWarmup sv p rq b req w)) = snd (upsertPool sv q n (fst w) (snd w))"
proof -
  define n where "n = (if rb_Replicas b \<le> 0 then w_Replicas req else rb_Replicas b)"
  define q where "q = req\<lparr>w_ReviewedBy := p_KeyID p, w_ReviewNote := rb_Note b, w_ReviewedAt := Some (sv_Now sv)\<rparr>"
  obtain e k1 where u: "upsertPool sv q n (fst w) (snd w) = (e, k1)" by force
  have "snd (snd (decideWarmup sv p rq b req w)) \<in> {snd w, k1}"
    unfolding decideWarmup_def Let_def n_def [symmetric] q_def [symmetric] u
    by (simp add: case_prod_beta split: sum.split option.split)
  then show ?thesis using u by (metis insertE singletonD snd_conv)
qed

context plane_laws
begin

lemma publish_world: "snd (publish r kc t st reason k) = k \<or> (\<exists>x. snd (publish r kc t st reason k) = snd (kc_UpdateTemplateStatus kc x k))"
  by (auto simp: publish_def Let_def split: prod.splits option.splits) (metis snd_conv)+

lemma template_tidy: "tidy k \<Longrightarrow> tidy (snd (TemplateReconcile r fmt kc nm k))"
proof -
  assume k: "tidy k"
  have "tidy (snd (publish r kc t st reason k))" for t st reason
    using publish_world [of r t st reason k] frame_tidy [OF k other_pods(3) other_boxes(1) caches(8)] k by metis
  then show ?thesis using k
    by (auto simp: TemplateReconcile_def split: sum.splits prod.splits option.splits) (metis snd_conv)+
qed

lemma new_sandbox_tidy: "tidy k \<Longrightarrow> podNameOf s = [] \<Longrightarrow> tidy (snd (kc_CreateSandbox kc s k))"
proof -
  assume t: "tidy k" and n: "podNameOf s = []"
  obtain e k' where c: "kc_CreateSandbox kc s k = (e, k')" by force
  have p: "pods k' = pods k" using other_pods(1) [of s k] c by simp
  have "\<exists>s0. boxes k nm = Some s0 \<and> podNameOf s0 = podNameOf x" if "boxes k' nm = Some x" "podNameOf x \<noteq> []" for nm x
    using create_sandbox [OF c that(1)] that(2) n by auto
  then have "occupied (pods k) (copies k') (boxes k')" using caches(6) [of k s] c p by (intro occupied_boxes [OF t]) auto
  then show ?thesis using c p by simp
qed

lemma old_sandbox_tidy: "tidy k \<Longrightarrow> tidy (snd (kc_DeleteSandbox kc nm k))"
proof -
  assume t: "tidy k"
  obtain e k' where c: "kc_DeleteSandbox kc nm k = (e, k')" by force
  have p: "pods k' = pods k" using other_pods(2) [of nm k] c by simp
  have "\<exists>s0. boxes k n = Some s0 \<and> podNameOf s0 = podNameOf x" if "boxes k' n = Some x" for n x
    using delete_sandbox [OF c that] by auto
  then have "occupied (pods k) (copies k') (boxes k')" using caches(7) [of k nm] c p by (intro occupied_boxes [OF t]) auto
  then show ?thesis using c p by simp
qed

lemma upsertPool_tidy: "sv_Client sv = kc \<Longrightarrow> tidy k \<Longrightarrow> tidy (snd (upsertPool sv req n s k))"
  using frame_tidy [OF _ other_pods(4) other_boxes(2) caches(9)] frame_tidy [OF _ other_pods(5) other_boxes(3) caches(10)]
  by (auto simp: upsertPool_def Let_def case_prod_beta split: sum.splits)

lemma startSandbox_tidy: "sv_Client sv = kc \<Longrightarrow> tidy (snd w) \<Longrightarrow> tidy (snd (snd (startSandbox sv p rq req w)))"
  using new_sandbox_tidy [of "snd w" "newSandbox sv p req"]
  by (auto simp: startSandbox_def newSandbox_def zeroSandbox_def split: prod.splits quota_result.splits option.splits)

lemma serve_tidy:
  assumes "sv_Client sv = kc" "tidy (snd w)"
  shows "tidy (snd (snd (serve sv rq d a v p w)))"
proof (cases a)
  case ACreate
  then show ?thesis using startSandbox_tidy [OF assms] assms(2) by (auto simp: createSandbox_def Let_def split: sum.splits)
next
  case ADelete
  have "tidy (snd (snd (deleteSandbox sv p rq v w)))"
    using old_sandbox_tidy [OF assms(2)] assms by (auto simp: deleteSandbox_def case_prod_beta split: sum.splits)
  then show ?thesis using ADelete by (simp add: case_prod_beta)
next
  case AReview
  have "tidy (snd (snd (decideWarmup sv p rq b req w)))" for b req
    using decideWarmup_world [of sv p rq b req w] upsertPool_tidy [OF assms(1), of "snd w"] assms(2) by metis
  then have "tidy (snd (snd (reviewWarmup sv p rq v (d_Review d) w)))"
    using assms(2) by (auto simp: reviewWarmup_def split: sum.splits)
  then show ?thesis using AReview by (simp add: case_prod_beta)
next
  case AWarmup
  have "snd (snd (requestWarmup sv p rq v (d_Warmup d) w)) = snd w"
    by (auto simp: requestWarmup_def Let_def split: sum.splits prod.splits option.splits)
  then show ?thesis using AWarmup assms(2) by (simp add: case_prod_beta)
qed (use assms(2) in simp_all)

lemma request_tidy:
  assumes "sv_Client sv = kc" "tidy (snd w)" "Handler sv idKey cidr rq d c w = (rep, c', w')"
  shows "tidy (snd w')"
proof -
  have "tidy (snd (snd (routed sv rq d p (s1, snd w))))" for p s1
    using serve_tidy [OF assms(1), of "(s1, snd w)"] assms(2) by (auto simp: routed_def split: option.splits)
  then show ?thesis using assms(2,3) by (auto simp: Handler_def split: if_splits prod.splits sum.splits) (metis snd_conv)+
qed

lemma outside_tidy:
  assumes "tidy k" "outside pods copies boxes k k'"
  shows "tidy k'"
proof -
  note out = assms(2) [unfolded outside_def]
  note o = conjunct1 [OF out] and p = conjunct1 [OF conjunct2 [OF out], rule_format] and b = conjunct2 [OF conjunct2 [OF out], rule_format]
  have "wellLabelled q" if q: "pods k' nm = Some q" for nm q
  proof (cases "pods k nm")
    case None
    then show ?thesis using p [OF q] by (simp add: wellLabelled_def)
  next
    case (Some x)
    then have "o_Labels (pod_Meta q) = o_Labels (pod_Meta x)" using p [OF q] by simp
    from wellLabelled_labels [OF this] show ?thesis using occupiedD(1) [OF assms(1) disjI2 [OF Some]] by simp
  qed
  moreover have "keepsBound (pods k) (pods k')"
    unfolding keepsBound_def
  proof (intro allI impI)
    fix nm x sid
    assume x: "pods k nm = Some x" "boundTo x sid"
    show "pods k' nm = None \<or> (\<exists>q. pods k' nm = Some q \<and> boundTo q sid)"
    proof (cases "pods k' nm")
      case (Some q)
      then have "o_Labels (pod_Meta q) = o_Labels (pod_Meta x)" using p [OF Some] x(1) by simp
      from boundTo_labels [OF this] show ?thesis using Some x(2) by simp
    qed simp
  qed
  moreover have "pods k nm = None \<Longrightarrow> pods k' nm = Some q \<Longrightarrow> unusedKey (copies k) (boxes k) nm" for nm q using p [of nm q] by simp
  ultimately have "occupied (pods k') (copies k') (boxes k)" by (intro occupied_pods [OF assms(1) o])
  moreover have "catchesUp (copies k') (pods k') (copies k')" by (simp add: catchesUp_def)
  ultimately show ?thesis by (rule occupied_boxes) (use b in blast)
qed

text \<open>Every step of every run.\<close>

lemma plane_tidy: "plane kc ex (outside pods copies boxes) w w' \<Longrightarrow> tidy (snd w) \<Longrightarrow> tidy (snd w')"
proof (induction rule: plane.induct)
  case (request sv idKey cidr rq d c s k rep c' w)
  then show ?case using request_tidy [of sv "(s, k)"] by simp
qed (simp_all add: reconcile_tidy pool_tidy template_tidy outside_tidy)

lemma run_tidy: "(plane kc ex (outside pods copies boxes))\<^sup>*\<^sup>* w w' \<Longrightarrow> tidy (snd w) \<Longrightarrow> tidy (snd w')"
  by (induction rule: rtranclp_induct) (auto intro: plane_tidy)

end

section \<open>A cluster that never uses a name again\<close>

text \<open>The cluster of \<open>Kube\<close>, which refuses a name that a status remembers and lists each Pod once; its caches are never behind.\<close>

definition cl_CreateFresh :: "pod \<Rightarrow> cluster \<Rightarrow> (kerr, pod) result \<times> cluster" where
  "cl_CreateFresh p c =
     (case cl_CreatePod p c of
        (Inr q, c1) \<Rightarrow>
          if \<exists>b \<in> set (cl_Boxes c). (o_Namespace (sbx_Meta b), podNameOf b) = podKey q then (Inl (KErr ''AlreadyExists''), c) else (Inr q, c1)
      | (Inl e, c1) \<Rightarrow> (Inl e, c1))"

definition freshKube :: "cluster kube" where
  "freshKube = clusterKube\<lparr>kc_CreatePod := cl_CreateFresh,
     kc_ListPods := (\<lambda>ns sel c. Inr (remdups (listObj pod_Meta (cl_Pods c) ns sel)))\<rparr>"

definition clCopies :: "cluster \<Rightarrow> key \<Rightarrow> pod set" where
  "clCopies c nm = set_option (clPods c nm)"

lemma freshKube_ops [simp]:
  "kc_GetPod freshKube = kc_GetPod clusterKube" "kc_GetSandbox freshKube = kc_GetSandbox clusterKube"
  "kc_GetTemplate freshKube = kc_GetTemplate clusterKube" "kc_UpdatePod freshKube = kc_UpdatePod clusterKube"
  "kc_DeletePod freshKube = kc_DeletePod clusterKube" "kc_UpdateSandbox freshKube = kc_UpdateSandbox clusterKube"
  "kc_UpdateSandboxStatus freshKube = kc_UpdateSandboxStatus clusterKube" "kc_CreateSandbox freshKube = kc_CreateSandbox clusterKube"
  "kc_DeleteSandbox freshKube = cl_DeleteSandbox" "kc_UpdateTemplateStatus freshKube = cl_UpdateTemplateStatus"
  "kc_CreatePool freshKube = cl_CreatePool" "kc_UpdatePool freshKube = cl_UpdatePool" "kc_UpdatePoolStatus freshKube = kc_UpdatePoolStatus clusterKube"
  "kc_CreatePod freshKube = cl_CreateFresh" "kc_ListPods freshKube ns sel c = Inr (remdups (listObj pod_Meta (cl_Pods c) ns sel))"
  by (simp_all add: freshKube_def clusterKube_def)

lemma create_fresh_cases:
  assumes "cl_CreateFresh p k = (r, k')"
  obtains e where "r = Inl e" "clPods k' = clPods k" "clBoxes k' = clBoxes k"
  | q where "r = Inr q" "clPods k (podKey q) = None" "clPods k' = (clPods k)(podKey q \<mapsto> q)" "o_Labels (pod_Meta q) = o_Labels (pod_Meta p)"
      "o_Owner (pod_Meta q) = o_Owner (pod_Meta p)" "o_Namespace (pod_Meta q) = o_Namespace (pod_Meta p)" "clBoxes k' = clBoxes k"
      "\<forall>b s. clBoxes k b = Some s \<longrightarrow> (fst b, podNameOf s) \<noteq> podKey q"
proof -
  obtain x k1 where c: "cl_CreatePod p k = (x, k1)" by force
  have b: "clBoxes k1 = clBoxes k" using cluster_frames(2) [of p k] c by simp
  have ns: "x = Inr q \<Longrightarrow> o_Namespace (pod_Meta q) = o_Namespace (pod_Meta p)" for q
    using c by (auto simp: cl_CreatePod_def Let_def newMeta_def split: if_splits)
  have f: "clBoxes k b = Some s \<Longrightarrow> s \<in> set (cl_Boxes k) \<and> b = (o_Namespace (sbx_Meta s), o_Name (sbx_Meta s))" for b s
    by (auto simp: clBoxes_def held_def find_Some_iff metaKey_def)
  show thesis
  proof (cases x)
    case (Inl e)
    then show ?thesis using that(1) [of e] cluster_create_pod [OF c] assms c b by (auto simp: cl_CreateFresh_def)
  next
    case (Inr q)
    note q = cluster_create_pod [OF c [unfolded Inr]]
    show ?thesis
    proof (cases "\<exists>b \<in> set (cl_Boxes k). (o_Namespace (sbx_Meta b), podNameOf b) = podKey q")
      case True
      then have "r = Inl (KErr ''AlreadyExists'') \<and> k' = k" using assms c Inr by (simp add: cl_CreateFresh_def)
      then show ?thesis using that(1) by simp
    next
      case False
      then have "r = Inr q \<and> k' = k1" using assms c Inr by (simp add: cl_CreateFresh_def)
      moreover have "\<forall>b s. clBoxes k b = Some s \<longrightarrow> (fst b, podNameOf s) \<noteq> podKey q" using False f by fastforce
      ultimately show ?thesis using that(2) [of q] q b ns [OF Inr] by auto
    qed
  qed
qed

lemma listed_held: "p \<in> set (listObj pod_Meta (cl_Pods k) ns sel) \<Longrightarrow> clPods k (podKey p) = Some p"
  by (simp add: listObj_def clPods_def keys_metaKey)

lemma listed_once: "distinct (map podKey (remdups (listObj pod_Meta (cl_Pods (k :: cluster)) ns sel)))"
proof -
  have "x = y" if "x \<in> set (listObj pod_Meta (cl_Pods k) ns sel)" "y \<in> set (listObj pod_Meta (cl_Pods k) ns sel)" "podKey x = podKey y" for x y
    using listed_held [OF that(1)] listed_held [OF that(2)] unfolding that(3) by (metis option.inject)
  then have "inj_on podKey (set (listObj pod_Meta (cl_Pods k) ns sel))" by (rule inj_onI)
  then show ?thesis unfolding distinct_map by simp
qed

lemma boxes_created: "cl_CreateSandbox s k = (e, k') \<Longrightarrow> clBoxes k' nm = Some x \<Longrightarrow> clBoxes k nm = Some x \<or> sbx_Status x = sbx_Status s"
  by (auto simp: cl_CreateSandbox_def Let_def clBoxes_def held_put split: if_splits)

lemma boxes_deleted:
  assumes "cl_DeleteSandbox b k = (e, k')" "clBoxes k' nm = Some x"
  shows "\<exists>y. clBoxes k nm = Some y \<and> sbx_Status x = sbx_Status y"
proof (cases "held sbx_Meta (cl_Boxes k) b")
  case (Some q)
  note key = held_key [OF Some]
  show ?thesis using assms Some key
    by (cases "nm = b") (auto simp: cl_DeleteSandbox_def clBoxes_def held_put held_drop metaKey_def split: if_splits)
qed (use assms in \<open>simp add: cl_DeleteSandbox_def\<close>)

lemma more_frames:
  "clPods (snd (cl_CreateSandbox s k)) = clPods k" "clPods (snd (cl_DeleteSandbox nm k)) = clPods k"
  "clPods (snd (cl_UpdateTemplateStatus t k)) = clPods k" "clPods (snd (cl_CreatePool pl k)) = clPods k" "clPods (snd (cl_UpdatePool pl k)) = clPods k"
  "clBoxes (snd (cl_UpdateTemplateStatus t k)) = clBoxes k" "clBoxes (snd (cl_CreatePool pl k)) = clBoxes k"
  "clBoxes (snd (cl_UpdatePool pl k)) = clBoxes k" "clBoxes (snd (cl_UpdatePoolStatus pl k)) = clBoxes k"
  by (simp_all add: clPods_def clBoxes_def cl_CreateSandbox_def cl_DeleteSandbox_def cl_UpdateTemplateStatus_def cl_CreatePool_def
      cl_UpdatePool_def cl_UpdatePoolStatus_def Let_def split: sum.splits option.splits)

interpretation frl: api_laws freshKube clPods clBoxes
proof (unfold_locales, goal_cases)
  case (1 ns sel k ps p)
  then show ?case using cluster_reads(2) by auto
next
  case (2 nm k p)
  then show ?case using cl.get_pod by simp
next
  case (3 nm k s)
  then show ?case using cl.get_sandbox by simp
next
  case (4 nm k t)
  then show ?case using cl.get_template by simp
next
  case (5 p k e k')
  then show ?case using cl.update_pod by simp
next
  case (6 p k r k')
  then have "cl_CreateFresh p k = (r, k')" by simp
  then show ?case unfolding podCreated_def by (cases rule: create_fresh_cases) blast+
next
  case (7 p k q k')
  then have "cl_CreateFresh p k = (Inr q, k')" by simp
  then show ?case by (cases rule: create_fresh_cases) auto
next
  case (8 p k e k')
  then show ?case using cl.delete_pod by simp
next
  case (10 p k)
  obtain r k' where c: "cl_CreateFresh p k = (r, k')" by force
  then show ?case by (cases rule: create_fresh_cases) (simp_all add: c)
next
  case (12 s k e k')
  then show ?case using cl.update_status by simp
next
  case (13 s k r k')
  then show ?case using cl.update_sandbox by simp
next
  case (14 s k q k')
  then show ?case using cl.updated_sandbox by simp
qed (simp_all add: cluster_frames)

interpretation frw: world_laws freshKube clPods clBoxes "agreeable t"
  by unfold_locales (simp_all add: agreeable_def)

interpretation fr: plane_laws freshKube clPods clBoxes "agreeable t" clCopies
proof (unfold_locales, goal_cases)
  case (1 ns sel k ps)
  then show ?case using listed_once [of k ns sel] listed_held [of _ k ns sel] by (auto simp: clCopies_def)
next
  case (2 p k r k' nm)
  then have "cl_CreateFresh p k = (r, k')" by simp
  then show ?case using 2(2,3) by (cases rule: create_fresh_cases) (auto simp: unusedKey_def clCopies_def split: if_splits)
next
  case (25 s k e k' nm x)
  then show ?case using boxes_created [of s k] by simp
next
  case (26 p k q k')
  then have "cl_CreateFresh p k = (Inr q, k')" by simp
  then show ?case by (cases rule: create_fresh_cases) auto
next
  case (27 b k e k' nm x)
  then show ?case using boxes_deleted [of b k] by simp
qed (simp_all add: more_frames catchesUp_def clCopies_def)

section \<open>Properties\<close>

text \<open>C12: no two sandboxes share a Pod. Start with sandboxes that have no Pod and a cluster without Pods, and let the sandbox, pool and
  template controllers, the API server and everything outside take their steps in any order, with reads from caches that may
  be behind. Then at every moment the Pod that a sandbox names in its status, if it exists, is bound to that very sandbox, and
  no other sandbox of the namespace names it.\<close>

theorem sandboxes_share_no_pod:
  assumes "plane_laws kc pv bv ex cv"
    and "(plane kc ex (outside pv cv bv))\<^sup>*\<^sup>* (s0, k0) (s, k)"
    and "pv k0 = Map.empty" "\<And>nm. cv k0 nm = {}" "\<And>nm b. bv k0 nm = Some b \<Longrightarrow> podNameOf b = []"
    and "bv k (ns, a) = Some x" "podNameOf x \<noteq> []" "pv k (ns, podNameOf x) = Some p"
  shows "boundTo p a \<and> (\<forall>b y. bv k (ns, b) = Some y \<longrightarrow> podNameOf y = podNameOf x \<longrightarrow> b = a)"
proof -
  have "occupied (pv k0) (cv k0) (bv k0)" using assms(3-5) by (auto simp: occupied_def)
  then have t: "occupied (pv k) (cv k) (bv k)" using plane_laws.run_tidy [OF assms(1,2)] by simp
  have "boundTo p b" if "bv k (ns, b) = Some y" "podNameOf y = podNameOf x" for b y
    using occupiedD(3) [OF t that(1)] that(2) assms(7,8) by simp
  then show ?thesis using assms(6) by (auto simp: boundTo_def)
qed

definition startBox :: sandbox where
  "startBox = setSbxStatus (\<lambda>x. x\<lparr>st_PodName := []\<rparr>) (demoSandbox [])"

definition startCluster :: cluster where
  "startCluster = \<lparr>cl_Pods = [], cl_Boxes = [startBox], cl_Tpls = [demoTpl AdmissionApproved], cl_Pools = [], cl_PVCs = [], cl_Next = 7\<rparr>"

definition freshSR :: "cluster sandbox_reconciler" where
  "freshSR = demoSR\<lparr>sr_Kube := freshKube\<rparr>"

lemma start_fields:
  "sbx_Meta startBox = sbx_Meta (demoSandbox [])" "sbx_Spec startBox = sbx_Spec (demoSandbox [])" "podNameOf startBox = []" "st_Phase (sbx_Status startBox) = []"
  "sr_Kube freshSR = freshKube" "sr_Exec freshSR = agreeable TierUserns" "sr_Shuffle freshSR = rev" "sr_Render freshSR = demoRender"
  by (simp_all add: startBox_def freshSR_def demoSandbox_def setSbxStatus_def)

lemma held_nil: "held mt [] = Map.empty"
  by (rule ext) (simp add: held_def)

lemma start_cluster:
  "cl_Pods startCluster = []" "cl_Boxes startCluster = [startBox]" "cl_Tpls startCluster = [demoTpl AdmissionApproved]"
  by (simp_all add: startCluster_def)

text \<open>The first reconcile of a sandbox with nothing to claim creates its Pod.\<close>

lemma start_create:
  assumes "o_Name (pod_Meta p) = []" "o_GenerateName (pod_Meta p) \<noteq> []" "o_Namespace (pod_Meta p) = ''ns1''"
  shows "\<exists>q k. cl_CreateFresh p startCluster = (Inr q, k) \<and> podKey q = (''ns1'', o_Name (pod_Meta q)) \<and> o_Name (pod_Meta q) \<noteq> []
    \<and> clPods k = [podKey q \<mapsto> q] \<and> cl_Boxes k = [startBox]"
  using assms
  by (auto simp: cl_CreateFresh_def cl_CreatePod_def Let_def startCluster_def newMeta_def held_put clPods_def podKey_def metaKey_def start_fields held_nil)

lemma start_creates:
  "\<exists>q x k. SandboxReconcile freshSR (''ns1'', ''sb1'') startCluster = (Requeue requeueBinding, k) \<and> clBoxes k (''ns1'', ''sb1'') = Some x
     \<and> podNameOf x = o_Name (pod_Meta q) \<and> podNameOf x \<noteq> [] \<and> clPods k (''ns1'', o_Name (pod_Meta q)) = Some q"
proof -
  let ?t = "demoTpl AdmissionApproved"
  have t: "tt_Admission (tp_Status ?t) \<noteq> AdmissionRejected" "metaKey (tp_Meta ?t) = (''ns1'', ''py'')"
    by (simp_all add: demoTpl_def demoMeta_def metaKey_def AdmissionApproved_def AdmissionRejected_def)
  define pod where "pod = BuildPod demoRender ?t [] (sr_NewControlToken freshSR)"
  define m where "m = (pod_Meta pod)\<lparr>o_Labels := claimLabels startBox (o_Labels (pod_Meta pod)), o_Owner := Some (ownerRef ''Sandbox'' (sbx_Meta startBox))\<rparr>"
  have p: "o_Name (pod_Meta pod) = []" "o_GenerateName (pod_Meta pod) \<noteq> []" "o_Namespace (pod_Meta pod) = ''ns1''" "o_Owner (pod_Meta pod) = None"
    using t(2) by (simp_all add: pod_def BuildPod_def Let_def metaKey_def)
  then have m: "SetControllerReference ''Sandbox'' (sbx_Meta startBox) ((pod_Meta pod)\<lparr>o_Labels := claimLabels startBox (o_Labels (pod_Meta pod))\<rparr>) = Inr m"
    by (simp add: SetControllerReference_def m_def start_fields)
  obtain q k where q: "cl_CreateFresh (pod\<lparr>pod_Meta := m\<rparr>) startCluster = (Inr q, k)" "podKey q = (''ns1'', o_Name (pod_Meta q))"
    "o_Name (pod_Meta q) \<noteq> []" "clPods k = [podKey q \<mapsto> q]" "cl_Boxes k = [startBox]"
    using start_create [of "pod\<lparr>pod_Meta := m\<rparr>"] p by (auto simp: m_def)
  have c: "createPod freshSR startBox ?t startCluster = (Inr q, k)"
    using m q(1) by (simp add: createPod_def start_fields pod_def Let_def)
  define s1 where "s1 = setSbxStatus (\<lambda>x. x\<lparr>st_Phase := PhaseBinding, st_PodName := o_Name (pod_Meta q), st_ColdStart := True\<rparr>) startBox"
  have u: "\<exists>x k'. cl_UpdateSandboxStatus s1 k = (None, k') \<and> clBoxes k' (''ns1'', ''sb1'') = Some x \<and> podNameOf x = o_Name (pod_Meta q) \<and> clPods k' = clPods k"
    using q(5) by (simp add: cl_UpdateSandboxStatus_def guarded_def held_def s1_def start_fields clBoxes_def putObj_def clPods_def metaKey_def)
  have "SandboxReconcile freshSR (''ns1'', ''sb1'') startCluster = recordPod freshSR s1 k"
    using c t by (simp add: SandboxReconcile_def start_fields dispatch_def acquirePod_def template_def findClaimedPod_def claimWarmPod_def
        getObj_def held_def listObj_def s1_def start_cluster)
  then show ?thesis using u q by (auto simp: recordPod_def start_fields)
qed

lemma start_state:
  "clPods startCluster = Map.empty" "clCopies startCluster nm = {}" "clBoxes startCluster nm = Some b \<Longrightarrow> podNameOf b = []"
  by (simp_all add: clPods_def clCopies_def start_cluster held_nil)
    (cases "nm = (''ns1'', ''sb1'')"; simp add: clBoxes_def held_def start_cluster start_fields)

lemma start_step:
  "plane freshKube (agreeable TierUserns) (outside clPods clCopies clBoxes) ((), startCluster) ((), snd (SandboxReconcile freshSR (''ns1'', ''sb1'') startCluster))"
  by (rule plane.sandbox) (simp_all add: start_fields)

theorem sandboxes_share_no_pod_witness:
  "\<exists>k x p. (plane freshKube (agreeable TierUserns) (outside clPods clCopies clBoxes))\<^sup>*\<^sup>* ((), startCluster) ((), k)
     \<and> clBoxes k (''ns1'', ''sb1'') = Some x \<and> clPods k (''ns1'', podNameOf x) = Some p \<and> boundTo p ''sb1''"
proof -
  obtain q x k where k: "SandboxReconcile freshSR (''ns1'', ''sb1'') startCluster = (Requeue requeueBinding, k)" "clBoxes k (''ns1'', ''sb1'') = Some x"
    "podNameOf x = o_Name (pod_Meta q)" "podNameOf x \<noteq> []" "clPods k (''ns1'', o_Name (pod_Meta q)) = Some q"
    using start_creates by (elim exE conjE) (rule that)
  have p: "clPods k (''ns1'', podNameOf x) = Some q" unfolding k(3) by (rule k(5))
  have r: "(plane freshKube (agreeable TierUserns) (outside clPods clCopies clBoxes))\<^sup>*\<^sup>* ((), startCluster) ((), k)"
    using start_step unfolding k(1) snd_conv by (rule r_into_rtranclp)
  have "boundTo q ''sb1'' \<and> (\<forall>b y. clBoxes k (''ns1'', b) = Some y \<longrightarrow> podNameOf y = podNameOf x \<longrightarrow> b = ''sb1'')"
    by (rule sandboxes_share_no_pod [where pv = clPods and bv = clBoxes and cv = clCopies and kc = freshKube and ex = "agreeable TierUserns"])
      (rule fr.plane_laws_axioms r start_state k(2,4) p | assumption)+
  with r k(2) p show ?thesis by (intro exI conjI) (assumption | erule conjunct1)+
qed

end
