(* ===== verification/Bwrap_Generate.thy ===== *)
theory Bwrap_Generate
  imports Bwrap_Validate "HOL-Library.Multiset"
begin

text \<open>
  \<open>pkg/bwrap/generate.go\<close>: from a validated filesystem spec to the bubblewrap argument vector.
  Every call of the closure \<open>add\<close> is one group of strings; \<open>Generate\<close> concatenates the groups.
  bubblewrap applies its mount operations in argv order, and the lemmas say which operation is the
  last one to cover a path: the declared mount on its own target, a platform operation on every
  protected path.
\<close>

section \<open>The argument vector\<close>

datatype gen_error = InvalidSpec validation_error | NotPinned string

definition InitSocketName :: string where "InitSocketName = ''init.sock''"

text \<open>The digit loop of \<open>itoa\<close>, which fills its buffer from the right.\<close>

function itoaLoop :: "int \<Rightarrow> string \<Rightarrow> string" where
  "itoaLoop n b = (if n > 0 then itoaLoop (n div 10) (digit (nat (n mod 10)) # b) else b)"
  by auto
termination
  by (relation "measure (\<lambda>(n, b). nat n)") auto

declare itoaLoop.simps [simp del]

definition itoa :: "int \<Rightarrow> string" where
  "itoa n =
     (if n = 0 then ''0''
      else let neg = n < 0;
               b = itoaLoop (if neg then wrap64 (- n) else n) []
           in if neg then CHR ''-'' # b else b)"

text \<open>\<open>os.Stat\<close> is the argument \<open>stat\<close>: whether the target exists and is a directory.\<close>

definition isDir :: "(string \<Rightarrow> bool) \<Rightarrow> policy \<Rightarrow> string \<Rightarrow> bool" where
  "isDir stat p target = (case IsDirFunc p of Some f \<Rightarrow> f target | None \<Rightarrow> stat target)"

definition mountKey :: "mount \<Rightarrow> nat \<times> string" where
  "mountKey m = (count_char slash (m_Path m), m_Path m)"

definition orderedMounts :: "mount list \<Rightarrow> mount list" where
  "orderedMounts mounts = sort_key mountKey mounts"

definition addIf :: "bool \<Rightarrow> 'a \<Rightarrow> 'a list" where
  "addIf c g = (if c then [g] else [])"

definition nsAdds :: "policy \<Rightarrow> string list list" where
  "nsAdds p =
     addIf (Tier p = TierUserns \<or> Tier p = TierFilesystem) [''--unshare-user'']
     @ addIf (Tier p \<noteq> TierFilesystem)
         [''--unshare-ipc'', ''--unshare-pid'', ''--unshare-uts'', ''--unshare-cgroup-try'']
     @ addIf (Tier p = TierUserns \<or> Tier p = TierFilesystem)
         [''--uid'', itoa (UID p), ''--gid'', itoa (GID p)]
     @ addIf (Hostname p \<noteq> [] \<and> Tier p \<noteq> TierFilesystem) [''--hostname'', Hostname p]"

definition systemPaths :: "filesystem_spec \<Rightarrow> policy \<Rightarrow> string list" where
  "systemPaths spec p =
     (if fs_AllowSystemPaths spec = [] then SystemAllowlist p else fs_AllowSystemPaths spec)"

definition skelAdds :: "filesystem_spec \<Rightarrow> policy \<Rightarrow> layout \<Rightarrow> string list list" where
  "skelAdds spec p l =
     map (\<lambda>s. [''--ro-bind-try'', s, s]) (systemPaths spec p)
     @ [[''--ro-bind'', path_Join [SkelDir l, ''passwd''], ''/etc/passwd''],
        [''--ro-bind'', path_Join [SkelDir l, ''group''], ''/etc/group''],
        [''--ro-bind'', path_Join [SkelDir l, ''resolv.conf''], ''/etc/resolv.conf'']]
     @ (if Tier p = TierFilesystem
        then [[''--ro-bind'', ''/proc'', ''/proc''], [''--cap-drop'', ''ALL'']]
        else [[''--proc'', ''/proc'']])
     @ [[''--dev'', ''/dev''], [''--tmpfs'', ''/tmp''], [''--tmpfs'', ''/run''], [''--tmpfs'', ''/home''],
        [''--ro-bind'', path_Join [BinDir l, ''jdix-init''], InitTarget l],
        [''--bind'', IPCDir l, IPCMount l]]"

text \<open>A missing key of a Go map reads as the zero value.\<close>

definition mountSource :: "policy \<Rightarrow> mount \<Rightarrow> string" where
  "mountSource p m =
     path_Join [case Volumes p (src_Volume (m_Source m)) of Some r \<Rightarrow> r | None \<Rightarrow> [],
                src_SubPath (m_Source m)]"

definition mountAdd :: "policy \<Rightarrow> mount \<Rightarrow> (gen_error, string list) result" where
  "mountAdd p m =
     (case SourceFDs p (m_Path m) of
        Some fd \<Rightarrow> Inr [if m_ReadOnly m then ''--ro-bind-fd'' else ''--bind-fd'', itoa fd, m_Path m]
      | None \<Rightarrow>
          if Tier p = TierFilesystem then Inl (NotPinned (m_Path m))
          else Inr [if m_ReadOnly m then ''--ro-bind'' else ''--bind'', mountSource p m, m_Path m])"

fun mountAdds :: "policy \<Rightarrow> mount list \<Rightarrow> (gen_error, string list list) result" where
  "mountAdds p [] = Inr []"
| "mountAdds p (m # ms) =
     (case mountAdd p m of
        Inl e \<Rightarrow> Inl e
      | Inr g \<Rightarrow> (case mountAdds p ms of Inl e \<Rightarrow> Inl e | Inr gs \<Rightarrow> Inr (g # gs)))"

definition hideAdd :: "(string \<Rightarrow> bool) \<Rightarrow> policy \<Rightarrow> string \<Rightarrow> string list" where
  "hideAdd stat p h =
     (if isDir stat p h then [''--tmpfs'', h] else [''--ro-bind'', ''/dev/null'', h])"

definition procAdds :: "policy \<Rightarrow> layout \<Rightarrow> string \<Rightarrow> string list list" where
  "procAdds p l ws =
     [[''--chdir'', ws], [''--clearenv''], [''--setenv'', ''HOME'', ''/home''],
      [''--setenv'', ''PATH'', ''/usr/local/sbin:/usr/local/bin:/usr/sbin:/usr/bin:/sbin:/bin''],
      [''--setenv'', ''TERM'', ''xterm-256color''], [''--setenv'', ''JDIX_SANDBOX'', ''1''],
      [''--die-with-parent''], [''--new-session'']]
     @ addIf (Tier p \<noteq> TierFilesystem) [''--as-pid-1'']
     @ [[''--'', InitTarget l, ''--socket'', path_Join [IPCMount l, InitSocketName], ''--workspace'', ws]]
     @ addIf (Tier p \<noteq> TierUserns \<and> Tier p \<noteq> TierFilesystem)
         [''--drop-to'', itoa (UID p) @ '':'' @ itoa (GID p)]
     @ addIf (Tier p = TierFilesystem) [''--subreaper'']"

definition genAdds ::
    "(string \<Rightarrow> bool) \<Rightarrow> filesystem_spec \<Rightarrow> policy \<Rightarrow> layout \<Rightarrow> (gen_error, string list list) result" where
  "genAdds stat spec p l =
     (case Validate p spec l of
        Some e \<Rightarrow> Inl (InvalidSpec e)
      | None \<Rightarrow>
          (let ws = workspacePath spec
           in case mountAdds p (orderedMounts (fs_Mounts spec)) of
                Inl e \<Rightarrow> Inl e
              | Inr ms \<Rightarrow>
                  Inr (nsAdds p @ skelAdds spec p l @ [[''--bind'', WorkspaceDir l, ws]] @ ms
                       @ map (hideAdd stat p) (fs_Hide spec) @ procAdds p l ws)))"

definition Generate ::
    "(string \<Rightarrow> bool) \<Rightarrow> filesystem_spec \<Rightarrow> policy \<Rightarrow> layout \<Rightarrow> (gen_error, string list) result" where
  "Generate stat spec p l =
     (case genAdds stat spec p l of Inl e \<Rightarrow> Inl e | Inr gs \<Rightarrow> Inr (concat gs))"

section \<open>itoa\<close>

lemma itoaLoop_digits: "0 < n \<Longrightarrow> itoaLoop n b = digits (nat n) @ b"
proof (induction n b rule: itoaLoop.induct)
  case (1 n b)
  have m: "nat n mod 10 = nat (n mod 10)" "nat n div 10 = nat (n div 10)"
    using 1(2) by (simp_all add: nat_mod_distrib nat_div_distrib)
  show ?case
  proof (cases "n < 10")
    case True
    with 1(2) have "n div 10 = 0" "n mod 10 = n" by simp_all
    with 1(2) show ?thesis
      using True by (subst itoaLoop.simps, subst digits.simps) (simp add: itoaLoop.simps)
  next
    case False
    then have "0 < n div 10" by (simp add: pos_imp_zdiv_pos_iff)
    then have ih: "itoaLoop (n div 10) (digit (nat (n mod 10)) # b) = digits (nat (n div 10)) @ digit (nat (n mod 10)) # b"
      by (rule 1(1) [OF 1(2)])
    have "\<not> nat n < 10" using False nat_less_iff [of n 10] 1(2) by simp
    then have d: "digits (nat n) = digits (nat n div 10) @ [digit (nat n mod 10)]"
      by (rule_tac trans [OF digits.simps]) (simp only: if_False)
    have "itoaLoop n b = itoaLoop (n div 10) (digit (nat (n mod 10)) # b)"
      by (rule trans [OF itoaLoop.simps]) (simp only: 1(2) if_True)
    with ih d m show ?thesis by (simp only: append_assoc append_Cons append_Nil)
  qed
qed

lemma digits_length: "0 < k \<Longrightarrow> n < 10 ^ k \<Longrightarrow> length (digits n) \<le> k"
proof (induction k arbitrary: n)
  case (Suc k)
  show ?case
  proof (cases "n < 10")
    case False
    with Suc.prems have "0 < k" "n div 10 < 10 ^ k"
      by (auto intro: gr0I simp: less_mult_imp_div_less)
    with Suc.IH show ?thesis by (subst digits.simps) simp
  qed (subst digits.simps, simp)
qed simp

lemma itoa_length: "int64 n \<Longrightarrow> length (Itoa n) \<le> 20"
proof -
  assume "int64 n"
  then have "nat (- n) < 10 ^ 19" "nat n < 10 ^ 19" by (simp_all add: int64_def) linarith+
  then show ?thesis using digits_length [of 19 "nat (- n)"] digits_length [of 19 "nat n"]
    by (auto simp: Itoa_def)
qed

lemma digit_zero: "digit 0 = CHR ''0''"
  by code_simp

lemma itoa_Itoa: "int64 n \<Longrightarrow> n \<noteq> - (2 ^ 63) \<Longrightarrow> itoa n = Itoa n"
  by (auto simp: itoa_def Itoa_def itoaLoop_digits wrap64_id int64_def digits.simps [of 0] digit_zero)

section \<open>The order of the mounts\<close>

lemma orderedMounts_mset [simp]: "mset (orderedMounts ms) = mset ms"
  by (simp add: orderedMounts_def)

lemma orderedMounts_set [simp]: "set (orderedMounts ms) = set ms"
  by (simp add: orderedMounts_def)

lemma orderedMounts_distinct [simp]: "distinct (map m_Path (orderedMounts ms)) \<longleftrightarrow> distinct (map m_Path ms)"
  by (metis mset_map orderedMounts_mset mset_eq_imp_distinct_iff)

lemma orderedMounts_unique:
  assumes "mset ms = mset ms'" and "distinct (map m_Path ms)"
  shows "orderedMounts ms = orderedMounts ms'"
proof -
  have "inj_on mountKey (set ms)"
    using assms(2) by (auto simp: distinct_map inj_on_def mountKey_def)
  moreover have "mset ms = mset (sort_key mountKey ms')" by (simp add: assms(1))
  ultimately show ?thesis unfolding orderedMounts_def by (metis sort_key_inj_key_eq sorted_sort_key)
qed

lemma count_slash_no: "slash \<notin> set s \<Longrightarrow> count_char slash s = 0"
  by (auto simp: count_char_def filter_empty_conv)

lemma count_slash_abs_path: "plain_path ss \<Longrightarrow> ss \<noteq> [] \<Longrightarrow> count_char slash (abs_path ss) = length ss"
proof (induction ss)
  case (Cons s ss)
  then have s: "count_char slash s = 0" by (simp add: plain_path_def plain_seg_def count_slash_no)
  show ?case
  proof (cases ss)
    case Nil
    with s show ?thesis by (simp add: abs_path_def count_char_def)
  next
    case (Cons t ts)
    with Cons.prems have "plain_path ss" by (simp add: plain_path_def)
    with Cons.IH Cons have "count_char slash (abs_path ss) = length ss" by simp
    moreover have "abs_path (s # ss) = abs_path [s] @ abs_path ss"
      using Cons abs_path_append [of "[s]" ss] by simp
    moreover have "count_char slash (abs_path [s]) = 1" using s by (simp add: abs_path_def count_char_def)
    ultimately show ?thesis by simp
  qed
qed simp

lemma count_slash_segs: "isAbsClean p \<Longrightarrow> segs p \<noteq> [] \<Longrightarrow> count_char slash p = length (segs p)"
  by (metis count_slash_abs_path isAbsCleanE)

lemma orderedMounts_parents:
  assumes "orderedMounts ms = xs @ m # ys" and "m' \<in> set ys"
    and "isAbsClean (m_Path m)" "segs (m_Path m) \<noteq> []" "isAbsClean (m_Path m')" "segs (m_Path m') \<noteq> []"
  shows "\<not> strict_prefix (segs (m_Path m')) (segs (m_Path m))"
proof -
  have "sorted (map mountKey (xs @ m # ys))"
    using assms(1) sorted_sort_key [of mountKey ms] by (simp add: orderedMounts_def)
  then have "mountKey m \<le> mountKey m'" using assms(2) by (simp add: sorted_append)
  then have "length (segs (m_Path m)) \<le> length (segs (m_Path m'))"
    using assms(3-) by (auto simp: mountKey_def less_eq_prod_def count_slash_segs)
  then show ?thesis using prefix_length_less not_le by blast
qed

section \<open>When the argument vector is produced\<close>

lemma mountAdds_Inr:
  "(\<exists>gs. mountAdds p ms = Inr gs) \<longleftrightarrow>
     (Tier p = TierFilesystem \<longrightarrow> (\<forall>m \<in> set ms. SourceFDs p (m_Path m) \<noteq> None))"
  by (induction ms) (auto simp: mountAdd_def split: option.splits sum.splits if_splits)

lemma mountAdds_target:
  "mountAdds p ms = Inr gs \<Longrightarrow>
     list_all2 (\<lambda>m g. mountAdd p m = Inr g \<and> last g = m_Path m \<and> length g = 3
                    \<and> hd g \<in> {''--ro-bind-fd'', ''--bind-fd'', ''--ro-bind'', ''--bind''}) ms gs"
proof (induction ms arbitrary: gs)
  case (Cons m ms)
  then obtain g gs' where g: "mountAdd p m = Inr g" "mountAdds p ms = Inr gs'" "gs = g # gs'"
    by (auto split: sum.splits)
  have "last g = m_Path m \<and> length g = 3
      \<and> hd g \<in> {''--ro-bind-fd'', ''--bind-fd'', ''--ro-bind'', ''--bind''}"
    using g(1) by (auto simp: mountAdd_def split: option.splits if_splits)
  with g Cons.IH show ?case by simp
qed simp

lemma genAdds_Inr_iff:
  "(\<exists>gs. genAdds stat spec p l = Inr gs) \<longleftrightarrow>
     Validate p spec l = None
     \<and> (Tier p = TierFilesystem \<longrightarrow> (\<forall>m \<in> set (fs_Mounts spec). SourceFDs p (m_Path m) \<noteq> None))"
  using mountAdds_Inr [of p "orderedMounts (fs_Mounts spec)"]
  by (auto simp: genAdds_def Let_def split: option.splits sum.splits)

lemma Generate_Inr_iff:
  "(\<exists>a. Generate stat spec p l = Inr a) \<longleftrightarrow>
     Validate p spec l = None
     \<and> (Tier p = TierFilesystem \<longrightarrow> (\<forall>m \<in> set (fs_Mounts spec). SourceFDs p (m_Path m) \<noteq> None))"
  using genAdds_Inr_iff [of stat spec p l] unfolding Generate_def by (metis sum.case sum.exhaust sum.distinct(1))

lemma genAdds_E:
  assumes "genAdds stat spec p l = Inr gs"
  obtains ms where "Validate p spec l = None" "mountAdds p (orderedMounts (fs_Mounts spec)) = Inr ms"
    "gs = nsAdds p @ skelAdds spec p l @ [[''--bind'', WorkspaceDir l, workspacePath spec]] @ ms
       @ map (hideAdd stat p) (fs_Hide spec) @ procAdds p l (workspacePath spec)"
  using assms by (auto simp: genAdds_def Let_def split: option.splits sum.splits)

section \<open>Which operation covers a path\<close>

text \<open>
  The groups that are mount operations of bubblewrap, their targets, and the last operation in
  argv order whose target is the path or one of its ancestors: the one whose content is seen at
  that path.
\<close>

definition mountFlags :: "string list" where
  "mountFlags = [''--ro-bind-try'', ''--ro-bind'', ''--bind'', ''--ro-bind-fd'', ''--bind-fd'',
     ''--tmpfs'', ''--proc'', ''--dev'']"

definition isMountOp :: "string list \<Rightarrow> bool" where
  "isMountOp g \<longleftrightarrow> g \<noteq> [] \<and> hd g \<in> set mountFlags"

definition covers :: "string \<Rightarrow> string list \<Rightarrow> bool" where
  "covers t g \<longleftrightarrow> isMountOp g \<and> contains (last g) t"

definition visibleOp :: "string list list \<Rightarrow> string \<Rightarrow> string list option" where
  "visibleOp gs t = List.find (covers t) (rev gs)"

lemma visibleOp_append:
  "visibleOp (xs @ ys) t = (case visibleOp ys t of Some g \<Rightarrow> Some g | None \<Rightarrow> visibleOp xs t)"
proof -
  have "List.find P (as @ bs) = (case List.find P as of Some g \<Rightarrow> Some g | None \<Rightarrow> List.find P bs)"
    for P and as bs :: "string list list" by (induction as) auto
  then show ?thesis by (simp only: visibleOp_def rev_append)
qed

lemma visibleOp_None: "visibleOp gs t = None \<longleftrightarrow> (\<forall>g \<in> set gs. \<not> covers t g)"
  by (auto simp: visibleOp_def find_None_iff)

lemma visibleOp_skip: "(\<forall>g \<in> set ys. \<not> covers t g) \<Longrightarrow> visibleOp (xs @ ys) t = visibleOp xs t"
  by (simp add: visibleOp_append visibleOp_None [symmetric])

lemma visibleOp_last: "covers t g \<Longrightarrow> (\<forall>h \<in> set ys. \<not> covers t h) \<Longrightarrow> visibleOp (xs @ g # ys) t = Some g"
  using visibleOp_skip [of ys t "xs @ [g]"] by (simp add: visibleOp_append [of xs "[g]"]) (simp add: visibleOp_def)

lemma procAdds_no_mount: "g \<in> set (procAdds p l ws) \<Longrightarrow> \<not> covers t g"
  by (auto simp: procAdds_def addIf_def covers_def isMountOp_def mountFlags_def split: if_splits)

lemma hideAdd_last [simp]: "last (hideAdd stat p h) = h" "isMountOp (hideAdd stat p h)"
  by (simp_all add: hideAdd_def isMountOp_def mountFlags_def)

lemma hides_apart:
  assumes "platform_ok p l" "Validate p spec l = None" "m \<in> set (fs_Mounts spec)"
    "g \<in> set (map (hideAdd stat p) (fs_Hide spec))"
  shows "\<not> covers (m_Path m) g"
proof -
  have s: "fs_safe p spec l" using Validate_None_iff assms by blast
  obtain h where h: "h \<in> set (fs_Hide spec)" "g = hideAdd stat p h" using assms(4) by auto
  from s h have "safe_hide l (shadowable p spec) (workspacePath spec) (fs_Mounts spec) h"
    by (simp add: fs_safe_def)
  then have "isAbsClean h" "\<not> prefix (segs h) (segs (m_Path m))"
    using assms(3) by (auto simp: safe_hide_def free_target_def)
  moreover have "isAbsClean (m_Path m)"
    using s assms(3) by (auto simp: fs_safe_def safe_mount_def free_target_def)
  ultimately show ?thesis using h by (simp add: covers_def contains_segs)
qed

lemma safe_mount_path:
  "fs_safe p spec l \<Longrightarrow> m \<in> set (fs_Mounts spec) \<Longrightarrow> isAbsClean (m_Path m) \<and> segs (m_Path m) \<noteq> []"
  by (auto simp: fs_safe_def safe_mount_def free_target_def)

text \<open>No later mount covers the target of an earlier one.\<close>

lemma mounts_visible:
  assumes safe: "fs_safe p spec l" and ms: "mountAdds p (orderedMounts (fs_Mounts spec)) = Inr ms"
    and m: "m \<in> set (fs_Mounts spec)"
  shows "\<exists>xs g ys. ms = xs @ g # ys \<and> mountAdd p m = Inr g \<and> covers (m_Path m) g
    \<and> (\<forall>h \<in> set ys. \<not> covers (m_Path m) h)"
proof -
  obtain as bs where o: "orderedMounts (fs_Mounts spec) = as @ m # bs"
    using m by (metis orderedMounts_set split_list)
  obtain xs g ys where sp: "ms = xs @ g # ys"
    and g: "mountAdd p m = Inr g" "last g = m_Path m" "length g = 3"
       "hd g \<in> {''--ro-bind-fd'', ''--bind-fd'', ''--ro-bind'', ''--bind''}"
    and r: "list_all2 (\<lambda>m g. last g = m_Path m) bs ys"
    using mountAdds_target [OF ms] unfolding o list_all2_append1 list_all2_Cons1
    by (smt (verit) list_all2_mono)
  have mp: "isAbsClean (m_Path m)" "segs (m_Path m) \<noteq> []" using safe_mount_path [OF safe m] by auto
  have "\<not> covers (m_Path m) h" if h: "h \<in> set ys" for h
  proof -
    obtain m' where m': "m' \<in> set bs" "last h = m_Path m'"
      using r h by (auto simp: list_all2_conv_all_nth in_set_conv_nth) (metis nth_mem)
    have "m' \<in> set (fs_Mounts spec)" using o m'(1) orderedMounts_set [of "fs_Mounts spec"] by auto
    then have p': "isAbsClean (m_Path m')" "segs (m_Path m') \<noteq> []" using safe_mount_path [OF safe] by auto
    have "distinct (map m_Path (as @ m # bs))"
      using safe orderedMounts_distinct [of "fs_Mounts spec"] by (simp add: o fs_safe_def)
    then have "m_Path m' \<noteq> m_Path m" using m'(1) by (auto simp: image_iff)
    then have "segs (m_Path m') \<noteq> segs (m_Path m)" using segs_inject [OF p'(1) mp(1)] by simp
    then have "\<not> prefix (segs (m_Path m')) (segs (m_Path m))"
      using orderedMounts_parents [OF o m'(1) mp p'] by (auto simp: strict_prefix_def)
    then show ?thesis using m'(2) p' mp by (simp add: covers_def contains_segs)
  qed
  moreover have "covers (m_Path m) g"
    using g by (auto simp: covers_def isMountOp_def mountFlags_def contains_def)
  ultimately show ?thesis using sp g by blast
qed

text \<open>The tenant's part of the argument vector touches no protected path.\<close>

lemma tenant_targets_free:
  assumes "fs_safe p spec l" and "mountAdds p (orderedMounts (fs_Mounts spec)) = Inr ms"
    and "g \<in> set ([[''--bind'', WorkspaceDir l, workspacePath spec]] @ ms @ map (hideAdd stat p) (fs_Hide spec))"
  shows "free_target l (last g)"
proof -
  have m: "\<exists>m \<in> set (fs_Mounts spec). last g = m_Path m" if "g \<in> set ms"
    using mountAdds_target [OF assms(2)] that
    by (auto simp: list_all2_conv_all_nth in_set_conv_nth) (metis nth_mem orderedMounts_set)
  from assms(3) consider "g = [''--bind'', WorkspaceDir l, workspacePath spec]"
    | "\<exists>m \<in> set (fs_Mounts spec). last g = m_Path m"
    | "\<exists>h \<in> set (fs_Hide spec). last g = h" using m by fastforce
  then show ?thesis using assms(1)
    by cases (auto simp: fs_safe_def safe_mount_def safe_hide_def)
qed

lemma free_not_covers:
  assumes "platform_ok p l" "free_target l (last g)" "prot \<in> set (protectedTargets l)"
  shows "\<not> covers prot g"
  using assms protected_canonical [OF assms(1,3)]
  by (auto simp: covers_def free_target_def apart_def contains_segs)

lemma demo_generates: "\<exists>gs. genAdds (\<lambda>_. True) (demoSpec demoMounts) demoPolicy DefaultLayout = Inr gs"
  by (simp add: genAdds_Inr_iff demo_valid) (simp add: demo_defs DefaultPolicy_def tier_defs)

section \<open>Properties\<close>

text \<open>\<open>Generate\<close> produces an argument vector exactly when the spec passes \<open>Validate\<close> and, in the
  filesystem-only tier, every mount has a pinned source descriptor. Otherwise it fails with the
  validation error, or naming the first unpinned target; no other outcome exists.\<close>

lemma Generate_succeeds_iff:
  "(\<exists>a. Generate stat spec p l = Inr a) \<longleftrightarrow>
     Validate p spec l = None
     \<and> \<not> (Tier p = TierFilesystem \<and> (\<exists>m. m \<in> set (fs_Mounts spec) \<and> SourceFDs p (m_Path m) = None))"
  using Generate_Inr_iff [of stat spec p l] by auto

text \<open>C2: every declared mount takes effect. In the generated argument vector the last mount operation
  that covers a declared target is that mount's own bind, whatever order the tenant declared the
  mounts in and whatever paths it hides: nothing later (a parent mount, a hide) covers it.\<close>

theorem declared_mounts_take_effect:
  assumes "platform_ok p l" and gen: "genAdds stat spec p l = Inr gs" and m: "m \<in> set (fs_Mounts spec)"
  shows "Generate stat spec p l = Inr (concat gs)
    \<and> (\<exists>g. mountAdd p m = Inr g \<and> visibleOp gs (m_Path m) = Some g)"
proof
  show "Generate stat spec p l = Inr (concat gs)" by (simp add: Generate_def gen)
  obtain ms where v: "Validate p spec l = None" and ms: "mountAdds p (orderedMounts (fs_Mounts spec)) = Inr ms"
    and gs: "gs = nsAdds p @ skelAdds spec p l @ [[''--bind'', WorkspaceDir l, workspacePath spec]] @ ms
       @ map (hideAdd stat p) (fs_Hide spec) @ procAdds p l (workspacePath spec)"
    using gen by (rule genAdds_E)
  obtain xs g ys where g: "ms = xs @ g # ys" "mountAdd p m = Inr g" "covers (m_Path m) g"
      "\<forall>h \<in> set ys. \<not> covers (m_Path m) h"
    using mounts_visible [OF _ ms m] v assms(1) Validate_None_iff by metis
  let ?pre = "nsAdds p @ skelAdds spec p l @ [[''--bind'', WorkspaceDir l, workspacePath spec]] @ xs"
  let ?post = "ys @ map (hideAdd stat p) (fs_Hide spec) @ procAdds p l (workspacePath spec)"
  have "\<forall>h \<in> set ?post. \<not> covers (m_Path m) h"
    using g(4) hides_apart [OF assms(1) v m] procAdds_no_mount by (simp only: set_append) blast
  then have "visibleOp (?pre @ g # ?post) (m_Path m) = Some g" using g(3) by (rule visibleOp_last [rotated])
  then show "\<exists>g. mountAdd p m = Inr g \<and> visibleOp gs (m_Path m) = Some g" using g gs by auto
qed

theorem declared_mounts_take_effect_witness:
  "\<exists>gs g. genAdds (\<lambda>_. True) (demoSpec demoMounts) demoPolicy DefaultLayout = Inr gs
     \<and> mountAdd demoPolicy (demoMount ''/data/a'' ''x/y'') = Inr g
     \<and> visibleOp gs ''/data/a'' = Some g"
proof -
  obtain gs where gs: "genAdds (\<lambda>_. True) (demoSpec demoMounts) demoPolicy DefaultLayout = Inr gs"
    using demo_generates by blast
  have "demoMount ''/data/a'' ''x/y'' \<in> set (fs_Mounts (demoSpec demoMounts))"
    by (simp add: demoSpec_def demoMounts_def)
  from declared_mounts_take_effect [OF demo_platform_ok gs this] gs show ?thesis
    by (auto simp: demoMount_def)
qed

text \<open>C3: no tenant input reaches a platform path. For every protected path (/proc, /dev, the platform
  and state roots, the IPC mount, the init binary, the synthesised files of /etc) the visible
  operation of the generated vector is the one of the platform's own skeleton, and at the IPC mount
  point it is the bind of the IPC directory, which the tmpfs on /run does not cover.\<close>

theorem protected_paths_keep_platform_mounts:
  assumes pl: "platform_ok p l" and gen: "genAdds stat spec p l = Inr gs" and prot: "prot \<in> set (protectedTargets l)"
  shows "visibleOp gs prot = visibleOp (nsAdds p @ skelAdds spec p l) prot
    \<and> visibleOp gs (IPCMount l) = Some [''--bind'', IPCDir l, IPCMount l]"
proof -
  obtain ms where v: "Validate p spec l = None" and ms: "mountAdds p (orderedMounts (fs_Mounts spec)) = Inr ms"
    and gs: "gs = (nsAdds p @ skelAdds spec p l) @ ([[''--bind'', WorkspaceDir l, workspacePath spec]] @ ms
       @ map (hideAdd stat p) (fs_Hide spec)) @ procAdds p l (workspacePath spec)"
    using gen by (rule genAdds_E) simp
  have "\<not> covers t g" if "t \<in> set (protectedTargets l)"
    "g \<in> set (([[''--bind'', WorkspaceDir l, workspacePath spec]] @ ms @ map (hideAdd stat p) (fs_Hide spec))
         @ procAdds p l (workspacePath spec))" for t g
    using that(2) unfolding set_append [of _ "procAdds p l (workspacePath spec)"]
    using tenant_targets_free [OF iffD1 [OF Validate_None_iff [OF pl] v] ms] that(1)
      free_not_covers [OF pl] procAdds_no_mount by (elim UnE) blast+
  then have eq: "visibleOp gs t = visibleOp (nsAdds p @ skelAdds spec p l) t"
    if "t \<in> set (protectedTargets l)" for t
    unfolding gs using that by (intro visibleOp_skip) blast
  have "IPCMount l \<in> set (protectedTargets l)" by (simp add: protectedTargets_def)
  moreover have "\<exists>xs. nsAdds p @ skelAdds spec p l = xs @ [[''--bind'', IPCDir l, IPCMount l]]"
    by (simp add: skelAdds_def)
  moreover have "visibleOp (xs @ [[''--bind'', IPCDir l, IPCMount l]]) (IPCMount l) = Some [''--bind'', IPCDir l, IPCMount l]" for xs
    by (rule visibleOp_last) (simp_all add: covers_def isMountOp_def mountFlags_def contains_def)
  ultimately show ?thesis using eq prot by metis
qed

theorem protected_paths_keep_platform_mounts_witness:
  "\<exists>gs. genAdds (\<lambda>_. True) (demoSpec demoMounts) demoPolicy DefaultLayout = Inr gs
     \<and> visibleOp gs ''/run/jdix'' = Some [''--bind'', ''/var/lib/jdix/ipc'', ''/run/jdix'']"
proof -
  obtain gs where gs: "genAdds (\<lambda>_. True) (demoSpec demoMounts) demoPolicy DefaultLayout = Inr gs"
    using demo_generates by blast
  have "''/proc'' \<in> set (protectedTargets DefaultLayout)" by (simp add: protectedTargets_def)
  from protected_paths_keep_platform_mounts [OF demo_platform_ok gs this] gs show ?thesis
    by (simp add: DefaultLayout_def)
qed

text \<open>The source of every accepted mount that is bound by path lies inside the root of a volume the
  template declares: no sub-path climbs out of it lexically.\<close>

lemma mount_source_inside_volume:
  assumes pl: "platform_ok p l" and v: "Validate p spec l = None" and m: "m \<in> set (fs_Mounts spec)"
    and roots: "\<And>n r. Volumes p n = Some r \<Longrightarrow> isAbsClean r"
  shows "\<exists>root. Volumes p (src_Volume (m_Source m)) = Some root
    \<and> isAbsClean (mountSource p m) \<and> prefix (segs root) (segs (mountSource p m))"
proof -
  have "safe_mount p l (shadowable p spec) m"
    using v m Validate_None_iff [OF pl] by (auto simp: fs_safe_def)
  then obtain root where r: "Volumes p (src_Volume (m_Source m)) = Some root"
    and s: "subpath_ok (src_SubPath (m_Source m))" by (auto simp: safe_mount_def)
  show ?thesis using path_Join_subpath [OF roots [OF r] s] r by (auto simp: mountSource_def)
qed

text \<open>The tenant's order of the mounts carries no meaning: any permutation of the declared mounts
  yields the same argument vector, so the template hash it feeds is stable.\<close>

lemma generate_order_independent:
  assumes pl: "platform_ok p l" and gen: "Generate stat spec p l = Inr a"
    and perm: "mset ms' = mset (fs_Mounts spec)"
  shows "Generate stat (spec\<lparr>fs_Mounts := ms'\<rparr>) p l = Inr a"
proof -
  have v: "Validate p spec l = None" using gen Generate_Inr_iff by blast
  then have s: "fs_safe p spec l" by (simp add: Validate_None_iff [OF pl])
  have same: "set ms' = set (fs_Mounts spec)" "length ms' = length (fs_Mounts spec)"
    "distinct (map m_Path ms') \<longleftrightarrow> distinct (map m_Path (fs_Mounts spec))"
    using perm by (metis mset_eq_setD, metis mset_eq_length, metis mset_map mset_eq_imp_distinct_iff)
  have ws: "workspacePath (spec\<lparr>fs_Mounts := ms'\<rparr>) = workspacePath spec"
    "shadowable p (spec\<lparr>fs_Mounts := ms'\<rparr>) = shadowable p spec"
    "skelAdds (spec\<lparr>fs_Mounts := ms'\<rparr>) p l = skelAdds spec p l"
    by (simp_all add: workspacePath_def shadowable_def skelAdds_def systemPaths_def)
  have "ms' = [] \<longleftrightarrow> fs_Mounts spec = []" using same(2) by (metis length_0_conv)
  then have "fs_safe p (spec\<lparr>fs_Mounts := ms'\<rparr>) l"
    using s by (simp add: fs_safe_def same ws safe_hide_def)
  then have "Validate p (spec\<lparr>fs_Mounts := ms'\<rparr>) l = None" by (simp add: Validate_None_iff [OF pl])
  moreover have "orderedMounts ms' = orderedMounts (fs_Mounts spec)"
    using s same by (intro orderedMounts_unique perm) (simp add: fs_safe_def)
  ultimately have "genAdds stat (spec\<lparr>fs_Mounts := ms'\<rparr>) p l = genAdds stat spec p l"
    using v by (simp add: genAdds_def ws Let_def split: sum.split)
  then show ?thesis using gen by (simp add: Generate_def)
qed

text \<open>The hand-written \<open>itoa\<close> agrees with the decimal notation on every Go int except the least one,
  and what it writes is read back as the same number and fits its 20-byte buffer; on the least int,
  whose negation wraps to itself, it yields a bare minus sign.\<close>

lemma itoa_correct:
  "(\<forall>n. int64 n \<and> n \<noteq> - (2 ^ 63) \<longrightarrow> itoa n = Itoa n \<and> Atoi (itoa n) = Some n \<and> length (itoa n) \<le> 20)
   \<and> itoa (- (2 ^ 63)) = ''-''"
  using itoa_Itoa itoa_length Atoi_Itoa by (auto simp: itoa_def wrap64_def itoaLoop.simps)

end
