(* ===== verification/Safepath.thy ===== *)
theory Safepath
  imports Bwrap_Validate "HOL-Library.Multiset"
begin

text \<open>
  \<open>pkg/safepath\<close> (the Linux build): opening a relative path without leaving a root directory, by
  \<open>openat2\<close> or, where the kernel lacks it, by a segment-wise walk with \<open>O_NOFOLLOW\<close>. The system
  calls are the fields of the record \<open>sys\<close>, a parameter of every operation; descriptors have an
  arbitrary type. Each operation carries the list of open descriptors, so that leaks are visible.
\<close>

section \<open>System calls\<close>

datatype errno = ENOSYS | EPERM | EXDEV | ELOOP | ENOENT | ENOTDIR | EACCES | EEXIST | Errno nat

datatype oflag = O_RDONLY | O_WRONLY | O_RDWR | O_CREAT | O_EXCL | O_TRUNC
  | O_DIRECTORY | O_CLOEXEC | O_NOFOLLOW | O_PATH

datatype resolve = RESOLVE_BENEATH | RESOLVE_NO_MAGICLINKS | RESOLVE_NO_SYMLINKS | RESOLVE_NO_XDEV

record open_how =
  how_Flags :: "oflag set"
  how_Mode :: int
  how_Resolve :: "resolve set"

record 'd sys =
  sys_Open :: "string \<Rightarrow> oflag set \<Rightarrow> (errno, 'd) result"
  sys_Openat :: "'d \<Rightarrow> string \<Rightarrow> oflag set \<Rightarrow> int \<Rightarrow> (errno, 'd) result"
  sys_Openat2 :: "'d \<Rightarrow> string \<Rightarrow> open_how \<Rightarrow> (errno, 'd) result"

datatype safe_error = ErrEscape | ErrBadPath
  | PathError string string errno
  | SysErr errno
  | PinError string string errno

record 'd os_file =
  f_Fd :: 'd
  f_Name :: string

text \<open>\<open>FileMode.Perm\<close>: the low nine bits.\<close>

definition Perm :: "int \<Rightarrow> int" where "Perm m = m mod 512"

section \<open>Operations\<close>

definition checkRel :: "string \<Rightarrow> (safe_error, string) result" where
  "checkRel rel =
     (if rel = [] \<or> rel = ''.'' then Inr ''.''
      else if hasPrefix rel ''/'' then Inl ErrBadPath
      else if CHR 0x00 \<in> set rel then Inl ErrBadPath
      else if path_Clean rel \<noteq> rel then Inl ErrBadPath
      else if \<exists>seg \<in> set (split_on slash rel). seg = ''..'' \<or> seg = [] then Inl ErrBadPath
      else Inr rel)"

definition rootFlags :: "oflag set" where
  "rootFlags = {O_RDONLY, O_DIRECTORY, O_CLOEXEC}"

definition beneathHow :: "oflag set \<Rightarrow> int \<Rightarrow> open_how" where
  "beneathHow flags perm =
     \<lparr>how_Flags = insert O_CLOEXEC flags, how_Mode = Perm perm,
      how_Resolve = {RESOLVE_BENEATH, RESOLVE_NO_MAGICLINKS}\<rparr>"

text \<open>\<open>None\<close> is the answer \<open>supported = false\<close>.\<close>

definition openBeneathAt2 ::
    "'d sys \<Rightarrow> string \<Rightarrow> string \<Rightarrow> oflag set \<Rightarrow> int \<Rightarrow> 'd list \<Rightarrow> (safe_error, 'd os_file) result option \<times> 'd list" where
  "openBeneathAt2 os root rel flags perm fds =
     (case sys_Open os root rootFlags of
        Inl e \<Rightarrow> (Some (Inl (PathError ''open'' root e)), fds)
      | Inr dirFd \<Rightarrow>
          let fds1 = dirFd # fds in
          if CHR 0x00 \<in> set rel then (Some (Inl ErrBadPath), remove1 dirFd fds1)
          else (case sys_Openat2 os dirFd rel (beneathHow flags perm) of
             Inr fd \<Rightarrow> (Some (Inr \<lparr>f_Fd = fd, f_Name = root @ ''/'' @ rel\<rparr>), remove1 dirFd (fd # fds1))
           | Inl e \<Rightarrow>
               (if e = ENOSYS \<or> e = EPERM then None
                else if e = EXDEV \<or> e = ELOOP then Some (Inl ErrEscape)
                else Some (Inl (PathError ''openat2'' rel e)), remove1 dirFd fds1)))"

text \<open>The loop of \<open>openBeneathWalk\<close>: \<open>dirFd\<close> is open at every iteration.\<close>

fun walkSegs ::
    "'d sys \<Rightarrow> 'd \<Rightarrow> string list \<Rightarrow> oflag set \<Rightarrow> int \<Rightarrow> 'd list \<Rightarrow> (safe_error, 'd) result \<times> 'd list" where
  "walkSegs os dirFd [] flags perm fds = (Inr dirFd, fds)"
| "walkSegs os dirFd (seg # rest) flags perm fds =
     (let isLast = (rest = []);
          openFlags = (if isLast then flags \<union> {O_NOFOLLOW, O_CLOEXEC}
                       else {O_RDONLY, O_DIRECTORY, O_NOFOLLOW, O_CLOEXEC});
          mode = (if isLast then Perm perm else 0)
      in case sys_Openat os dirFd seg openFlags mode of
           Inl e \<Rightarrow> (Inl (if e = ELOOP then ErrEscape else PathError ''openat'' seg e), remove1 dirFd fds)
         | Inr fd \<Rightarrow> walkSegs os fd rest flags perm (remove1 dirFd (fd # fds)))"

definition openBeneathWalk ::
    "'d sys \<Rightarrow> string \<Rightarrow> string \<Rightarrow> oflag set \<Rightarrow> int \<Rightarrow> 'd list \<Rightarrow> (safe_error, 'd os_file) result \<times> 'd list" where
  "openBeneathWalk os root rel flags perm fds =
     (case sys_Open os root rootFlags of
        Inl e \<Rightarrow> (Inl (PathError ''open'' root e), fds)
      | Inr dirFd \<Rightarrow>
          if rel = ''.'' then (Inr \<lparr>f_Fd = dirFd, f_Name = root\<rparr>, dirFd # fds)
          else (case walkSegs os dirFd (split_on slash rel) flags perm (dirFd # fds) of
             (Inl e, fds') \<Rightarrow> (Inl e, fds')
           | (Inr fd, fds') \<Rightarrow> (Inr \<lparr>f_Fd = fd, f_Name = root @ ''/'' @ rel\<rparr>, fds')))"

text \<open>The process-wide latch \<open>openat2Missing\<close> and the open descriptors.\<close>

record 'd pstate =
  openat2Missing :: bool
  openFds :: "'d list"

definition openBeneath ::
    "'d sys \<Rightarrow> string \<Rightarrow> string \<Rightarrow> oflag set \<Rightarrow> int \<Rightarrow> 'd pstate \<Rightarrow> (safe_error, 'd os_file) result \<times> 'd pstate" where
  "openBeneath os root rel flags perm st =
     (let walk = \<lambda>st. (case openBeneathWalk os root rel flags perm (openFds st) of
                         (r, fds) \<Rightarrow> (r, st\<lparr>openFds := fds\<rparr>))
      in if openat2Missing st then walk st
         else (case openBeneathAt2 os root rel flags perm (openFds st) of
                 (Some r, fds) \<Rightarrow> (r, st\<lparr>openFds := fds\<rparr>)
               | (None, fds) \<Rightarrow> walk (st\<lparr>openFds := fds, openat2Missing := True\<rparr>)))"

definition OpenBeneath ::
    "'d sys \<Rightarrow> string \<Rightarrow> string \<Rightarrow> oflag set \<Rightarrow> int \<Rightarrow> 'd pstate \<Rightarrow> (safe_error, 'd os_file) result \<times> 'd pstate" where
  "OpenBeneath os root rel flags perm st =
     (case checkRel rel of
        Inl e \<Rightarrow> (Inl e, st)
      | Inr cleanRel \<Rightarrow> openBeneath os root cleanRel flags perm st)"

definition ResolveBeneath ::
    "'d sys \<Rightarrow> string \<Rightarrow> string \<Rightarrow> 'd pstate \<Rightarrow> (safe_error, string) result \<times> 'd pstate" where
  "ResolveBeneath os root rel st =
     (case OpenBeneath os root rel {O_RDONLY} 0 st of
        (Inl e, st') \<Rightarrow> (Inl e, st')
      | (Inr f, st') \<Rightarrow>
          (Inr (if rel = [] \<or> rel = ''.'' then root else path_Join [root, rel]),
           st'\<lparr>openFds := remove1 (f_Fd f) (openFds st')\<rparr>))"

definition mountHow :: open_how where
  "mountHow =
     \<lparr>how_Flags = {O_PATH, O_DIRECTORY, O_CLOEXEC}, how_Mode = 0,
      how_Resolve = {RESOLVE_BENEATH, RESOLVE_NO_SYMLINKS, RESOLVE_NO_MAGICLINKS, RESOLVE_NO_XDEV}\<rparr>"

definition OpenMount ::
    "'d sys \<Rightarrow> string \<Rightarrow> string \<Rightarrow> 'd list \<Rightarrow> (safe_error, 'd os_file) result \<times> 'd list" where
  "OpenMount os root relative fds =
     (case checkRel relative of
        Inl e \<Rightarrow> (Inl e, fds)
      | Inr rel \<Rightarrow>
          (case sys_Open os root {O_PATH, O_DIRECTORY, O_CLOEXEC, O_NOFOLLOW} of
             Inl e \<Rightarrow> (Inl (SysErr e), fds)
           | Inr rfd \<Rightarrow>
               (case sys_Openat2 os rfd rel mountHow of
                  Inl e \<Rightarrow> (Inl (PinError root rel e), remove1 rfd (rfd # fds))
                | Inr fd \<Rightarrow> (Inr \<lparr>f_Fd = fd, f_Name = root @ ''/'' @ rel\<rparr>, remove1 rfd (fd # rfd # fds)))))"

definition IsEscape :: "safe_error \<Rightarrow> bool" where
  "IsEscape e \<longleftrightarrow> e = ErrEscape \<or> e = ErrBadPath"

section \<open>The lexical gate\<close>

lemma checkRel_Inr_iff:
  "rel \<noteq> [] \<Longrightarrow> rel \<noteq> ''.'' \<Longrightarrow> checkRel rel = Inr r \<longleftrightarrow> r = rel \<and> \<not> hasPrefix rel ''/'' \<and> CHR 0x00 \<notin> set rel
     \<and> path_Clean rel = rel \<and> (\<forall>seg \<in> set (split_on slash rel). seg \<noteq> ''..'' \<and> seg \<noteq> [])"
  unfolding checkRel_def by (cases "hasPrefix rel ''/''") auto

lemma validateSubPath_None_conds:
  "rel \<noteq> [] \<Longrightarrow> validateSubPath f rel = None \<longleftrightarrow> \<not> hasPrefix rel ''/'' \<and> CHR 0x00 \<notin> set rel
     \<and> (\<forall>seg \<in> set (split_on slash rel). seg \<noteq> ''..'') \<and> path_Clean rel = rel"
  unfolding validateSubPath_def seqErr_None failIf_None firstErr_None by auto

lemma subpath_ok_segs:
  "subpath_ok rel \<Longrightarrow> rel \<noteq> [] \<Longrightarrow> rel \<noteq> ''.'' \<Longrightarrow> plain_path (split_on slash rel) \<and> CHR 0x00 \<notin> set rel"
proof -
  assume "subpath_ok rel" "rel \<noteq> []" "rel \<noteq> ''.''"
  then obtain ss where "CHR 0x00 \<notin> set rel" and ss: "ss \<noteq> []" "plain_path ss" "rel = join ''/'' ss"
    unfolding subpath_ok_def by blast
  moreover have "split_on slash (join ''/'' ss) = ss"
    using ss by (intro split_abs_path) (auto simp: plain_path_def plain_seg_def)
  ultimately show ?thesis by simp
qed

lemma checkRel_Inr: "(\<exists>r. checkRel rel = Inr r) \<longleftrightarrow> subpath_ok rel"
proof (cases "rel = [] \<or> rel = ''.''")
  case True
  then show ?thesis by (auto simp: checkRel_def subpath_ok_def)
next
  case False
  then have ne: "subpath_ok rel \<Longrightarrow> \<forall>seg \<in> set (split_on slash rel). seg \<noteq> []"
    using subpath_ok_segs by (simp add: plain_path_def plain_seg_def)
  from False have l: "(\<exists>r. checkRel rel = Inr r) \<longleftrightarrow> \<not> hasPrefix rel ''/'' \<and> CHR 0x00 \<notin> set rel
     \<and> path_Clean rel = rel \<and> (\<forall>seg \<in> set (split_on slash rel). seg \<noteq> ''..'' \<and> seg \<noteq> [])"
    using checkRel_Inr_iff [of rel] by (simp only: de_Morgan_disj) metis
  from False have v: "subpath_ok rel \<longleftrightarrow> \<not> hasPrefix rel ''/'' \<and> CHR 0x00 \<notin> set rel
     \<and> (\<forall>seg \<in> set (split_on slash rel). seg \<noteq> ''..'') \<and> path_Clean rel = rel"
    using validateSubPath_None_conds [of rel "[]"] by (simp only: validateSubPath_None) metis
  show ?thesis
  proof (cases "subpath_ok rel")
    case True
    from ne [OF True] v True show ?thesis unfolding l by metis
  next
    case False
    with v show ?thesis unfolding l by metis
  qed
qed

lemma checkRel_Inl: "checkRel rel = Inl e \<Longrightarrow> e = ErrBadPath"
  unfolding checkRel_def by (simp split: if_splits)

lemma checkRel_segs:
  assumes r: "checkRel rel = Inr r"
  shows "r = ''.'' \<or> (plain_path (split_on slash r) \<and> CHR 0x00 \<notin> set r)"
proof (cases "rel = [] \<or> rel = ''.''")
  case True
  with r show ?thesis by (auto simp: checkRel_def)
next
  case False
  then have "r = rel" using r checkRel_Inr_iff by blast
  moreover have "subpath_ok rel" using r checkRel_Inr by blast
  ultimately show ?thesis using False subpath_ok_segs by blast
qed

section \<open>Containment\<close>

text \<open>
  What the code relies on of the kernel: an \<open>openat\<close> of one plain segment with \<open>O_NOFOLLOW\<close>
  yields an entry of that directory, and an \<open>openat2\<close> with \<open>RESOLVE_BENEATH\<close> a descendant.
\<close>

definition nofollow_law :: "('d \<Rightarrow> 'd \<Rightarrow> bool) \<Rightarrow> 'd sys \<Rightarrow> bool" where
  "nofollow_law child os \<longleftrightarrow>
     (\<forall>d seg fl mode fd. O_NOFOLLOW \<in> fl \<and> plain_seg seg \<and> sys_Openat os d seg fl mode = Inr fd \<longrightarrow> child d fd)"

definition beneath_law :: "('d \<Rightarrow> 'd \<Rightarrow> bool) \<Rightarrow> 'd sys \<Rightarrow> bool" where
  "beneath_law child os \<longleftrightarrow>
     (\<forall>d rel how fd. RESOLVE_BENEATH \<in> how_Resolve how \<and> sys_Openat2 os d rel how = Inr fd \<longrightarrow> child\<^sup>*\<^sup>* d fd)"

lemma walkSegs_inside:
  assumes "nofollow_law child os"
  shows "walkSegs os d ss fl perm fds = (Inr fd, fds') \<Longrightarrow> plain_path ss \<Longrightarrow> child\<^sup>*\<^sup>* d fd"
proof (induction ss arbitrary: d fds)
  case (Cons seg rest)
  from Cons.prems obtain fd1 fl1 mode where o: "sys_Openat os d seg fl1 mode = Inr fd1" "O_NOFOLLOW \<in> fl1"
    and r: "walkSegs os fd1 rest fl perm (remove1 d (fd1 # fds)) = (Inr fd, fds')"
    by (auto simp: Let_def split: sum.splits if_splits)
  have "plain_seg seg" "plain_path rest" using Cons.prems(2) by (auto simp: plain_path_def)
  then have "child d fd1" using o assms unfolding nofollow_law_def by blast
  then show ?case using Cons.IH [OF r \<open>plain_path rest\<close>] by (rule converse_rtranclp_into_rtranclp)
qed simp

lemma openBeneathAt2_inside:
  assumes "beneath_law child os" "openBeneathAt2 os root rel fl perm fds = (Some (Inr f), fds')"
  shows "\<exists>d. sys_Open os root rootFlags = Inr d \<and> child\<^sup>*\<^sup>* d (f_Fd f)"
proof -
  from assms(2) obtain d fd where "sys_Open os root rootFlags = Inr d"
    "sys_Openat2 os d rel (beneathHow fl perm) = Inr fd" "f = \<lparr>f_Fd = fd, f_Name = root @ ''/'' @ rel\<rparr>"
    by (auto simp: openBeneathAt2_def Let_def split: sum.splits if_splits)
  moreover have "RESOLVE_BENEATH \<in> how_Resolve (beneathHow fl perm)" by (simp add: beneathHow_def)
  ultimately show ?thesis using assms(1) unfolding beneath_law_def by auto
qed

lemma openBeneathWalk_inside:
  assumes "nofollow_law child os" "rel = ''.'' \<or> plain_path (split_on slash rel)"
    "openBeneathWalk os root rel fl perm fds = (Inr f, fds')"
  shows "\<exists>d. sys_Open os root rootFlags = Inr d \<and> child\<^sup>*\<^sup>* d (f_Fd f)"
proof -
  from assms(3) obtain d where d: "sys_Open os root rootFlags = Inr d"
    by (auto simp: openBeneathWalk_def split: sum.splits)
  show ?thesis
  proof (cases "rel = ''.''")
    case True
    with assms(3) d show ?thesis by (auto simp: openBeneathWalk_def)
  next
    case False
    with assms(3) d obtain fd fds2 where
      "walkSegs os d (split_on slash rel) fl perm (d # fds) = (Inr fd, fds2)" "f_Fd f = fd"
      by (auto simp: openBeneathWalk_def split: sum.splits prod.splits)
    then show ?thesis using walkSegs_inside [OF assms(1)] assms(2) False d by metis
  qed
qed

lemma OpenBeneath_inside:
  assumes "nofollow_law child os" and "beneath_law child os"
    and res: "OpenBeneath os root rel flags perm st = (Inr f, st')"
  shows "\<exists>d. sys_Open os root rootFlags = Inr d \<and> child\<^sup>*\<^sup>* d (f_Fd f)"
proof -
  from res obtain r where r: "checkRel rel = Inr r" and o: "openBeneath os root r flags perm st = (Inr f, st')"
    by (auto simp: OpenBeneath_def split: sum.splits)
  from o consider fds where "openBeneathAt2 os root r flags perm (openFds st) = (Some (Inr f), fds)"
    | fds fds' where "openBeneathWalk os root r flags perm fds = (Inr f, fds')"
    by (auto simp: openBeneath_def Let_def split: if_splits prod.splits option.splits)
  then show ?thesis
    using openBeneathAt2_inside [OF assms(2)] openBeneathWalk_inside [OF assms(1)] checkRel_segs [OF r]
    by cases metis+
qed

section \<open>Descriptors\<close>

definition leak_free :: "('e, 'd os_file) result \<Rightarrow> 'd list \<Rightarrow> 'd list \<Rightarrow> bool" where
  "leak_free r fds fds' \<longleftrightarrow>
     mset fds' = (case r of Inl e \<Rightarrow> mset fds | Inr f \<Rightarrow> add_mset (f_Fd f) (mset fds))"

lemma walkSegs_fds_gen:
  "mset fds0 = add_mset d (mset fds) \<Longrightarrow> walkSegs os d ss fl perm fds0 = (r, fds') \<Longrightarrow>
     mset fds' = (case r of Inl e \<Rightarrow> mset fds | Inr fd \<Rightarrow> add_mset fd (mset fds))"
proof (induction ss arbitrary: d fds0)
  case (Cons seg rest)
  show ?case
  proof (cases "\<exists>e. r = Inl e \<and> fds' = remove1 d fds0")
    case True
    with Cons.prems(1) show ?thesis by auto
  next
    case False
    with Cons.prems(2) obtain fd1 where r: "walkSegs os fd1 rest fl perm (remove1 d (fd1 # fds0)) = (r, fds')"
      by (auto simp: Let_def split: sum.splits if_splits)
    have "mset (remove1 d (fd1 # fds0)) = add_mset fd1 (mset fds)"
      using Cons.prems(1) by (simp add: add_mset_commute)
    from Cons.IH [OF this r] show ?thesis .
  qed
qed auto

lemmas walkSegs_fds = walkSegs_fds_gen [of "d # fds" d fds for d fds, simplified]

lemma openBeneathWalk_leak_free:
  "openBeneathWalk os root rel fl perm fds = (r, fds') \<Longrightarrow> leak_free r fds fds'"
  by (auto simp: openBeneathWalk_def leak_free_def dest!: walkSegs_fds split: sum.splits if_splits prod.splits)

lemma openBeneathAt2_leak_free:
  "openBeneathAt2 os root rel fl perm fds = (r, fds') \<Longrightarrow>
     (case r of None \<Rightarrow> mset fds' = mset fds | Some x \<Rightarrow> leak_free x fds fds')"
  by (auto simp: openBeneathAt2_def Let_def leak_free_def split: sum.splits if_splits)

lemma leak_free_cong: "leak_free r fds1 fds' \<Longrightarrow> mset fds = mset fds1 \<Longrightarrow> leak_free r fds fds'"
  by (simp add: leak_free_def split: sum.splits)

lemma openBeneath_leak_free:
  assumes "openBeneath os root rel fl perm st = (r, st')"
  shows "leak_free r (openFds st) (openFds st')"
proof -
  obtain a fds where a: "openBeneathAt2 os root rel fl perm (openFds st) = (a, fds)" by force
  obtain w fw where w: "openBeneathWalk os root rel fl perm (openFds st) = (w, fw)" by force
  obtain v fv where v: "openBeneathWalk os root rel fl perm fds = (v, fv)" by force
  from assms a w v have
    "(r = w \<and> openFds st' = fw) \<or> (a = Some r \<and> openFds st' = fds) \<or> (a = None \<and> r = v \<and> openFds st' = fv)"
    by (auto simp: openBeneath_def Let_def split: if_splits option.splits)
  then show ?thesis
    using openBeneathWalk_leak_free [OF w] openBeneathWalk_leak_free [OF v] openBeneathAt2_leak_free [OF a]
    by (auto intro: leak_free_cong)
qed

lemma OpenBeneath_leak_free:
  "OpenBeneath os root rel fl perm st = (r, st') \<Longrightarrow> leak_free r (openFds st) (openFds st')"
  by (auto simp: OpenBeneath_def leak_free_def split: sum.splits)
     (auto dest!: openBeneath_leak_free simp: leak_free_def)

section \<open>Properties\<close>

text \<open>The two lexical gates agree. The sub-path of a mount passes \<open>validateSubPath\<close> exactly when
  \<open>checkRel\<close> accepts it, and then what \<open>checkRel\<close> hands to the kernel is either the root itself or
  a sequence of plain segments: no empty one, no dot, no climbing one, no NUL.\<close>

lemma checkRel_agrees_with_validateSubPath:
  "((\<exists>r. checkRel sub = Inr r) \<longleftrightarrow> validateSubPath field sub = None)
   \<and> (\<forall>r. checkRel sub = Inr r \<longrightarrow> r = ''.'' \<or> (plain_path (split_on slash r) \<and> CHR 0x00 \<notin> set r))
   \<and> (\<forall>e. checkRel sub = Inl e \<longrightarrow> IsEscape e)"
  using checkRel_Inr checkRel_Inl checkRel_segs validateSubPath_None by (auto simp: IsEscape_def)

text \<open>C4: containment. Whatever the state of the latch and whatever relative path the caller gives,
  a descriptor returned by \<open>OpenBeneath\<close> is the root's or one of a descendant of the root, given that
  the kernel keeps the promises of \<open>O_NOFOLLOW\<close> on one segment and of \<open>RESOLVE_BENEATH\<close>.\<close>

theorem OpenBeneath_stays_inside:
  assumes "nofollow_law child os" and "beneath_law child os"
    and res: "OpenBeneath os root rel flags perm st = (Inr f, st')"
  shows "\<exists>d. sys_Open os root rootFlags = Inr d \<and> child\<^sup>*\<^sup>* d (f_Fd f)"
  using assms by (rule OpenBeneath_inside)

text \<open>A kernel without \<open>openat2\<close> whose descriptors are the paths themselves, with one symbolic link.\<close>

definition demoSys :: "string list sys" where
  "demoSys = \<lparr>sys_Open = (\<lambda>p fl. Inr (segs p)),
     sys_Openat = (\<lambda>d seg fl mode. if seg = ''link'' then Inl ELOOP
        else if plain_seg seg then Inr (d @ [seg]) else Inl ENOENT),
     sys_Openat2 = (\<lambda>d rel how. Inl ENOSYS)\<rparr>"

definition demoSt :: "string list pstate" where
  "demoSt = \<lparr>openat2Missing = False, openFds = []\<rparr>"

lemma demo_open:
  "OpenBeneath demoSys ''/work'' ''a/b'' {O_RDONLY} 0 demoSt =
     (Inr \<lparr>f_Fd = [''work'', ''a'', ''b''], f_Name = ''/work/a/b''\<rparr>,
      \<lparr>openat2Missing = True, openFds = [[''work'', ''a'', ''b'']]\<rparr>)"
  by code_simp

theorem OpenBeneath_stays_inside_witness:
  "(\<lambda>d c. \<exists>s. c = d @ [s])\<^sup>*\<^sup>* [''work''] [''work'', ''a'', ''b'']"
proof -
  let ?child = "\<lambda>d c. \<exists>s. c = d @ [s :: string]"
  have "nofollow_law ?child demoSys" "beneath_law ?child demoSys"
    by (auto simp: nofollow_law_def beneath_law_def demoSys_def split: if_splits)
  from OpenBeneath_stays_inside [OF this demo_open] show ?thesis
    by (simp add: demoSys_def segs_def)
qed

text \<open>No descriptor leaks. Every opening operation returns with exactly the descriptors that were open
  before plus the one it hands out, and with none added when it fails; \<open>ResolveBeneath\<close> leaves none.\<close>

lemma safepath_leaks_no_descriptor:
  "(OpenBeneath os root rel flags perm st = (r, st') \<longrightarrow> leak_free r (openFds st) (openFds st'))
   \<and> (OpenMount os root rel fds = (m, fds') \<longrightarrow> leak_free m fds fds')
   \<and> (ResolveBeneath os root rel st = (p, st2) \<longrightarrow> mset (openFds st2) = mset (openFds st))"
proof (intro conjI impI)
  show "leak_free r (openFds st) (openFds st')" if "OpenBeneath os root rel flags perm st = (r, st')"
    using that by (rule OpenBeneath_leak_free)
  show "leak_free m fds fds'" if "OpenMount os root rel fds = (m, fds')"
    using that by (auto simp: OpenMount_def leak_free_def split: sum.splits if_splits)
  show "mset (openFds st2) = mset (openFds st)" if "ResolveBeneath os root rel st = (p, st2)"
    using that by (auto simp: ResolveBeneath_def leak_free_def split: prod.splits sum.splits
        dest!: OpenBeneath_leak_free)
qed

text \<open>The latch only ever goes from openat2 to the walk, and one \<open>EPERM\<close> of a single call is enough:
  from then on every open of the process takes the walk, although the function's comment reserves
  that for a kernel that does not implement openat2 at all.\<close>

lemma openat2_latch:
  assumes "sys_Open os root rootFlags = Inr d" and "CHR 0x00 \<notin> set rel"
    and "sys_Openat2 os d rel (beneathHow flags perm) = Inl EPERM"
  shows "openat2Missing (snd (openBeneath os root rel flags perm st))
    \<and> openBeneath os root rel flags perm st
        = openBeneath os root rel flags perm (st\<lparr>openat2Missing := True, openFds := openFds st\<rparr>)"
  using assms by (auto simp: openBeneath_def openBeneathAt2_def Let_def split: prod.splits)

end
