(* ===== verification/Workload_Filter.thy ===== *)
theory Workload_Filter
  imports Go_Strings "HOL-Library.Word"
begin

text \<open>
  The system-call filter of the workload (\<open>pkg/isolation/filesystem_linux.go\<close>): the classic BPF program, the bytes of its
  instructions, and the sealed memory file in which bubblewrap gets it. The kernel's check of a program is written out, and a
  program that passes it always returns.
\<close>

unbundle bit_operations_syntax

section \<open>The program\<close>

text \<open>
  A classic BPF instruction \<open>SockFilter{Code, Jt, Jf, K}\<close>; \<open>Code\<close> takes the four values the
  program uses.
\<close>

datatype bpf_code = LD_W_ABS | JMP_JEQ_K | JMP_JSET_K | RET_K

record sock_filter =
  Code :: bpf_code
  Jt :: "8 word"
  Jf :: "8 word"
  K :: "32 word"

definition ins :: "bpf_code \<Rightarrow> 32 word \<Rightarrow> 8 word \<Rightarrow> 8 word \<Rightarrow> sock_filter" where
  "ins c k jt jf = \<lparr>Code = c, Jt = jt, Jf = jf, K = k\<rparr>"

text \<open>The constants of \<open>golang.org/x/sys/unix\<close> the program is made of.\<close>

record unix_consts =
  u_AUDIT_ARCH_AARCH64 :: "32 word"
  u_AUDIT_ARCH_X86_64 :: "32 word"
  u_KILL_PROCESS :: "32 word"
  u_RET_ERRNO :: "32 word"
  u_RET_ALLOW :: "32 word"
  u_EPERM :: "32 word"
  u_ENOSYS :: "32 word"
  u_SYS :: "string \<Rightarrow> 32 word"
  u_CLONE :: "string \<Rightarrow> 32 word"

definition auditArch :: "unix_consts \<Rightarrow> string \<Rightarrow> 32 word option" where
  "auditArch u goarch =
     (if goarch = ''arm64'' then Some (u_AUDIT_ARCH_AARCH64 u)
      else if goarch = ''amd64'' then Some (u_AUDIT_ARCH_X86_64 u)
      else None)"

text \<open>The calls that only the setup of a sandbox needs, and the flags that make a clone a new namespace.\<close>

definition deniedCalls :: "unix_consts \<Rightarrow> 32 word list" where
  "deniedCalls u = map (u_SYS u)
     [''UNSHARE'', ''SETNS'', ''MOUNT'', ''UMOUNT2'',
      ''PIVOT_ROOT'', ''CHROOT'', ''PTRACE'', ''PROCESS_VM_READV'',
      ''PROCESS_VM_WRITEV'', ''PIDFD_GETFD'', ''OPEN_BY_HANDLE_AT'',
      ''NAME_TO_HANDLE_AT'', ''OPEN_TREE'', ''MOVE_MOUNT'', ''FSOPEN'',
      ''FSMOUNT'', ''FSCONFIG'', ''FSPICK'', ''MOUNT_SETATTR'',
      ''BPF'', ''PERF_EVENT_OPEN'', ''USERFAULTFD'', ''IO_URING_SETUP'']"

definition cloneFlags :: "unix_consts \<Rightarrow> 32 word list" where
  "cloneFlags u = map (u_CLONE u) [''NEWUSER'', ''NEWNS'', ''NEWPID'', ''NEWNET'', ''NEWIPC'', ''NEWUTS'', ''NEWCGROUP'']"

definition deny :: "unix_consts \<Rightarrow> 32 word \<Rightarrow> 32 word \<Rightarrow> sock_filter list" where
  "deny u n errno = [ins JMP_JEQ_K n 0 1, ins RET_K (u_RET_ERRNO u OR errno) 0 0]"

definition cloneMask :: "unix_consts \<Rightarrow> 32 word" where
  "cloneMask u = foldr (OR) (cloneFlags u) 0"

text \<open>The instruction list; \<open>None\<close> for an architecture the filter does not support.\<close>

definition WorkloadFilter :: "unix_consts \<Rightarrow> string \<Rightarrow> sock_filter list option" where
  "WorkloadFilter u goarch =
     (case auditArch u goarch of
        None \<Rightarrow> None
      | Some arch \<Rightarrow> Some (
          [ins LD_W_ABS 4 0 0, ins JMP_JEQ_K arch 1 0, ins RET_K (u_KILL_PROCESS u) 0 0, ins LD_W_ABS 0 0 0]
          @ [ins JMP_JSET_K 0x40000000 0 1, ins RET_K (u_KILL_PROCESS u) 0 0]
          @ concat (map (\<lambda>n. deny u n (u_EPERM u)) (deniedCalls u))
          @ deny u (u_SYS u ''CLONE3'') (u_ENOSYS u)
          @ [ins JMP_JEQ_K (u_SYS u ''CLONE'') 0 3, ins LD_W_ABS 16 0 0,
             ins JMP_JSET_K (cloneMask u) 0 1,
             ins RET_K (u_RET_ERRNO u OR u_EPERM u) 0 0, ins RET_K (u_RET_ALLOW u) 0 0]))"

text \<open>
  The documented meaning of the four instructions on the words of \<open>struct seccomp_data\<close>: load into
  the accumulator, jump forward over \<open>jt\<close> or \<open>jf\<close> instructions, return. \<open>None\<close> is a program
  that runs off its end, which the kernel refuses to load.
\<close>

function bpfRun :: "(32 word \<Rightarrow> 32 word) \<Rightarrow> 32 word \<Rightarrow> sock_filter list \<Rightarrow> 32 word option" where
  "bpfRun pkt a [] = None"
| "bpfRun pkt a (i # is) =
     (case Code i of
        LD_W_ABS \<Rightarrow> bpfRun pkt (pkt (K i)) is
      | JMP_JEQ_K \<Rightarrow> bpfRun pkt a (drop (unat (if a = K i then Jt i else Jf i)) is)
      | JMP_JSET_K \<Rightarrow> bpfRun pkt a (drop (unat (if a AND K i \<noteq> 0 then Jt i else Jf i)) is)
      | RET_K \<Rightarrow> Some (K i))"
  by pat_completeness auto
termination
  by (relation "measure (\<lambda>(pkt, a, is). length is)") auto

text \<open>\<open>nr\<close> at offset 0, \<open>arch\<close> at 4, the low word of the first argument at 16.\<close>

definition seccompData :: "32 word \<Rightarrow> 32 word \<Rightarrow> 32 word \<Rightarrow> 32 word \<Rightarrow> 32 word" where
  "seccompData nr arch arg0 off = (if off = 0 then nr else if off = 4 then arch else if off = 16 then arg0 else 0)"

text \<open>What the program is meant to decide.\<close>

definition workloadVerdict :: "unix_consts \<Rightarrow> 32 word \<Rightarrow> 32 word \<Rightarrow> 32 word \<Rightarrow> 32 word \<Rightarrow> 32 word" where
  "workloadVerdict u native nr arch arg0 =
     (if arch \<noteq> native \<or> nr AND 0x40000000 \<noteq> 0 then u_KILL_PROCESS u
      else if nr \<in> set (deniedCalls u) then u_RET_ERRNO u OR u_EPERM u
      else if nr = u_SYS u ''CLONE3'' then u_RET_ERRNO u OR u_ENOSYS u
      else if nr = u_SYS u ''CLONE'' \<and> arg0 AND cloneMask u \<noteq> 0 then u_RET_ERRNO u OR u_EPERM u
      else u_RET_ALLOW u)"

text \<open>The constants on one of the two architectures.\<close>

definition linux_amd64 :: unix_consts where
  "linux_amd64 = \<lparr>u_AUDIT_ARCH_AARCH64 = 0xC00000B7, u_AUDIT_ARCH_X86_64 = 0xC000003E, u_KILL_PROCESS = 0x80000000, u_RET_ERRNO = 0x50000,
     u_RET_ALLOW = 0x7FFF0000, u_EPERM = 1, u_ENOSYS = 38,
     u_SYS = (\<lambda>n. (case_option 0 id) (map_of
       [(''CLONE'', 56), (''CLONE3'', 435), (''UNSHARE'', 272), (''SETNS'', 308), (''MOUNT'', 165), (''UMOUNT2'', 166), (''PIVOT_ROOT'', 155),
        (''CHROOT'', 161), (''PTRACE'', 101), (''PROCESS_VM_READV'', 310), (''PROCESS_VM_WRITEV'', 311), (''PIDFD_GETFD'', 438),
        (''OPEN_BY_HANDLE_AT'', 304), (''NAME_TO_HANDLE_AT'', 303), (''OPEN_TREE'', 428), (''MOVE_MOUNT'', 429), (''FSOPEN'', 430),
        (''FSMOUNT'', 432), (''FSCONFIG'', 431), (''FSPICK'', 433), (''MOUNT_SETATTR'', 442), (''BPF'', 321), (''PERF_EVENT_OPEN'', 298),
        (''USERFAULTFD'', 323), (''IO_URING_SETUP'', 425)] n)),
     u_CLONE = (\<lambda>n. (case_option 0 id) (map_of
       [(''NEWUSER'', 0x10000000), (''NEWNS'', 0x20000), (''NEWPID'', 0x20000000), (''NEWNET'', 0x40000000), (''NEWIPC'', 0x08000000),
        (''NEWUTS'', 0x04000000), (''NEWCGROUP'', 0x02000000)] n))\<rparr>"

lemma bpfRun_deny:
  "bpfRun pkt a (deny u n e @ rest) = (if a = n then Some (u_RET_ERRNO u OR e) else bpfRun pkt a rest)"
  by (simp add: deny_def ins_def)

lemma bpfRun_denies:
  "bpfRun pkt a (concat (map (\<lambda>n. deny u n e) ns) @ rest) =
     (if a \<in> set ns then Some (u_RET_ERRNO u OR e) else bpfRun pkt a rest)"
  by (induction ns) (auto simp: bpfRun_deny)

lemma bpfRun_clone:
  "bpfRun pkt a [ins JMP_JEQ_K c 0 3, ins LD_W_ABS 16 0 0, ins JMP_JSET_K m 0 1, ins RET_K e 0 0, ins RET_K ok 0 0]
     = Some (if a = c \<and> pkt 16 AND m \<noteq> 0 then e else ok)"
  by (simp add: ins_def)

lemma bpfRun_head:
  "bpfRun (seccompData nr arch arg0) 0
     ([ins LD_W_ABS 4 0 0, ins JMP_JEQ_K native 1 0, ins RET_K kill 0 0, ins LD_W_ABS 0 0 0]
      @ [ins JMP_JSET_K x 0 1, ins RET_K kill 0 0] @ rest) =
   (if arch \<noteq> native \<or> nr AND x \<noteq> 0 then Some kill else bpfRun (seccompData nr arch arg0) nr rest)"
  by (simp add: ins_def seccompData_def)

section \<open>The file\<close>

text \<open>The values of \<open>Code\<close>: class, size or operation, and mode or source.\<close>

definition opcode :: "bpf_code \<Rightarrow> 16 word" where
  "opcode c = (case c of LD_W_ABS \<Rightarrow> 0x20 | JMP_JEQ_K \<Rightarrow> 0x15 | JMP_JSET_K \<Rightarrow> 0x45 | RET_K \<Rightarrow> 0x06)"

text \<open>\<open>binary.Write\<close> with \<open>LittleEndian\<close>: the fields of each instruction in their order, low byte first.\<close>

definition le16 :: "16 word \<Rightarrow> 8 word list" where
  "le16 w = [ucast w, ucast (drop_bit 8 w)]"

definition le32 :: "32 word \<Rightarrow> 8 word list" where
  "le32 w = [ucast w, ucast (drop_bit 8 w), ucast (drop_bit 16 w), ucast (drop_bit 24 w)]"

definition encodeIns :: "sock_filter \<Rightarrow> 8 word list" where
  "encodeIns i = le16 (opcode (Code i)) @ [Jt i, Jf i] @ le32 (K i)"

definition encodeFilter :: "sock_filter list \<Rightarrow> 8 word list" where
  "encodeFilter prog = concat (map encodeIns prog)"

text \<open>A memory file, and what the kernel answers to the four calls on it; a write that succeeds wrote everything.\<close>

record memfile =
  mem_Data :: "8 word list"
  mem_Off :: nat
  mem_Seals :: "string list"

record memfd_sys =
  ms_Create :: "string option"
  ms_Write :: "8 word list \<Rightarrow> string option"
  ms_Seek :: "string option"
  ms_AddSeals :: "string option"

text \<open>\<open>n\<close> is the number of descriptors that are open.\<close>

definition WorkloadFilterFile :: "unix_consts \<Rightarrow> string \<Rightarrow> memfd_sys \<Rightarrow> int \<Rightarrow> (string, memfile) result \<times> int" where
  "WorkloadFilterFile u goarch ms n =
     (case WorkloadFilter u goarch of
        None \<Rightarrow> (Inl (''filesystem isolation does not support '' @ goarch), n)
      | Some prog \<Rightarrow>
     (case ms_Create ms of
        Some e \<Rightarrow> (Inl e, n)
      | None \<Rightarrow>
          (let n1 = n + 1; f = \<lparr>mem_Data = [], mem_Off = 0, mem_Seals = []\<rparr>; data = encodeFilter prog in
     (case ms_Write ms data of
        Some e \<Rightarrow> (Inl e, n1 - 1)
      | None \<Rightarrow>
          (let f1 = f\<lparr>mem_Data := data, mem_Off := length data\<rparr> in
     (case ms_Seek ms of
        Some e \<Rightarrow> (Inl e, n1 - 1)
      | None \<Rightarrow>
          (let f2 = f1\<lparr>mem_Off := 0\<rparr> in
     (case ms_AddSeals ms of
        Some e \<Rightarrow> (Inl e, n1 - 1)
      | None \<Rightarrow> (Inr (f2\<lparr>mem_Seals := [''WRITE'', ''GROW'', ''SHRINK'', ''SEAL'']\<rparr>), n1)))))))))"

section \<open>What the kernel does with it\<close>

text \<open>bubblewrap reads instructions of eight bytes from where the file stands.\<close>

definition opcodeOf :: "16 word \<Rightarrow> bpf_code option" where
  "opcodeOf w = (if w = 0x20 then Some LD_W_ABS else if w = 0x15 then Some JMP_JEQ_K else if w = 0x45 then Some JMP_JSET_K
     else if w = 0x06 then Some RET_K else None)"

definition of_le16 :: "8 word \<Rightarrow> 8 word \<Rightarrow> 16 word" where
  "of_le16 a b = ucast a OR push_bit 8 (ucast b)"

definition of_le32 :: "8 word \<Rightarrow> 8 word \<Rightarrow> 8 word \<Rightarrow> 8 word \<Rightarrow> 32 word" where
  "of_le32 a b c d = ucast a OR push_bit 8 (ucast b) OR push_bit 16 (ucast c) OR push_bit 24 (ucast d)"

fun decodeFilter :: "8 word list \<Rightarrow> sock_filter list option" where
  "decodeFilter [] = Some []"
| "decodeFilter (c0 # c1 # jt # jf # k0 # k1 # k2 # k3 # bs) =
     (case opcodeOf (of_le16 c0 c1) of
        None \<Rightarrow> None
      | Some c \<Rightarrow> map_option ((#) (ins c (of_le32 k0 k1 k2 k3) jt jf)) (decodeFilter bs))"
| "decodeFilter bs = None"

text \<open>The check a program passes before it is installed: loads inside \<open>struct seccomp_data\<close> and aligned, jumps forward to an
  instruction of the program, a return at the end, and a bounded length.\<close>

definition insOk :: "sock_filter \<Rightarrow> nat \<Rightarrow> bool" where
  "insOk i rest \<longleftrightarrow>
     (case Code i of
        LD_W_ABS \<Rightarrow> K i < 64 \<and> K i AND 3 = 0
      | RET_K \<Rightarrow> True
      | _ \<Rightarrow> unat (Jt i) < rest \<and> unat (Jf i) < rest)"

fun checkIns :: "sock_filter list \<Rightarrow> bool" where
  "checkIns [] = False"
| "checkIns [i] = (Code i = RET_K)"
| "checkIns (i # j # is) = (insOk i (Suc (length is)) \<and> checkIns (j # is))"

definition kernelAccepts :: "sock_filter list \<Rightarrow> bool" where
  "kernelAccepts prog \<longleftrightarrow> length prog \<le> 4096 \<and> checkIns prog"

lemma checkIns_Cons: "is \<noteq> [] \<Longrightarrow> checkIns (i # is) \<longleftrightarrow> insOk i (length is) \<and> checkIns is"
  by (cases "is") simp_all

lemma checkIns_nonempty: "checkIns is \<Longrightarrow> is \<noteq> []"
  by auto

lemma checkIns_drop: "checkIns is \<Longrightarrow> n < length is \<Longrightarrow> checkIns (drop n is)"
proof (induction n arbitrary: "is")
  case (Suc n)
  obtain i js where "is = i # js" using Suc.prems by (cases "is") auto
  moreover from this have "js \<noteq> []" using Suc.prems(2) by (cases js) auto
  ultimately show ?case using Suc by (simp add: checkIns_Cons)
qed simp

text \<open>An accepted program always returns, and what it returns is in one of its return instructions.\<close>

lemma checked_returns: "checkIns is \<Longrightarrow> \<exists>i \<in> set is. Code i = RET_K \<and> bpfRun pkt a is = Some (K i)"
proof (induction pkt a "is" rule: bpfRun.induct)
  case (2 pkt a i js)
  show ?case
  proof (cases "js = []")
    case True
    then show ?thesis using "2.prems" by simp
  next
    case False
    then have ok: "insOk i (length js)" "checkIns js" using "2.prems" by (simp_all add: checkIns_Cons)
    have jump: "\<exists>x \<in> set (i # js). Code x = RET_K \<and> bpfRun pkt a (drop n js) = Some (K x)"
      if "n < length js" "\<exists>x \<in> set (drop n js). Code x = RET_K \<and> bpfRun pkt a (drop n js) = Some (K x)" for n
      using that(2) in_set_dropD by fastforce
    show ?thesis
    proof (cases "Code i")
      case LD_W_ABS
      then show ?thesis using "2.IH"(1) ok by auto
    next
      case JMP_JEQ_K
      let ?n = "unat (if a = K i then Jt i else Jf i)"
      have n: "?n < length js" using ok(1) JMP_JEQ_K by (simp add: insOk_def)
      from jump [OF n "2.IH"(2) [OF JMP_JEQ_K checkIns_drop [OF ok(2) n]]] show ?thesis using JMP_JEQ_K by simp
    next
      case JMP_JSET_K
      let ?n = "unat (if a AND K i \<noteq> 0 then Jt i else Jf i)"
      have n: "?n < length js" using ok(1) JMP_JSET_K by (simp add: insOk_def)
      from jump [OF n "2.IH"(3) [OF JMP_JSET_K checkIns_drop [OF ok(2) n]]] show ?thesis using JMP_JSET_K by simp
    next
      case RET_K
      then show ?thesis by simp
    qed
  qed
qed simp

section \<open>Round trip and acceptance\<close>

lemma le16_round: "of_le16 (ucast w) (ucast (drop_bit 8 w)) = w"
  by (rule bit_word_eqI) (auto simp: of_le16_def bit_or_iff bit_push_bit_iff bit_ucast_iff bit_drop_bit_eq)

lemma le32_round: "of_le32 (ucast w) (ucast (drop_bit 8 w)) (ucast (drop_bit 16 w)) (ucast (drop_bit 24 w)) = w"
proof (rule bit_word_eqI)
  fix n assume "n < LENGTH(32)"
  then show "bit (of_le32 (ucast w) (ucast (drop_bit 8 w)) (ucast (drop_bit 16 w)) (ucast (drop_bit 24 w))) n = bit w n"
    by (cases "n < 16"; cases "n < 24") (auto simp: of_le32_def bit_or_iff bit_push_bit_iff bit_ucast_iff bit_drop_bit_eq)
qed

lemma opcode_round: "opcodeOf (opcode c) = Some c"
  by (cases c) (simp_all add: opcodeOf_def opcode_def)

lemma filter_round_trip: "decodeFilter (encodeFilter prog) = Some prog"
proof (induction prog)
  case (Cons i prog)
  have "ins (Code i) (K i) (Jt i) (Jf i) = i" by (simp add: ins_def)
  with Cons show ?case
    by (simp add: encodeFilter_def encodeIns_def le16_def le32_def le16_round le32_round opcode_round)
qed (simp add: encodeFilter_def)

lemma checkIns_deny: "checkIns rest \<Longrightarrow> checkIns (deny u n e @ rest)"
  using checkIns_nonempty [of rest] by (simp add: deny_def ins_def checkIns_Cons insOk_def)

lemma checkIns_denies: "checkIns rest \<Longrightarrow> checkIns (concat (map (\<lambda>n. deny u n e) ns) @ rest)"
  by (induction ns) (simp_all add: checkIns_deny)

lemma checkIns_head:
  assumes "checkIns rest"
  shows "checkIns ([ins LD_W_ABS 4 0 0, ins JMP_JEQ_K native 1 0, ins RET_K kill 0 0, ins LD_W_ABS 0 0 0]
      @ [ins JMP_JSET_K x 0 1, ins RET_K kill 0 0] @ rest)"
  using assms checkIns_nonempty [OF assms] by (simp add: ins_def checkIns_Cons insOk_def)

lemma checkIns_clone:
  "checkIns [ins JMP_JEQ_K c 0 3, ins LD_W_ABS 16 0 0, ins JMP_JSET_K m 0 1, ins RET_K e 0 0, ins RET_K ok 0 0]"
  by (simp add: ins_def insOk_def)

lemma filter_accepted:
  assumes "WorkloadFilter u goarch = Some prog"
  shows "kernelAccepts prog"
proof -
  obtain arch where "auditArch u goarch = Some arch" using assms by (cases "auditArch u goarch") (simp_all add: WorkloadFilter_def)
  with assms have "checkIns prog" "length prog = 59"
    unfolding WorkloadFilter_def
    by (auto simp only: option.case option.inject intro!: checkIns_head checkIns_denies checkIns_deny checkIns_clone)
      (simp add: deniedCalls_def deny_def)
  then show ?thesis by (simp add: kernelAccepts_def)
qed

lemma WorkloadFilterFile_Inr:
  assumes "fst (WorkloadFilterFile u goarch ms n) = Inr f"
  shows "\<exists>prog. WorkloadFilter u goarch = Some prog \<and> decodeFilter (mem_Data f) = Some prog \<and> kernelAccepts prog \<and> mem_Off f = 0"
proof (cases "WorkloadFilter u goarch")
  case None
  then show ?thesis using assms by (simp add: WorkloadFilterFile_def)
next
  case (Some prog)
  then show ?thesis using assms filter_accepted [OF Some]
    by (auto simp: WorkloadFilterFile_def Let_def filter_round_trip split: option.splits)
qed

text \<open>A kernel that refuses nothing.\<close>

definition memfdWorks :: memfd_sys where
  "memfdWorks = \<lparr>ms_Create = None, ms_Write = (\<lambda>_. None), ms_Seek = None, ms_AddSeals = None\<rparr>"

section \<open>Properties\<close>

text \<open>C5: the seccomp program decides what it is meant to on every system call. On a supported
  architecture a call of another architecture or with the x32 bit kills the process, each of the
  setup-only calls fails with EPERM, clone3 with ENOSYS, clone with a namespace flag with EPERM, and
  every other call is allowed; no path runs off the program's end.\<close>

theorem WorkloadFilter_decides:
  "auditArch u goarch = Some native \<Longrightarrow>
   (\<exists>prog. WorkloadFilter u goarch = Some prog
     \<and> (\<forall>nr arch arg0. bpfRun (seccompData nr arch arg0) 0 prog = Some (workloadVerdict u native nr arch arg0)))"
  unfolding WorkloadFilter_def
  by (simp only: option.case option.inject simp_thms bpfRun_head bpfRun_denies bpfRun_deny bpfRun_clone)
     (simp add: workloadVerdict_def seccompData_def)

theorem WorkloadFilter_decides_witness:
  "\<exists>prog. WorkloadFilter linux_amd64 ''amd64'' = Some prog
     \<and> bpfRun (seccompData 56 0xC000003E 0x10000000) 0 prog = Some 0x50001
     \<and> bpfRun (seccompData 165 0xC000003E 0) 0 prog = Some 0x50001
     \<and> bpfRun (seccompData 435 0xC000003E 0) 0 prog = Some 0x50026
     \<and> bpfRun (seccompData 59 0xC000003E 0) 0 prog = Some 0x7FFF0000"
proof -
  have "auditArch linux_amd64 ''amd64'' = Some 0xC000003E" by (simp add: auditArch_def linux_amd64_def)
  moreover have "workloadVerdict linux_amd64 0xC000003E 56 0xC000003E 0x10000000 = 0x50001" by code_simp
  moreover have "workloadVerdict linux_amd64 0xC000003E 165 0xC000003E 0 = 0x50001" by code_simp
  moreover have "workloadVerdict linux_amd64 0xC000003E 435 0xC000003E 0 = 0x50026" by code_simp
  moreover have "workloadVerdict linux_amd64 0xC000003E 59 0xC000003E 0 = 0x7FFF0000" by code_simp
  ultimately show ?thesis using WorkloadFilter_decides [of linux_amd64 "''amd64''" "0xC000003E"] by metis
qed

text \<open>C7: the file bubblewrap is given is a program the kernel takes. Whatever the memory file's calls answer, either the
  function fails and leaves no descriptor behind, or it has opened one: a sealed file at its start, whose bytes are the
  program's instructions. That program passes the kernel's check, so it never runs off its end: on any system call it gives
  one of the verdicts in its return instructions.\<close>

theorem filter_file_is_accepted:
  "case WorkloadFilterFile u goarch ms n of
     (Inl e, n') \<Rightarrow> n' = n
   | (Inr f, n') \<Rightarrow> n' = n + 1 \<and> mem_Off f = 0 \<and> {''WRITE'', ''GROW'', ''SHRINK'', ''SEAL''} \<subseteq> set (mem_Seals f)
       \<and> (\<exists>prog. WorkloadFilter u goarch = Some prog \<and> decodeFilter (mem_Data f) = Some prog \<and> kernelAccepts prog
            \<and> (\<forall>pkt a. \<exists>i \<in> set prog. Code i = RET_K \<and> bpfRun pkt a prog = Some (K i)))"
proof (cases "WorkloadFilter u goarch")
  case None
  then show ?thesis by (simp add: WorkloadFilterFile_def)
next
  case (Some prog)
  note k = filter_accepted [OF Some]
  then have "\<exists>i \<in> set prog. Code i = RET_K \<and> bpfRun pkt a prog = Some (K i)" for pkt a
    using checked_returns by (simp add: kernelAccepts_def)
  with Some k show ?thesis
    by (simp add: WorkloadFilterFile_def Let_def filter_round_trip split: option.splits)
qed

end
