(* ===== verification/Isolation.thy ===== *)
theory Isolation
  imports Safepath Workload_Filter
begin

unbundle bit_operations_syntax

text \<open>
  \<open>pkg/isolation\<close>: measuring the isolation tier of a node (\<open>detect.go\<close>, \<open>caps_linux.go\<close>), the
  filesystem-only tier's probe and its check of the completed view (\<open>probe_filesystem.go\<close>). Running bubblewrap,
  reading \<open>/proc\<close> and the memory file of the filter are parameters.
\<close>

section \<open>Detection\<close>

record iso_result =
  r_Tier :: tier
  r_Reason :: string
  r_Probes :: "string \<rightharpoonup> string"

definition trim :: "string \<Rightarrow> string \<Rightarrow> string" where
  "trim out err = (let s = (if length out > 200 then take 200 out else out) in if s = [] then err else s)"

definition probeBase :: "string list" where
  "probeBase =
     [''--ro-bind-try'', ''/usr'', ''/usr'', ''--ro-bind-try'', ''/bin'', ''/bin'',
      ''--ro-bind-try'', ''/lib'', ''/lib'', ''--ro-bind-try'', ''/lib64'', ''/lib64'',
      ''--ro-bind-try'', ''/sbin'', ''/sbin'', ''--proc'', ''/proc'', ''--dev'', ''/dev'',
      ''--tmpfs'', ''/tmp'', ''--die-with-parent'', ''--'', ''/bin/true'']"

definition probeArgsUserns :: "string list" where
  "probeArgsUserns =
     [''--unshare-user'', ''--unshare-pid'', ''--unshare-ipc'', ''--unshare-uts'',
      ''--uid'', ''1000'', ''--gid'', ''1000''] @ probeBase"

definition probeArgsCapAdmin :: "string list" where
  "probeArgsCapAdmin = [''--unshare-pid'', ''--unshare-ipc'', ''--unshare-uts''] @ probeBase"

text \<open>
  The node: the operating system, \<open>exec.LookPath\<close> (the error if the binary is missing), and the run
  of a command within the probe timeout (its output, and the error if it failed).
\<close>

record node =
  n_GOOS :: string
  n_LookPath :: "string \<Rightarrow> string option"
  n_Run :: "string \<Rightarrow> string list \<Rightarrow> string \<times> string option"
  n_Status :: "string list option"

definition hex_val :: "char \<Rightarrow> nat option" where
  "hex_val c =
     (let n = of_char c :: nat
      in if 48 \<le> n \<and> n \<le> 57 then Some (n - 48)
         else if 97 \<le> n \<and> n \<le> 102 then Some (n - 87)
         else if 65 \<le> n \<and> n \<le> 70 then Some (n - 55) else None)"

fun parse_hex :: "nat \<Rightarrow> string \<Rightarrow> nat option" where
  "parse_hex acc [] = Some acc"
| "parse_hex acc (c # cs) = (case hex_val c of None \<Rightarrow> None | Some d \<Rightarrow> parse_hex (16 * acc + d) cs)"

text \<open>\<open>strconv.ParseUint(s, 16, 64)\<close>: an empty string, a wrong digit and a value over 64 bits are errors.\<close>

definition ParseUint16 :: "string \<Rightarrow> 64 word option" where
  "ParseUint16 s =
     (if s = [] then None
      else case parse_hex 0 s of None \<Rightarrow> None | Some n \<Rightarrow> if n < 2 ^ 64 then Some (of_nat n) else None)"

definition capSysChroot :: nat where "capSysChroot = 18"

fun hasChrootLines :: "string list \<Rightarrow> bool" where
  "hasChrootLines [] = False"
| "hasChrootLines (line # ls) =
     (if \<not> hasPrefix line ''CapEff:'' then hasChrootLines ls
      else case ParseUint16 (TrimSpace (trimPrefix line ''CapEff:'')) of
             None \<Rightarrow> False
           | Some v \<Rightarrow> v AND push_bit capSysChroot 1 \<noteq> 0)"

definition hasChroot :: "node \<Rightarrow> bool" where
  "hasChroot nd = (case n_Status nd of None \<Rightarrow> False | Some ls \<Rightarrow> hasChrootLines ls)"

definition Detect :: "node \<Rightarrow> string \<Rightarrow> iso_result" where
  "Detect nd bwrapPath0 =
     (let p0 = [''goos'' \<mapsto> n_GOOS nd] in
      if n_GOOS nd \<noteq> ''linux'' then
        \<lparr>r_Tier = TierChroot, r_Reason = ''not running on Linux; namespaces unavailable'', r_Probes = p0\<rparr>
      else let bwrapPath = (if bwrapPath0 = [] then ''bwrap'' else bwrapPath0) in
      case n_LookPath nd bwrapPath of
        Some err \<Rightarrow>
          \<lparr>r_Tier = TierChroot, r_Reason = ''bubblewrap not found: '' @ err, r_Probes = p0(''bwrap'' \<mapsto> ''missing'')\<rparr>
      | None \<Rightarrow>
      (case n_Run nd bwrapPath probeArgsUserns of
         (_, None) \<Rightarrow>
           \<lparr>r_Tier = TierUserns, r_Reason = ''unprivileged user namespace available'',
            r_Probes = p0(''userns'' \<mapsto> ''ok'')\<rparr>
       | (out1, Some e1) \<Rightarrow>
           let p1 = p0(''userns'' \<mapsto> trim out1 e1) in
           (case n_Run nd bwrapPath probeArgsCapAdmin of
              (_, None) \<Rightarrow>
                \<lparr>r_Tier = TierCapAdmin,
                 r_Reason = ''mount namespace available via CAP_SYS_ADMIN; no user namespace'',
                 r_Probes = p1(''capadmin'' \<mapsto> ''ok'')\<rparr>
            | (out2, Some e2) \<Rightarrow>
                let p2 = p1(''capadmin'' \<mapsto> trim out2 e2) in
                if hasChroot nd then
                  \<lparr>r_Tier = TierChroot, r_Reason = ''no mount namespace; CAP_SYS_CHROOT present'',
                   r_Probes = p2(''chroot'' \<mapsto> ''ok'')\<rparr>
                else
                  \<lparr>r_Tier = TierChroot,
                   r_Reason = ''no mount namespace and no CAP_SYS_CHROOT; isolation is limited to uid separation'',
                   r_Probes = p2(''chroot'' \<mapsto> ''missing'')\<rparr>)))"

section \<open>The filesystem-only tier\<close>

text \<open>The view of \<open>/proc\<close>: each call answers or fails with an error message.\<close>

record procfs =
  p_Readlink :: "string \<Rightarrow> (string, string) result"
  p_ReadDir :: "string \<Rightarrow> (string, string list) result"
  p_CanOpen :: "string \<Rightarrow> bool"
  p_ReadFile :: "string \<Rightarrow> (string, string) result"
  p_StatDir :: "string \<Rightarrow> bool"

definition readable :: "procfs \<Rightarrow> string \<Rightarrow> bool" where
  "readable fs p = (case p_Readlink fs p of Inr _ \<Rightarrow> True | Inl _ \<Rightarrow> False)"

function Fields :: "string \<Rightarrow> string list" where
  "Fields [] = []"
| "Fields (c # cs) =
     (if isSpace c then Fields cs
      else (c # takeWhile (\<lambda>d. \<not> isSpace d) cs) # Fields (dropWhile (\<lambda>d. \<not> isSpace d) cs))"
  by pat_completeness auto
termination
  by (relation "measure length") (auto simp: less_Suc_eq_le length_dropWhile_le)

definition checkProc :: "procfs \<Rightarrow> string \<Rightarrow> string \<Rightarrow> string option" where
  "checkProc fs own p =
     (if p_Readlink fs (p @ ''/ns/mnt'') = Inr own then None
      else seqErr (firstErr (\<lambda>link. failIf (readable fs (p @ ''/'' @ link))
                     (''outer process filesystem is reachable through '' @ p @ ''/'' @ link)) [''root'', ''cwd''])
          (seqErr (failIf (p_CanOpen fs (p @ ''/environ''))
                     (''outer process environment is readable: '' @ p))
                  (case p_ReadDir fs (p @ ''/fd'') of
                     Inl _ \<Rightarrow> None
                   | Inr fds \<Rightarrow> firstErr (\<lambda>fd. failIf (readable fs (p @ ''/fd/'' @ fd))
                       (''outer process descriptor is accessible: '' @ p @ ''/fd/'' @ fd)) fds)))"

definition procPaths :: "procfs \<Rightarrow> string \<Rightarrow> string list" where
  "procPaths fs name =
     (let base = ''/proc/'' @ name;
          tasks = (case p_ReadDir fs (base @ ''/task'') of Inl _ \<Rightarrow> [] | Inr ts \<Rightarrow> ts)
      in base # map (\<lambda>t. base @ ''/task/'' @ t) tasks)"

definition checkStatusLine :: "string \<Rightarrow> string option" where
  "checkStatusLine line =
     (case Fields line of
        [k, v] \<Rightarrow>
          if k = ''CapEff:'' \<or> k = ''CapPrm:'' \<or> k = ''CapAmb:'' then
            failIf (v \<noteq> ''0000000000000000'') (''workload retains '' @ k @ '' '' @ v)
          else if k = ''NoNewPrivs:'' then failIf (v \<noteq> ''1'') ''no_new_privs is not set''
          else if k = ''Seccomp:'' then failIf (v \<noteq> ''2'') ''seccomp is not active''
          else None
      | _ \<Rightarrow> None)"

text \<open>The number of a descriptor entry; a name that is no number reads as 0.\<close>

definition fdNumber :: "string \<Rightarrow> int" where
  "fdNumber name = (case Atoi name of Some n \<Rightarrow> n | None \<Rightarrow> 0)"

definition CheckFilesystemView :: "procfs \<Rightarrow> string option" where
  "CheckFilesystemView fs =
     (case p_Readlink fs ''/proc/self/ns/mnt'' of
        Inl e \<Rightarrow> Some e
      | Inr own \<Rightarrow>
     (case p_ReadDir fs ''/proc'' of
        Inl e \<Rightarrow> Some e
      | Inr entries \<Rightarrow>
          seqErr (firstErr (\<lambda>name. if Atoi name = None then None
                       else firstErr (checkProc fs own) (procPaths fs name)) entries)
     (case p_ReadFile fs ''/proc/self/status'' of
        Inl e \<Rightarrow> Some e
      | Inr status \<Rightarrow>
          seqErr (firstErr checkStatusLine (split_on (CHR 0x0A) status))
     (case p_ReadDir fs ''/proc/self/fd'' of
        Inl e \<Rightarrow> Some e
      | Inr fds \<Rightarrow>
          firstErr (\<lambda>name. failIf (fdNumber name \<ge> 3 \<and> p_StatDir fs (path_Join [''/proc/self/fd'', name]))
            (''directory FD leaked into workload: '' @ path_Join [''/proc/self/fd'', name])) fds))))"

text \<open>The three ways in which a view is unsafe.\<close>

definition exposes :: "procfs \<Rightarrow> string \<Rightarrow> string \<Rightarrow> bool" where
  "exposes fs own p \<longleftrightarrow> p_Readlink fs (p @ ''/ns/mnt'') \<noteq> Inr own
     \<and> (readable fs (p @ ''/root'') \<or> readable fs (p @ ''/cwd'') \<or> p_CanOpen fs (p @ ''/environ'')
        \<or> (\<exists>ds fd. p_ReadDir fs (p @ ''/fd'') = Inr ds \<and> fd \<in> set ds \<and> readable fs (p @ ''/fd/'' @ fd)))"

definition outerExposed :: "procfs \<Rightarrow> string \<Rightarrow> string list \<Rightarrow> bool" where
  "outerExposed fs own entries \<longleftrightarrow>
     (\<exists>name p. name \<in> set entries \<and> Atoi name \<noteq> None \<and> p \<in> set (procPaths fs name) \<and> exposes fs own p)"

definition keepsPrivilege :: "string \<Rightarrow> bool" where
  "keepsPrivilege line \<longleftrightarrow>
     (\<exists>k v. Fields line = [k, v]
        \<and> (k \<in> {''CapEff:'', ''CapPrm:'', ''CapAmb:''} \<and> v \<noteq> ''0000000000000000''
           \<or> k = ''NoNewPrivs:'' \<and> v \<noteq> ''1'' \<or> k = ''Seccomp:'' \<and> v \<noteq> ''2''))"

definition privilegesKept :: "string \<Rightarrow> bool" where
  "privilegesKept status \<longleftrightarrow> (\<exists>line. line \<in> set (split_on (CHR 0x0A) status) \<and> keepsPrivilege line)"

definition directoryLeaked :: "procfs \<Rightarrow> string list \<Rightarrow> bool" where
  "directoryLeaked fs fds \<longleftrightarrow>
     (\<exists>name. name \<in> set fds \<and> fdNumber name \<ge> 3 \<and> p_StatDir fs (path_Join [''/proc/self/fd'', name]))"

lemma checkProc_None: "checkProc fs own p = None \<longleftrightarrow> \<not> exposes fs own p"
proof (cases "p_ReadDir fs (p @ ''/fd'')")
  case (Inl e)
  then show ?thesis unfolding checkProc_def exposes_def by simp
next
  case (Inr ds)
  then show ?thesis unfolding checkProc_def exposes_def by auto
qed

lemma proc_checks:
  "firstErr (\<lambda>name. if Atoi name = None then None else firstErr (checkProc fs own) (procPaths fs name)) entries = None
     \<longleftrightarrow> \<not> outerExposed fs own entries"
  by (auto simp: outerExposed_def checkProc_None)

lemma checkStatusLine_None: "checkStatusLine l = None \<longleftrightarrow> \<not> keepsPrivilege l"
proof (cases "\<exists>k v. Fields l = [k, v]")
  case True
  then obtain k v where "Fields l = [k, v]" by blast
  then show ?thesis unfolding checkStatusLine_def keepsPrivilege_def by (simp add: failIf_None)
next
  case False
  then show ?thesis unfolding checkStatusLine_def keepsPrivilege_def by (auto split: list.splits)
qed

lemma status_checks:
  "firstErr checkStatusLine (split_on (CHR 0x0A) status) = None \<longleftrightarrow> \<not> privilegesKept status"
  by (auto simp: privilegesKept_def checkStatusLine_None)

lemma fd_checks:
  "firstErr (\<lambda>name. failIf (fdNumber name \<ge> 3 \<and> p_StatDir fs (path_Join [''/proc/self/fd'', name])) (e name)) fds = None
     \<longleftrightarrow> \<not> directoryLeaked fs fds"
  unfolding firstErr_None failIf_None directoryLeaked_def by metis

text \<open>
  \<open>DetectFilesystem\<close>: \<open>exe\<close> answers \<open>os.Executable\<close>, \<open>filt\<close> is the outcome of \<open>WorkloadFilterFile\<close>,
  \<open>errStr\<close> renders an error of \<open>safepath\<close>; the command runs with the binary given.
\<close>

fun probeVolumes ::
    "'d sys \<Rightarrow> (safe_error \<Rightarrow> string) \<Rightarrow> (string \<rightharpoonup> string) \<Rightarrow> nat \<Rightarrow> string list \<Rightarrow> (string, string list) result" where
  "probeVolumes os errStr volumes i [] = Inr []"
| "probeVolumes os errStr volumes i (name # names) =
     (case fst (OpenMount os (case volumes name of Some r \<Rightarrow> r | None \<Rightarrow> []) [] []) of
        Inl e \<Rightarrow> Inl (''volume '' @ name @ '': '' @ errStr e)
      | Inr f \<Rightarrow>
          (case probeVolumes os errStr volumes (Suc i) names of
             Inl e \<Rightarrow> Inl e
           | Inr rest \<Rightarrow> Inr ([''--ro-bind-fd'', Itoa (3 + int i), ''/volume-'' @ Itoa (int i)] @ rest)))"

definition fsProbeArgs :: "string \<Rightarrow> string list \<Rightarrow> nat \<Rightarrow> string list" where
  "fsProbeArgs exe vols n =
     [''--unshare-user'', ''--uid'', ''1000'', ''--gid'', ''1000'', ''--cap-drop'', ''ALL'',
      ''--ro-bind'', ''/proc'', ''/proc'', ''--dev'', ''/dev'', ''--tmpfs'', ''/tmp'',
      ''--ro-bind'', exe, ''/jdix-probe'', ''--clearenv'', ''--die-with-parent'', ''--new-session'']
     @ vols @ [''--seccomp'', Itoa (3 + int n), ''--'', ''/jdix-probe'', ''--filesystem-probe-child'']"

definition DetectFilesystem ::
    "node \<Rightarrow> 'd sys \<Rightarrow> (safe_error \<Rightarrow> string) \<Rightarrow> (string, string) result \<Rightarrow> (string, memfile) result
     \<Rightarrow> string \<Rightarrow> (string \<rightharpoonup> string) \<Rightarrow> string list \<Rightarrow> iso_result" where
  "DetectFilesystem nd os errStr exe filt binary volumes names =
     (let fail = (\<lambda>err. \<lparr>r_Tier = [], r_Reason = err, r_Probes = [''filesystem'' \<mapsto> err]\<rparr>) in
      case exe of
        Inl e \<Rightarrow> fail e
      | Inr exe \<Rightarrow>
      (case probeVolumes os errStr volumes 0 (sort names) of
         Inl e \<Rightarrow> fail e
       | Inr vols \<Rightarrow>
      (case filt of
         Inl e \<Rightarrow> fail e
       | Inr f \<Rightarrow>
      (case n_Run nd binary (fsProbeArgs exe vols (length names)) of
         (out, Some e) \<Rightarrow> fail (''filesystem probe: '' @ trim out e)
       | (out, None) \<Rightarrow>
           if TrimSpace out \<noteq> ''filesystem-ok'' then fail (''unexpected filesystem probe output: '' @ out)
           else \<lparr>r_Tier = TierFilesystem,
                 r_Reason = ''pinned volume mounts and protected proc view available'',
                 r_Probes = [''filesystem'' \<mapsto> ''ok'']\<rparr>))))"

section \<open>Properties\<close>

text \<open>The check of the completed view passes exactly when no process or thread of another mount
  namespace exposes its root, working directory, environment or a descriptor, the status file shows
  no capability, no-new-privileges and an active seccomp filter wherever it has those lines, and no
  descriptor from 3 on is a directory.\<close>

lemma CheckFilesystemView_passes_iff:
  "CheckFilesystemView fs = None \<longleftrightarrow>
     (\<exists>own entries status fds.
        p_Readlink fs ''/proc/self/ns/mnt'' = Inr own \<and> p_ReadDir fs ''/proc'' = Inr entries
        \<and> p_ReadFile fs ''/proc/self/status'' = Inr status \<and> p_ReadDir fs ''/proc/self/fd'' = Inr fds
        \<and> \<not> outerExposed fs own entries \<and> \<not> privilegesKept status \<and> \<not> directoryLeaked fs fds)"
  unfolding CheckFilesystemView_def
  by (cases "p_Readlink fs ''/proc/self/ns/mnt''"; cases "p_ReadDir fs ''/proc''";
      cases "p_ReadFile fs ''/proc/self/status''"; cases "p_ReadDir fs ''/proc/self/fd''")
     (simp_all only: sum.case seqErr_None proc_checks status_checks fd_checks sum.inject sum.distinct
        option.distinct simp_thms ex_simps)

text \<open>Detection never overstates a node. \<open>Detect\<close> reports the user-namespace tier only if that probe
  ran, the CAP_SYS_ADMIN tier only if its probe ran and the stronger one failed, and the chroot tier
  otherwise; \<open>DetectFilesystem\<close> reports the filesystem-only tier only after a probe that answered
  filesystem-ok, and otherwise the empty tier, which satisfies no requirement.\<close>

lemma detected_tier_is_probed:
  "let t = r_Tier (Detect nd b); bin = (if b = [] then ''bwrap'' else b);
       probes = n_GOOS nd = ''linux'' \<and> n_LookPath nd bin = None;
       f = r_Tier (DetectFilesystem nd os errStr exe filt b volumes names)
   in (t = TierUserns \<longleftrightarrow> probes \<and> snd (n_Run nd bin probeArgsUserns) = None)
      \<and> (t = TierCapAdmin \<longleftrightarrow> probes \<and> snd (n_Run nd bin probeArgsUserns) \<noteq> None
            \<and> snd (n_Run nd bin probeArgsCapAdmin) = None)
      \<and> t \<in> {TierUserns, TierCapAdmin, TierChroot}
      \<and> (f = TierFilesystem \<and> (\<exists>args out. n_Run nd b args = (out, None) \<and> TrimSpace out = ''filesystem-ok'')
         \<or> f = [] \<and> (\<forall>mn. \<not> AtLeast f mn))"
proof -
  have e: "\<not> AtLeast [] mn" for mn by (auto simp: AtLeast_def Rank_def tier_defs)
  let ?f = "DetectFilesystem nd os errStr exe filt b volumes names"
  have f: "(r_Tier ?f = TierFilesystem \<and> (\<exists>args out. n_Run nd b args = (out, None) \<and> TrimSpace out = ''filesystem-ok''))
      \<or> r_Tier ?f = []"
    by (auto simp: DetectFilesystem_def Let_def split: sum.splits option.splits prod.splits)
  have t: "TierUserns \<noteq> TierCapAdmin" "TierUserns \<noteq> TierChroot" "TierCapAdmin \<noteq> TierChroot"
    by (simp_all add: tier_defs)
  let ?bin = "if b = [] then ''bwrap'' else b"
  let ?t = "r_Tier (Detect nd b)"
  let ?probes = "n_GOOS nd = ''linux'' \<and> n_LookPath nd ?bin = None"
  have tt: "?t = (if ?probes then if snd (n_Run nd ?bin probeArgsUserns) = None then TierUserns
               else if snd (n_Run nd ?bin probeArgsCapAdmin) = None then TierCapAdmin else TierChroot
             else TierChroot)"
    unfolding Detect_def Let_def if_distrib [of r_Tier] option.case_distrib [of r_Tier]
      prod.case_distrib [of r_Tier] iso_result.select_convs
    by (simp split: option.splits prod.splits)
  show ?thesis using f e t unfolding Let_def tt
    by (cases ?probes; cases "snd (n_Run nd ?bin probeArgsUserns) = None";
        cases "snd (n_Run nd ?bin probeArgsCapAdmin) = None") (simp_all only: if_True if_False simp_thms insert_iff, auto)
qed

end
