(* ===== verification/Reaper.thy ===== *)
theory Reaper
  imports Jdix_Prelude
begin

text \<open>
  \<open>pkg/reaper/reaper.go\<close>: the single owner of \<open>wait4\<close>. Each lock-protected section is one
  operation on the state; \<open>Wait\<close> has two, before and after it blocks on the channel. Channels of
  capacity one are cells with identities, since \<open>Wait\<close> receives on the channel it looked up even
  if the map entry is replaced meanwhile.
\<close>

section \<open>State and operations\<close>

record reaper =
  waiters :: "int \<rightharpoonup> nat"
  pending :: "int \<rightharpoonup> int"
  order :: "int list"
  chans :: "nat \<Rightarrow> int option"
  nextChan :: nat

definition maxPending :: nat where "maxPending = 256"

definition NewReaper :: reaper where
  "NewReaper = \<lparr>waiters = Map.empty, pending = Map.empty, order = [], chans = (\<lambda>_. None), nextChan = 0\<rparr>"

definition makeChan :: "int \<Rightarrow> reaper \<Rightarrow> reaper" where
  "makeChan pid r =
     r\<lparr>waiters := (waiters r)(pid \<mapsto> nextChan r), chans := (chans r)(nextChan r := None),
       nextChan := Suc (nextChan r)\<rparr>"

text \<open>\<open>StartCmd\<close>: the result of \<open>cmd.Start()\<close> is the argument, an error or the pid of the child.\<close>

definition StartCmd :: "('e, int) result \<Rightarrow> reaper \<Rightarrow> ('e, int) result \<times> reaper" where
  "StartCmd start r = (case start of Inl e \<Rightarrow> (Inl e, r) | Inr pid \<Rightarrow> (Inr pid, makeChan pid r))"

definition Adopt :: "int \<Rightarrow> reaper \<Rightarrow> reaper" where
  "Adopt pid r =
     (if pending r pid \<noteq> None then r
      else if waiters r pid = None then makeChan pid r else r)"

definition forget :: "int \<Rightarrow> reaper \<Rightarrow> reaper" where
  "forget pid r = r\<lparr>pending := (pending r)(pid := None), order := remove1 pid (order r)\<rparr>"

datatype wait_start = Returned int | BlocksOn nat

definition waitStart :: "int \<Rightarrow> reaper \<Rightarrow> wait_start \<times> reaper" where
  "waitStart pid r =
     (case pending r pid of
        Some code \<Rightarrow> (Returned code, (forget pid r)\<lparr>waiters := (waiters r)(pid := None)\<rparr>)
      | None \<Rightarrow> (case waiters r pid of None \<Rightarrow> (Returned (- 1), r) | Some ch \<Rightarrow> (BlocksOn ch, r)))"

text \<open>The rest of \<open>Wait\<close> once it blocks on \<open>ch\<close>: \<open>None\<close> while the channel is empty.\<close>

definition waitRecv :: "int \<Rightarrow> nat \<Rightarrow> reaper \<Rightarrow> (int \<times> reaper) option" where
  "waitRecv pid ch r =
     (case chans r ch of
        None \<Rightarrow> None
      | Some code \<Rightarrow> Some (code, r\<lparr>chans := (chans r)(ch := None), waiters := (waiters r)(pid := None)\<rparr>))"

text \<open>The eviction loop of \<open>deliver\<close>.\<close>

function evict :: "reaper \<Rightarrow> reaper" where
  "evict r =
     (if length (order r) > maxPending
      then evict (r\<lparr>order := tl (order r), pending := (pending r)(hd (order r) := None)\<rparr>) else r)"
  by auto
termination
  by (relation "measure (\<lambda>r. length (order r))") (auto simp: maxPending_def)

declare evict.simps [simp del]

definition deliver :: "int \<Rightarrow> int \<Rightarrow> reaper \<Rightarrow> reaper" where
  "deliver pid code r =
     (case waiters r pid of
        Some ch \<Rightarrow> (if chans r ch = None then r\<lparr>chans := (chans r)(ch := Some code)\<rparr> else r)
      | None \<Rightarrow>
          evict (r\<lparr>order := (if pending r pid = None then order r @ [pid] else order r),
                   pending := (pending r)(pid \<mapsto> code)\<rparr>))"

text \<open>\<open>syscall.WaitStatus\<close> on Linux: the low seven bits are the signal, the next byte the exit code.\<close>

definition waitStatusCode :: "nat \<Rightarrow> int" where
  "waitStatusCode ws =
     (let sig = ws mod 128
      in if sig \<noteq> 127 \<and> sig \<noteq> 0 then 128 + int sig
         else if sig = 0 then int (ws div 256 mod 256) else - 1)"

datatype wait4_result = EINTR | NoChild | Exited int nat

fun reap :: "wait4_result list \<Rightarrow> reaper \<Rightarrow> reaper" where
  "reap [] r = r"
| "reap (EINTR # ws) r = reap ws r"
| "reap (NoChild # ws) r = r"
| "reap (Exited pid st # ws) r =
     (if pid \<le> 0 then r else reap ws (deliver pid (waitStatusCode st) r))"

section \<open>Runs\<close>

text \<open>The atomic sections in any interleaving.\<close>

datatype reaper_event = EStart int | EAdopt int | EDeliver int int | EWaitStart int | EWaitRecv int nat

fun reaperStep :: "reaper_event \<Rightarrow> reaper \<Rightarrow> reaper" where
  "reaperStep (EStart pid) r = snd (StartCmd (Inr pid :: (unit, int) result) r)"
| "reaperStep (EAdopt pid) r = Adopt pid r"
| "reaperStep (EDeliver pid code) r = deliver pid code r"
| "reaperStep (EWaitStart pid) r = snd (waitStart pid r)"
| "reaperStep (EWaitRecv pid ch) r = (case waitRecv pid ch r of None \<Rightarrow> r | Some (c, r') \<Rightarrow> r')"

fun pidOf :: "reaper_event \<Rightarrow> int" where
  "pidOf (EStart pid) = pid"
| "pidOf (EAdopt pid) = pid"
| "pidOf (EDeliver pid code) = pid"
| "pidOf (EWaitStart pid) = pid"
| "pidOf (EWaitRecv pid ch) = pid"

text \<open>
  The invariant: the eviction order lists exactly the remembered pids, each once and at most
  \<open>maxPending\<close> of them, and every registered channel has been made and is the channel of one pid.
\<close>

definition one_owner :: "('a \<rightharpoonup> 'b) \<Rightarrow> bool" where
  "one_owner m \<longleftrightarrow> (\<forall>p q c. m p = Some c \<longrightarrow> m q = Some c \<longrightarrow> p = q)"

definition reaper_inv :: "reaper \<Rightarrow> bool" where
  "reaper_inv r \<longleftrightarrow> distinct (order r) \<and> set (order r) = dom (pending r) \<and> length (order r) \<le> maxPending
     \<and> (\<forall>pid ch. waiters r pid = Some ch \<longrightarrow> ch < nextChan r) \<and> one_owner (waiters r)"

lemma NewReaper_inv: "reaper_inv NewReaper"
  by (simp add: reaper_inv_def NewReaper_def maxPending_def one_owner_def)

lemma evict_fields [simp]:
  "waiters (evict r) = waiters r" "chans (evict r) = chans r" "nextChan (evict r) = nextChan r"
  by (induction r rule: evict.induct; subst evict.simps; simp)+

lemma evict_once:
  assumes "length (order r) \<le> Suc maxPending"
  shows "evict r = (if length (order r) > maxPending
     then r\<lparr>order := tl (order r), pending := (pending r)(hd (order r) := None)\<rparr> else r)"
  using assms by (subst evict.simps, subst evict.simps) auto

lemma evict_ring:
  assumes "distinct (order r)" "set (order r) = dom (pending r)" "length (order r) \<le> Suc maxPending"
  shows "distinct (order (evict r)) \<and> set (order (evict r)) = dom (pending (evict r))
     \<and> length (order (evict r)) \<le> maxPending"
proof (cases "order r")
  case Nil
  with assms show ?thesis by (simp add: evict_once)
next
  case (Cons p ps)
  then have "dom (pending r) = insert p (set ps)" "p \<notin> set ps" using assms by auto
  then show ?thesis using assms Cons by (auto simp: evict_once)
qed

lemma one_owner_upd: "one_owner m \<Longrightarrow> (\<And>k. m k \<noteq> Some v) \<Longrightarrow> one_owner (m(k \<mapsto> v))"
  by (auto simp: one_owner_def)

lemma one_owner_del: "one_owner m \<Longrightarrow> one_owner (m(k := None))"
  by (auto simp: one_owner_def)

lemma makeChan_inv: "reaper_inv r \<Longrightarrow> reaper_inv (makeChan pid r)"
  unfolding reaper_inv_def makeChan_def
  by (auto intro!: one_owner_upd simp: less_SucI)

lemma forget_ring:
  "distinct (order r) \<Longrightarrow> set (order r) = dom (pending r) \<Longrightarrow>
     distinct (order (forget pid r)) \<and> set (order (forget pid r)) = dom (pending (forget pid r))
     \<and> length (order (forget pid r)) \<le> length (order r)"
  by (auto simp: forget_def length_remove1)

lemma deliver_inv: "reaper_inv r \<Longrightarrow> reaper_inv (deliver pid code r)"
proof -
  assume i: "reaper_inv r"
  show ?thesis
  proof (cases "waiters r pid")
    case None
    let ?r = "r\<lparr>order := (if pending r pid = None then order r @ [pid] else order r), pending := (pending r)(pid \<mapsto> code)\<rparr>"
    have "distinct (order ?r)" "set (order ?r) = dom (pending ?r)" "length (order ?r) \<le> Suc maxPending"
      using i by (auto simp: reaper_inv_def)
    from evict_ring [OF this] show ?thesis using i None by (simp add: deliver_def reaper_inv_def)
  next
    case (Some ch)
    with i show ?thesis by (simp add: deliver_def reaper_inv_def)
  qed
qed

lemma reaperStep_inv: "reaper_inv r \<Longrightarrow> reaper_inv (reaperStep e r)"
proof (cases e)
  case (EStart pid)
  then show "reaper_inv r \<Longrightarrow> ?thesis" by (simp add: StartCmd_def makeChan_inv)
next
  case (EAdopt pid)
  then show "reaper_inv r \<Longrightarrow> ?thesis" by (simp add: Adopt_def makeChan_inv)
next
  case (EDeliver pid code)
  then show "reaper_inv r \<Longrightarrow> ?thesis" by (simp add: deliver_inv)
next
  case (EWaitStart pid)
  have "reaper_inv r \<Longrightarrow> pending r pid = Some code \<Longrightarrow> reaper_inv ((forget pid r)\<lparr>waiters := (waiters r)(pid := None)\<rparr>)" for code
    using forget_ring [of r pid] one_owner_del [of "waiters r" pid]
    by (auto simp: reaper_inv_def forget_def split: if_splits)
  with EWaitStart show "reaper_inv r \<Longrightarrow> ?thesis" by (auto simp: waitStart_def split: option.splits)
next
  case (EWaitRecv pid ch)
  then show "reaper_inv r \<Longrightarrow> ?thesis"
    using one_owner_del [of "waiters r" pid]
    by (auto simp: waitRecv_def reaper_inv_def split: option.splits if_splits)
qed

interpretation rp: step_system reaperStep reaper_inv
  by unfold_locales (rule reaperStep_inv)

section \<open>Steps that concern other processes\<close>

fun foreign :: "int \<Rightarrow> nat \<Rightarrow> reaper_event \<Rightarrow> bool" where
  "foreign pid ch (EWaitRecv p c) = (p \<noteq> pid \<and> c \<noteq> ch)"
| "foreign pid ch e = (pidOf e \<noteq> pid)"

definition registered :: "int \<Rightarrow> nat \<Rightarrow> int option \<Rightarrow> reaper \<Rightarrow> bool" where
  "registered pid ch v r \<longleftrightarrow> waiters r pid = Some ch \<and> pending r pid = None \<and> chans r ch = v"

lemma evict_pending_None: "pending r pid = None \<Longrightarrow> pending (evict r) pid = None"
proof (induction r rule: evict.induct)
  case (1 r)
  show ?case
  proof (cases "length (order r) > maxPending")
    case True
    then show ?thesis using 1 by (subst evict.simps) simp
  next
    case False
    then show ?thesis using 1(2) by (subst evict.simps) simp
  qed
qed

lemma foreign_makeChan:
  "reaper_inv r \<Longrightarrow> registered pid ch v r \<Longrightarrow> p \<noteq> pid \<Longrightarrow> registered pid ch v (makeChan p r)"
  by (auto simp: registered_def makeChan_def reaper_inv_def)

lemma foreign_deliver:
  "reaper_inv r \<Longrightarrow> registered pid ch v r \<Longrightarrow> p \<noteq> pid \<Longrightarrow> registered pid ch v (deliver p code r)"
  by (auto simp: registered_def deliver_def reaper_inv_def one_owner_def evict_pending_None split: option.splits)

lemma foreign_step:
  assumes "reaper_inv r" "registered pid ch v r" "foreign pid ch e"
  shows "registered pid ch v (reaperStep e r)"
proof (cases e)
  case (EStart p)
  with assms show ?thesis by (simp add: StartCmd_def foreign_makeChan)
next
  case (EAdopt p)
  with assms show ?thesis by (simp add: Adopt_def foreign_makeChan)
next
  case (EDeliver p c)
  with assms show ?thesis by (simp add: foreign_deliver)
next
  case (EWaitStart p)
  with assms show ?thesis by (auto simp: waitStart_def registered_def forget_def split: option.splits)
next
  case (EWaitRecv p c)
  with assms show ?thesis by (auto simp: waitRecv_def registered_def split: option.splits)
qed

lemma foreign_run:
  assumes "reaper_inv r" "registered pid ch v r" "\<And>e. e \<in> set es \<Longrightarrow> foreign pid ch e"
  shows "registered pid ch v (fold reaperStep es r)"
  by (rule rp.run_ok2 [where P = "registered pid ch v"]) (blast intro: assms foreign_step)+

section \<open>How long an unclaimed status is kept\<close>

text \<open>A remembered status with at most \<open>k\<close> younger ones.\<close>

definition statusKept :: "int \<Rightarrow> int \<Rightarrow> nat \<Rightarrow> reaper \<Rightarrow> bool" where
  "statusKept pid code k r \<longleftrightarrow> pending r pid = Some code
     \<and> (\<exists>older younger. order r = older @ pid # younger \<and> length younger \<le> k)"

lemma keptI: "pending r pid = Some code \<Longrightarrow> order r = ol @ pid # yo \<Longrightarrow> length yo \<le> k \<Longrightarrow> statusKept pid code k r"
  unfolding statusKept_def by blast

fun isDeliver :: "reaper_event \<Rightarrow> bool" where
  "isDeliver (EDeliver p c) = True"
| "isDeliver e = False"

lemma kept_mono: "statusKept pid code k r \<Longrightarrow> k \<le> k' \<Longrightarrow> statusKept pid code k' r"
  unfolding statusKept_def by (meson order_trans)

lemma kept_evict:
  assumes "statusKept pid code k r" "k < maxPending" "length (order r) \<le> Suc maxPending" "distinct (order r)"
  shows "statusKept pid code k (evict r)"
proof -
  from assms(1) obtain ol yo where o: "order r = ol @ pid # yo" "length yo \<le> k" "pending r pid = Some code"
    by (auto simp: statusKept_def)
  show ?thesis
  proof (cases "length (order r) > maxPending")
    case True
    with o assms(2) obtain p ol' where "ol = p # ol'" by (cases ol) auto
    with o True assms show ?thesis by (auto simp: evict_once statusKept_def)
  next
    case False
    with assms show ?thesis by (simp add: evict_once)
  qed
qed

lemma kept_deliver:
  assumes i: "reaper_inv r" and k: "statusKept pid code k r" "Suc k < maxPending" and p: "p \<noteq> pid"
  shows "statusKept pid code (Suc k) (deliver p c r)"
proof (cases "waiters r p")
  case (Some ch)
  with k kept_mono [OF k(1)] show ?thesis by (auto simp: deliver_def statusKept_def)
next
  case None
  let ?r = "r\<lparr>order := (if pending r p = None then order r @ [p] else order r), pending := (pending r)(p \<mapsto> c)\<rparr>"
  obtain ol yo where o: "order r = ol @ pid # yo" "length yo \<le> k" "pending r pid = Some code"
    using k(1) by (auto simp: statusKept_def)
  then obtain yo' where "order ?r = ol @ pid # yo'" "length yo' \<le> Suc k" by (cases "pending r p") auto
  moreover have "pending ?r pid = Some code" using o(3) p by simp
  ultimately have "statusKept pid code (Suc k) ?r" by (intro keptI)
  moreover have "length (order ?r) \<le> Suc maxPending" "distinct (order ?r)"
    using i by (auto simp: reaper_inv_def)
  ultimately show ?thesis using k None by (simp add: deliver_def kept_evict)
qed

lemma kept_forget: "p \<noteq> pid \<Longrightarrow> statusKept pid code k r \<Longrightarrow> statusKept pid code k (forget p r)"
proof -
  assume p: "p \<noteq> pid" and k: "statusKept pid code k r"
  then obtain ol yo where o: "order r = ol @ pid # yo" "length yo \<le> k" by (auto simp: statusKept_def)
  have "remove1 p (ol @ pid # yo) = (if p \<in> set ol then remove1 p ol @ pid # yo else ol @ pid # remove1 p yo)"
    using p by (simp add: remove1_append)
  moreover have "length (remove1 p yo) \<le> length yo" by (simp add: length_remove1)
  ultimately obtain ol' yo' where "order (forget p r) = ol' @ pid # yo'" "length yo' \<le> k"
    using o by (auto simp: forget_def intro: that split: if_splits)
  moreover have "pending (forget p r) pid = Some code" using k p by (simp add: statusKept_def forget_def)
  ultimately show ?thesis by (intro keptI)
qed

lemma kept_step:
  assumes "reaper_inv r" "statusKept pid code k r" "Suc k < maxPending" "pidOf e \<noteq> pid"
  shows "statusKept pid code (if isDeliver e then Suc k else k) (reaperStep e r)"
proof (cases e)
  case (EDeliver p c)
  with assms show ?thesis by (simp add: kept_deliver)
next
  case (EWaitStart p)
  with assms kept_forget [of p pid code k r] show ?thesis
    by (auto simp: waitStart_def statusKept_def split: option.splits)
qed (use assms in \<open>auto simp: StartCmd_def Adopt_def makeChan_def waitRecv_def statusKept_def split: option.splits\<close>)

lemma kept_run:
  "reaper_inv r \<Longrightarrow> statusKept pid code k r \<Longrightarrow> (\<forall>e \<in> set es. pidOf e \<noteq> pid)
     \<Longrightarrow> k + length (filter isDeliver es) < maxPending
     \<Longrightarrow> statusKept pid code (k + length (filter isDeliver es)) (fold reaperStep es r)"
proof (induction es arbitrary: k r)
  case (Cons e es)
  show ?case
  proof (cases "isDeliver e")
    case True
    with Cons kept_step [of r pid code k e] Cons.IH [of "reaperStep e r" "Suc k"] show ?thesis
      by (simp add: reaperStep_inv)
  next
    case False
    have "statusKept pid code k (reaperStep e r)"
    proof (cases "Suc k < maxPending")
      case True
      with Cons.prems kept_step [of r pid code k e] False show ?thesis by simp
    next
      case nk: False
      show ?thesis using Cons.prems False kept_forget [of _ pid code k r]
        by (cases e) (auto simp: StartCmd_def Adopt_def makeChan_def waitRecv_def waitStart_def statusKept_def
            split: option.splits)
    qed
    with Cons False show ?thesis by (simp add: reaperStep_inv)
  qed
qed simp

section \<open>Properties\<close>

text \<open>The reaper's memory is bounded in every run. Whatever sequence of starts, adoptions, exits and
  waits happens, the eviction order lists exactly the remembered pids, each once, and never more than
  256; a subreaper that collects orphans for ever does not grow.\<close>

lemma reaper_bounded:
  "let r = fold reaperStep es NewReaper
   in distinct (order r) \<and> set (order r) = dom (pending r) \<and> card (dom (pending r)) \<le> 256"
proof -
  have "reaper_inv (fold reaperStep es NewReaper)" by (rule rp.run_ok) (rule NewReaper_inv)
  then show ?thesis
    unfolding reaper_inv_def maxPending_def Let_def by (metis distinct_card)
qed

text \<open>An exit status reaches its waiter. After \<open>StartCmd\<close>, with no older status remembered under the same
  pid, a \<open>Wait\<close> blocks until the child's exit is delivered and then returns exactly that code, whatever
  is done for other processes in between, before or after the delivery.\<close>

lemma exit_status_reaches_waiter:
  assumes inv: "reaper_inv r" and fresh: "pending r pid = None" and ch: "ch = nextChan r"
    and es1: "\<forall>e \<in> set es1. foreign pid ch e" and es2: "\<forall>e \<in> set es2. foreign pid ch e"
  shows "let r2 = fold reaperStep es1 (reaperStep (EStart pid) r);
             r3 = fold reaperStep es2 (deliver pid code r2)
         in fst (waitStart pid r2) = BlocksOn ch \<and> waitRecv pid ch r2 = None
            \<and> fst (waitStart pid r3) = BlocksOn ch
            \<and> (\<exists>r4. waitRecv pid ch r3 = Some (code, r4) \<and> waiters r4 pid = None)"
proof -
  let ?r1 = "reaperStep (EStart pid) r"
  have i1: "reaper_inv ?r1" using inv by (rule reaperStep_inv)
  moreover have "registered pid ch None ?r1"
    using fresh ch by (simp add: StartCmd_def registered_def makeChan_def)
  ultimately have g2: "registered pid ch None (fold reaperStep es1 ?r1)" using es1 by (intro foreign_run) auto
  have i2: "reaper_inv (fold reaperStep es1 ?r1)" by (rule rp.run_ok) (rule i1)
  have "registered pid ch (Some code) (deliver pid code (fold reaperStep es1 ?r1))"
    using g2 by (auto simp: registered_def deliver_def)
  then have "registered pid ch (Some code) (fold reaperStep es2 (deliver pid code (fold reaperStep es1 ?r1)))"
    using es2 deliver_inv [OF i2] by (intro foreign_run) auto
  with g2 show ?thesis
    by (auto simp: Let_def registered_def waitStart_def waitRecv_def)
qed

text \<open>The race of a child started elsewhere. If a process exits before \<open>Adopt\<close> registers it, its status
  survives up to 255 later exits of other processes: \<open>Adopt\<close> then changes nothing and \<open>Wait\<close>
  returns the code at once and frees its place.\<close>

lemma early_exit_is_kept:
  assumes inv: "reaper_inv r" and none: "pending r pid = None" "waiters r pid = None"
    and es: "\<forall>e \<in> set es. pidOf e \<noteq> pid" "length (filter isDeliver es) \<le> 255"
  shows "let r2 = fold reaperStep es (deliver pid code r)
         in Adopt pid r2 = r2 \<and> fst (waitStart pid r2) = Returned code
            \<and> pid \<notin> set (order (snd (waitStart pid r2)))"
proof -
  let ?r = "r\<lparr>order := order r @ [pid], pending := (pending r)(pid \<mapsto> code)\<rparr>"
  have "statusKept pid code 0 ?r" by (rule keptI [where ol = "order r" and yo = "[]"]) simp_all
  moreover have "length (order ?r) \<le> Suc maxPending" "distinct (order ?r)"
    using inv none by (auto simp: reaper_inv_def)
  ultimately have "statusKept pid code 0 (deliver pid code r)"
    using none by (simp add: deliver_def kept_evict maxPending_def)
  from kept_run [OF deliver_inv [OF inv] this es(1)] es(2)
  have "pending (fold reaperStep es (deliver pid code r)) pid = Some code"
    by (simp add: statusKept_def maxPending_def)
  moreover have "reaper_inv (fold reaperStep es (deliver pid code r))"
    by (rule rp.run_ok) (rule deliver_inv [OF inv])
  ultimately show ?thesis
    by (simp add: Let_def Adopt_def waitStart_def forget_def reaper_inv_def)
qed

text \<open>A reused pid gets a dead process's status. If the status of an earlier process is still remembered
  when \<open>StartCmd\<close> starts a child with the same pid, \<open>Wait\<close> returns the old code at once, while the
  new child runs, and unregisters the child, whose own status is then kept as an orphan's.\<close>

lemma reused_pid_returns_stale_status:
  assumes "pending r pid = Some old"
  shows "let r1 = reaperStep (EStart pid) r; r2 = snd (waitStart pid r1)
         in fst (waitStart pid r1) = Returned old \<and> waiters r2 pid = None
            \<and> deliver pid new r2 = evict (r2\<lparr>order := order r2 @ [pid], pending := (pending r2)(pid \<mapsto> new)\<rparr>)"
  using assms by (simp add: Let_def StartCmd_def makeChan_def waitStart_def forget_def deliver_def)

end
