(* ===== verification/Gateway_Route.thy ===== *)
theory Gateway_Route
  imports Api_Auth Go_Path
begin

text \<open>
  How the public gateway names sandboxes (\<open>pkg/gateway/route.go\<close>): by subdomain, by path, or by either
  in turn, and the URLs each scheme hands out. Host routing asks a resolver whether a sandbox exists;
  the resolver has a cache, so the question is an operation on a state. A header is a function from
  canonical names to its values. The query is the list of parameters \<open>url.ParseQuery\<close> yields; the
  escaped and the decoded form of the path are both kept, as \<open>url.URL\<close> keeps them.
\<close>

section \<open>Requests\<close>

type_synonym header = "string \<Rightarrow> string list"

definition hget :: "header \<Rightarrow> string \<Rightarrow> string" where
  "hget h n = (case h n of [] \<Rightarrow> [] | v # _ \<Rightarrow> v)"

definition hset :: "header \<Rightarrow> string \<Rightarrow> string \<Rightarrow> header" where
  "hset h n v = h(n := [v])"

definition hdel :: "header \<Rightarrow> string \<Rightarrow> header" where
  "hdel h n = h(n := [])"

record g_request =
  gq_Method :: string
  gq_Host :: string
  gq_Path :: string
  gq_EscapedPath :: string
  gq_RawQuery :: string
  gq_Query :: "(string \<times> string) list"
  gq_Header :: header
  gq_RemoteAddr :: string
  gq_TLS :: bool

definition qget :: "(string \<times> string) list \<Rightarrow> string \<Rightarrow> string" where
  "qget q n = (case map_of q n of None \<Rightarrow> [] | Some v \<Rightarrow> v)"

section \<open>Routes\<close>

definition DataPlanePort :: int where "DataPlanePort = 8080"
definition DefaultPathPrefix :: string where "DefaultPathPrefix = ''/s''"
definition userPortSegment :: string where "userPortSegment = ''p''"

record route =
  ro_SandboxID :: string
  ro_Port :: int
  ro_UserPort :: bool
  ro_Rest :: string
  ro_RawRest :: string
  ro_Prefix :: string

definition cutSegment :: "string \<Rightarrow> string \<times> string" where
  "cutSegment p =
     (if \<not> hasPrefix p ''/'' then ([], p)
      else (let q = tl p in case first_index slash 0 q of Some i \<Rightarrow> (take i q, drop i q) | None \<Rightarrow> (q, [])))"

text \<open>\<open>url.PathUnescape\<close>\<close>

definition unhex :: "char \<Rightarrow> nat option" where
  "unhex c =
     (let n = of_char c :: nat
      in if 48 \<le> n \<and> n \<le> 57 then Some (n - 48) else if 97 \<le> n \<and> n \<le> 102 then Some (n - 87)
         else if 65 \<le> n \<and> n \<le> 70 then Some (n - 55) else None)"

fun PathUnescape :: "string \<Rightarrow> string option" where
  "PathUnescape [] = Some []"
| "PathUnescape (c # s) =
     (if c = CHR ''%'' then
        (case s of
           a # b # r \<Rightarrow>
             (case (unhex a, unhex b) of
                (Some x, Some y) \<Rightarrow> map_option (\<lambda>t. char_of (16 * x + y) # t) (PathUnescape r)
              | _ \<Rightarrow> None)
         | _ \<Rightarrow> None)
      else map_option (\<lambda>t. c # t) (PathUnescape s))"

section \<open>Host routing\<close>

text \<open>The resolver's view: does this id exist, and the cache after asking.\<close>

type_synonym 'c exists_fun = "string \<Rightarrow> 'c \<Rightarrow> bool \<times> 'c"

definition hostRoute :: "string \<Rightarrow> int \<Rightarrow> bool \<Rightarrow> route" where
  "hostRoute i port user = \<lparr>ro_SandboxID = i, ro_Port = port, ro_UserPort = user, ro_Rest = [], ro_RawRest = [], ro_Prefix = []\<rparr>"

text \<open>The reading of a label as an id and a port, when it has one.\<close>

definition portReading :: "string \<Rightarrow> (string \<times> int) option" where
  "portReading label =
     (case last_index (CHR ''-'') 0 label of
        None \<Rightarrow> None
      | Some i \<Rightarrow>
          if i = 0 then None
          else (case Atoi (drop (i + 1) label) of
             None \<Rightarrow> None
           | Some port \<Rightarrow> if port > 0 \<and> port < 65536 then Some (take i label, port) else None))"

definition wholeLabel :: "'c exists_fun option \<Rightarrow> string \<Rightarrow> 'c \<Rightarrow> route option \<times> 'c" where
  "wholeLabel ex label c =
     (case ex of
        None \<Rightarrow> (Some (hostRoute label DataPlanePort False), c)
      | Some f \<Rightarrow> (case f label c of (b, c1) \<Rightarrow> ((if b then Some (hostRoute label DataPlanePort False) else None), c1)))"

definition ParseHost :: "string \<Rightarrow> string \<Rightarrow> 'c exists_fun option \<Rightarrow> 'c \<Rightarrow> route option \<times> 'c" where
  "ParseHost host0 suffix0 ex c =
     (let host = ToLower (trimSuffix (takeWhile (\<lambda>x. x \<noteq> CHR '':'') host0) ''.'');
          suff = ToLower (trimPrefix suffix0 ''.'')
      in if \<not> hasSuffix host (''.'' @ suff) then (None, c)
         else (let label = trimSuffix host (''.'' @ suff) in
           if label = [] \<or> CHR ''.'' \<in> set label then (None, c)
           else (case portReading label of
              None \<Rightarrow> wholeLabel ex label c
            | Some (i, port) \<Rightarrow>
                (case ex of
                   None \<Rightarrow> (Some (hostRoute i port True), c)
                 | Some f \<Rightarrow>
                     (case f i c of (b, c1) \<Rightarrow> if b then (Some (hostRoute i port True), c1) else wholeLabel ex label c1)))))"

section \<open>The routers\<close>

text \<open>A host router has its suffix, its scheme and whether it has a resolver; a path router its prefix and
  its public origin; a chain the routers it tries.\<close>

datatype router = HostRouter string string bool | PathRouter string string | ChainRouter "router list"

definition trimSlashes :: "string \<Rightarrow> string" where
  "trimSlashes s = rev (dropWhile (\<lambda>c. c = slash) (rev (dropWhile (\<lambda>c. c = slash) s)))"

definition pathPrefix :: "string \<Rightarrow> string" where
  "pathPrefix p = (if p = [] then DefaultPathPrefix else ''/'' @ trimSlashes p)"

definition HostRouter_Route :: "string \<Rightarrow> 'c exists_fun option \<Rightarrow> g_request \<Rightarrow> 'c \<Rightarrow> route option \<times> 'c" where
  "HostRouter_Route suff ex r c =
     (case ParseHost (gq_Host r) suff ex c of
        (None, c1) \<Rightarrow> (None, c1)
      | (Some rt, c1) \<Rightarrow>
          (Some (if gq_Path r = [] then rt\<lparr>ro_Rest := ''/'', ro_RawRest := ''/''\<rparr>
                 else rt\<lparr>ro_Rest := gq_Path r, ro_RawRest := gq_EscapedPath r\<rparr>), c1))"

text \<open>The part of the path after the sandbox id: the port, whether it is a user port, the prefix and the rest.\<close>

definition userPort :: "string \<Rightarrow> string \<Rightarrow> (int \<times> bool \<times> string \<times> string) option" where
  "userPort pfx rest =
     (case cutSegment rest of (seg, after) \<Rightarrow>
        if seg \<noteq> userPortSegment then Some (DataPlanePort, False, pfx, rest)
        else (case cutSegment after of (portSeg, tail) \<Rightarrow>
           (case Atoi portSeg of
              None \<Rightarrow> None
            | Some port \<Rightarrow>
                if port \<le> 0 \<or> port > 65535 then None
                else Some (port, True, pfx @ ''/'' @ userPortSegment @ ''/'' @ portSeg, tail))))"

definition PathRouter_Route :: "string \<Rightarrow> g_request \<Rightarrow> route option" where
  "PathRouter_Route cfg r =
     (let pre = pathPrefix cfg; esc = gq_EscapedPath r in
      if esc \<noteq> pre \<and> \<not> hasPrefix esc (pre @ ''/'') then None
      else (case cutSegment (trimPrefix esc pre) of (i, rest) \<Rightarrow>
        if i = [] then None
        else (case userPort (pre @ ''/'' @ i) rest of
           None \<Rightarrow> None
         | Some (port, user, pfx, raw) \<Rightarrow>
             (case PathUnescape raw of
                None \<Rightarrow> None
              | Some dec \<Rightarrow>
                  Some \<lparr>ro_SandboxID = i, ro_Port = port, ro_UserPort = user, ro_Rest = dec, ro_RawRest = raw, ro_Prefix = pfx\<rparr>))))"

fun Route :: "'c exists_fun \<Rightarrow> router \<Rightarrow> g_request \<Rightarrow> 'c \<Rightarrow> route option \<times> 'c"
  and Route_chain :: "'c exists_fun \<Rightarrow> router list \<Rightarrow> g_request \<Rightarrow> 'c \<Rightarrow> route option \<times> 'c" where
  "Route ex (HostRouter suff sch res) r c = HostRouter_Route suff (if res then Some ex else None) r c"
| "Route ex (PathRouter cfg base) r c = (PathRouter_Route cfg r, c)"
| "Route ex (ChainRouter rs) r c = Route_chain ex rs r c"
| "Route_chain ex [] r c = (None, c)"
| "Route_chain ex (x # xs) r c =
     (case Route ex x r c of (Some rt, c1) \<Rightarrow> (Some rt, c1) | (None, c1) \<Rightarrow> Route_chain ex xs r c1)"

definition origin :: "string \<Rightarrow> string \<Rightarrow> string" where
  "origin sch host = (if sch = [] then ''//'' @ host else sch @ ''://'' @ host)"

fun EndpointURL :: "router \<Rightarrow> string \<Rightarrow> string" where
  "EndpointURL (HostRouter suff sch res) i = origin sch (i @ ''.'' @ trimPrefix suff ''.'')"
| "EndpointURL (PathRouter cfg base) i = trimSuffix base ''/'' @ pathPrefix cfg @ ''/'' @ i"
| "EndpointURL (ChainRouter []) i = []"
| "EndpointURL (ChainRouter (r # rs)) i = EndpointURL r i"

fun PortURL :: "router \<Rightarrow> string \<Rightarrow> int \<Rightarrow> string" where
  "PortURL (HostRouter suff sch res) i port = origin sch (i @ ''-'' @ Itoa port @ ''.'' @ trimPrefix suff ''.'') @ ''/''"
| "PortURL (PathRouter cfg base) i port = EndpointURL (PathRouter cfg base) i @ ''/'' @ userPortSegment @ ''/'' @ Itoa port @ ''/''"
| "PortURL (ChainRouter []) i port = []"
| "PortURL (ChainRouter (r # rs)) i port = PortURL r i port"

text \<open>\<open>newRouter\<close> of the server binary: the scheme its flags select.\<close>

definition newRouter :: "string \<Rightarrow> string \<Rightarrow> string \<Rightarrow> string \<Rightarrow> router option" where
  "newRouter mode suff pfx base =
     (if mode = ''path'' then Some (PathRouter pfx base)
      else if mode = ''host'' then Some (HostRouter suff [] True)
      else if mode = ''both'' then Some (ChainRouter [PathRouter pfx base, HostRouter suff [] True])
      else None)"

section \<open>Segments and labels\<close>

lemma first_index_sep [simp]: "c \<notin> set a \<Longrightarrow> first_index c i (a @ c # b) = Some (i + length a)"
  by (induction a arbitrary: i) auto

lemma first_index_none [simp]: "c \<notin> set a \<Longrightarrow> first_index c i a = None"
  by (induction a arbitrary: i) auto

lemma last_index_absent [simp]: "c \<notin> set a \<Longrightarrow> last_index c i a = None"
  by (induction a arbitrary: i) auto

lemma last_index_sep [simp]: "c \<notin> set b \<Longrightarrow> last_index c i (a @ c # b) = Some (i + length a)"
  by (induction a arbitrary: i) auto

lemma cutSegment_sep: "slash \<notin> set a \<Longrightarrow> cutSegment (slash # a @ slash # b) = (a, slash # b)"
  by (simp add: cutSegment_def)

lemma cutSegment_end: "slash \<notin> set a \<Longrightarrow> cutSegment (slash # a) = (a, [])"
  by (simp add: cutSegment_def)

lemma cutSegment_append: "slash \<notin> set a \<Longrightarrow> p = [] \<or> hasPrefix p ''/'' \<Longrightarrow> cutSegment (slash # a @ p) = (a, p)"
  using cutSegment_sep cutSegment_end by (auto elim!: hasPrefix_CharE)

lemma sep_unique: "a @ (c::char) # b = a' @ c # b' \<Longrightarrow> c \<notin> set a \<Longrightarrow> c \<notin> set a' \<Longrightarrow> a = a' \<and> b = b'"
  using first_index_sep [of c a 0 b] first_index_sep [of c a' 0 b'] by auto

lemma ToLower_append [simp]: "ToLower (a @ b) = ToLower a @ ToLower b"
  by (simp add: ToLower_def)

lemma lower_digits: "ToLower (digits n) = digits n"
  unfolding ToLower_def
proof (rule map_idI)
  fix c assume "c \<in> set (digits n)"
  then obtain d where "d < 10" "c = digit d" using digits_digit by blast
  then show "lower_char c = c" by (auto simp: lower_char_def digit_def Let_def)
qed

lemma portReading_port:
  assumes "0 < port" "port < 65536" "i \<noteq> []"
  shows "portReading (i @ ''-'' @ Itoa port) = Some (i, port)"
  using assms Itoa_no_char [of "CHR ''-''"] Atoi_Itoa [of port] by (simp add: portReading_def int64_def Itoa_def digits_no_char)

section \<open>URLs and routes are inverse\<close>

text \<open>What the platform makes sandbox ids and its domain of.\<close>

definition plainID :: "string \<Rightarrow> bool" where
  "plainID i \<longleftrightarrow> i \<noteq> [] \<and> ToLower i = i \<and> set i \<inter> {CHR ''.'', CHR '':'', slash} = {}"

definition plainDomain :: "string \<Rightarrow> bool" where
  "plainDomain d \<longleftrightarrow> (let s = trimPrefix d ''.'' in s \<noteq> [] \<and> last s \<noteq> CHR ''.'' \<and> set s \<inter> {CHR '':'', slash} = {})"

text \<open>The request a client makes for a URL that a router has rendered: the origin becomes its host (or, under
  path routing, is the gateway's own), what follows is its path.\<close>

fun asks :: "router \<Rightarrow> string \<Rightarrow> g_request \<Rightarrow> bool" where
  "asks (HostRouter suff sch res) url r \<longleftrightarrow>
     url = origin sch (gq_Host r) @ gq_EscapedPath r \<and> slash \<notin> set (gq_Host r) \<and> hasPrefix (gq_EscapedPath r) ''/''
     \<and> PathUnescape (gq_EscapedPath r) = Some (gq_Path r)"
| "asks (PathRouter cfg base) url r \<longleftrightarrow>
     url = trimSuffix base ''/'' @ gq_EscapedPath r \<and> PathUnescape (gq_EscapedPath r) = Some (gq_Path r)"
| "asks (ChainRouter []) url r \<longleftrightarrow> False"
| "asks (ChainRouter (x # xs)) url r \<longleftrightarrow> asks x url r"

lemma ParseHost_label:
  assumes "plainDomain suff" "label \<noteq> []" "ToLower label = label" "set label \<inter> {CHR ''.'', CHR '':'', slash} = {}"
  shows "ParseHost (label @ ''.'' @ trimPrefix suff ''.'') suff ex c
    = (case portReading label of
         None \<Rightarrow> wholeLabel ex label c
       | Some (i, port) \<Rightarrow>
           (case ex of None \<Rightarrow> (Some (hostRoute i port True), c)
            | Some f \<Rightarrow> (case f i c of (b, c1) \<Rightarrow> if b then (Some (hostRoute i port True), c1) else wholeLabel ex label c1)))"
proof -
  let ?s = "trimPrefix suff ''.''"
  have s: "?s \<noteq> []" "last ?s \<noteq> CHR ''.''" "CHR '':'' \<notin> set ?s" using assms(1) by (auto simp: plainDomain_def Let_def)
  have t: "takeWhile (\<lambda>x. x \<noteq> CHR '':'') (label @ ''.'' @ ?s) = label @ ''.'' @ ?s"
    using assms(4) s(3) by (auto simp: takeWhile_eq_all_conv)
  have n: "trimSuffix (label @ ''.'' @ ?s) ''.'' = label @ ''.'' @ ?s"
  proof -
    have "last (label @ ''.'' @ ?s) \<noteq> CHR ''.''" using s(1,2) by simp
    then have "\<not> hasSuffix (label @ ''.'' @ ?s) ''.''" unfolding hasSuffix_iff by (metis last_snoc)
    then show ?thesis by (simp add: trimSuffix_def)
  qed
  have d: "ToLower ''.'' = ''.''" by (simp add: ToLower_def lower_char_def)
  have h: "ToLower (label @ ''.'' @ ?s) = label @ ''.'' @ ToLower ?s" using assms(3) d by (metis ToLower_append)
  have e: "trimSuffix (label @ ''.'' @ ToLower ?s) (''.'' @ ToLower ?s) = label" using trimSuffix_append [of label "''.'' @ ToLower ?s"] by simp
  have f: "hasSuffix (label @ ''.'' @ ToLower ?s) (''.'' @ ToLower ?s)" using hasSuffix_append [of label "''.'' @ ToLower ?s"] by simp
  show ?thesis unfolding ParseHost_def Let_def t n h e using f assms(2,4) by simp
qed

lemma PathRouter_Route_rendered:
  assumes "i \<noteq> []" "slash \<notin> set i" "p = [] \<or> hasPrefix p ''/''" "gq_EscapedPath r = pathPrefix cfg @ ''/'' @ i @ p"
  shows "PathRouter_Route cfg r =
    (case userPort (pathPrefix cfg @ ''/'' @ i) p of
       None \<Rightarrow> None
     | Some (port, user, pfx, raw) \<Rightarrow>
         (case PathUnescape raw of
            None \<Rightarrow> None
          | Some dec \<Rightarrow> Some \<lparr>ro_SandboxID = i, ro_Port = port, ro_UserPort = user, ro_Rest = dec, ro_RawRest = raw, ro_Prefix = pfx\<rparr>))"
proof -
  have "hasPrefix (gq_EscapedPath r) (pathPrefix cfg @ ''/'')" using assms(4) hasPrefix_append [of "pathPrefix cfg @ ''/''"] by simp
  moreover have "trimPrefix (gq_EscapedPath r) (pathPrefix cfg) = slash # i @ p" using assms(4) trimPrefix_append [of "pathPrefix cfg"] by simp
  ultimately show ?thesis using cutSegment_append [OF assms(2,3)] assms(1) by (simp add: PathRouter_Route_def Let_def)
qed

lemma path_port_route:
  assumes "plainID i" "0 < port" "port < 65536" "asks (PathRouter cfg base) (PortURL (PathRouter cfg base) i port) r"
  shows "PathRouter_Route cfg r = Some \<lparr>ro_SandboxID = i, ro_Port = port, ro_UserPort = True, ro_Rest = ''/'', ro_RawRest = ''/'',
    ro_Prefix = pathPrefix cfg @ ''/'' @ i @ ''/'' @ userPortSegment @ ''/'' @ Itoa port\<rparr>"
proof -
  let ?p = "slash # userPortSegment @ slash # Itoa port @ ''/''"
  have e: "gq_EscapedPath r = pathPrefix cfg @ ''/'' @ i @ ?p" using assms(4) by (simp add: userPortSegment_def)
  have n: "slash \<notin> set (Itoa port)" using Itoa_no_char [of slash] by (simp add: Itoa_def digits_no_char)
  have "cutSegment ?p = (userPortSegment, slash # Itoa port @ ''/'')" using cutSegment_sep [of userPortSegment] by (simp add: userPortSegment_def)
  moreover have "cutSegment (slash # Itoa port @ ''/'') = (Itoa port, ''/'')" using cutSegment_sep [OF n, of "[]"] by simp
  ultimately have "userPort (pathPrefix cfg @ ''/'' @ i) ?p
      = Some (port, True, pathPrefix cfg @ ''/'' @ i @ ''/'' @ userPortSegment @ ''/'' @ Itoa port, ''/'')"
    using assms(2,3) Atoi_Itoa [of port] by (simp add: userPort_def int64_def)
  then show ?thesis using PathRouter_Route_rendered [OF _ _ _ e] assms(1) by (simp add: plainID_def)
qed

lemma path_data_route:
  assumes "plainID i" "hasPrefix p ''/''" "fst (cutSegment p) \<noteq> userPortSegment" "PathUnescape p = Some d"
    and "asks (PathRouter cfg base) (EndpointURL (PathRouter cfg base) i @ p) r"
  shows "PathRouter_Route cfg r = Some \<lparr>ro_SandboxID = i, ro_Port = DataPlanePort, ro_UserPort = False, ro_Rest = d, ro_RawRest = p,
    ro_Prefix = pathPrefix cfg @ ''/'' @ i\<rparr>"
proof -
  have "userPort (pathPrefix cfg @ ''/'' @ i) p = Some (DataPlanePort, False, pathPrefix cfg @ ''/'' @ i, p)"
    using assms(3) by (cases "cutSegment p") (simp add: userPort_def)
  then show ?thesis using PathRouter_Route_rendered [of i p r cfg] assms(1,2,4,5) by (simp add: plainID_def)
qed

lemma asks_host:
  assumes "asks (HostRouter suff sch res) (origin sch h @ p) r" "slash \<notin> set h" "hasPrefix p ''/''"
  shows "gq_Host r = h \<and> gq_EscapedPath r = p \<and> PathUnescape p = Some (gq_Path r) \<and> gq_Path r \<noteq> []"
proof -
  obtain q q' where "p = slash # q" "gq_EscapedPath r = slash # q'" using assms(1,3) by (auto elim!: hasPrefix_CharE)
  then have "h @ slash # q = gq_Host r @ slash # q'" using assms(1) by (simp add: origin_def split: if_splits)
  then have "h = gq_Host r \<and> q = q'" by (rule sep_unique) (use assms(1,2) in simp_all)
  moreover from this have "PathUnescape p = Some (gq_Path r)" using assms(1) \<open>p = _\<close> \<open>gq_EscapedPath r = _\<close> by simp
  moreover from this have "gq_Path r \<noteq> []" using \<open>p = _\<close> by auto
  ultimately show ?thesis using \<open>p = _\<close> \<open>gq_EscapedPath r = _\<close> by blast
qed

lemma port_label:
  assumes "plainID i" "0 < port"
  shows "set (i @ ''-'' @ Itoa port) \<inter> {CHR ''.'', CHR '':'', slash} = {}" "ToLower (i @ ''-'' @ Itoa port) = i @ ''-'' @ Itoa port"
proof -
  have dig: "Itoa port = digits (nat port)" using assms(2) by (simp add: Itoa_def)
  show "set (i @ ''-'' @ Itoa port) \<inter> {CHR ''.'', CHR '':'', slash} = {}" using assms(1) by (auto simp: plainID_def dig digits_no_char)
  have "ToLower ''-'' = ''-''" by (simp add: ToLower_def lower_char_def)
  then show "ToLower (i @ ''-'' @ Itoa port) = i @ ''-'' @ Itoa port"
    using assms(1) unfolding dig by (simp only: ToLower_append lower_digits plainID_def)
qed

lemma host_port_route:
  assumes "plainID i" "plainDomain suff" "0 < port" "port < 65536" "fst (ex i c)"
    and "asks (HostRouter suff sch True) (PortURL (HostRouter suff sch True) i port) r"
  shows "\<exists>c'. Route ex (HostRouter suff sch True) r c = (Some \<lparr>ro_SandboxID = i, ro_Port = port, ro_UserPort = True, ro_Rest = ''/'', ro_RawRest = ''/'',
    ro_Prefix = []\<rparr>, c')"
proof -
  let ?l = "i @ ''-'' @ Itoa port"
  note no = port_label(1) [OF assms(1,3)] and low = port_label(2) [OF assms(1,3)]
  have "slash \<notin> set (?l @ ''.'' @ trimPrefix suff ''.'')" using no assms(2) by (auto simp: plainDomain_def Let_def)
  then have h: "gq_Host r = ?l @ ''.'' @ trimPrefix suff ''.''" "gq_EscapedPath r = ''/''" "gq_Path r = ''/''"
    using asks_host [of suff sch True "?l @ ''.'' @ trimPrefix suff ''.''" "''/''" r] assms(6) by simp_all
  obtain c' where "ex i c = (True, c')" using assms(5) by (metis prod.collapse)
  moreover have "portReading ?l = Some (i, port)" using portReading_port assms(1,3,4) by (simp add: plainID_def)
  ultimately have "ParseHost (gq_Host r) suff (Some ex) c = (Some (hostRoute i port True), c')"
    unfolding h(1) using ParseHost_label [OF assms(2) _ low no, of "Some ex" c] by simp
  then show ?thesis using h(2,3) by (simp add: HostRouter_Route_def hostRoute_def)
qed

lemma host_data_route:
  assumes "plainID i" "plainDomain suff" "\<And>c. fst (ex i c)" "\<And>j q c. portReading i = Some (j, q) \<Longrightarrow> \<not> fst (ex j c)"
    and "hasPrefix p ''/''" "asks (HostRouter suff sch True) (EndpointURL (HostRouter suff sch True) i @ p) r"
  shows "\<exists>c'. Route ex (HostRouter suff sch True) r c = (Some \<lparr>ro_SandboxID = i, ro_Port = DataPlanePort, ro_UserPort = False, ro_Rest = gq_Path r,
    ro_RawRest = p, ro_Prefix = []\<rparr>, c') \<and> PathUnescape p = Some (gq_Path r)"
proof -
  have no: "set i \<inter> {CHR ''.'', CHR '':'', slash} = {}" and low: "ToLower i = i" and ne: "i \<noteq> []" using assms(1) by (auto simp: plainID_def)
  have "slash \<notin> set (i @ ''.'' @ trimPrefix suff ''.'')" using no assms(2) by (auto simp: plainDomain_def Let_def)
  then have h: "gq_Host r = i @ ''.'' @ trimPrefix suff ''.''" "gq_EscapedPath r = p" "PathUnescape p = Some (gq_Path r)" "gq_Path r \<noteq> []"
    using asks_host [of suff sch True "i @ ''.'' @ trimPrefix suff ''.''" p r] assms(5,6) by simp_all
  have w: "\<exists>c'. wholeLabel (Some ex) i c1 = (Some (hostRoute i DataPlanePort False), c')" for c1
    using assms(3) [of c1] by (cases "ex i c1") (simp add: wholeLabel_def)
  have "\<exists>c'. ParseHost (gq_Host r) suff (Some ex) c = (Some (hostRoute i DataPlanePort False), c')"
  proof (cases "portReading i")
    case None
    then show ?thesis unfolding h(1) using ParseHost_label [OF assms(2) ne low no, of "Some ex" c] w by simp
  next
    case (Some jq)
    then obtain j q where jq: "portReading i = Some (j, q)" by (metis prod.exhaust)
    obtain c1 where "ex j c = (False, c1)" using assms(4) [OF jq, of c] by (metis prod.collapse)
    then show ?thesis unfolding h(1) using ParseHost_label [OF assms(2) ne low no, of "Some ex" c] jq w by simp
  qed
  then show ?thesis using h(2,3,4) by (auto simp: HostRouter_Route_def hostRoute_def)
qed

lemma rendered_url_routes:
  assumes "newRouter mode suff cfg base = Some rt" "plainID i" "plainDomain suff" "\<And>j c. fst (ex j c) \<longleftrightarrow> j \<in> known" "i \<in> known"
  shows "0 < port \<Longrightarrow> port < 65536 \<Longrightarrow> asks rt (PortURL rt i port) r
      \<Longrightarrow> \<exists>x c'. Route ex rt r c = (Some x, c') \<and> ro_SandboxID x = i \<and> ro_Port x = port \<and> ro_UserPort x \<and> ro_Rest x = ''/''"
    and "hasPrefix p ''/'' \<Longrightarrow> fst (cutSegment p) \<noteq> userPortSegment \<Longrightarrow> PathUnescape p = Some d
      \<Longrightarrow> (\<And>j q. mode = ''host'' \<Longrightarrow> portReading i = Some (j, q) \<Longrightarrow> j \<notin> known) \<Longrightarrow> asks rt (EndpointURL rt i @ p) r
      \<Longrightarrow> \<exists>x c'. Route ex rt r c = (Some x, c') \<and> ro_SandboxID x = i \<and> ro_Port x = DataPlanePort \<and> \<not> ro_UserPort x
           \<and> ro_Rest x = d \<and> ro_RawRest x = p"
proof -
  have ex: "fst (ex i c)" for c using assms(4,5) by simp
  consider (path) "rt = PathRouter cfg base" | (host) "mode = ''host''" "rt = HostRouter suff [] True"
    | (both) "rt = ChainRouter [PathRouter cfg base, HostRouter suff [] True]"
    using assms(1) by (auto simp: newRouter_def split: if_splits)
  note modes = this
  show "\<exists>x c'. Route ex rt r c = (Some x, c') \<and> ro_SandboxID x = i \<and> ro_Port x = port \<and> ro_UserPort x \<and> ro_Rest x = ''/''"
    if "0 < port" "port < 65536" "asks rt (PortURL rt i port) r"
    using modes
  proof cases
    case host
    then show ?thesis using host_port_route [of i suff port ex c "[]" r, OF assms(2,3) that(1,2) ex] that(3) by fastforce
  qed (use path_port_route [OF assms(2) that(1,2), of cfg base r] that(3) in simp_all)
  show "\<exists>x c'. Route ex rt r c = (Some x, c') \<and> ro_SandboxID x = i \<and> ro_Port x = DataPlanePort \<and> \<not> ro_UserPort x
           \<and> ro_Rest x = d \<and> ro_RawRest x = p"
    if "hasPrefix p ''/''" "fst (cutSegment p) \<noteq> userPortSegment" "PathUnescape p = Some d"
      "\<And>j q. mode = ''host'' \<Longrightarrow> portReading i = Some (j, q) \<Longrightarrow> j \<notin> known" "asks rt (EndpointURL rt i @ p) r"
    using modes
  proof cases
    case host
    note nk = that(4)
    have "\<not> fst (ex j c)" if "portReading i = Some (j, q)" for j q c using nk [OF host(1) that] assms(4) by blast
    from host_data_route [of i suff ex p "[]" r c, OF assms(2,3) ex this that(1)] that(3,5) host show ?thesis by fastforce
  qed (use path_data_route [OF assms(2) that(1-3), of cfg base r] that(5) in simp_all)
qed

text \<open>The gateway accepts the URLs it hands out. Under every routing mode, the URL rendered for a port of an
  existing sandbox is routed back to that port of that sandbox, and any path below the rendered endpoint (other than the one
  reserved for ports) to the data plane of that sandbox with the path intact; under host routing
  the latter needs that no other sandbox is named like the id without a trailing port number.\<close>

lemma url_round_trip:
  assumes "newRouter mode suff cfg base = Some rt" "plainID i" "plainDomain suff" "\<And>j c. fst (ex j c) \<longleftrightarrow> j \<in> known" "i \<in> known"
  shows "(\<forall>port. 0 < port \<and> port < 65536 \<and> asks rt (PortURL rt i port) r \<longrightarrow>
        (\<exists>x c'. Route ex rt r c = (Some x, c') \<and> ro_SandboxID x = i \<and> ro_Port x = port \<and> ro_UserPort x \<and> ro_Rest x = ''/''))
    \<and> (\<forall>p d. hasPrefix p ''/'' \<and> fst (cutSegment p) \<noteq> userPortSegment \<and> PathUnescape p = Some d
        \<and> (\<forall>j q. mode = ''host'' \<and> portReading i = Some (j, q) \<longrightarrow> j \<notin> known) \<and> asks rt (EndpointURL rt i @ p) r \<longrightarrow>
        (\<exists>x c'. Route ex rt r c = (Some x, c') \<and> ro_SandboxID x = i \<and> ro_Port x = DataPlanePort \<and> \<not> ro_UserPort x
           \<and> ro_Rest x = d \<and> ro_RawRest x = p))"
  using rendered_url_routes [OF assms] by (intro conjI allI impI; elim conjE) simp_all

definition demoGet :: "string \<Rightarrow> string \<Rightarrow> g_request" where
  "demoGet host path = \<lparr>gq_Method = ''GET'', gq_Host = host, gq_Path = path, gq_EscapedPath = path, gq_RawQuery = [], gq_Query = [],
     gq_Header = (\<lambda>_. []), gq_RemoteAddr = ''10.0.0.9:5'', gq_TLS = True\<rparr>"

text \<open>A label that is itself a sandbox loses to the port reading when both sandboxes exist.\<close>

lemma port_reading_wins:
  assumes "plainDomain suff" "plainID i" "0 < port" "port < 65536" "\<And>j c. fst (ex j c)"
    and "gq_Host r = i @ ''-'' @ Itoa port @ ''.'' @ trimPrefix suff ''.''"
  shows "\<exists>x c'. Route ex (HostRouter suff sch True) r c = (Some x, c') \<and> ro_SandboxID x = i \<and> ro_SandboxID x \<noteq> i @ ''-'' @ Itoa port"
proof -
  let ?l = "i @ ''-'' @ Itoa port"
  note no = port_label(1) [OF assms(2,3)] and low = port_label(2) [OF assms(2,3)]
  have "portReading ?l = Some (i, port)" using portReading_port assms(2-4) by (simp add: plainID_def)
  moreover obtain c' where "ex i c = (True, c')" using assms(5) [of i c] by (metis prod.collapse)
  ultimately have "ParseHost (gq_Host r) suff (Some ex) c = (Some (hostRoute i port True), c')"
    using ParseHost_label [OF assms(1) _ low no, of "Some ex" c] assms(6) by simp
  then show ?thesis by (simp add: HostRouter_Route_def hostRoute_def)
qed

end
