(* ===== verification/Gateway.thy ===== *)
theory Gateway
  imports Gateway_Route Kube
begin

text \<open>
  The public entry point for sandbox traffic (\<open>pkg/gateway/server.go\<close>, \<open>transport.go\<close>) and the adapter that
  gives it the control plane's authenticator (\<open>cmd/jdix-server/main.go\<close>). The clock is read once per
  request. What \<open>httputil.ReverseProxy\<close> hands to the rewrite hook is an arbitrary outgoing request;
  what the hook does to it, and what the response hook does to the headers of the answer, is
  modelled. Parsing and printing of a Location header are arguments.
\<close>

section \<open>Resolving a sandbox\<close>

record target =
  tg_SandboxID :: string
  tg_Namespace :: string
  tg_PodName :: string
  tg_PodIP :: string
  tg_TenantID :: string
  tg_Token :: string
  tg_ExpiresAt :: "int option"
  tg_Phase :: string

definition noTarget :: target where
  "noTarget = \<lparr>tg_SandboxID = [], tg_Namespace = [], tg_PodName = [], tg_PodIP = [], tg_TenantID = [], tg_Token = [],
     tg_ExpiresAt = None, tg_Phase = []\<rparr>"

definition targetOf :: "string \<Rightarrow> sandbox \<Rightarrow> target" where
  "targetOf i s =
     \<lparr>tg_SandboxID = i, tg_Namespace = o_Namespace (sbx_Meta s), tg_PodName = st_PodName (sbx_Status s), tg_PodIP = st_PodIP (sbx_Status s),
      tg_TenantID = lbl (o_Labels (sbx_Meta s)) LabelTenant, tg_Token = st_Token (sbx_Status s), tg_ExpiresAt = st_ExpiresAt (sbx_Status s),
      tg_Phase = st_Phase (sbx_Status s)\<rparr>"

type_synonym route_cache = "string \<rightharpoonup> target \<times> int"

text \<open>The reader lists the sandboxes of a name, over all namespaces.\<close>

record 'k resolver =
  rv_List :: "string \<Rightarrow> 'k \<Rightarrow> (kerr, sandbox list) result"
  rv_TTL :: int

definition NewCachedResolver :: "(string \<Rightarrow> 'k \<Rightarrow> (kerr, sandbox list) result) \<Rightarrow> 'k resolver \<times> route_cache" where
  "NewCachedResolver rd = (\<lparr>rv_List = rd, rv_TTL = 2 * second\<rparr>, Map.empty)"

definition Resolve :: "'k resolver \<Rightarrow> int \<Rightarrow> 'k \<Rightarrow> string \<Rightarrow> route_cache \<Rightarrow> (target \<times> bool) \<times> route_cache" where
  "Resolve rv now k i c =
     (let fresh = (case rv_List rv i k of
                     Inl e \<Rightarrow> ((noTarget, False), c)
                   | Inr [] \<Rightarrow> ((noTarget, False), c(i \<mapsto> (noTarget, now)))
                   | Inr (s # _) \<Rightarrow> (let t = targetOf i s in ((t, tg_PodIP t \<noteq> []), c(i \<mapsto> (t, now)))))
      in case c i of
           None \<Rightarrow> fresh
         | Some (t, at) \<Rightarrow> if now - at < rv_TTL rv then ((t, tg_PodIP t \<noteq> []), c) else fresh)"

definition existsIn :: "'k resolver \<Rightarrow> int \<Rightarrow> 'k \<Rightarrow> route_cache exists_fun" where
  "existsIn rv now k i c = (case Resolve rv now k i c of ((t, ok), c1) \<Rightarrow> (ok, c1))"

section \<open>Transports\<close>

text \<open>The outgoing request: the parts of it the hooks write.\<close>

record g_out =
  og_Scheme :: string
  og_URLHost :: string
  og_Host :: string
  og_Path :: string
  og_RawPath :: string
  og_Query :: "(string \<times> string) list"
  og_Header :: header

definition ControlTokenHeader :: string where "ControlTokenHeader = ''X-Jdix-Control-Token''"

text \<open>The API proxy transport has the scheme and host of the API server.\<close>

datatype transport = DirectTransport | APIProxyTransport string string

definition directReachable :: "target \<Rightarrow> string option" where
  "directReachable t = (if tg_PodIP t = [] then Some (''sandbox '' @ tg_SandboxID t @ '' has no Pod IP yet'') else None)"

definition apiProxyReachable :: "target \<Rightarrow> string option" where
  "apiProxyReachable t =
     (if tg_Namespace t = [] \<or> tg_PodName t = [] then Some (''sandbox '' @ tg_SandboxID t @ '' is not bound to a named Pod yet'') else None)"

fun Reachable :: "transport \<Rightarrow> target \<Rightarrow> string option" where
  "Reachable DirectTransport t = directReachable t"
| "Reachable (APIProxyTransport sch host) t = apiProxyReachable t"

definition JoinHostPort :: "string \<Rightarrow> string \<Rightarrow> string" where
  "JoinHostPort host port = (if CHR '':'' \<in> set host then ''['' @ host @ '']:'' @ port else host @ '':'' @ port)"

definition SetURL :: "string \<Rightarrow> string \<Rightarrow> g_out \<Rightarrow> g_out" where
  "SetURL sch host o1 = o1\<lparr>og_Scheme := sch, og_URLHost := host, og_Host := []\<rparr>"

text \<open>\<open>url.Values.Del\<close> and \<open>Encode\<close>, which sorts by key.\<close>

definition dropToken :: "(string \<times> string) list \<Rightarrow> (string \<times> string) list" where
  "dropToken q = (if ''token'' \<in> fst ` set q then sort_key fst (filter (\<lambda>(k, v). k \<noteq> ''token'') q) else q)"

definition presentToken :: "target \<Rightarrow> route \<Rightarrow> (string \<Rightarrow> header \<Rightarrow> header) \<Rightarrow> g_out \<Rightarrow> g_out" where
  "presentToken t rt put o1 =
     (let o2 = o1\<lparr>og_Header := hdel (hdel (og_Header o1) ''Authorization'') ControlTokenHeader, og_Query := dropToken (og_Query o1)\<rparr>
      in if ro_UserPort rt \<or> tg_Token t = [] then o2 else o2\<lparr>og_Header := put (tg_Token t) (og_Header o2)\<rparr>)"

definition proxyPrefix :: "target \<Rightarrow> route \<Rightarrow> string" where
  "proxyPrefix t rt = ''/api/v1/namespaces/'' @ tg_Namespace t @ ''/pods/http:'' @ tg_PodName t @ '':'' @ Itoa (ro_Port rt) @ ''/proxy''"

definition directRewrite :: "g_request \<Rightarrow> target \<Rightarrow> route \<Rightarrow> g_out \<Rightarrow> g_out" where
  "directRewrite r t rt o1 =
     presentToken t rt (\<lambda>tok h. hset h ''Authorization'' (''Bearer '' @ tok))
       ((SetURL ''http'' (JoinHostPort (tg_PodIP t) (Itoa (ro_Port rt))) o1)
          \<lparr>og_Host := gq_Host r, og_Path := ro_Rest rt, og_RawPath := ro_RawRest rt\<rparr>)"

definition apiProxyRewrite :: "string \<Rightarrow> string \<Rightarrow> target \<Rightarrow> route \<Rightarrow> g_out \<Rightarrow> g_out" where
  "apiProxyRewrite sch host t rt o1 =
     presentToken t rt (\<lambda>tok h. hset h ControlTokenHeader tok)
       ((SetURL sch host o1)\<lparr>og_Path := proxyPrefix t rt @ ro_Rest rt, og_RawPath := proxyPrefix t rt @ ro_RawRest rt\<rparr>)"

fun TransportRewrite :: "transport \<Rightarrow> g_request \<Rightarrow> target \<Rightarrow> route \<Rightarrow> g_out \<Rightarrow> g_out" where
  "TransportRewrite DirectTransport r t rt o1 = directRewrite r t rt o1"
| "TransportRewrite (APIProxyTransport sch host) r t rt o1 = apiProxyRewrite sch host t rt o1"

section \<open>The proxy's hooks\<close>

definition Rewrite :: "transport \<Rightarrow> g_request \<Rightarrow> target \<Rightarrow> route \<Rightarrow> g_out \<Rightarrow> g_out" where
  "Rewrite tr r t rt o1 =
     (let o2 = TransportRewrite tr r t rt o1;
          h1 = (case SplitHostPort (gq_RemoteAddr r) of None \<Rightarrow> og_Header o2 | Some (ip, port) \<Rightarrow> hset (og_Header o2) ''X-Forwarded-For'' ip);
          h2 = hset h1 ''X-Forwarded-Proto'' ''https'';
          h3 = (if ro_Prefix rt \<noteq> [] then hset h2 ''X-Forwarded-Prefix'' (ro_Prefix rt) else hdel h2 ''X-Forwarded-Prefix'')
      in o2\<lparr>og_Header := h3\<rparr>)"

text \<open>A parsed URL: its host, its path, and the rest, which only printing looks at.\<close>

record 'u url =
  u_Host :: string
  u_Path :: string
  u_More :: 'u

definition rewriteLocation :: "(string \<Rightarrow> 'u url option) \<Rightarrow> ('u url \<Rightarrow> string) \<Rightarrow> string \<Rightarrow> string \<Rightarrow> header \<Rightarrow> header" where
  "rewriteLocation parse render pfx host h =
     (let loc = hget h ''Location'' in
      if loc = [] then h
      else (case parse loc of
         None \<Rightarrow> h
       | Some u \<Rightarrow>
           if u_Host u \<noteq> [] \<and> \<not> EqualFold (u_Host u) host then h
           else if \<not> hasPrefix (u_Path u) ''/'' then h
           else hset h ''Location'' (render (u\<lparr>u_Path := pfx @ u_Path u\<rparr>))))"

fun scopeParts :: "string \<Rightarrow> string list \<Rightarrow> string list option" where
  "scopeParts pfx [] = None"
| "scopeParts pfx (p # ps) =
     (case cut (CHR ''='') p of (name, value, found) \<Rightarrow>
        if EqualFold (TrimSpace name) ''path'' then
          (let v = TrimSpace value; v' = (if hasPrefix v ''/'' then v else ''/'' @ v)
           in Some (('' Path='' @ pfx @ v') # ps))
        else map_option (\<lambda>qs. p # qs) (scopeParts pfx ps))"

definition scopeCookie :: "string \<Rightarrow> string \<Rightarrow> string" where
  "scopeCookie cookie pfx =
     (case split_on (CHR '';'') cookie of
        [] \<Rightarrow> cookie @ ''; Path='' @ pfx @ ''/''
      | nv # attrs \<Rightarrow>
          (case scopeParts pfx attrs of
             Some attrs' \<Rightarrow> join '';'' (nv # attrs')
           | None \<Rightarrow> cookie @ ''; Path='' @ pfx @ ''/''))"

definition rewriteCookiePaths :: "string \<Rightarrow> header \<Rightarrow> header" where
  "rewriteCookiePaths pfx h = h(''Set-Cookie'' := map (\<lambda>c. scopeCookie c pfx) (h ''Set-Cookie''))"

definition ModifyResponse :: "(string \<Rightarrow> 'u url option) \<Rightarrow> ('u url \<Rightarrow> string) \<Rightarrow> route \<Rightarrow> string \<Rightarrow> header \<Rightarrow> header" where
  "ModifyResponse parse render rt host h =
     (if ro_Prefix rt = [] then h else rewriteCookiePaths (ro_Prefix rt) (rewriteLocation parse render (ro_Prefix rt) host h))"

section \<open>The server\<close>

record caller =
  ca_TenantID :: string
  ca_MayUse :: bool

datatype gw_error = Forbidden | NoAuthenticator | AuthFailed auth_error

record 'a authenticator =
  au_Verify :: "string \<Rightarrow> string \<Rightarrow> 'a \<Rightarrow> (auth_error, caller) result \<times> 'a"

text \<open>The adapter of the binary: the control plane's authenticator, and whether the key may read sandboxes.\<close>

definition dataPlaneAuth ::
    "'s store_ops \<Rightarrow> argon \<Rightarrow> (string \<Rightarrow> string \<Rightarrow> bool) \<Rightarrow> int \<Rightarrow> (auth_cache \<times> 's) authenticator" where
  "dataPlaneAuth so idKey cidr now =
     \<lparr>au_Verify = (\<lambda>presented ip st. case Verify so idKey cidr now presented ip (fst st) (snd st) of
          (Inl e, c, s) \<Rightarrow> (Inl e, c, s)
        | (Inr p, c, s) \<Rightarrow> (Inr \<lparr>ca_TenantID = p_TenantID p, ca_MayUse = Allows (p_Key p) ScopeSandboxRead\<rparr>, c, s))\<rparr>"

record ('a, 'k) gateway =
  gs_Resolver :: "'k resolver"
  gs_Router :: "router option"
  gs_Suffix :: string
  gs_Transport :: "transport option"
  gs_Auth :: "'a authenticator option"

definition gw_transport :: "('a, 'k) gateway \<Rightarrow> transport" where
  "gw_transport gs = (case gs_Transport gs of Some tr \<Rightarrow> tr | None \<Rightarrow> DirectTransport)"

definition gw_router :: "('a, 'k) gateway \<Rightarrow> router" where
  "gw_router gs = (case gs_Router gs of Some r \<Rightarrow> r | None \<Rightarrow> HostRouter (gs_Suffix gs) [] True)"

definition gw_bearer :: "g_request \<Rightarrow> string" where
  "gw_bearer r =
     (let h = hget (gq_Header r) ''Authorization''
      in if length h > 7 \<and> take 7 h = ''Bearer '' then drop 7 h else qget (gq_Query r) ''token'')"

definition gw_clientIP :: "g_request \<Rightarrow> string" where
  "gw_clientIP r = (case SplitHostPort (gq_RemoteAddr r) of None \<Rightarrow> gq_RemoteAddr r | Some (host, port) \<Rightarrow> host)"

definition authenticate :: "('a, 'k) gateway \<Rightarrow> g_request \<Rightarrow> 'a \<Rightarrow> (gw_error, caller) result \<times> 'a" where
  "authenticate gs r a =
     (case gs_Auth gs of
        None \<Rightarrow> (Inl NoAuthenticator, a)
      | Some au \<Rightarrow>
          (case au_Verify au (gw_bearer r) (gw_clientIP r) a of
             (Inl e, a1) \<Rightarrow> (Inl (AuthFailed e), a1)
           | (Inr ca, a1) \<Rightarrow> if \<not> ca_MayUse ca then (Inl Forbidden, a1) else (Inr ca, a1)))"

datatype g_body = GHealthy | GExposed int string

fun denied :: "gw_error \<Rightarrow> g_body response" where
  "denied Forbidden = writeErr 403 ''forbidden'' ''this API key may not use this sandbox''"
| "denied (AuthFailed e) = WriteAuthError e"
| "denied NoAuthenticator = writeErr 401 ''unauthorized'' ''an API key is required''"

definition portsPath :: string where "portsPath = ''/v1/ports''"

definition scheme :: "g_request \<Rightarrow> string" where
  "scheme r = (let p = hget (gq_Header r) ''X-Forwarded-Proto'' in if p \<noteq> [] then p else if gq_TLS r then ''https'' else ''http'')"

fun strContains :: "string \<Rightarrow> string \<Rightarrow> bool" where
  "strContains [] p \<longleftrightarrow> p = []"
| "strContains (c # s) p \<longleftrightarrow> hasPrefix (c # s) p \<or> strContains s p"

definition absolute :: "g_request \<Rightarrow> string \<Rightarrow> string" where
  "absolute r ref =
     (if strContains ref ''://'' then ref
      else if hasPrefix ref ''//'' then scheme r @ '':'' @ ref
      else scheme r @ ''://'' @ gq_Host r @ ref)"

definition exposePort :: "('a, 'k) gateway \<Rightarrow> g_request \<Rightarrow> (string, int) result \<Rightarrow> route \<Rightarrow> g_body response" where
  "exposePort gs r dec rt =
     (case dec of
        Inl e \<Rightarrow> writeErr 400 ''invalid_body'' e
      | Inr port \<Rightarrow>
          if port \<le> 0 \<or> port > 65535 then writeErr 400 ''invalid_port'' ''port must be between 1 and 65535''
          else if port = DataPlanePort then
            writeErr 400 ''reserved_port'' ''port 8080 is the sandbox's own data plane and is reached at the endpoint itself''
          else JSON 200 (GExposed port (absolute r (PortURL (gw_router gs) (ro_SandboxID rt) port))))"

text \<open>What becomes of a request: an answer, a redirect, or the proxy with the target and route it acts on.\<close>

datatype outcome = Respond "g_body response" | Redirect string | Proxy target route

definition notFound :: "g_body response" where
  "notFound = writeErr 404 ''unknown_sandbox'' ''this URL does not correspond to a running sandbox''"

text \<open>The part after the caller has been compared with the owner.\<close>

definition admitted :: "('a, 'k) gateway \<Rightarrow> int \<Rightarrow> g_request \<Rightarrow> (string, int) result \<Rightarrow> target \<Rightarrow> route \<Rightarrow> outcome" where
  "admitted gs now r dec t rt =
     (if (case tg_ExpiresAt t of None \<Rightarrow> False | Some e \<Rightarrow> now > e) then Respond (writeErr 410 ''expired'' ''this sandbox has expired'')
      else if ro_Prefix rt \<noteq> [] \<and> ro_Rest rt = [] then
        Redirect (ro_Prefix rt @ ''/'' @ (if gq_RawQuery r \<noteq> [] then ''?'' @ gq_RawQuery r else []))
      else if \<not> ro_UserPort rt \<and> gq_Method r = ''POST'' \<and> ro_Rest rt = portsPath then Respond (exposePort gs r dec rt)
      else (case Reachable (gw_transport gs) t of
              Some e \<Rightarrow> Respond (writeErr 502 ''sandbox_unreachable'' e)
            | None \<Rightarrow> Proxy t rt))"

definition gw_route ::
    "('a, 'k) gateway \<Rightarrow> int \<Rightarrow> 'k \<Rightarrow> g_request \<Rightarrow> (string, int) result \<Rightarrow> 'a \<times> route_cache \<Rightarrow> outcome \<times> 'a \<times> route_cache" where
  "gw_route gs now k r dec st =
     (case st of (a, c) \<Rightarrow>
       (case authenticate gs r a of
          (Inl e, a1) \<Rightarrow> (Respond (denied e), a1, c)
        | (Inr ca, a1) \<Rightarrow>
            (case Route (existsIn (gs_Resolver gs) now k) (gw_router gs) r c of
               (None, c1) \<Rightarrow> (Respond notFound, a1, c1)
             | (Some rt, c1) \<Rightarrow>
                 (case Resolve (gs_Resolver gs) now k (ro_SandboxID rt) c1 of
                    ((t, ok), c2) \<Rightarrow>
                      if \<not> ok then (Respond notFound, a1, c2)
                      else if tg_TenantID t = [] \<or> ca_TenantID ca \<noteq> tg_TenantID t then (Respond (denied Forbidden), a1, c2)
                      else (admitted gs now r dec t rt, a1, c2)))))"

definition gw_Handler ::
    "('a, 'k) gateway \<Rightarrow> int \<Rightarrow> 'k \<Rightarrow> g_request \<Rightarrow> (string, int) result \<Rightarrow> 'a \<times> route_cache \<Rightarrow> outcome \<times> 'a \<times> route_cache" where
  "gw_Handler gs now k r dec st =
     (if gq_Path r = ''/healthz'' \<and> (gq_Method r = ''GET'' \<or> gq_Method r = ''HEAD'') then (Respond (JSON 200 GHealthy), st)
      else gw_route gs now k r dec st)"

section \<open>What a cached answer says\<close>

text \<open>The target a read of the cluster gives for an id.\<close>

definition listed :: "'k resolver \<Rightarrow> string \<Rightarrow> 'k \<Rightarrow> target" where
  "listed rv i k = (case rv_List rv i k of Inr (s # _) \<Rightarrow> targetOf i s | _ \<Rightarrow> noTarget)"

text \<open>Every entry of the cache was read at its time, from the cluster of that time.\<close>

definition cacheFrom :: "'k resolver \<Rightarrow> (int \<times> 'k) set \<Rightarrow> route_cache \<Rightarrow> bool" where
  "cacheFrom rv H c \<longleftrightarrow> (\<forall>i t at. c i = Some (t, at) \<longrightarrow> (\<exists>k. (at, k) \<in> H \<and> listed rv i k = t))"

lemma Resolve_cache: "snd (Resolve rv now k i c) \<in> {c, c(i \<mapsto> (listed rv i k, now))}"
  by (auto simp: Resolve_def listed_def Let_def split: option.splits sum.splits list.splits)

lemma Resolve_cacheFrom:
  assumes "cacheFrom rv H c" "(now, k) \<in> H"
  shows "cacheFrom rv H (snd (Resolve rv now k i c))"
  using assms Resolve_cache [of rv now k i c] by (auto simp: cacheFrom_def split: if_splits)

lemma existsIn_cache: "snd (existsIn rv now k i c) = snd (Resolve rv now k i c)"
  by (simp add: existsIn_def split: prod.splits)

lemma Resolve_recent:
  assumes "cacheFrom rv H c" "(now, k) \<in> H" "Resolve rv now k i c = ((t, True), c')"
  shows "\<exists>at k' b bs. (at, k') \<in> H \<and> (at = now \<or> now - at < rv_TTL rv) \<and> rv_List rv i k' = Inr (b # bs) \<and> t = targetOf i b"
proof -
  have ip: "tg_PodIP t \<noteq> []" using assms(3)
    by (auto simp: Resolve_def Let_def split: option.splits sum.splits list.splits prod.splits if_splits)
  have l: "\<exists>b bs. rv_List rv i k' = Inr (b # bs) \<and> t = targetOf i b" if "listed rv i k' = t" for k'
    using that ip by (auto simp: listed_def noTarget_def split: sum.splits list.splits)
  consider at where "c i = Some (t, at)" "now - at < rv_TTL rv" | "listed rv i k = t"
    using assms(3) by (auto simp: Resolve_def listed_def Let_def split: option.splits sum.splits list.splits prod.splits if_splits)
  then show ?thesis
  proof cases
    case (1 at)
    then show ?thesis using assms(1) l by (fastforce simp: cacheFrom_def)
  next
    case 2
    then show ?thesis using assms(2) l by blast
  qed
qed

lemma ParseHost_keeps:
  assumes "\<And>f i c. ex = Some f \<Longrightarrow> P c \<Longrightarrow> P (snd (f i c))" "P c"
  shows "P (snd (ParseHost h suff ex c))"
proof -
  have w: "P c1 \<Longrightarrow> P (snd (wholeLabel ex l c1))" for l c1
    using assms(1) [of _ c1 l] by (auto simp: wholeLabel_def split: option.splits prod.splits)
  show ?thesis
  proof (cases ex)
    case None
    then show ?thesis using assms(2) w by (auto simp: ParseHost_def Let_def split: option.splits)
  next
    case (Some f)
    have "P (snd (case f i c of (b, c1) \<Rightarrow> if b then (Some x, c1) else wholeLabel ex l c1))" for i x l
      using assms(1) [OF Some assms(2), of i] w by (auto split: prod.splits)
    then show ?thesis using Some assms(2) w by (auto simp: ParseHost_def Let_def split: option.splits)
  qed
qed

lemma HostRouter_Route_cache: "snd (HostRouter_Route suff ex r c) = snd (ParseHost (gq_Host r) suff ex c)"
  by (simp add: HostRouter_Route_def split: prod.splits option.splits)

lemma Route_keeps:
  "\<forall>i c. P c \<longrightarrow> P (snd (ex i c)) \<Longrightarrow> P c \<Longrightarrow> P (snd (Route ex rt r c))"
  "\<forall>i c. P c \<longrightarrow> P (snd (ex i c)) \<Longrightarrow> P c \<Longrightarrow> P (snd (Route_chain ex rts r c))"
proof (induction ex rt r c and ex rts r c rule: Route_Route_chain.induct)
  case (1 ex suff sch res r c)
  have "P (snd (ParseHost (gq_Host r) suff (if res then Some ex else None) c))"
    by (rule ParseHost_keeps) (use 1 in \<open>simp_all split: if_splits\<close>)
  then show ?case by (simp only: Route.simps HostRouter_Route_cache)
next
  case (5 ex x xs r c)
  obtain y c1 where y: "Route ex x r c = (y, c1)" by force
  have "P c1" using "5.IH"(1) [OF "5.prems"] y by simp
  then show ?case using "5.IH"(2) [OF y [symmetric] _ "5.prems"(1)] y by (cases y) simp_all
qed simp_all

section \<open>Properties\<close>

lemma authenticate_Inr:
  assumes "gs_Auth gs = Some (dataPlaneAuth so idKey cidr now)" "authenticate gs r (ac, s) = (Inr ca, a1)"
  shows "\<exists>p. Verify so idKey cidr now (gw_bearer r) (gw_clientIP r) ac s = (Inr p, a1) \<and> Allows (p_Key p) ScopeSandboxRead
    \<and> ca_TenantID ca = p_TenantID p"
  using assms by (auto simp: authenticate_def dataPlaneAuth_def split: prod.splits sum.splits if_splits)

lemma gw_route_cases:
  assumes "gw_route gs now k r dec (a, c) = (out, a', c')"
  obtains (refused) code e msg h i where "out = Respond (ErrResp code e msg h)"
      "c' \<in> {c, snd (Route (existsIn (gs_Resolver gs) now k) (gw_router gs) r c),
             snd (Resolve (gs_Resolver gs) now k i (snd (Route (existsIn (gs_Resolver gs) now k) (gw_router gs) r c)))}"
  | (let_in) ca rt c1 t where "authenticate gs r a = (Inr ca, a')" "Route (existsIn (gs_Resolver gs) now k) (gw_router gs) r c = (Some rt, c1)"
      "Resolve (gs_Resolver gs) now k (ro_SandboxID rt) c1 = ((t, True), c')" "tg_TenantID t \<noteq> []" "ca_TenantID ca = tg_TenantID t"
      "out = admitted gs now r dec t rt"
proof -
  obtain x a1 where a: "authenticate gs r a = (x, a1)" by force
  obtain y c1 where y: "Route (existsIn (gs_Resolver gs) now k) (gw_router gs) r c = (y, c1)" by force
  have d: "\<exists>code e' msg h. denied e = ErrResp code e' msg h" for e
    by (cases e) (auto simp: writeErr_def WriteAuthError_def unauthorized_def)
  obtain nc ne nm nh where n: "notFound = ErrResp nc ne nm nh" by (simp add: notFound_def writeErr_def)
  note g = assms [unfolded gw_route_def prod.case a]
  show thesis
  proof (cases x)
    case (Inl e)
    obtain code e' msg h where "denied e = ErrResp code e' msg h" using d by blast
    then show thesis using g Inl by (intro refused) auto
  next
    case ca: (Inr ca)
    show thesis
    proof (cases y)
      case None
      then show thesis using g y ca n by (intro refused) auto
    next
      case rt: (Some rt)
      obtain t ok c2 where t: "Resolve (gs_Resolver gs) now k (ro_SandboxID rt) c1 = ((t, ok), c2)" by (metis prod.exhaust)
      note g' = g [unfolded ca y rt sum.case option.case prod.case t]
      show thesis
      proof (cases "ok \<and> tg_TenantID t \<noteq> [] \<and> ca_TenantID ca = tg_TenantID t")
        case True
        then have "(out, a', c') = (admitted gs now r dec t rt, a1, c2)" using g' by simp
        then show thesis using True a y ca rt t by (intro let_in) auto
      next
        case False
        obtain code e' msg h where f: "denied Forbidden = ErrResp code e' msg h" using d by blast
        have "c' = c2" "out = Respond notFound \<or> out = Respond (denied Forbidden)" using g' False by (auto split: if_splits simp del: denied.simps)
        then show thesis using y t n f refused by (metis insertCI snd_conv)
      qed
    qed
  qed
qed

text \<open>C25: only the owner is let in. Whatever the routing scheme, a request is proxied to a Pod, redirected into a
  sandbox or told a port's URL only if its credential is a live API key with the read scope, the key's tenant is the one
  whose label the sandbox object carries, and the sandbox has not expired, by a reading of the cluster no
  older than the resolver's time to live; every answer of the cache stays such a reading.\<close>

theorem only_the_owner_is_let_in:
  assumes "gs_Auth gs = Some (dataPlaneAuth so idKey cidr now)" "cacheFrom (gs_Resolver gs) H c" "(now, k) \<in> H"
    and "gw_route gs now k r dec ((ac, s), c) = (out, a', c')"
  shows "cacheFrom (gs_Resolver gs) H c'
    \<and> ((\<exists>t rt. out = Proxy t rt) \<or> (\<exists>u. out = Redirect u) \<or> (\<exists>n u. out = Respond (JSON 200 (GExposed n u))) \<longrightarrow>
        (\<exists>p i at k' b bs. Verify so idKey cidr now (gw_bearer r) (gw_clientIP r) ac s = (Inr p, a') \<and> Allows (p_Key p) ScopeSandboxRead
          \<and> (at, k') \<in> H \<and> (at = now \<or> now - at < rv_TTL (gs_Resolver gs)) \<and> rv_List (gs_Resolver gs) i k' = Inr (b # bs)
          \<and> p_TenantID p \<noteq> [] \<and> lbl (o_Labels (sbx_Meta b)) LabelTenant = p_TenantID p
          \<and> (case st_ExpiresAt (sbx_Status b) of None \<Rightarrow> True | Some e \<Rightarrow> now \<le> e)
          \<and> (\<forall>t rt. out = Proxy t rt \<longrightarrow> ro_SandboxID rt = i \<and> t = targetOf i b)))"
proof -
  let ?rv = "gs_Resolver gs"
  have ex: "\<forall>i c. cacheFrom ?rv H c \<longrightarrow> cacheFrom ?rv H (snd (existsIn ?rv now k i c))"
    using assms(3) by (auto simp: existsIn_cache intro: Resolve_cacheFrom)
  have c1: "cacheFrom ?rv H (snd (Route (existsIn ?rv now k) (gw_router gs) r c))"
    by (rule Route_keeps(1) [where P = "cacheFrom ?rv H", OF ex assms(2)])
  from assms(4) show ?thesis
  proof (cases rule: gw_route_cases)
    case (refused code e msg h i)
    then show ?thesis using assms(2) c1 Resolve_cacheFrom [OF c1 assms(3)] by auto
  next
    case (let_in ca rt c1' t)
    obtain p where p: "Verify so idKey cidr now (gw_bearer r) (gw_clientIP r) ac s = (Inr p, a')" "Allows (p_Key p) ScopeSandboxRead"
      "ca_TenantID ca = p_TenantID p" using authenticate_Inr [OF assms(1) let_in(1)] by blast
    have c1': "cacheFrom ?rv H c1'" using c1 let_in(2) by simp
    then have keep: "cacheFrom ?rv H c'" using Resolve_cacheFrom [OF c1' assms(3)] let_in(3) by (metis snd_conv)
    obtain at k' b bs where b: "(at, k') \<in> H" "at = now \<or> now - at < rv_TTL ?rv" "rv_List ?rv (ro_SandboxID rt) k' = Inr (b # bs)"
      "t = targetOf (ro_SandboxID rt) b" using Resolve_recent [OF c1' assms(3) let_in(3)] by auto
    have "(case st_ExpiresAt (sbx_Status b) of None \<Rightarrow> True | Some e \<Rightarrow> now \<le> e)"
      if "(\<exists>t rt. out = Proxy t rt) \<or> (\<exists>u. out = Redirect u) \<or> (\<exists>n u. out = Respond (JSON 200 (GExposed n u)))"
      using that let_in(6) b(4) by (auto simp: admitted_def targetOf_def writeErr_def split: option.splits if_splits)
    moreover have "\<forall>t' rt'. out = Proxy t' rt' \<longrightarrow> rt' = rt \<and> t' = t"
      using let_in(6) by (auto simp: admitted_def split: option.splits if_splits)
    moreover have "lbl (o_Labels (sbx_Meta b)) LabelTenant = p_TenantID p" "p_TenantID p \<noteq> []"
      using let_in(4,5) p(3) b(4) by (simp_all add: targetOf_def)
    ultimately show ?thesis using keep p(1,2) b by blast
  qed
qed

definition demoGW :: "(auth_cache \<times> pg, sandbox list) gateway" where
  "demoGW = \<lparr>gs_Resolver = fst (NewCachedResolver (\<lambda>i k. Inr (filter (\<lambda>b. o_Name (sbx_Meta b) = i) k))), gs_Router = Some (PathRouter [] []),
     gs_Suffix = [], gs_Transport = None, gs_Auth = Some (dataPlaneAuth (pgStore 0) demoIdKey (\<lambda>_ _. False) 5)\<rparr>"

definition demoBound :: "string \<Rightarrow> sandbox" where
  "demoBound tn = \<lparr>sbx_Meta = \<lparr>o_Name = ''sbx-1'', o_GenerateName = [], o_Namespace = ''ns1'', o_Labels = [LabelTenant \<mapsto> tn], o_Annotations = Map.empty,
       o_Finalizers = [], o_Owner = None, o_Version = 0, o_Created = 0, o_Deleting = False\<rparr>,
     sbx_Spec = \<lparr>ss_TemplateRef = ''py'', ss_TTLSeconds = 0,
       ss_Filesystem = \<lparr>fs_Workspace = \<lparr>ws_Path = [], ws_SizeLimit = []\<rparr>, fs_Mounts = [], fs_AllowSystemPaths = [], fs_Hide = []\<rparr>,
       ss_Env = [], ss_SecretRefs = [], ss_Metadata = []\<rparr>,
     sbx_Status = \<lparr>st_Phase = PhaseRunning, st_PodName = ''pod1'', st_PodIP = ''10.1.1.1'', st_NodeName = [], st_IsolationTier = [], st_ColdStart = False,
       st_Endpoint = [], st_Token = ''tok'', st_BoundAt = None, st_ExpiresAt = None, st_Reason = [], st_Ready = True\<rparr>\<rparr>"

definition demoIn :: g_request where
  "demoIn = (demoGet ''api.io'' ''/s/sbx-1/v1/files'')\<lparr>gq_RemoteAddr := ''10.0.0.1:9'',
     gq_Header := (\<lambda>h. if h = ''Authorization'' then [''Bearer '' @ demoPresented] else [])\<rparr>"

lemma demo_bearer: "gw_bearer demoIn = demoPresented" "gw_clientIP demoIn = ''10.0.0.1''"
  by code_simp+

lemma demo_in:
  "\<exists>a' c'. gw_route demoGW 5 [demoBound ''t1''] demoIn (Inr 1) ((Map.empty, demoAuthPG None), Map.empty)
     = (Proxy (targetOf ''sbx-1'' (demoBound ''t1''))
          \<lparr>ro_SandboxID = ''sbx-1'', ro_Port = 8080, ro_UserPort = False, ro_Rest = ''/v1/files'', ro_RawRest = ''/v1/files'', ro_Prefix = ''/s/sbx-1''\<rparr>, a', c')"
proof -
  note b = demo_bearer
  have rt: "PathRouter_Route [] demoIn = Some \<lparr>ro_SandboxID = ''sbx-1'', ro_Port = 8080, ro_UserPort = False, ro_Rest = ''/v1/files'',
      ro_RawRest = ''/v1/files'', ro_Prefix = ''/s/sbx-1''\<rparr>" by code_simp
  obtain c' s' where v: "Verify (pgStore 0) demoIdKey (\<lambda>_ _. False) 5 demoPresented ''10.0.0.1'' Map.empty (demoAuthPG None)
      = (Inr \<lparr>p_TenantID = ''t1'', p_Namespace = ''ns1'', p_KeyID = ''0123456789ab'', p_Key = demoKey None\<rparr>, c', s')"
    using demo_verify by (metis prod.collapse)
  have al: "Allows (demoKey None) ScopeSandboxRead" by code_simp
  have "authenticate demoGW demoIn (Map.empty, demoAuthPG None) = (Inr \<lparr>ca_TenantID = ''t1'', ca_MayUse = True\<rparr>, c', s')"
    using b v al by (simp add: authenticate_def demoGW_def dataPlaneAuth_def)
  moreover have "Resolve (gs_Resolver demoGW) 5 [demoBound ''t1''] ''sbx-1'' Map.empty
      = ((targetOf ''sbx-1'' (demoBound ''t1''), True), [''sbx-1'' \<mapsto> (targetOf ''sbx-1'' (demoBound ''t1''), 5)])"
    by (simp add: Resolve_def demoGW_def NewCachedResolver_def demoBound_def targetOf_def Let_def)
  ultimately show ?thesis using rt
    by (simp add: gw_route_def gw_router_def demoGW_def targetOf_def demoBound_def lbl_def admitted_def demoIn_def demoGet_def gw_transport_def directReachable_def)
qed

theorem only_the_owner_is_let_in_witness:
  "\<exists>p a'. Verify (pgStore 0) demoIdKey (\<lambda>_ _. False) 5 demoPresented ''10.0.0.1'' Map.empty (demoAuthPG None) = (Inr p, a')
     \<and> p_TenantID p = lbl (o_Labels (sbx_Meta (demoBound ''t1''))) LabelTenant"
proof -
  note be = demo_bearer
  obtain t rt a' c' where r: "gw_route demoGW 5 [demoBound ''t1''] demoIn (Inr 1) ((Map.empty, demoAuthPG None), Map.empty) = (Proxy t rt, a', c')"
    using demo_in by blast
  have "gs_Auth demoGW = Some (dataPlaneAuth (pgStore 0) demoIdKey (\<lambda>_ _. False) 5)" by (simp add: demoGW_def)
  note o = conjunct2 [OF only_the_owner_is_let_in [OF this _ _ r, of "{(5, [demoBound ''t1''])}"], THEN mp]
  obtain p i at k' b bs where "Verify (pgStore 0) demoIdKey (\<lambda>_ _. False) 5 (gw_bearer demoIn) (gw_clientIP demoIn) Map.empty (demoAuthPG None) = (Inr p, a')"
      "(at, k') \<in> {(5, [demoBound ''t1''])}" "rv_List (gs_Resolver demoGW) i k' = Inr (b # bs)" "lbl (o_Labels (sbx_Meta b)) LabelTenant = p_TenantID p"
    using o by (auto simp: cacheFrom_def)
  then show ?thesis unfolding be by (auto simp: demoGW_def NewCachedResolver_def split: if_splits)
qed

text \<open>C26: the caller's credential goes no further than the gateway. Whatever the incoming request carried, the request
  sent into a Pod presents the sandbox's own token in the one header its transport uses, and nothing
  at all on a port of the tenant's; no \<open>token\<close> parameter is left, the address the sandbox is told is the peer's,
  and the request is sent to the Pod the route resolved to.\<close>

theorem credential_is_swapped:
  "let o2 = Rewrite tr r t rt o1; given = (\<not> ro_UserPort rt \<and> tg_Token t \<noteq> []) in
    og_Header o2 ''Authorization'' = (if given \<and> tr = DirectTransport then [''Bearer '' @ tg_Token t] else [])
    \<and> og_Header o2 ControlTokenHeader = (if given \<and> tr \<noteq> DirectTransport then [tg_Token t] else [])
    \<and> ''token'' \<notin> fst ` set (og_Query o2) \<and> set (og_Query o2) \<subseteq> set (og_Query o1)
    \<and> og_Header o2 ''X-Forwarded-For'' = (case SplitHostPort (gq_RemoteAddr r) of None \<Rightarrow> og_Header o1 ''X-Forwarded-For'' | Some (ip, _) \<Rightarrow> [ip])
    \<and> og_Header o2 ''X-Forwarded-Prefix'' = (if ro_Prefix rt = [] then [] else [ro_Prefix rt])
    \<and> og_URLHost o2 = (case tr of DirectTransport \<Rightarrow> JoinHostPort (tg_PodIP t) (Itoa (ro_Port rt)) | APIProxyTransport sch host \<Rightarrow> host)
    \<and> og_Path o2 = (case tr of DirectTransport \<Rightarrow> ro_Rest rt | APIProxyTransport sch host \<Rightarrow> proxyPrefix t rt @ ro_Rest rt)"
  by (cases tr; cases "SplitHostPort (gq_RemoteAddr r)")
    (auto simp: Rewrite_def directRewrite_def apiProxyRewrite_def presentToken_def SetURL_def dropToken_def hset_def hdel_def
      ControlTokenHeader_def Let_def)

section \<open>Cookies under path routing\<close>

definition isPathAttr :: "string \<Rightarrow> bool" where
  "isPathAttr a \<longleftrightarrow> EqualFold (TrimSpace (fst (cut (CHR ''='') a))) ''path''"

definition attrsOf :: "string \<Rightarrow> string list" where
  "attrsOf cookie = tl (split_on (CHR '';'') cookie)"

text \<open>The path a browser stores the cookie under: the value of the last Path attribute (RFC 6265).\<close>

definition cookiePath :: "string \<Rightarrow> string option" where
  "cookiePath cookie =
     (case rev (filter isPathAttr (attrsOf cookie)) of [] \<Rightarrow> None | a # _ \<Rightarrow> Some (TrimSpace (fst (snd (cut (CHR ''='') a)))))"

lemma TrimSpace_id: "s \<noteq> [] \<Longrightarrow> \<not> isSpace (hd s) \<Longrightarrow> \<not> isSpace (last s) \<Longrightarrow> TrimSpace s = s"
proof -
  assume s: "s \<noteq> []" "\<not> isSpace (hd s)" "\<not> isSpace (last s)"
  then have "dropWhile isSpace s = s" "dropWhile isSpace (rev s) = rev s"
    by (auto simp: dropWhile_eq_self_iff hd_rev)
  then show ?thesis by (simp add: TrimSpace_def)
qed

lemma TrimSpace_last: "TrimSpace s \<noteq> [] \<Longrightarrow> \<not> isSpace (last (TrimSpace s))"
  by (simp add: TrimSpace_def last_rev hd_dropWhile)

lemma set_TrimSpace: "set (TrimSpace s) \<subseteq> set s"
  unfolding TrimSpace_def by (metis set_dropWhileD set_rev subsetI)

lemma set_cut_value: "cut c s = (n, v, f) \<Longrightarrow> set v \<subseteq> set s"
  by (auto simp: cut_def Let_def split: if_splits dest: in_set_dropD)

lemma scopeParts_None: "scopeParts pfx ps = None \<longleftrightarrow> filter isPathAttr ps = []"
  by (induction ps) (auto simp: isPathAttr_def Let_def split: prod.splits)

lemma scopeParts_Some:
  "scopeParts pfx ps = Some qs \<Longrightarrow> \<exists>as p bs v. ps = as @ p # bs \<and> filter isPathAttr as = [] \<and> isPathAttr p
     \<and> qs = as @ ('' Path='' @ pfx @ v) # bs \<and> hasPrefix v ''/'' \<and> \<not> isSpace (last v) \<and> set v \<subseteq> insert slash (set p)"
proof (induction ps arbitrary: qs)
  case (Cons p ps)
  obtain n v f where c: "cut (CHR ''='') p = (n, v, f)" by (metis prod.exhaust)
  show ?case
  proof (cases "isPathAttr p")
    case True
    let ?v = "TrimSpace v"
    let ?w = "if hasPrefix ?v ''/'' then ?v else ''/'' @ ?v"
    have "\<not> isSpace (last ?w)" using TrimSpace_last [of v] by (auto simp: isSpace_def elim: hasPrefix_CharE)
    moreover have "hasPrefix ?w ''/''" by simp
    moreover have "set ?w \<subseteq> insert slash (set p)" using set_cut_value [OF c] set_TrimSpace [of v] by auto
    moreover have "qs = ('' Path='' @ pfx @ ?w) # ps" using Cons.prems True c by (simp add: isPathAttr_def Let_def)
    ultimately show ?thesis using True by (intro exI [of _ "[]"] exI [of _ p] exI [of _ ps] exI [of _ ?w]) simp
  next
    case False
    then obtain qs' where "scopeParts pfx ps = Some qs'" "qs = p # qs'" using Cons.prems c by (auto simp: isPathAttr_def)
    with Cons.IH obtain as p' bs v where "ps = as @ p' # bs" "filter isPathAttr as = []" "isPathAttr p'"
      "qs' = as @ ('' Path='' @ pfx @ v) # bs" "hasPrefix v ''/''" "\<not> isSpace (last v)" "set v \<subseteq> insert slash (set p')" by blast
    then show ?thesis using False \<open>qs = p # qs'\<close> by (intro exI [of _ "p # as"] exI [of _ p'] exI [of _ bs] exI [of _ v]) simp
  qed
qed simp

lemma pathAttr:
  assumes "hasPrefix pfx ''/''" "hasPrefix v ''/''" "\<not> isSpace (last v)"
  shows "isPathAttr ('' Path='' @ pfx @ v)" "TrimSpace (fst (snd (cut (CHR ''='') ('' Path='' @ pfx @ v)))) = pfx @ v"
proof -
  have c: "cut (CHR ''='') ('' Path='' @ pfx @ v) = ('' Path'', pfx @ v, True)" using cut_sep [of "CHR ''=''" "'' Path''" "pfx @ v"] by simp
  have "EqualFold (TrimSpace '' Path'') ''path''" by code_simp
  with c show "isPathAttr ('' Path='' @ pfx @ v)" by (simp add: isPathAttr_def)
  have "hd (pfx @ v) = slash" "last (pfx @ v) = last v" "pfx @ v \<noteq> []" using assms(1,2) by (auto elim!: hasPrefix_CharE)
  then have "TrimSpace (pfx @ v) = pfx @ v" using assms(3) by (intro TrimSpace_id) (simp_all add: isSpace_def)
  then show "TrimSpace (fst (snd (cut (CHR ''='') ('' Path='' @ pfx @ v)))) = pfx @ v" using c by simp
qed

text \<open>How the parts of a rewritten cookie relate to those of the original.\<close>

lemma scopeCookie_parts:
  assumes "hasPrefix pfx ''/''" "CHR '';'' \<notin> set pfx"
  shows "\<exists>as old bs v. attrsOf cookie = as @ old @ bs \<and> filter isPathAttr as = [] \<and> length old \<le> 1 \<and> (\<forall>p \<in> set old. isPathAttr p) \<and> (old = [] \<longrightarrow> bs = [])
    \<and> attrsOf (scopeCookie cookie pfx) = as @ ('' Path='' @ pfx @ v) # bs \<and> hasPrefix v ''/'' \<and> \<not> isSpace (last v)
    \<and> hd (split_on (CHR '';'') (scopeCookie cookie pfx)) = hd (split_on (CHR '';'') cookie)"
proof -
  obtain nv attrs where sp: "split_on (CHR '';'') cookie = nv # attrs" by (cases "split_on (CHR '';'') cookie") simp_all
  show ?thesis
  proof (cases "scopeParts pfx attrs")
    case None
    then have f: "filter isPathAttr attrs = []" by (simp add: scopeParts_None)
    have "split_on (CHR '';'') (cookie @ CHR '';'' # '' Path='' @ pfx @ ''/'') = nv # attrs @ ['' Path='' @ pfx @ ''/'']"
      using assms(2) by (subst split_on_append_sep) (simp add: sp split_on_free del: split_on.simps)
    moreover have "scopeCookie cookie pfx = cookie @ CHR '';'' # '' Path='' @ pfx @ ''/''" using sp None by (simp add: scopeCookie_def)
    ultimately show ?thesis using f sp
      by (intro exI [of _ attrs] exI [of _ "[]"] exI [of _ "''/''"]) (simp add: attrsOf_def isSpace_def del: split_on.simps)
  next
    case (Some attrs')
    from scopeParts_Some [OF this] obtain as p bs v where q: "attrs = as @ p # bs" "filter isPathAttr as = []" "isPathAttr p"
      "attrs' = as @ ('' Path='' @ pfx @ v) # bs" "hasPrefix v ''/''" "\<not> isSpace (last v)" "set v \<subseteq> insert slash (set p)" by blast
    have "CHR '';'' \<notin> set x" if "x \<in> set (nv # attrs)" for x using that sp split_on_no_sep [of x "CHR '';''" cookie] by simp
    then have "\<forall>x \<in> set (nv # attrs'). CHR '';'' \<notin> set x" using q assms(2) by auto
    then have "split_on (CHR '';'') (join '';'' (nv # attrs')) = nv # attrs'" by (intro split_on_join) auto
    moreover have "scopeCookie cookie pfx = join '';'' (nv # attrs')" using sp Some by (simp add: scopeCookie_def)
    ultimately show ?thesis using q sp
      by (intro exI [of _ as] exI [of _ "[p]"] exI [of _ bs] exI [of _ v]) (simp add: attrsOf_def)
  qed
qed

text \<open>A sandbox's cookie stays under its prefix. A cookie with at most one Path attribute is stored by the browser
  under a path below the sandbox's prefix, its name and value and all its other attributes unchanged and in their order.\<close>

lemma cookie_stays_under_prefix:
  assumes "hasPrefix pfx ''/''" "CHR '';'' \<notin> set pfx" "length (filter isPathAttr (attrsOf cookie)) \<le> 1"
  shows "(\<exists>v. cookiePath (scopeCookie cookie pfx) = Some (pfx @ v) \<and> hasPrefix v ''/'')
    \<and> filter (\<lambda>a. \<not> isPathAttr a) (attrsOf (scopeCookie cookie pfx)) = filter (\<lambda>a. \<not> isPathAttr a) (attrsOf cookie)
    \<and> hd (split_on (CHR '';'') (scopeCookie cookie pfx)) = hd (split_on (CHR '';'') cookie)"
proof -
  obtain as old bs v where q: "attrsOf cookie = as @ old @ bs" "filter isPathAttr as = []" "length old \<le> 1" "\<forall>p \<in> set old. isPathAttr p"
    "old = [] \<longrightarrow> bs = []" "attrsOf (scopeCookie cookie pfx) = as @ ('' Path='' @ pfx @ v) # bs" "hasPrefix v ''/''" "\<not> isSpace (last v)"
    "hd (split_on (CHR '';'') (scopeCookie cookie pfx)) = hd (split_on (CHR '';'') cookie)"
    using scopeCookie_parts [OF assms(1,2), of cookie] by blast
  note pa = pathAttr [OF assms(1) q(7,8)]
  have b: "filter isPathAttr bs = []" using q(1-5) assms(3) by (cases old) auto
  have o: "filter (\<lambda>a. \<not> isPathAttr a) old = []" using q(4) by (simp add: filter_empty_conv)
  have "cookiePath (scopeCookie cookie pfx) = Some (pfx @ v)" using q(2,6) b pa by (simp add: cookiePath_def)
  then show ?thesis using q(1,6,7,9) o pa(1) by simp
qed

text \<open>With a second Path attribute the cookie escapes: only the first is rewritten, and browsers go by the last.\<close>

lemma second_path_attribute_escapes: "cookiePath (scopeCookie ''sid=1; Path=/; Path=/'' ''/s/sbx-1'') = Some ''/''"
  by code_simp

end
