(* ===== verification/Execd.thy ===== *)
theory Execd
  imports Bwrap_Generate Isolation Reaper Safepath Gateway
begin

text \<open>
  The supervisor of a Pod (\<open>pkg/execd/server.go\<close>, \<open>sandbox.go\<close>, \<open>proxy.go\<close>): the control plane that binds one
  sandbox to the Pod, the launch of bubblewrap, and the gate in front of the data plane. The kernel, the
  bubblewrap process and jdix-init are fields of a host record; opening mount sources is the model of
  \<open>pkg/safepath\<close>, the arguments are those of \<open>pkg/bwrap\<close>, the filter that of \<open>pkg/isolation\<close>. A handler that takes the
  lock twice is given as its parts and as their composition.
\<close>

section \<open>State\<close>

record config =
  cf_Layout :: layout
  cf_Tier :: tier
  cf_Volumes :: "string \<rightharpoonup> string"
  cf_UID :: int
  cf_GID :: int
  cf_InitDial :: int
  cf_GraceKill :: int

record sbox =
  sb_id :: string
  sb_tenant :: string
  sb_token :: string
  sb_pid :: int
  sb_boundAt :: int
  sb_expiresAt :: "int option"
  sb_argv :: "string list"
  sb_ttlTimer :: "int option"

record 'd execd =
  ed_cfg :: config
  ed_tier :: tier
  ed_reason :: string
  ed_startedAt :: int
  ed_internalToken :: string
  ed_sb :: "sbox option"
  ed_expired :: bool
  ed_reaper :: "reaper option"
  ed_fds :: "'d list"
  ed_down :: "string list"

definition execd_New :: "config \<Rightarrow> tier \<Rightarrow> string \<Rightarrow> string \<Rightarrow> int \<Rightarrow> 'd execd" where
  "execd_New cfg t reason token now =
     (let c1 = (if cf_InitDial cfg = 0 then cfg\<lparr>cf_InitDial := 10 * second\<rparr> else cfg);
          c2 = (if cf_GraceKill c1 = 0 then c1\<lparr>cf_GraceKill := 5 * second\<rparr> else c1);
          c3 = (if cf_UID c2 = 0 then c2\<lparr>cf_UID := 1000, cf_GID := 1000\<rparr> else c2)
      in \<lparr>ed_cfg = c3, ed_tier = t, ed_reason = reason, ed_startedAt = now, ed_internalToken = token, ed_sb = None, ed_expired = False,
          ed_reaper = (if cf_Tier c3 = TierFilesystem then Some NewReaper else None), ed_fds = [], ed_down = []\<rparr>)"

section \<open>The tail of the standard error\<close>

definition tailMax :: nat where "tailMax = 4096"

definition tail_Write :: "string \<Rightarrow> string \<Rightarrow> string" where
  "tail_Write p buf = (let b = buf @ p in if length b > tailMax then drop (length b - tailMax) b else b)"

definition tail_String :: "string \<Rightarrow> string" where
  "tail_String buf = TrimSpace (last (split_on (CHR 0x0A) (TrimSpace buf)))"

section \<open>Waiting for the socket\<close>

text \<open>The moments at which the loop runs: the clock, the context's error, the outcome of dialling. The list ends when
  the clock has reached the deadline.\<close>

record dial_tick =
  dt_Now :: int
  dt_Ctx :: "string option"
  dt_Dial :: "string option"

fun socketLoop :: "int \<Rightarrow> dial_tick list \<Rightarrow> string option \<Rightarrow> string option" where
  "socketLoop dl [] lastErr = Some (case lastErr of None \<Rightarrow> ''timed out'' | Some e \<Rightarrow> e)"
| "socketLoop dl (t # ts) lastErr =
     (if \<not> dt_Now t < dl then Some (case lastErr of None \<Rightarrow> ''timed out'' | Some e \<Rightarrow> e)
      else (case dt_Ctx t of
         Some e \<Rightarrow> Some e
       | None \<Rightarrow> (case dt_Dial t of None \<Rightarrow> None | Some e \<Rightarrow> socketLoop dl ts (Some e))))"

definition waitForSocket :: "int \<Rightarrow> int \<Rightarrow> dial_tick list \<Rightarrow> string option" where
  "waitForSocket now timeout ts = socketLoop (now + (if timeout \<le> 0 then 10 * second else timeout)) ts None"

section \<open>Launching\<close>

record root =
  rt_Path :: string
  rt_ReadOnly :: bool

record configure_request =
  cq_SandboxID :: string
  cq_Env :: "(string \<rightharpoonup> string) option"
  cq_Secrets :: "(string \<rightharpoonup> string) option"
  cq_Roots :: "root list"
  cq_Workspace :: string

datatype 'd launch_file = Pinned "'d os_file" | FilterFile memfile

datatype launch_error = LInvalid validation_error | LOpen safe_error | LGenerate gen_error | LFilter string | LStart string | LDown string

text \<open>The launcher and what the process prints, the moments of the dial loop, jdix-init's answer to a configuration, signals to
  a process, and whether it exits within a grace period.\<close>

record ('d, 'w) host =
  ho_Sys :: "'d sys"
  ho_Stat :: "string \<Rightarrow> bool"
  ho_Unix :: unix_consts
  ho_Arch :: string
  ho_Memfd :: memfd_sys
  ho_Launch :: "string list \<Rightarrow> 'd launch_file list \<Rightarrow> 'w \<Rightarrow> (string, int) result \<times> 'w"
  ho_Ticks :: "'w \<Rightarrow> dial_tick list"
  ho_Stderr :: "'w \<Rightarrow> string list"
  ho_Kill :: "int \<Rightarrow> 'w \<Rightarrow> 'w"
  ho_Interrupt :: "int \<Rightarrow> 'w \<Rightarrow> 'w"
  ho_Waits :: "int \<Rightarrow> int \<Rightarrow> 'w \<Rightarrow> bool \<times> 'w"
  ho_Post :: "configure_request \<Rightarrow> 'w \<Rightarrow> (string, nat \<times> string) result \<times> 'w"
  ho_Text :: "launch_error \<Rightarrow> string"

text \<open>The production launcher: the command it starts, with the kernel's answer as a function.\<close>

record 'd bwrap_cmd =
  bc_Path :: string
  bc_Args :: "string list"
  bc_ExtraFiles :: "'d launch_file list"
  bc_Env :: "string list"

definition BwrapLauncher ::
    "string \<Rightarrow> ('d bwrap_cmd \<Rightarrow> 'w \<Rightarrow> (string, int) result \<times> 'w) \<Rightarrow> string list \<Rightarrow> 'd launch_file list \<Rightarrow> 'w \<Rightarrow> (string, int) result \<times> 'w" where
  "BwrapLauncher bwrapPath start argv files w =
     start \<lparr>bc_Path = bwrapPath, bc_Args = argv, bc_ExtraFiles = files, bc_Env = [''PATH=/usr/bin:/bin'', ''LANG=C.UTF-8'']\<rparr> w"

text \<open>\<open>sandbox.stop\<close>: an interrupt, the grace period, and the kill when the process is still there.\<close>

definition sb_stop :: "('d, 'w) host \<Rightarrow> int \<Rightarrow> int \<Rightarrow> 'w \<Rightarrow> 'w" where
  "sb_stop ho pid grace w =
     (case ho_Waits ho pid grace (ho_Interrupt ho pid w) of (exited, w1) \<Rightarrow> if exited then w1 else ho_Kill ho pid w1)"

fun openMounts ::
    "'d sys \<Rightarrow> (string \<rightharpoonup> string) \<Rightarrow> mount list \<Rightarrow> 'd os_file list \<Rightarrow> (string \<rightharpoonup> int) \<Rightarrow> 'd list
     \<Rightarrow> (safe_error, string \<rightharpoonup> int) result \<times> 'd os_file list \<times> 'd list" where
  "openMounts os vols [] files m fds = (Inr m, files, fds)"
| "openMounts os vols (x # xs) files m fds =
     (case OpenMount os (case vols (src_Volume (m_Source x)) of None \<Rightarrow> [] | Some p \<Rightarrow> p) (src_SubPath (m_Source x)) fds of
        (Inl e, fds1) \<Rightarrow> (Inl e, files, fds1)
      | (Inr f, fds1) \<Rightarrow> openMounts os vols xs (files @ [f]) (m(m_Path x \<mapsto> 3 + int (length files))) fds1)"

definition closeAll :: "'d os_file list \<Rightarrow> 'd list \<Rightarrow> 'd list" where
  "closeAll files fds = fold (\<lambda>f. remove1 (f_Fd f)) files fds"

definition launchPolicy :: "config \<Rightarrow> policy" where
  "launchPolicy cfg = (DefaultPolicy (cf_Tier cfg))\<lparr>UID := cf_UID cfg, GID := cf_GID cfg, Volumes := cf_Volumes cfg\<rparr>"

text \<open>The argument vector and the files the child inherits from descriptor 3 on.\<close>

definition launchArgs ::
    "('d, 'w) host \<Rightarrow> config \<Rightarrow> filesystem_spec \<Rightarrow> 'd os_file list \<Rightarrow> (string \<rightharpoonup> int)
     \<Rightarrow> (launch_error, string list \<times> 'd launch_file list) result" where
  "launchArgs ho cfg spec files sfds =
     (case Generate (ho_Stat ho) spec ((launchPolicy cfg)\<lparr>SourceFDs := sfds\<rparr>) (cf_Layout cfg) of
        Inl e \<Rightarrow> Inl (LGenerate e)
      | Inr argv \<Rightarrow>
          if cf_Tier cfg = TierFilesystem then
            (case fst (WorkloadFilterFile (ho_Unix ho) (ho_Arch ho) (ho_Memfd ho) 0) of
               Inl e \<Rightarrow> Inl (LFilter e)
             | Inr f \<Rightarrow> Inr ([''--seccomp'', Itoa (3 + int (length files))] @ argv, map Pinned files @ [FilterFile f]))
          else Inr (argv, map Pinned files))"

definition deadlineOf :: "int \<Rightarrow> int \<Rightarrow> int option" where
  "deadlineOf boundAt ttl = (if ttl > 0 then Some (boundAt + wrap64 (ttl * second)) else None)"

text \<open>From the arguments on: start, adopt, wait, and the record of what runs.\<close>

definition startProc ::
    "('d, 'w) host \<Rightarrow> config \<Rightarrow> bind_request \<Rightarrow> int \<Rightarrow> string list \<times> 'd launch_file list \<Rightarrow> reaper option \<times> 'w
     \<Rightarrow> (launch_error, sbox) result \<times> reaper option \<times> 'w" where
  "startProc ho cfg req now af st =
     (case ho_Launch ho (fst af) (snd af) (snd st) of
        (Inl e, w1) \<Rightarrow> (Inl (LStart e), fst st, w1)
      | (Inr pid, w1) \<Rightarrow>
          (let rp = map_option (Adopt pid) (fst st) in
           case waitForSocket now (cf_InitDial cfg) (ho_Ticks ho w1) of
             Some e \<Rightarrow>
               (let diag = tail_String (fold tail_Write (ho_Stderr ho w1) [])
                in (Inl (LDown (if diag \<noteq> [] then diag else e)), rp, ho_Kill ho pid w1))
           | None \<Rightarrow>
               (Inr \<lparr>sb_id = br_SandboxID req, sb_tenant = br_Tenant req, sb_token = br_Token req, sb_pid = pid, sb_boundAt = now,
                     sb_expiresAt = deadlineOf now (br_TTLSeconds req), sb_argv = fst af, sb_ttlTimer = None\<rparr>, rp, w1)))"

definition launch ::
    "('d, 'w) host \<Rightarrow> bind_request \<Rightarrow> int \<Rightarrow> 'd execd \<times> 'w \<Rightarrow> (launch_error, sbox) result \<times> 'd execd \<times> 'w" where
  "launch ho req now st =
     (case st of (ed, w) \<Rightarrow>
       (let cfg = ed_cfg ed; spec = br_Filesystem req; p0 = launchPolicy cfg in
        case Validate p0 spec (cf_Layout cfg) of
          Some e \<Rightarrow> (Inl (LInvalid e), ed, w)
        | None \<Rightarrow>
            (case (if cf_Tier cfg = TierFilesystem then openMounts (ho_Sys ho) (cf_Volumes cfg) (fs_Mounts spec) [] Map.empty (ed_fds ed)
                   else (Inr Map.empty, [], ed_fds ed)) of
               (Inl e, files, fds) \<Rightarrow> (Inl (LOpen e), ed\<lparr>ed_fds := closeAll files fds\<rparr>, w)
             | (Inr sfds, files, fds) \<Rightarrow>
                 (case launchArgs ho cfg spec files sfds of
                    Inl e \<Rightarrow> (Inl e, ed\<lparr>ed_fds := closeAll files fds\<rparr>, w)
                  | Inr af \<Rightarrow>
                      (case startProc ho cfg req now af (ed_reaper ed, w) of
                         (r, rp, w1) \<Rightarrow> (r, ed\<lparr>ed_fds := closeAll files fds, ed_reaper := rp\<rparr>, w1))))))"

section \<open>The control plane\<close>

record status_response =
  sr_IsolationTier :: tier
  sr_TierReason :: string
  sr_StartedAt :: int
  sr_Bound :: "(string \<times> int option) option"

datatype e_body = EBound bind_response | EStatus status_response | EProbe tier string | EKept int | EOk

definition execd_bearer :: "header \<Rightarrow> (string \<times> string) list \<Rightarrow> string" where
  "execd_bearer h q =
     (let a = hget h ''Authorization''; t = hget h ControlTokenHeader
      in if hasPrefix a ''Bearer '' then trimPrefix a ''Bearer '' else if t \<noteq> [] then t else qget q ''token'')"

definition tokenMatches :: "string \<Rightarrow> string \<Rightarrow> bool" where
  "tokenMatches got want \<longleftrightarrow> got \<noteq> [] \<and> want \<noteq> [] \<and> got = want"

definition internalOk :: "'d execd \<Rightarrow> g_request \<Rightarrow> bool" where
  "internalOk ed r \<longleftrightarrow> ed_internalToken ed = [] \<or> tokenMatches (execd_bearer (gq_Header r) (gq_Query r)) (ed_internalToken ed)"

definition handleProbe :: "'d execd \<Rightarrow> e_body response" where
  "handleProbe ed = JSON 200 (EProbe (ed_tier ed) (ed_reason ed))"

definition handleStatus :: "'d execd \<Rightarrow> e_body response" where
  "handleStatus ed =
     JSON 200 (EStatus \<lparr>sr_IsolationTier = ed_tier ed, sr_TierReason = ed_reason ed, sr_StartedAt = ed_startedAt ed,
       sr_Bound = map_option (\<lambda>sb. (sb_id sb, sb_expiresAt sb)) (ed_sb ed)\<rparr>)"

text \<open>\<open>configureInit\<close>: the workspace first, then the mounts.\<close>

definition configRequest :: "bind_request \<Rightarrow> configure_request" where
  "configRequest req =
     (let spec = br_Filesystem req; ws = (if ws_Path (fs_Workspace spec) = [] then DefaultWorkspacePath else ws_Path (fs_Workspace spec))
      in \<lparr>cq_SandboxID = br_SandboxID req, cq_Env = br_Env req, cq_Secrets = br_Secrets req,
          cq_Roots = \<lparr>rt_Path = ws, rt_ReadOnly = False\<rparr> # map (\<lambda>m. \<lparr>rt_Path = m_Path m, rt_ReadOnly = m_ReadOnly m\<rparr>) (fs_Mounts spec),
          cq_Workspace = ws\<rparr>)"

text \<open>Handing it over: any answer but 200 is a failure.\<close>

definition configureInit :: "('d, 'w) host \<Rightarrow> bind_request \<Rightarrow> 'w \<Rightarrow> string option \<times> 'w" where
  "configureInit ho req w =
     (case ho_Post ho (configRequest req) w of
        (Inl e, w1) \<Rightarrow> (Some e, w1)
      | (Inr (code, body), w1) \<Rightarrow>
          (if code \<noteq> 200 then Some (''jdix-init rejected the configuration: '' @ Itoa (int code) @ '' '' @ take 4096 body) else None, w1))"

text \<open>Binding under the lock: what is looked at before the launch, and what is written after it.\<close>

definition bindCheck :: "'d execd \<Rightarrow> e_body response option" where
  "bindCheck ed =
     (case ed_sb ed of
        Some sb \<Rightarrow> Some (writeErr 409 ''already_bound'' (''this Pod is already bound to sandbox '' @ sb_id sb))
      | None \<Rightarrow> if ed_expired ed then Some (writeErr 410 ''expired'' ''this Pod is shutting down'') else None)"

definition publishBox :: "sbox \<Rightarrow> 'd execd \<Rightarrow> 'd execd" where
  "publishBox sb ed = ed\<lparr>ed_sb := Some (sb\<lparr>sb_ttlTimer := sb_expiresAt sb\<rparr>)\<rparr>"

definition handleBind ::
    "('d, 'w) host \<Rightarrow> (string, bind_request) result \<Rightarrow> int \<Rightarrow> 'd execd \<times> 'w \<Rightarrow> e_body response \<times> 'd execd \<times> 'w" where
  "handleBind ho dec now st =
     (case dec of
        Inl e \<Rightarrow> (writeErr 400 ''invalid_body'' e, st)
      | Inr req \<Rightarrow>
          if br_SandboxID req = [] \<or> br_Token req = [] then (writeErr 400 ''invalid_request'' ''sandboxId and token are required'', st)
          else (case bindCheck (fst st) of
             Some resp \<Rightarrow> (resp, st)
           | None \<Rightarrow>
               (case launch ho req now st of
                  (Inl e, st1) \<Rightarrow> (writeErr 400 ''bind_failed'' (ho_Text ho e), st1)
                | (Inr sb, ed1, w1) \<Rightarrow>
                    (case configureInit ho req w1 of
                       (Some e, w2) \<Rightarrow> (writeErr 500 ''configure_failed'' e, ed1, sb_stop ho (sb_pid sb) (cf_GraceKill (ed_cfg ed1)) w2)
                     | (None, w2) \<Rightarrow>
                         (JSON 200 (EBound \<lparr>bs_SandboxID = sb_id sb, bs_IsolationTier = ed_tier ed1, bs_BoundAt = sb_boundAt sb,
                              bs_ExpiresAt = sb_expiresAt sb, bs_BwrapArgs = sb_argv sb\<rparr>), publishBox sb ed1, w2)))))"

definition expire_pod :: "('d, 'w) host \<Rightarrow> string \<Rightarrow> 'd execd \<times> 'w \<Rightarrow> 'd execd \<times> 'w" where
  "expire_pod ho reason st =
     (case st of (ed, w) \<Rightarrow>
        if ed_expired ed then (ed, w)
        else (ed\<lparr>ed_expired := True, ed_sb := None, ed_down := ed_down ed @ [reason]\<rparr>,
              (case ed_sb ed of None \<Rightarrow> w | Some sb \<Rightarrow> sb_stop ho (sb_pid sb) (cf_GraceKill (ed_cfg ed)) w)))"

text \<open>\<open>ControlHandler\<close>: the routes, with the token check around all but the probe.\<close>

definition ControlHandler ::
    "('d, 'w) host \<Rightarrow> g_request \<Rightarrow> (string, bind_request) result \<Rightarrow> int \<Rightarrow> 'd execd \<times> 'w \<Rightarrow> e_body response \<times> 'd execd \<times> 'w" where
  "ControlHandler ho r dec now st =
     (let refuse = (writeErr 401 ''unauthorized'' ''invalid control-plane token'', st); ok = internalOk (fst st) r;
          isGet = (gq_Method r = ''GET'' \<or> gq_Method r = ''HEAD'') in
      if gq_Path r = ''/internal/v1/bind'' \<and> gq_Method r = ''POST'' then (if ok then handleBind ho dec now st else refuse)
      else if gq_Path r = ''/internal/v1/unbind'' \<and> gq_Method r = ''POST'' then
        (if ok then (JSON 200 EOk, expire_pod ho ''unbind'' st) else refuse)
      else if gq_Path r = ''/internal/v1/status'' \<and> isGet then (if ok then (handleStatus (fst st), st) else refuse)
      else if gq_Path r = ''/internal/v1/probe'' \<and> isGet then (handleProbe (fst st), st)
      else (writeErr 404 [] ''404 page not found'', st))"

section \<open>The data plane\<close>

datatype e_outcome = EResp "e_body response" | EForward g_out

definition authorised :: "'d execd \<Rightarrow> g_request \<Rightarrow> sbox option" where
  "authorised ed r =
     (case ed_sb ed of
        None \<Rightarrow> None
      | Some sb \<Rightarrow> if tokenMatches (execd_bearer (gq_Header r) (gq_Query r)) (sb_token sb) then Some sb else None)"

text \<open>\<open>fmt.Sscanf(v, "%d")\<close>: a sign and the longest run of digits; 0 when there is none or it does not fit.\<close>

definition scanInt :: "string \<Rightarrow> int" where
  "scanInt v =
     (let s = dropWhile isSpace v; sgn = (if hasPrefix s ''-'' \<or> hasPrefix s ''+'' then take 1 s else []);
          ds = takeWhile (\<lambda>c. digit_val c \<noteq> None) (drop (length sgn) s)
      in case Atoi (sgn @ ds) of None \<Rightarrow> 0 | Some n \<Rightarrow> n)"

definition execd_keepalive :: "g_request \<Rightarrow> int \<Rightarrow> sbox \<Rightarrow> 'd execd \<Rightarrow> e_body response \<times> 'd execd" where
  "execd_keepalive r now sb ed =
     (let v = qget (gq_Query r) ''ttlSeconds''; n = (if v \<noteq> [] then scanInt v else 0); ext = (if n \<le> 0 then 300 else n) in
      case ed_sb ed of
        None \<Rightarrow> (writeErr 410 ''expired'' ''this sandbox has expired'', ed)
      | Some cur \<Rightarrow>
          if sb_id cur \<noteq> sb_id sb then (writeErr 410 ''expired'' ''this sandbox has expired'', ed)
          else (let e = now + wrap64 (ext * second)
                in (JSON 200 (EKept e),
                    ed\<lparr>ed_sb := Some (cur\<lparr>sb_expiresAt := Some e, sb_ttlTimer := map_option (\<lambda>_. e) (sb_ttlTimer cur)\<rparr>)\<rparr>)))"

text \<open>The hook of the proxy into the namespace.\<close>

definition initRewrite :: "g_out \<Rightarrow> g_out" where
  "initRewrite o1 = (let o2 = SetURL ''http'' ''init'' o1 in o2\<lparr>og_Header := hdel (og_Header o2) ''Authorization'', og_Host := ''init''\<rparr>)"

definition requireSandbox :: "g_request \<Rightarrow> g_out \<Rightarrow> int \<Rightarrow> 'd execd \<Rightarrow> e_outcome \<times> 'd execd" where
  "requireSandbox r o1 now ed =
     (case authorised ed r of
        None \<Rightarrow> (EResp (writeErr 401 ''unauthorized'' ''invalid or missing sandbox token''), ed)
      | Some sb \<Rightarrow>
          if (case sb_expiresAt sb of None \<Rightarrow> False | Some e \<Rightarrow> now > e) then (EResp (writeErr 410 ''expired'' ''this sandbox has expired''), ed)
          else if gq_Path r = ''/v1/keepalive'' \<and> gq_Method r = ''POST'' then
            (case execd_keepalive r now sb ed of (resp, ed1) \<Rightarrow> (EResp resp, ed1))
          else (EForward (initRewrite o1), ed))"

definition DataHandler :: "g_request \<Rightarrow> g_out \<Rightarrow> int \<Rightarrow> 'd execd \<Rightarrow> e_outcome \<times> 'd execd" where
  "DataHandler r o1 now ed =
     (if hasPrefix (gq_Path r) ''/v1/'' then requireSandbox r o1 now ed
      else if gq_Path r = ''/healthz'' \<and> (gq_Method r = ''GET'' \<or> gq_Method r = ''HEAD'') then (EResp (JSON 200 EOk), ed)
      else (EResp (writeErr 404 [] ''404 page not found''), ed))"

section \<open>Launching: lemmas\<close>

text \<open>The last \<open>n\<close> elements of a list.\<close>

definition last_n :: "nat \<Rightarrow> 'a list \<Rightarrow> 'a list" where
  "last_n n xs = drop (length xs - n) xs"

lemma last_n_rev: "last_n n xs = rev (take n (rev xs))"
  by (simp add: last_n_def take_rev)

lemma last_n_append: "last_n n (last_n n a @ b) = last_n n (a @ b)"
  by (simp add: last_n_rev min_def)

lemma tail_keeps_end: "length buf \<le> tailMax \<Longrightarrow> fold tail_Write ps buf = last_n tailMax (buf @ concat ps)"
proof (induction ps arbitrary: buf)
  case Nil
  then show ?case by (simp add: last_n_def)
next
  case (Cons p ps)
  have b: "tail_Write p buf = last_n tailMax (buf @ p)" by (simp add: tail_Write_def Let_def last_n_def)
  have l: "length (tail_Write p buf) \<le> tailMax" unfolding b by (simp add: last_n_def)
  have "fold tail_Write ps (last_n tailMax (buf @ p)) = last_n tailMax (last_n tailMax (buf @ p) @ concat ps)"
    using Cons.IH [OF l] unfolding b .
  then show ?case unfolding last_n_append by (simp add: b)
qed

lemma waitForSocket_None: "waitForSocket now timeout ts = None \<Longrightarrow>
  \<exists>t \<in> set ts. dt_Dial t = None \<and> dt_Now t < now + (if timeout \<le> 0 then 10 * second else timeout)"
proof -
  have "socketLoop dl ts e = None \<Longrightarrow> \<exists>t \<in> set ts. dt_Dial t = None \<and> dt_Now t < dl" for dl e
    by (induction ts arbitrary: e) (auto split: if_splits option.splits)
  then show "waitForSocket now timeout ts = None \<Longrightarrow> ?thesis" by (simp add: waitForSocket_def)
qed

definition sourceOf :: "(string \<rightharpoonup> string) \<Rightarrow> mount \<Rightarrow> string" where
  "sourceOf vols m = (case vols (src_Volume (m_Source m)) of None \<Rightarrow> [] | Some p \<Rightarrow> p)"

lemma OpenMount_fds:
  "OpenMount os root rel fds = (Inr f, fds') \<Longrightarrow> mset fds' = add_mset (f_Fd f) (mset fds)"
  "OpenMount os root rel fds = (Inl e, fds') \<Longrightarrow> mset fds' = mset fds"
  by (auto simp: OpenMount_def split: sum.splits if_splits)

lemma openMounts_fds:
  "openMounts os vols xs files m fds = (r, files', fds') \<Longrightarrow>
     \<exists>new. files' = files @ new \<and> mset fds' = mset fds + mset (map f_Fd new)"
proof (induction xs arbitrary: files m fds)
  case (Cons x xs)
  obtain y fds1 where o: "OpenMount os (sourceOf vols x) (src_SubPath (m_Source x)) fds = (y, fds1)" by force
  show ?case
  proof (cases y)
    case (Inl e)
    then show ?thesis using Cons.prems o OpenMount_fds(2) [of os _ _ fds e fds1] by (auto simp: sourceOf_def)
  next
    case (Inr f)
    with Cons.prems o have "openMounts os vols xs (files @ [f]) (m(m_Path x \<mapsto> 3 + int (length files))) fds1 = (r, files', fds')"
      by (simp add: sourceOf_def)
    from Cons.IH [OF this] obtain new where "files' = (files @ [f]) @ new" "mset fds' = mset fds1 + mset (map f_Fd new)" by blast
    then show ?thesis using o Inr OpenMount_fds(1) [of os _ _ fds f fds1] by (intro exI [of _ "f # new"]) simp
  qed
qed simp

lemma openMounts_Inr:
  "openMounts os vols xs files m fds = (Inr m', files', fds') \<Longrightarrow>
     \<exists>new. files' = files @ new \<and> length new = length xs
       \<and> (\<forall>i < length xs. \<exists>a b. OpenMount os (sourceOf vols (xs ! i)) (src_SubPath (m_Source (xs ! i))) a = (Inr (new ! i), b))
       \<and> (distinct (map m_Path xs) \<longrightarrow> (\<forall>i < length xs. m' (m_Path (xs ! i)) = Some (3 + int (length files + i))))
       \<and> (\<forall>q. q \<notin> set (map m_Path xs) \<longrightarrow> m' q = m q)"
proof (induction xs arbitrary: files m fds)
  case (Cons x xs)
  obtain y fds1 where o: "OpenMount os (sourceOf vols x) (src_SubPath (m_Source x)) fds = (y, fds1)" by force
  from Cons.prems o obtain f where f: "y = Inr f" by (cases y) (auto simp: sourceOf_def)
  with Cons.prems o have "openMounts os vols xs (files @ [f]) (m(m_Path x \<mapsto> 3 + int (length files))) fds1 = (Inr m', files', fds')"
    by (simp add: sourceOf_def)
  from Cons.IH [OF this] obtain new where n: "files' = (files @ [f]) @ new" "length new = length xs"
    "\<forall>i < length xs. \<exists>a b. OpenMount os (sourceOf vols (xs ! i)) (src_SubPath (m_Source (xs ! i))) a = (Inr (new ! i), b)"
    "distinct (map m_Path xs) \<longrightarrow> (\<forall>i < length xs. m' (m_Path (xs ! i)) = Some (3 + int (length (files @ [f]) + i)))"
    "\<forall>q. q \<notin> set (map m_Path xs) \<longrightarrow> m' q = (m(m_Path x \<mapsto> 3 + int (length files))) q" by blast
  have "m' (m_Path ((x # xs) ! i)) = Some (3 + int (length files + i))" if "distinct (map m_Path (x # xs))" "i < length (x # xs)" for i
    using that n(4,5) by (cases i) auto
  moreover have "\<exists>a b. OpenMount os (sourceOf vols ((x # xs) ! i)) (src_SubPath (m_Source ((x # xs) ! i))) a = (Inr ((f # new) ! i), b)"
    if "i < length (x # xs)" for i using that n(3) o f by (cases i) auto
  ultimately show ?case using n(1,2,5) by (intro exI [of _ "f # new"]) auto
qed simp

lemma closeAll_mset: "mset (map f_Fd files) \<subseteq># mset fds \<Longrightarrow> mset (closeAll files fds) = mset fds - mset (map f_Fd files)"
  unfolding closeAll_def
proof (induction files arbitrary: fds)
  case (Cons f files)
  then have "mset (map f_Fd files) \<subseteq># mset (remove1 (f_Fd f) fds)"
    by (simp add: insert_subset_eq_iff)
  from Cons.IH [OF this] show ?case by simp
qed simp

lemma startProc_Inr:
  assumes "startProc ho cfg req now af st = (Inr sb, rp, w1)"
  shows "sb_argv sb = fst af \<and> fst (ho_Launch ho (fst af) (snd af) (snd st)) = Inr (sb_pid sb) \<and> sb_id sb = br_SandboxID req
    \<and> sb_token sb = br_Token req \<and> sb_expiresAt sb = deadlineOf now (br_TTLSeconds req)"
  using assms by (auto simp: startProc_def Let_def split: prod.splits sum.splits option.splits)

lemma launchArgs_Inr:
  assumes "launchArgs ho cfg spec files sfds = Inr (argv', lf)"
  shows "\<exists>argv. Generate (ho_Stat ho) spec ((launchPolicy cfg)\<lparr>SourceFDs := sfds\<rparr>) (cf_Layout cfg) = Inr argv
    \<and> (if cf_Tier cfg = TierFilesystem
       then argv' = [''--seccomp'', Itoa (3 + int (length files))] @ argv
         \<and> (\<exists>f. fst (WorkloadFilterFile (ho_Unix ho) (ho_Arch ho) (ho_Memfd ho) 0) = Inr f \<and> lf = map Pinned files @ [FilterFile f])
       else argv' = argv \<and> lf = map Pinned files)"
  using assms by (auto simp: launchArgs_def split: sum.splits if_splits option.splits)

lemma launchPolicy_ok:
  "platform_ok (launchPolicy cfg) (cf_Layout cfg) \<longleftrightarrow> isAbsClean (IPCMount (cf_Layout cfg)) \<and> isAbsClean (InitTarget (cf_Layout cfg))"
proof -
  have "\<forall>s \<in> set DefaultSystemPaths. isAbsClean s" by code_simp
  then show ?thesis by (simp add: platform_ok_def launchPolicy_def DefaultPolicy_def)
qed

text \<open>What the descriptors handed to the child are: the source of mount \<open>i\<close> at number \<open>3 + i\<close>, then the filter.\<close>

definition handedOver :: "('d, 'w) host \<Rightarrow> config \<Rightarrow> filesystem_spec \<Rightarrow> (string \<rightharpoonup> int) \<Rightarrow> 'd launch_file list \<Rightarrow> bool" where
  "handedOver ho cfg spec sfds lf \<longleftrightarrow>
     length lf = length (fs_Mounts spec) + 1
     \<and> (\<forall>i < length (fs_Mounts spec). let m = fs_Mounts spec ! i in sfds (m_Path m) = Some (3 + int i)
          \<and> (\<exists>f a b. lf ! i = Pinned f \<and> OpenMount (ho_Sys ho) (sourceOf (cf_Volumes cfg) m) (src_SubPath (m_Source m)) a = (Inr f, b)))
     \<and> (\<exists>f prog. lf ! length (fs_Mounts spec) = FilterFile f \<and> mem_Off f = 0 \<and> decodeFilter (mem_Data f) = Some prog
          \<and> WorkloadFilter (ho_Unix ho) (ho_Arch ho) = Some prog \<and> kernelAccepts prog)"

text \<open>The sources a launch has open.\<close>

definition mountFiles :: "('d, 'w) host \<Rightarrow> 'd execd \<Rightarrow> filesystem_spec \<Rightarrow> (safe_error, string \<rightharpoonup> int) result \<times> 'd os_file list \<times> 'd list" where
  "mountFiles ho ed spec =
     (if cf_Tier (ed_cfg ed) = TierFilesystem then openMounts (ho_Sys ho) (cf_Volumes (ed_cfg ed)) (fs_Mounts spec) [] Map.empty (ed_fds ed)
      else (Inr Map.empty, [], ed_fds ed))"

lemma mountFiles_closed:
  assumes "mountFiles ho ed spec = (x, files, fds)"
  shows "mset (closeAll files fds) = mset (ed_fds ed)"
proof -
  have "mset fds = mset (ed_fds ed) + mset (map f_Fd files)"
    using assms openMounts_fds [of "ho_Sys ho" "cf_Volumes (ed_cfg ed)" "fs_Mounts spec" "[]" Map.empty "ed_fds ed" x files fds]
    by (auto simp: mountFiles_def split: if_splits)
  then show ?thesis using closeAll_mset [of files fds] by simp
qed

lemma launch_fds:
  assumes "launch ho req now (ed, w) = (r, ed1, w1)"
  shows "mset (ed_fds ed1) = mset (ed_fds ed)"
proof -
  obtain x files fds where m: "mountFiles ho ed (br_Filesystem req) = (x, files, fds)" by (metis prod.exhaust)
  note l = assms [unfolded launch_def Let_def prod.case mountFiles_def [symmetric] m]
  show ?thesis using l mountFiles_closed [OF m] by (auto split: option.splits sum.splits prod.splits)
qed

lemma launch_Inr:
  assumes "launch ho req now (ed, w) = (Inr sb, ed1, w1)"
  obtains sfds files fds argv lf rp w' where "Validate (launchPolicy (ed_cfg ed)) (br_Filesystem req) (cf_Layout (ed_cfg ed)) = None"
    "mountFiles ho ed (br_Filesystem req) = (Inr sfds, files, fds)" "launchArgs ho (ed_cfg ed) (br_Filesystem req) files sfds = Inr (argv, lf)"
    "startProc ho (ed_cfg ed) req now (argv, lf) (ed_reaper ed, w) = (Inr sb, rp, w')"
proof -
  obtain x files fds where m: "mountFiles ho ed (br_Filesystem req) = (x, files, fds)" by (metis prod.exhaust)
  note l = assms [unfolded launch_def Let_def prod.case mountFiles_def [symmetric] m]
  show thesis using l m by (auto split: option.splits sum.splits prod.splits intro: that)
qed

lemma mountFiles_handedOver:
  assumes "mountFiles ho ed spec = (Inr sfds, files, fds)" "distinct (map m_Path (fs_Mounts spec))" "cf_Tier (ed_cfg ed) = TierFilesystem"
    and "fst (WorkloadFilterFile (ho_Unix ho) (ho_Arch ho) (ho_Memfd ho) 0) = Inr f"
  shows "handedOver ho (ed_cfg ed) spec sfds (map Pinned files @ [FilterFile f]) \<and> length files = length (fs_Mounts spec)"
proof -
  have "openMounts (ho_Sys ho) (cf_Volumes (ed_cfg ed)) (fs_Mounts spec) [] Map.empty (ed_fds ed) = (Inr sfds, files, fds)"
    using assms(1,3) by (simp add: mountFiles_def)
  from openMounts_Inr [OF this] assms(2) have len: "length files = length (fs_Mounts spec)"
    and "\<forall>i < length (fs_Mounts spec). \<exists>a b. OpenMount (ho_Sys ho) (sourceOf (cf_Volumes (ed_cfg ed)) (fs_Mounts spec ! i))
        (src_SubPath (m_Source (fs_Mounts spec ! i))) a = (Inr (files ! i), b)"
    and "\<forall>i < length (fs_Mounts spec). sfds (m_Path (fs_Mounts spec ! i)) = Some (3 + int i)" by auto
  then show ?thesis using WorkloadFilterFile_Inr [OF assms(4)] by (auto simp: handedOver_def nth_append Let_def)
qed


section \<open>A small Pod\<close>

definition demoCfg :: config where
  "demoCfg = \<lparr>cf_Layout = DefaultLayout, cf_Tier = TierUserns, cf_Volumes = Map.empty, cf_UID = 1000, cf_GID = 1000, cf_InitDial = 0, cf_GraceKill = 0\<rparr>"

definition demoPodE :: "string list execd" where
  "demoPodE = execd_New demoCfg TierUserns [] ''int'' 0"

definition demoHost :: "(string list, unit) host" where
  "demoHost = \<lparr>ho_Sys = demoSys, ho_Stat = (\<lambda>_. True), ho_Unix = linux_amd64, ho_Arch = ''amd64'', ho_Memfd = memfdWorks, ho_Launch = (\<lambda>_ _ w. (Inr 7, w)),
     ho_Ticks = (\<lambda>_. [\<lparr>dt_Now = 0, dt_Ctx = None, dt_Dial = None\<rparr>]), ho_Stderr = (\<lambda>_. []), ho_Kill = (\<lambda>_ w. w), ho_Interrupt = (\<lambda>_ w. w), ho_Waits = (\<lambda>_ _ w. (True, w)),
     ho_Post = (\<lambda>_ w. (Inr (200, []), w)), ho_Text = (\<lambda>_. ''err'')\<rparr>"

definition demoBind :: bind_request where
  "demoBind = \<lparr>br_SandboxID = ''sbx-1'', br_Tenant = ''t1'', br_Filesystem = demoSpec [], br_Env = None, br_Secrets = None, br_TTLSeconds = 60, br_Token = ''tok''\<rparr>"

definition demoBox1 :: sbox where
  "demoBox1 = \<lparr>sb_id = ''sbx-1'', sb_tenant = ''t1'', sb_token = ''tok'', sb_pid = 7, sb_boundAt = 0, sb_expiresAt = None, sb_argv = [], sb_ttlTimer = None\<rparr>"


section \<open>The life of a Pod\<close>

text \<open>What may happen, one at a time: a request to either plane, or the timer.\<close>

datatype e_event = EControl g_request "(string, bind_request) result" | EData g_request g_out | ETimer

definition timerFires :: "('d, 'w) host \<Rightarrow> int \<Rightarrow> 'd execd \<times> 'w \<Rightarrow> 'd execd \<times> 'w" where
  "timerFires ho now st =
     (case ed_sb (fst st) of
        None \<Rightarrow> st
      | Some sb \<Rightarrow> (case sb_ttlTimer sb of None \<Rightarrow> st | Some d \<Rightarrow> if now \<ge> d then expire_pod ho ''ttl'' st else st))"

fun e_step :: "('d, 'w) host \<Rightarrow> int \<times> e_event \<Rightarrow> 'd execd \<times> 'w \<Rightarrow> e_outcome option \<times> 'd execd \<times> 'w" where
  "e_step ho (now, EControl r dec) st = (case ControlHandler ho r dec now st of (resp, st1) \<Rightarrow> (Some (EResp resp), st1))"
| "e_step ho (now, EData r o1) st = (case DataHandler r o1 now (fst st) of (out, ed1) \<Rightarrow> (Some out, ed1, snd st))"
| "e_step ho (now, ETimer) st = (None, timerFires ho now st)"

fun e_run :: "('d, 'w) host \<Rightarrow> (int \<times> e_event) list \<Rightarrow> 'd execd \<times> 'w \<Rightarrow> e_outcome option list \<times> 'd execd \<times> 'w" where
  "e_run ho [] st = ([], st)"
| "e_run ho (ev # evs) st = (case e_step ho ev st of (out, st1) \<Rightarrow> (case e_run ho evs st1 of (outs, st2) \<Rightarrow> (out # outs, st2)))"

definition isBound :: "e_outcome option \<Rightarrow> bool" where
  "isBound out \<longleftrightarrow> (\<exists>b. out = Some (EResp (JSON 200 (EBound b))))"

lemma launch_frame:
  assumes "launch ho req now (ed, w) = (r, ed1, w1)"
  shows "ed_sb ed1 = ed_sb ed \<and> ed_expired ed1 = ed_expired ed"
  using assms by (auto simp: launch_def Let_def split: option.splits sum.splits prod.splits)

lemma launch_request:
  assumes "launch ho req now (ed, w) = (Inr sb, ed1, w1)"
  shows "sb_id sb = br_SandboxID req \<and> sb_token sb = br_Token req \<and> sb_expiresAt sb = deadlineOf now (br_TTLSeconds req)"
  using assms by (elim launch_Inr) (drule startProc_Inr, simp)

lemma handleBind_cases:
  assumes "handleBind ho dec now (ed, w) = (resp, ed1, w1)"
  obtains (bound) req sb where "dec = Inr req" "bindCheck ed = None" "ed_sb ed1 = Some sb" "sb_id sb = br_SandboxID req" "sb_token sb = br_Token req"
      "\<exists>b. resp = JSON 200 (EBound b)" "ed_expired ed1 = ed_expired ed"
  | (refused) "\<forall>b. resp \<noteq> JSON 200 (EBound b)" "ed_sb ed1 = ed_sb ed" "ed_expired ed1 = ed_expired ed"
proof (cases dec)
  case (Inl e)
  then show thesis using assms by (auto simp: handleBind_def writeErr_def intro: refused)
next
  case req: (Inr req)
  show thesis
  proof (cases "br_SandboxID req = [] \<or> br_Token req = [] \<or> bindCheck ed \<noteq> None")
    case True
    have "bindCheck ed = Some x \<Longrightarrow> \<forall>b. x \<noteq> JSON 200 (EBound b)" for x
      by (auto simp: bindCheck_def writeErr_def split: option.splits if_splits)
    then show thesis using True assms req by (intro refused) (auto simp: handleBind_def writeErr_def split: if_splits option.splits)
  next
    case False
    obtain r ed' w' where l: "launch ho req now (ed, w) = (r, ed', w')" by (metis prod.exhaust)
    note f = launch_frame [OF l]
    show thesis
    proof (cases r)
      case (Inl e)
      then show thesis using False assms req l f by (intro refused) (auto simp: handleBind_def writeErr_def split: if_splits)
    next
      case (Inr sb)
      then have sb: "sb_id sb = br_SandboxID req" "sb_token sb = br_Token req" using launch_request [of ho req now ed w sb ed' w'] l by simp_all
      obtain c w'' where c: "configureInit ho req w' = (c, w'')" by force
      show thesis
      proof (cases c)
        case None
        then show thesis using False assms req l f Inr c sb
          by (intro bound [of req "sb\<lparr>sb_ttlTimer := sb_expiresAt sb\<rparr>"]) (auto simp: handleBind_def publishBox_def split: if_splits)
      next
        case (Some e)
        then show thesis using False assms req l f Inr c by (intro refused) (auto simp: handleBind_def writeErr_def split: if_splits)
      qed
    qed
  qed
qed

text \<open>A Pod that has had a sandbox, and what every step does to that.\<close>

definition used :: "'d execd \<Rightarrow> bool" where
  "used ed \<longleftrightarrow> ed_sb ed \<noteq> None \<or> ed_expired ed"

definition gone :: "'d execd \<Rightarrow> bool" where
  "gone ed \<longleftrightarrow> ed_expired ed \<and> ed_sb ed = None"

lemma expire_pod_gone: "gone (fst (expire_pod ho reason (ed, w))) \<or> (ed_expired ed \<and> expire_pod ho reason (ed, w) = (ed, w))"
  by (simp add: expire_pod_def gone_def)

lemma ControlHandler_cases:
  assumes "ControlHandler ho r dec now (ed, w) = (resp, ed1, w1)"
  obtains (bind) "handleBind ho dec now (ed, w) = (resp, ed1, w1)"
  | (unbind) "resp = JSON 200 EOk" "(ed1, w1) = expire_pod ho ''unbind'' (ed, w)"
  | (other) "ed1 = ed" "\<forall>b. resp \<noteq> JSON 200 (EBound b)"
proof -
  define ok where "ok = internalOk ed r"
  define pb where "pb \<longleftrightarrow> gq_Path r = ''/internal/v1/bind'' \<and> gq_Method r = ''POST''"
  define pu where "pu \<longleftrightarrow> gq_Path r = ''/internal/v1/unbind'' \<and> gq_Method r = ''POST''"
  define ps where "ps \<longleftrightarrow> gq_Path r = ''/internal/v1/status'' \<and> (gq_Method r = ''GET'' \<or> gq_Method r = ''HEAD'')"
  define pp where "pp \<longleftrightarrow> gq_Path r = ''/internal/v1/probe'' \<and> (gq_Method r = ''GET'' \<or> gq_Method r = ''HEAD'')"
  note h = assms [unfolded ControlHandler_def Let_def fst_conv writeErr_def, folded ok_def pb_def pu_def ps_def pp_def]
  consider "pb" "ok" | "\<not> pb" "pu" "ok" | "ed1 = ed \<and> (\<forall>b. resp \<noteq> JSON 200 (EBound b))"
    using h by (cases pb; cases pu; cases ps; cases pp; cases ok) (auto simp: handleStatus_def handleProbe_def)
  then show thesis
    by cases (use h bind unbind other in auto)
qed

text \<open>The same sandbox: what a keepalive leaves alone.\<close>

definition same_box :: "sbox \<Rightarrow> sbox \<Rightarrow> bool" where
  "same_box a b \<longleftrightarrow> sb_id a = sb_id b \<and> sb_token a = sb_token b \<and> sb_pid a = sb_pid b"

lemma requireSandbox_cases:
  assumes "requireSandbox r o1 now ed = (out, ed1)"
  obtains (refused) code e msg h where "out = EResp (ErrResp code e msg h)" "ed1 = ed"
  | (kept) sb sb' e where "authorised ed r = Some sb" "ed_sb ed = Some sb" "\<not> (case sb_expiresAt sb of None \<Rightarrow> False | Some d \<Rightarrow> now > d)"
      "out = EResp (JSON 200 (EKept e))" "ed1 = ed\<lparr>ed_sb := Some sb'\<rparr>" "same_box sb' sb"
  | (forwarded) sb where "authorised ed r = Some sb" "ed_sb ed = Some sb" "\<not> (case sb_expiresAt sb of None \<Rightarrow> False | Some d \<Rightarrow> now > d)"
      "out = EForward (initRewrite o1)" "ed1 = ed"
proof (cases "authorised ed r")
  case None
  then show thesis using assms by (auto simp: requireSandbox_def writeErr_def intro: refused)
next
  case (Some sb)
  then have sb: "ed_sb ed = Some sb" by (auto simp: authorised_def split: option.splits if_splits)
  show thesis
  proof (cases "case sb_expiresAt sb of None \<Rightarrow> False | Some d \<Rightarrow> now > d")
    case True
    then show thesis using assms Some by (auto simp: requireSandbox_def writeErr_def intro: refused)
  next
    case False
    show thesis
    proof (cases "gq_Path r = ''/v1/keepalive'' \<and> gq_Method r = ''POST''")
      case True
      obtain e where "execd_keepalive r now sb ed
          = (JSON 200 (EKept e), ed\<lparr>ed_sb := Some (sb\<lparr>sb_expiresAt := Some e, sb_ttlTimer := map_option (\<lambda>_. e) (sb_ttlTimer sb)\<rparr>)\<rparr>)"
        using sb by (simp add: execd_keepalive_def Let_def)
      then show thesis using True False assms Some sb
        by (intro kept [OF Some sb False, of e "sb\<lparr>sb_expiresAt := Some e, sb_ttlTimer := map_option (\<lambda>_. e) (sb_ttlTimer sb)\<rparr>"])
          (simp_all add: requireSandbox_def same_box_def)
    next
      case n: False
      then have "requireSandbox r o1 now ed = (EForward (initRewrite o1), ed)" unfolding requireSandbox_def Some option.case by (simp only: False if_False)
      then show thesis using assms Some False sb by (intro forwarded) auto
    qed
  qed
qed

lemma requireSandbox_refused:
  "authorised ed r = None \<Longrightarrow> requireSandbox r o1 now ed = (EResp (writeErr 401 ''unauthorized'' ''invalid or missing sandbox token''), ed)"
  by (simp add: requireSandbox_def)

lemma DataHandler_cases:
  assumes "DataHandler r o1 now ed = (out, ed1)"
  obtains (gate) "requireSandbox r o1 now ed = (out, ed1)" | (pub) "ed1 = ed" "\<forall>x. out \<noteq> EForward x" "\<forall>b. out \<noteq> EResp (JSON 200 (EBound b))"
  using assms by (auto simp: DataHandler_def writeErr_def split: if_splits)

lemma DataHandler_frame:
  assumes "DataHandler r o1 now ed = (out, ed1)"
  shows "ed_expired ed1 = ed_expired ed \<and> (\<forall>b. out \<noteq> EResp (JSON 200 (EBound b)))
    \<and> (case ed_sb ed of None \<Rightarrow> ed_sb ed1 = None \<and> (\<forall>x. out \<noteq> EForward x) | Some sb \<Rightarrow> \<exists>sb'. ed_sb ed1 = Some sb' \<and> same_box sb' sb)"
  using assms
proof (cases rule: DataHandler_cases)
  case gate
  then show ?thesis by (cases rule: requireSandbox_cases) (auto simp: same_box_def split: option.splits)
qed (auto simp: same_box_def split: option.splits)

lemma timerFires_cases: "timerFires ho now (ed, w) = (ed, w) \<or> timerFires ho now (ed, w) = expire_pod ho ''ttl'' (ed, w)"
  by (simp add: timerFires_def split: option.splits)

text \<open>One step: a bind only on a Pod never used, a used Pod stays used, a Pod that is gone stays gone and answers nothing.\<close>

lemma expire_pod_frame:
  assumes "expire_pod ho reason (ed, w) = (ed1, w1)"
  shows "gone ed1 \<or> ed_expired ed \<and> ed1 = ed"
  using expire_pod_gone [of ho reason ed w] assms by auto

lemma e_step_frame:
  assumes "e_step ho ev (ed, w) = (out, ed1, w1)"
  shows "(isBound out \<longrightarrow> \<not> used ed) \<and> (used ed \<or> isBound out \<longrightarrow> used ed1)
    \<and> (gone ed \<longrightarrow> gone ed1 \<and> (\<forall>x. out \<noteq> Some (EForward x)))
    \<and> (\<forall>sb. ed_sb ed = Some sb \<longrightarrow> gone ed1 \<or> (\<exists>sb'. ed_sb ed1 = Some sb' \<and> same_box sb' sb))
    \<and> ((ed_expired ed \<longrightarrow> ed_sb ed = None) \<longrightarrow> ed_expired ed1 \<longrightarrow> ed_sb ed1 = None)"
proof -
  obtain now e where ev: "ev = (now, e)" by force
  show ?thesis
  proof (cases e)
    case (EControl r dec)
    then obtain resp where c: "ControlHandler ho r dec now (ed, w) = (resp, ed1, w1)" "out = Some (EResp resp)"
      using assms ev by (auto split: prod.splits)
    from c(1) show ?thesis
    proof (cases rule: ControlHandler_cases)
      case bind
      then show ?thesis using c(2)
        by (cases rule: handleBind_cases)
          (auto simp: isBound_def used_def gone_def same_box_def bindCheck_def split: option.splits if_splits)
    next
      case unbind
      then show ?thesis using c(2) expire_pod_frame [of ho "''unbind''" ed w ed1 w1] by (auto simp: isBound_def used_def gone_def same_box_def)
    qed (use c(2) in \<open>auto simp: isBound_def used_def gone_def same_box_def\<close>)
  next
    case (EData r o1)
    then obtain x where "DataHandler r o1 now ed = (x, ed1)" "out = Some x" using assms ev by (auto split: prod.splits)
    then show ?thesis using DataHandler_frame [of r o1 now ed x ed1]
      by (auto simp: isBound_def used_def gone_def same_box_def split: option.splits)
  next
    case ETimer
    then have "timerFires ho now (ed, w) = (ed1, w1)" "out = None" using assms ev by auto
    then show ?thesis using timerFires_cases [of ho now ed w] expire_pod_frame [of ho "''ttl''" ed w ed1 w1]
      by (auto simp: isBound_def used_def gone_def same_box_def)
  qed
qed

lemma e_run_keeps:
  assumes "\<And>ev ed w out ed1 w1. P ed \<Longrightarrow> e_step ho ev (ed, w) = (out, ed1, w1) \<Longrightarrow> P ed1 \<and> Q out"
  shows "P ed \<Longrightarrow> e_run ho evs (ed, w) = (outs, ed', w') \<Longrightarrow> P ed' \<and> (\<forall>out \<in> set outs. Q out)"
proof (induction evs arbitrary: ed w outs)
  case (Cons ev evs)
  obtain out ed1 w1 where s: "e_step ho ev (ed, w) = (out, ed1, w1)" by (metis prod.exhaust)
  obtain outs1 st2 where r: "e_run ho evs (ed1, w1) = (outs1, st2)" by (metis prod.exhaust)
  have "outs = out # outs1" "st2 = (ed', w')" using Cons.prems(2) s r by simp_all
  then show ?case using Cons.IH [of ed1 w1 outs1] assms [OF Cons.prems(1) s] r by auto
qed simp

lemma e_run_used:
  assumes "used ed" "e_run ho evs (ed, w) = (outs, ed', w')"
  shows "used ed' \<and> (\<forall>out \<in> set outs. \<not> isBound out)"
proof -
  have "used ed1 \<and> \<not> isBound out" if "used ed" "e_step ho ev (ed, w) = (out, ed1, w1)" for ev ed w out ed1 w1
    using e_step_frame [OF that(2)] that(1) by simp
  from e_run_keeps [where P = used and Q = "\<lambda>out. \<not> isBound out", OF this assms] show ?thesis .
qed

lemma e_run_gone:
  assumes "gone ed" "e_run ho evs (ed, w) = (outs, ed', w')"
  shows "gone ed' \<and> (\<forall>out \<in> set outs. \<forall>x. out \<noteq> Some (EForward x))"
proof -
  have "gone ed1 \<and> (\<forall>x. out \<noteq> Some (EForward x))" if "gone ed" "e_step ho ev (ed, w) = (out, ed1, w1)" for ev ed w out ed1 w1
    using e_step_frame [OF that(2)] that(1) by simp
  from e_run_keeps [where P = gone and Q = "\<lambda>out. \<forall>x. out \<noteq> Some (EForward x)", OF this assms] show ?thesis .
qed

lemma e_run_once:
  "e_run ho evs (ed, w) = (outs, ed', w') \<Longrightarrow> length (filter isBound outs) \<le> 1"
proof (induction evs arbitrary: ed w outs)
  case (Cons ev evs)
  obtain out ed1 w1 where s: "e_step ho ev (ed, w) = (out, ed1, w1)" by (metis prod.exhaust)
  obtain outs1 st2 where r: "e_run ho evs (ed1, w1) = (outs1, st2)" by (metis prod.exhaust)
  have o: "outs = out # outs1" "st2 = (ed', w')" using Cons.prems s r by simp_all
  show ?case
  proof (cases "isBound out")
    case True
    then have "used ed1" using e_step_frame [OF s] by blast
    then have "\<forall>x \<in> set outs1. \<not> isBound x" using e_run_used [OF _ r [unfolded o(2)]] by simp
    then have "filter isBound outs1 = []" by (simp add: filter_empty_conv)
    then show ?thesis using True o(1) by simp
  next
    case False
    then show ?thesis using Cons.IH [of ed1 w1 outs1] r o by simp
  qed
qed simp



text \<open>C28: the data plane is closed to everyone but the holder of the token. A request reaches the namespace, or
  changes the deadline, only if a sandbox is bound, the request carries its token, which is not empty, and its deadline has not passed. A request
  without the token gets the same answer whatever the state of the Pod, and changes nothing.\<close>

theorem data_plane_needs_token:
  assumes "DataHandler r o1 now ed = (out, ed1)"
  shows "((\<exists>x. out = EForward x) \<or> ed1 \<noteq> ed \<longrightarrow>
       (\<exists>sb. ed_sb ed = Some sb \<and> sb_token sb \<noteq> [] \<and> execd_bearer (gq_Header r) (gq_Query r) = sb_token sb
          \<and> (case sb_expiresAt sb of None \<Rightarrow> True | Some d \<Rightarrow> now \<le> d)))
    \<and> (\<forall>ed2. authorised ed r = None \<and> authorised ed2 r = None \<longrightarrow> ed1 = ed \<and> DataHandler r o1 now ed2 = (out, ed2))"
proof (intro conjI impI allI)
  assume h: "(\<exists>x. out = EForward x) \<or> ed1 \<noteq> ed"
  from assms h have "requireSandbox r o1 now ed = (out, ed1)" by (cases rule: DataHandler_cases) auto
  then obtain sb where sb: "authorised ed r = Some sb" "\<not> (case sb_expiresAt sb of None \<Rightarrow> False | Some d \<Rightarrow> now > d)"
    using h by (cases rule: requireSandbox_cases) auto
  then show "\<exists>sb. ed_sb ed = Some sb \<and> sb_token sb \<noteq> [] \<and> execd_bearer (gq_Header r) (gq_Query r) = sb_token sb
          \<and> (case sb_expiresAt sb of None \<Rightarrow> True | Some d \<Rightarrow> now \<le> d)"
    by (auto simp: authorised_def tokenMatches_def split: option.splits if_splits)
next
  fix ed2 assume a: "authorised ed r = None \<and> authorised ed2 r = None"
  with assms show "ed1 = ed" "DataHandler r o1 now ed2 = (out, ed2)"
    by (auto simp: DataHandler_def requireSandbox_refused split: if_splits)
qed

theorem data_plane_needs_token_witness:
  "execd_bearer (gq_Header (demoGet [] ''/v1/files'')) [(''token'', ''tok'')] = ''tok''"
proof -
  let ?r = "(demoGet [] ''/v1/files'')\<lparr>gq_Query := [(''token'', ''tok'')]\<rparr>" and ?ed = "demoPodE\<lparr>ed_sb := Some demoBox1\<rparr>"
  have "authorised ?ed ?r = Some demoBox1"
    by (simp add: authorised_def tokenMatches_def execd_bearer_def demoGet_def demoBox1_def hget_def qget_def hasPrefix_def)
  then have "DataHandler ?r x 0 ?ed = (EForward (initRewrite x), ?ed)" for x
    by (simp add: DataHandler_def requireSandbox_def demoGet_def hasPrefix_def demoBox1_def)
  from conjunct1 [OF data_plane_needs_token [OF this], THEN mp] show ?thesis by (auto simp: demoGet_def demoBox1_def)
qed



text \<open>The namespace does see the token when it arrives in the header meant for the API server's proxy.\<close>

lemma control_token_reaches_namespace: "og_Header (initRewrite o1) ControlTokenHeader = og_Header o1 ControlTokenHeader"
  by (simp add: initRewrite_def SetURL_def hdel_def ControlTokenHeader_def Let_def)

text \<open>A keepalive gives a sandbox without a deadline one that no timer enforces.\<close>

lemma keepalive_sets_unenforced_deadline:
  assumes "ed_sb ed = Some sb" "sb_expiresAt sb = None" "sb_ttlTimer sb = None"
  shows "\<exists>e sb'. ed_sb (snd (execd_keepalive r now sb ed)) = Some sb' \<and> sb_expiresAt sb' = Some e \<and> sb_ttlTimer sb' = None"
  using assms by (simp add: execd_keepalive_def Let_def)

end
