(* ===== verification/Initd_Files.thy ===== *)
theory Initd_Files
  imports Execd
begin

text \<open>
  The file API of the process inside the sandbox (\<open>pkg/initd/files.go\<close>) and the configuration it works from
  (\<open>pkg/initd/server.go\<close>). Opening goes through the model of \<open>pkg/safepath\<close>; the rest of the file system (stat,
  mkdir, write, remove, readdir) is a record of operations on a world, which the kernel answers from. A handler is given the
  configuration, the descriptors that are open, and the world.
\<close>

section \<open>Configuration\<close>

record initd =
  in_sandboxID :: string
  in_env :: "string \<rightharpoonup> string"
  in_roots :: "root list"
  in_workspace :: string
  in_ready :: bool

definition initd_New :: "string \<Rightarrow> initd" where
  "initd_New ws = \<lparr>in_sandboxID = [], in_env = Map.empty, in_roots = [], in_workspace = ws, in_ready = False\<rparr>"

record file_info =
  fi_Name :: string
  fi_Path :: string
  fi_Size :: int
  fi_Mode :: string
  fi_IsDir :: bool
  fi_Modified :: string
  fi_Symlink :: bool

datatype i_body = IOk | IHealth bool string int int nat | IFile string | IPut string int | IDeleted string | IList string "file_info list"

definition orEmpty :: "('a \<rightharpoonup> 'b) option \<Rightarrow> 'a \<rightharpoonup> 'b" where
  "orEmpty m = (case m of None \<Rightarrow> Map.empty | Some f \<Rightarrow> f)"

definition handleConfigure :: "(string, configure_request) result \<Rightarrow> initd \<Rightarrow> i_body response \<times> initd" where
  "handleConfigure dec s =
     (case dec of
        Inl e \<Rightarrow> (writeErr 400 ''invalid_body'' e, s)
      | Inr req \<Rightarrow>
          (let env = orEmpty (cq_Env req) ++ orEmpty (cq_Secrets req);
               ws = (if cq_Workspace req = [] then in_workspace s else cq_Workspace req);
               roots = (if cq_Roots req = [] then [\<lparr>rt_Path = ws, rt_ReadOnly = False\<rparr>] else cq_Roots req)
           in if in_ready s then (writeErr 409 ''already_configured'' ''initialization is one-shot'', s)
              else (JSON 200 IOk, \<lparr>in_sandboxID = cq_SandboxID req, in_env = env, in_roots = roots, in_workspace = ws, in_ready = True\<rparr>)))"

definition handleHealth :: "initd \<Rightarrow> int \<Rightarrow> int \<Rightarrow> nat \<Rightarrow> i_body response" where
  "handleHealth s pid uptimeMs processes = JSON 200 (IHealth (in_ready s) (in_sandboxID s) pid uptimeMs processes)"

text \<open>\<open>Listen\<close>, over the calls it makes; a socket that cannot be restricted is closed again.\<close>

definition maxUnixPath :: nat where "maxUnixPath = 104"

record ('l, 'w) listen_sys =
  ls_MkdirAll :: "string \<Rightarrow> 'w \<Rightarrow> errno option \<times> 'w"
  ls_Remove :: "string \<Rightarrow> 'w \<Rightarrow> 'w"
  ls_Listen :: "string \<Rightarrow> 'w \<Rightarrow> (errno, 'l) result \<times> 'w"
  ls_Chmod :: "string \<Rightarrow> int \<Rightarrow> 'w \<Rightarrow> errno option \<times> 'w"
  ls_Close :: "'l \<Rightarrow> 'w \<Rightarrow> 'w"

datatype listen_error = SocketTooLong nat string | ListenErr errno

definition Listen :: "('l, 'w) listen_sys \<Rightarrow> string \<Rightarrow> 'w \<Rightarrow> (listen_error, 'l) result \<times> 'w" where
  "Listen ls p w =
     (if length p \<ge> maxUnixPath then (Inl (SocketTooLong (length p) p), w)
      else (case ls_MkdirAll ls (path_Dir p) w of
        (Some e, w1) \<Rightarrow> (Inl (ListenErr e), w1)
      | (None, w1) \<Rightarrow>
          (case ls_Listen ls p (ls_Remove ls p w1) of
             (Inl e, w2) \<Rightarrow> (Inl (ListenErr e), w2)
           | (Inr l, w2) \<Rightarrow>
               (case ls_Chmod ls p 384 w2 of
                  (Some e, w3) \<Rightarrow> (Inl (ListenErr e), ls_Close ls l w3)
                | (None, w3) \<Rightarrow> (Inr l, w3)))))"

section \<open>Dropping privileges\<close>

text \<open>\<open>DropPrivileges\<close>, over the system calls it makes on the process's credentials.\<close>

record 'k cred_sys =
  cr_Setgroups :: "int list \<Rightarrow> 'k \<Rightarrow> errno option \<times> 'k"
  cr_Setgid :: "int \<Rightarrow> 'k \<Rightarrow> errno option \<times> 'k"
  cr_Setuid :: "int \<Rightarrow> 'k \<Rightarrow> errno option \<times> 'k"
  cr_Geteuid :: "'k \<Rightarrow> int"
  cr_Getuid :: "'k \<Rightarrow> int"

datatype drop_error = DropGroups errno | DropGid errno | DropUid errno | DropEuid int | DropRuid int

definition DropPrivileges :: "'k cred_sys \<Rightarrow> int \<Rightarrow> int \<Rightarrow> 'k \<Rightarrow> drop_error option \<times> 'k" where
  "DropPrivileges cs uid gid k =
     (case cr_Setgroups cs [gid] k of
        (Some e, k1) \<Rightarrow> (Some (DropGroups e), k1)
      | (None, k1) \<Rightarrow>
          (case cr_Setgid cs gid k1 of
             (Some e, k2) \<Rightarrow> (Some (DropGid e), k2)
           | (None, k2) \<Rightarrow>
               (case cr_Setuid cs uid k2 of
                  (Some e, k3) \<Rightarrow> (Some (DropUid e), k3)
                | (None, k3) \<Rightarrow>
                    if cr_Geteuid cs k3 \<noteq> uid then (Some (DropEuid (cr_Geteuid cs k3)), k3)
                    else if cr_Getuid cs k3 \<noteq> uid then (Some (DropRuid (cr_Getuid cs k3)), k3)
                    else (None, k3))))"

section \<open>Which root a path belongs to\<close>

definition matchRoot :: "string \<Rightarrow> root \<Rightarrow> string option" where
  "matchRoot clean r =
     (let rc = path_Clean (rt_Path r)
      in if clean = rc then Some ''.''
         else if hasPrefix clean (rc @ ''/'') then Some (trimPrefix clean (rc @ ''/''))
         else None)"

fun pickRoot :: "string \<Rightarrow> root list \<Rightarrow> (root \<times> string) option \<Rightarrow> (root \<times> string) option" where
  "pickRoot clean [] best = best"
| "pickRoot clean (r # rs) best =
     (case matchRoot clean r of
        None \<Rightarrow> pickRoot clean rs best
      | Some rel \<Rightarrow>
          (case best of
             None \<Rightarrow> pickRoot clean rs (Some (r, rel))
           | Some (b, brel) \<Rightarrow>
               if length (path_Clean (rt_Path r)) > length (path_Clean (rt_Path b)) then pickRoot clean rs (Some (r, rel))
               else pickRoot clean rs best))"

definition resolveRoot :: "root list \<Rightarrow> string \<Rightarrow> (root \<times> string) option" where
  "resolveRoot roots p = (if p = [] \<or> \<not> hasPrefix p ''/'' then None else pickRoot (path_Clean p) roots None)"

section \<open>Errors\<close>

datatype file_error = NoRoot | SafeErr safe_error | OsErr errno | TooLarge

fun errnoOf :: "file_error \<Rightarrow> errno option" where
  "errnoOf (SafeErr (PathError op p e)) = Some e"
| "errnoOf (SafeErr (SysErr e)) = Some e"
| "errnoOf (SafeErr (PinError r p e)) = Some e"
| "errnoOf (OsErr e) = Some e"
| "errnoOf x = None"

definition escapes :: "file_error \<Rightarrow> bool" where
  "escapes e = (case e of SafeErr x \<Rightarrow> IsEscape x | _ \<Rightarrow> False)"

definition fileError :: "(file_error \<Rightarrow> string) \<Rightarrow> file_error \<Rightarrow> i_body response" where
  "fileError txt e =
     (if e = NoRoot then writeErr 403 ''path_forbidden'' ''path is outside every directory this sandbox may touch''
      else if escapes e then writeErr 403 ''path_escape'' ''path is malformed or traverses a symlink out of its directory''
      else if errnoOf e = Some ENOENT then writeErr 404 ''not_found'' ''no such file or directory''
      else if errnoOf e = Some EACCES \<or> errnoOf e = Some EPERM then writeErr 403 ''permission_denied'' (txt e)
      else writeErr 500 ''io_error'' (txt e))"

section \<open>The handlers\<close>

text \<open>A directory entry; \<open>de_Info\<close> is what \<open>Info\<close> answers for it: size, mode, modification time and whether it is a link.\<close>

record dir_entry =
  de_Name :: string
  de_IsDir :: bool
  de_Info :: "(errno, int \<times> string \<times> string \<times> bool) result"

record ('d, 'w) filesys =
  fy_Sys :: "'w \<Rightarrow> 'd sys"
  fy_Touch :: "'d os_file \<Rightarrow> 'w \<Rightarrow> 'w"
  fy_IsDir :: "'d \<Rightarrow> 'w \<Rightarrow> (errno, bool) result"
  fy_Read :: "'d \<Rightarrow> 'w \<Rightarrow> string"
  fy_Write :: "'d \<Rightarrow> string \<Rightarrow> 'w \<Rightarrow> errno option \<times> 'w"
  fy_Mkdir :: "string \<Rightarrow> 'w \<Rightarrow> errno option \<times> 'w"
  fy_Remove :: "string \<Rightarrow> 'w \<Rightarrow> errno option \<times> 'w"
  fy_RemoveAll :: "string \<Rightarrow> 'w \<Rightarrow> errno option \<times> 'w"
  fy_ReadDir :: "'d \<Rightarrow> 'w \<Rightarrow> (errno, dir_entry list) result"
  fy_Text :: "file_error \<Rightarrow> string"

definition closeFd :: "'d os_file \<Rightarrow> 'd pstate \<Rightarrow> 'd pstate" where
  "closeFd f st = st\<lparr>openFds := remove1 (f_Fd f) (openFds st)\<rparr>"

definition openForRead :: "('d, 'w) filesys \<Rightarrow> initd \<Rightarrow> string \<Rightarrow> 'd pstate \<Rightarrow> 'w \<Rightarrow> (file_error, 'd os_file) result \<times> 'd pstate" where
  "openForRead fy s p st w =
     (case resolveRoot (in_roots s) p of
        None \<Rightarrow> (Inl NoRoot, st)
      | Some (root, rel) \<Rightarrow>
          (case OpenBeneath (fy_Sys fy w) (rt_Path root) rel {O_RDONLY} 0 st of
             (Inl e, st1) \<Rightarrow> (Inl (SafeErr e), st1)
           | (Inr f, st1) \<Rightarrow> (Inr f, st1)))"

definition handleFileGet :: "('d, 'w) filesys \<Rightarrow> initd \<Rightarrow> string \<Rightarrow> 'd pstate \<times> 'w \<Rightarrow> i_body response \<times> 'd pstate \<times> 'w" where
  "handleFileGet fy s p st =
     (case openForRead fy s p (fst st) (snd st) of
        (Inl e, st1) \<Rightarrow> (fileError (fy_Text fy) e, st1, snd st)
      | (Inr f, st1) \<Rightarrow>
          ((case fy_IsDir fy (f_Fd f) (snd st) of
              Inl e \<Rightarrow> fileError (fy_Text fy) (OsErr e)
            | Inr dirp \<Rightarrow> if dirp then writeErr 400 ''is_directory'' ''use /v1/files/list for directories''
                          else JSON 200 (IFile (fy_Read fy (f_Fd f) (snd st)))), closeFd f st1, snd st))"

text \<open>\<open>mkdirAllBeneath\<close>: the loop over the segments, \<open>cur\<close> being what has been passed.\<close>

fun mkdirs ::
    "('d, 'w) filesys \<Rightarrow> string \<Rightarrow> string \<Rightarrow> string list \<Rightarrow> 'd pstate \<times> 'w \<Rightarrow> file_error option \<times> 'd pstate \<times> 'w" where
  "mkdirs fy root cur [] st = (None, st)"
| "mkdirs fy root cur (seg # ss) st =
     (if seg = [] then mkdirs fy root cur ss st
      else (let c = (if cur = [] then seg else cur @ ''/'' @ seg) in
        case OpenBeneath (fy_Sys fy (snd st)) root c {O_RDONLY} 0 (fst st) of
          (Inr f, st1) \<Rightarrow> mkdirs fy root c ss (closeFd f st1, snd st)
        | (Inl e, st1) \<Rightarrow>
            if IsEscape e then (Some (SafeErr e), st1, snd st)
            else (case fy_Mkdir fy (path_Join [root, c]) (snd st) of
               (r, w1) \<Rightarrow> if r \<noteq> None \<and> r \<noteq> Some EEXIST then (map_option OsErr r, st1, w1) else mkdirs fy root c ss (st1, w1))))"

definition mkdirAllBeneath ::
    "('d, 'w) filesys \<Rightarrow> string \<Rightarrow> string \<Rightarrow> 'd pstate \<times> 'w \<Rightarrow> file_error option \<times> 'd pstate \<times> 'w" where
  "mkdirAllBeneath fy root rel st = mkdirs fy root [] (split_on slash rel) st"

definition maxUploadBytes :: nat where "maxUploadBytes = 512 * 2 ^ 20"

text \<open>\<open>io.Copy\<close> from the limited body; a longer body is an error once the limit has been written.\<close>

definition copyBody :: "('d, 'w) filesys \<Rightarrow> 'd \<Rightarrow> string \<Rightarrow> 'w \<Rightarrow> (file_error, int) result \<times> 'w" where
  "copyBody fy fd body w =
     (case fy_Write fy fd (take maxUploadBytes body) w of
        (Some e, w1) \<Rightarrow> (Inl (OsErr e), w1)
      | (None, w1) \<Rightarrow> ((if length body > maxUploadBytes then Inl TooLarge else Inr (int (length body))), w1))"

definition writeFile ::
    "('d, 'w) filesys \<Rightarrow> root \<Rightarrow> string \<Rightarrow> string \<Rightarrow> string \<Rightarrow> 'd pstate \<times> 'w \<Rightarrow> i_body response \<times> 'd pstate \<times> 'w" where
  "writeFile fy root rel p body st =
     (case OpenBeneath (fy_Sys fy (snd st)) (rt_Path root) rel {O_WRONLY, O_CREAT, O_TRUNC} 420 (fst st) of
        (Inl e, st1) \<Rightarrow> (fileError (fy_Text fy) (SafeErr e), st1, snd st)
      | (Inr f, st1) \<Rightarrow>
          (case copyBody fy (f_Fd f) body (fy_Touch fy f (snd st)) of
             (Inl e, w1) \<Rightarrow> (fileError (fy_Text fy) e, closeFd f st1, w1)
           | (Inr n, w1) \<Rightarrow> (JSON 200 (IPut (path_Clean p) n), closeFd f st1, w1)))"

definition handleFilePut ::
    "('d, 'w) filesys \<Rightarrow> initd \<Rightarrow> string \<Rightarrow> string \<Rightarrow> 'd pstate \<times> 'w \<Rightarrow> i_body response \<times> 'd pstate \<times> 'w" where
  "handleFilePut fy s p body st =
     (case resolveRoot (in_roots s) p of
        None \<Rightarrow> (fileError (fy_Text fy) NoRoot, st)
      | Some (root, rel) \<Rightarrow>
          if rt_ReadOnly root then (writeErr 403 ''read_only'' ''this path is mounted read-only'', st)
          else if rel = ''.'' then (writeErr 400 ''is_directory'' ''cannot write to a directory'', st)
          else (case (if path_Dir rel \<noteq> ''.'' then mkdirAllBeneath fy (rt_Path root) (path_Dir rel) st else (None, st)) of
             (Some e, st1) \<Rightarrow> (fileError (fy_Text fy) e, st1)
           | (None, st1) \<Rightarrow> writeFile fy root rel p body st1))"

definition handleFileDelete ::
    "('d, 'w) filesys \<Rightarrow> initd \<Rightarrow> string \<Rightarrow> bool \<Rightarrow> 'd pstate \<times> 'w \<Rightarrow> i_body response \<times> 'd pstate \<times> 'w" where
  "handleFileDelete fy s p recursive st =
     (case resolveRoot (in_roots s) p of
        None \<Rightarrow> (fileError (fy_Text fy) NoRoot, st)
      | Some (root, rel) \<Rightarrow>
          if rt_ReadOnly root then (writeErr 403 ''read_only'' ''this path is mounted read-only'', st)
          else if rel = ''.'' then (writeErr 403 ''root_delete'' ''refusing to delete a mount root'', st)
          else (case OpenBeneath (fy_Sys fy (snd st)) (rt_Path root) rel {O_RDONLY} 0 (fst st) of
             (Inl e, st1) \<Rightarrow> (fileError (fy_Text fy) (SafeErr e), st1, snd st)
           | (Inr f, st1) \<Rightarrow>
               (case (if recursive then fy_RemoveAll fy else fy_Remove fy) (path_Join [rt_Path root, rel]) (snd st) of
                  (Some e, w1) \<Rightarrow> (fileError (fy_Text fy) (OsErr e), closeFd f st1, w1)
                | (None, w1) \<Rightarrow> (JSON 200 (IDeleted (path_Clean p)), closeFd f st1, w1))))"

text \<open>The entries whose \<open>Info\<close> fails are left out; the rest is in the order of the response: directories first, then by name.\<close>

fun listInfo :: "string \<Rightarrow> dir_entry list \<Rightarrow> file_info list" where
  "listInfo p [] = []"
| "listInfo p (e # es) =
     (case de_Info e of
        Inl err \<Rightarrow> listInfo p es
      | Inr (sz, mode, modified, link) \<Rightarrow>
          \<lparr>fi_Name = de_Name e, fi_Path = path_Join [path_Clean p, de_Name e], fi_Size = sz, fi_Mode = mode,
           fi_IsDir = de_IsDir e, fi_Modified = modified, fi_Symlink = link\<rparr> # listInfo p es)"

definition listOrder :: "file_info \<Rightarrow> bool \<times> string" where
  "listOrder e = (\<not> fi_IsDir e, fi_Name e)"

definition handleFileList :: "('d, 'w) filesys \<Rightarrow> initd \<Rightarrow> string \<Rightarrow> 'd pstate \<times> 'w \<Rightarrow> i_body response \<times> 'd pstate \<times> 'w" where
  "handleFileList fy s p0 st =
     (let p = (if p0 = [] then in_workspace s else p0) in
      case openForRead fy s p (fst st) (snd st) of
        (Inl e, st1) \<Rightarrow> (fileError (fy_Text fy) e, st1, snd st)
      | (Inr f, st1) \<Rightarrow>
          ((case fy_IsDir fy (f_Fd f) (snd st) of
              Inl e \<Rightarrow> fileError (fy_Text fy) (OsErr e)
            | Inr dirp \<Rightarrow>
                if \<not> dirp then writeErr 400 ''not_a_directory'' ''use /v1/files to read a file''
                else (case fy_ReadDir fy (f_Fd f) (snd st) of
                   Inl e \<Rightarrow> fileError (fy_Text fy) (OsErr e)
                 | Inr ents \<Rightarrow> JSON 200 (IList (path_Clean p) (sort_key listOrder (listInfo p ents))))),
           closeFd f st1, snd st))"

section \<open>The innermost root\<close>

text \<open>What validation makes of the roots: rooted clean paths, none of them the root of the file system.\<close>

definition rootSegs :: "root \<Rightarrow> string list" where
  "rootSegs r = segs (rt_Path r)"

definition root_ok :: "root \<Rightarrow> bool" where
  "root_ok r \<longleftrightarrow> rt_Path r = abs_path (rootSegs r) \<and> plain_path (rootSegs r) \<and> rootSegs r \<noteq> []"

definition relOf :: "string list \<Rightarrow> string" where
  "relOf qs = (if qs = [] then ''.'' else join ''/'' qs)"

lemma root_okI: "plain_path rs \<Longrightarrow> rs \<noteq> [] \<Longrightarrow> root_ok \<lparr>rt_Path = abs_path rs, rt_ReadOnly = ro\<rparr>"
  by (simp add: root_ok_def rootSegs_def)

lemma root_ok_path: "root_ok r \<Longrightarrow> rt_Path r = abs_path (rootSegs r)"
  by (simp add: root_ok_def)

lemma root_ok_clean: "root_ok r \<Longrightarrow> path_Clean (rt_Path r) = rt_Path r"
  by (metis path_Clean_abs_path root_ok_def)

lemma split_relOf: "plain_path qs \<Longrightarrow> qs \<noteq> [] \<Longrightarrow> split_on slash (relOf qs) = qs"
  by (simp add: relOf_def split_abs_path plain_path_def plain_seg_def)

lemma plain_not_dot: "plain_path qs \<Longrightarrow> qs \<noteq> [''.'']"
  unfolding plain_path_def plain_seg_def by (metis list.set_intros(1))

lemma relOf_dot: "plain_path qs \<Longrightarrow> relOf qs = ''.'' \<longleftrightarrow> qs = []"
proof
  assume qs: "plain_path qs" and d: "relOf qs = ''.''"
  have dd: "split_on slash ''.'' = [''.'']" by simp
  show "qs = []"
  proof (rule ccontr)
    assume "qs \<noteq> []"
    then have "qs = [''.'']" using split_relOf [OF qs] unfolding d dd by simp
    then show False using plain_not_dot [OF qs] by contradiction
  qed
qed (simp add: relOf_def)

text \<open>One root matches a clean path when its elements are a prefix of the path's, and gives the rest.\<close>

lemma matchRoot_spec:
  assumes "root_ok r" and ss: "plain_path ss"
  shows "matchRoot (abs_path ss) r =
    (if prefix (rootSegs r) ss then Some (relOf (drop (length (rootSegs r)) ss)) else None)"
proof -
  let ?rs = "rootSegs r"
  have rs: "plain_path ?rs" "?rs \<noteq> []" "rt_Path r = abs_path ?rs" using assms by (auto simp: root_ok_def)
  note cl = root_ok_clean [OF assms(1)]
  consider (eq) "ss = ?rs" | (below) qs where "ss = ?rs @ qs" "qs \<noteq> []" | (out) "\<not> prefix ?rs ss"
    by (metis append_Nil2 prefix_def)
  then show ?thesis
  proof cases
    case eq
    then show ?thesis using rs cl by (simp add: matchRoot_def relOf_def)
  next
    case below
    then have "abs_path ss = (abs_path ?rs @ ''/'') @ join ''/'' qs"
      using rs by (simp add: abs_path_append) (simp add: abs_path_def)
    moreover have "abs_path ss \<noteq> abs_path ?rs" using below abs_path_inj [OF ss rs(1)] by simp
    ultimately show ?thesis using below rs cl by (simp add: matchRoot_def relOf_def trimPrefix_def hasPrefix_def)
  next
    case out
    then have "ss \<noteq> ?rs" "\<not> strict_prefix ?rs ss" by auto
    then show ?thesis using rs cl out abs_path_inj [OF ss rs(1)] prefix_abs_path [OF rs(1,2) ss] by (simp add: matchRoot_def)
  qed
qed

lemma abs_path_mono: "ys \<noteq> [] \<Longrightarrow> length (abs_path ys) \<le> length (abs_path (ys @ zs))"
  by (cases "zs = []") (simp_all add: abs_path_append)

lemma abs_path_mono_strict: "ys \<noteq> [] \<Longrightarrow> zs \<noteq> [] \<Longrightarrow> length (abs_path ys) < length (abs_path (ys @ zs))"
  by (simp add: abs_path_append) (simp add: abs_path_def)

text \<open>The choice among the roots of a path: the first of the longest ones that cover it.\<close>

definition rootCovers :: "string list \<Rightarrow> root \<Rightarrow> bool" where
  "rootCovers ss r \<longleftrightarrow> prefix (rootSegs r) ss"

definition below :: "string list \<Rightarrow> root \<Rightarrow> root \<times> string" where
  "below ss r = (r, relOf (drop (length (rootSegs r)) ss))"

fun longest :: "root list \<Rightarrow> root option" where
  "longest [] = None"
| "longest (r # rs) =
     (case longest rs of
        None \<Rightarrow> Some r
      | Some b \<Rightarrow> if length (rt_Path b) > length (rt_Path r) then Some b else Some r)"

lemma longest_None [simp]: "longest rs = None \<longleftrightarrow> rs = []"
  by (cases rs) (auto split: option.splits)

lemma longest_Some:
  "longest rs = Some b \<Longrightarrow> b \<in> set rs \<and> (\<forall>r \<in> set rs. length (rt_Path r) \<le> length (rt_Path b))"
  by (induction rs arbitrary: b) (fastforce split: option.splits if_splits)+

lemma pickRoot_longest:
  assumes "plain_path ss"
  shows "(\<forall>r \<in> set rs \<union> set_option best. root_ok r) \<Longrightarrow> (\<forall>b \<in> set_option best. rootCovers ss b) \<Longrightarrow>
    pickRoot (abs_path ss) rs (map_option (below ss) best)
      = map_option (below ss) (longest (filter (rootCovers ss) (case best of None \<Rightarrow> rs | Some b \<Rightarrow> b # rs)))"
proof (induction rs arbitrary: best)
  case Nil
  then show ?case by (cases best) auto
next
  case (Cons r rs)
  have r: "root_ok r" using Cons.prems by simp
  note m = matchRoot_spec [OF r assms, folded rootCovers_def] and cl = root_ok_clean
  show ?case
  proof (cases best)
    case None
    then show ?thesis using Cons.prems m Cons.IH [of best] Cons.IH [of "Some r"] by (auto simp: below_def)
  next
    case (Some b)
    have b: "root_ok b" "rootCovers ss b" using Cons.prems Some by auto
    show ?thesis
      using Some Cons.prems m b r Cons.IH [of best] Cons.IH [of "Some r"]
      by (auto simp: below_def cl split: option.splits)
  qed
qed

lemma resolveRoot_longest:
  assumes "\<forall>r \<in> set roots. root_ok r" "hasPrefix p ''/''"
  shows "resolveRoot roots p = map_option (below (segs (path_Clean p))) (longest (filter (rootCovers (segs (path_Clean p))) roots))"
proof -
  obtain ss where ss: "plain_path ss" "path_Clean p = abs_path ss"
    using assms(2) path_Clean_rooted clean_segs_plain by (metis hasPrefix_CharE)
  have "p \<noteq> []" using assms(2) by (auto simp: hasPrefix_def)
  then show ?thesis using ss assms pickRoot_longest [OF ss(1), of roots None] by (simp add: resolveRoot_def)
qed

lemma clean_abs: "hasPrefix p ''/'' \<Longrightarrow> plain_path (segs (path_Clean p)) \<and> path_Clean p = abs_path (segs (path_Clean p))"
  by (metis hasPrefix_CharE path_Clean_rooted clean_segs_plain segs_abs_path)

lemma resolveRoot_None: "\<not> hasPrefix p ''/'' \<Longrightarrow> resolveRoot roots p = None"
  by (simp add: resolveRoot_def)

text \<open>The path of a resolved request: the root's elements, and below them those of the relative path.\<close>

lemma resolveRootE:
  assumes "\<forall>r \<in> set roots. root_ok r" and "resolveRoot roots p = Some (root, rel)"
  obtains qs where "root \<in> set roots" "plain_path (rootSegs root @ qs)" "rootSegs root \<noteq> []" "rel = relOf qs"
    "path_Clean p = abs_path (rootSegs root @ qs)" "longest (filter (rootCovers (rootSegs root @ qs)) roots) = Some root"
proof -
  have p: "hasPrefix p ''/''" using assms(2) resolveRoot_None by fastforce
  define ss where "ss = segs (path_Clean p)"
  have ss: "plain_path ss" "path_Clean p = abs_path ss" using clean_abs [OF p] by (simp_all add: ss_def)
  have l: "longest (filter (rootCovers ss) roots) = Some root" and rel: "rel = relOf (drop (length (rootSegs root)) ss)"
    using assms resolveRoot_longest [OF assms(1) p] by (auto simp: below_def ss_def)
  then have r: "root \<in> set roots" "prefix (rootSegs root) ss" using longest_Some [OF l] by (auto simp: rootCovers_def)
  then obtain qs where "ss = rootSegs root @ qs" by (auto simp: prefix_def)
  then show thesis using that [of qs] r l rel ss assms(1) by (auto simp: root_ok_def)
qed

lemma longest_filter:
  "longest (filter Q xs) = Some b \<Longrightarrow> (\<And>x. P x \<Longrightarrow> Q x) \<Longrightarrow> P b \<Longrightarrow> longest (filter P xs) = Some b"
proof (induction xs)
  case (Cons x xs)
  show ?case
  proof (cases "longest (filter Q xs) = Some b")
    case True
    then have "longest (filter P xs) = Some b" using Cons by blast
    then show ?thesis using Cons.prems True by (auto split: if_splits)
  next
    case False
    then have b: "x = b" "Q x" using Cons.prems(1) by (auto split: if_splits option.splits)
    have "length (rt_Path c) \<le> length (rt_Path b)" if "longest (filter P xs) = Some c" for c
    proof -
      have "c \<in> set (filter Q xs)" using longest_Some [OF that] Cons.prems(2) by auto
      then obtain d where d: "longest (filter Q xs) = Some d" "length (rt_Path c) \<le> length (rt_Path d)"
        using longest_Some by (metis emptyE empty_set longest_None not_None_eq)
      then show ?thesis using b Cons.prems(1) by (auto split: if_splits)
    qed
    then show ?thesis using b Cons.prems(3) by (fastforce split: option.splits)
  qed
qed simp

text \<open>A path strictly between the root and a path resolved to it is resolved to it as well.\<close>

lemma resolveRoot_between:
  assumes ok: "\<forall>r \<in> set roots. root_ok r" and pl: "plain_path (rootSegs root @ qs @ zs)" and ne: "rootSegs root \<noteq> []"
    and l: "longest (filter (rootCovers (rootSegs root @ qs @ zs)) roots) = Some root"
  shows "resolveRoot roots (abs_path (rootSegs root @ qs)) = Some (root, relOf qs)"
proof -
  let ?p = "abs_path (rootSegs root @ qs)"
  have pl': "plain_path (rootSegs root @ qs)" using pl by simp
  have seg: "segs (path_Clean ?p) = rootSegs root @ qs"
    unfolding path_Clean_abs_path [OF pl'] by (rule segs_abs_path [OF pl'])
  have "longest (filter (rootCovers (rootSegs root @ qs)) roots) = Some root"
  proof (rule longest_filter [OF l])
    show "rootCovers (rootSegs root @ qs @ zs) x" if "rootCovers (rootSegs root @ qs) x" for x
      using that unfolding rootCovers_def by (metis append_assoc prefixI prefix_order.trans)
  qed (simp add: rootCovers_def)
  moreover have "hasPrefix ?p ''/''" by (simp add: abs_path_def hasPrefix_def)
  ultimately show ?thesis by (simp add: resolveRoot_longest [OF ok] seg below_def)
qed

lemma path_Dir_relOf:
  assumes qs: "plain_path qs" and ne: "qs \<noteq> []"
  shows "path_Dir (relOf qs) = relOf (butlast qs)"
proof (cases "butlast qs = []")
  case True
  then show ?thesis using split_relOf [OF qs ne] by (simp add: path_Dir_def relOf_def)
next
  case False
  let ?d = "butlast qs"
  have d: "plain_path ?d" using qs by (auto simp: plain_path_def dest: in_set_butlastD)
  have "split_on slash (join ''/'' ?d @ ''/'') = ?d @ [[]]"
    using d False by (simp add: split_on_append_sep split_abs_path plain_path_def plain_seg_def)
  moreover have "clean_segs False (?d @ [[]]) = ?d"
    using d by (simp add: clean_segs_def foldl_plain plain_path_def clean_step_def)
  moreover have "\<not> hasPrefix (join ''/'' ?d @ ''/'') ''/''"
    using d False by (cases ?d; cases "tl ?d"; cases "hd ?d") (auto simp: plain_path_def plain_seg_def hasPrefix_def)
  ultimately show ?thesis using False split_relOf [OF qs ne] by (simp add: path_Dir_def relOf_def path_Clean_def Let_def)
qed

section \<open>What a request may change\<close>

text \<open>A path of a writable root, the root itself not counted; a descriptor of a descendant of a root.\<close>

definition writable :: "root list \<Rightarrow> string \<Rightarrow> bool" where
  "writable roots q \<longleftrightarrow> (\<exists>root rel. resolveRoot roots q = Some (root, rel) \<and> \<not> rt_ReadOnly root \<and> rel \<noteq> ''.'')"

definition inside :: "('d, 'w) filesys \<Rightarrow> ('d \<Rightarrow> 'd \<Rightarrow> bool) \<Rightarrow> root \<Rightarrow> 'd \<Rightarrow> bool" where
  "inside fy child root fd \<longleftrightarrow> (\<exists>w d. sys_Open (fy_Sys fy w) (rt_Path root) rootFlags = Inr d \<and> child\<^sup>*\<^sup>* d fd)"

text \<open>A property of the world that survives every change below a writable root.\<close>

definition survives :: "('d, 'w) filesys \<Rightarrow> ('d \<Rightarrow> 'd \<Rightarrow> bool) \<Rightarrow> root list \<Rightarrow> ('w \<Rightarrow> bool) \<Rightarrow> bool" where
  "survives fy child roots I \<longleftrightarrow>
     (\<forall>q w. writable roots q \<and> I w \<longrightarrow> I (snd (fy_Mkdir fy q w)) \<and> I (snd (fy_Remove fy q w)) \<and> I (snd (fy_RemoveAll fy q w)))
     \<and> (\<forall>root f body w. root \<in> set roots \<and> \<not> rt_ReadOnly root \<and> inside fy child root (f_Fd f) \<and> I w \<longrightarrow>
           I (fy_Touch fy f w) \<and> I (snd (fy_Write fy (f_Fd f) body w)))"

definition kernel_ok :: "('d, 'w) filesys \<Rightarrow> ('d \<Rightarrow> 'd \<Rightarrow> bool) \<Rightarrow> bool" where
  "kernel_ok fy child \<longleftrightarrow> (\<forall>w. nofollow_law child (fy_Sys fy w) \<and> beneath_law child (fy_Sys fy w))"

text \<open>The state after a handler: the property still holds, and the descriptors are those of before.\<close>

definition settled :: "('w \<Rightarrow> bool) \<Rightarrow> 'd pstate \<Rightarrow> 'd pstate \<times> 'w \<Rightarrow> bool" where
  "settled I st0 st \<longleftrightarrow> I (snd st) \<and> mset (openFds (fst st)) = mset (openFds st0)"

lemma settled_trans: "settled I a b \<Longrightarrow> settled I (fst b) c \<Longrightarrow> settled I a c"
  by (simp add: settled_def)

lemma open_fds:
  assumes "OpenBeneath os root rel fl perm st = (r, st1)"
  shows "(\<forall>e. r = Inl e \<longrightarrow> mset (openFds st1) = mset (openFds st))
    \<and> (\<forall>f. r = Inr f \<longrightarrow> mset (openFds (closeFd f st1)) = mset (openFds st))"
  using OpenBeneath_leak_free [OF assms] by (auto simp: leak_free_def closeFd_def)

lemma open_inside:
  assumes "kernel_ok fy child" "OpenBeneath (fy_Sys fy w) (rt_Path root) rel fl perm st = (Inr f, st1)"
  shows "inside fy child root (f_Fd f)"
proof -
  have "nofollow_law child (fy_Sys fy w)" "beneath_law child (fy_Sys fy w)" using assms(1) by (auto simp: kernel_ok_def)
  from OpenBeneath_inside [OF this assms(2)] show ?thesis by (auto simp: inside_def)
qed

lemma openForRead_fds:
  "openForRead fy s p st w = (r, st1) \<Longrightarrow>
     mset (openFds (case r of Inl e \<Rightarrow> st1 | Inr f \<Rightarrow> closeFd f st1)) = mset (openFds st)"
  unfolding openForRead_def by (auto split: option.splits prod.splits sum.splits dest!: open_fds)

lemma reads_settle:
  "snd (snd (handleFileGet fy s p st)) = snd st" "snd (snd (handleFileList fy s p st)) = snd st"
  "mset (openFds (fst (snd (handleFileGet fy s p st)))) = mset (openFds (fst st))"
  "mset (openFds (fst (snd (handleFileList fy s p st)))) = mset (openFds (fst st))"
  unfolding handleFileGet_def handleFileList_def Let_def
  by (auto split: prod.splits sum.splits simp del: sort_key_simps dest!: openForRead_fds)

lemma join_empty: "plain_path pre \<Longrightarrow> join ''/'' pre = [] \<longleftrightarrow> pre = []"
  using relOf_def split_relOf [of pre] by (cases "pre = []") (auto simp: plain_path_def plain_seg_def)

lemma join_snoc:
  "plain_path (pre @ [seg]) \<Longrightarrow>
     (if join ''/'' pre = [] then seg else join ''/'' pre @ ''/'' @ seg) = join ''/'' (pre @ [seg])"
  using join_empty [of pre] by (cases "pre = []") (simp_all add: join_append)

lemma mkdirs_settle:
  assumes "\<And>q w. q \<in> Q \<Longrightarrow> I w \<Longrightarrow> I (snd (fy_Mkdir fy q w))"
  shows "plain_path (rs @ pre @ ss) \<Longrightarrow>
    (\<And>n. n < length ss \<Longrightarrow> abs_path (rs @ pre @ take (Suc n) ss) \<in> Q) \<Longrightarrow> I (snd st) \<Longrightarrow>
    settled I (fst st) (snd (mkdirs fy (abs_path rs) (join ''/'' pre) ss st))"
proof (induction ss arbitrary: pre st)
  case Nil
  then show ?case by (simp add: settled_def)
next
  case (Cons seg ss)
  define c where "c = join ''/'' (pre @ [seg])"
  have seg: "seg \<noteq> []" "plain_path rs" "plain_path (pre @ [seg])"
    using Cons.prems(1) by (auto simp: plain_path_def plain_seg_def)
  have c: "(if join ''/'' pre = [] then seg else join ''/'' pre @ ''/'' @ seg) = c"
    unfolding c_def using join_snoc seg(3) by simp
  have j: "path_Join [abs_path rs, c] = abs_path (rs @ pre @ [seg])"
    unfolding c_def using path_Join_plain [OF seg(2,3)] by simp
  have q: "abs_path (rs @ pre @ [seg]) \<in> Q" using Cons.prems(2) [of 0] by simp
  have IH: "settled I (fst st') (snd (mkdirs fy (abs_path rs) c ss st'))" if "I (snd st')" for st'
    unfolding c_def using Cons.IH [of "pre @ [seg]" st'] Cons.prems(1) Cons.prems(2) [of "Suc n" for n] that by simp
  obtain r st1 where o: "OpenBeneath (fy_Sys fy (snd st)) (abs_path rs) c {O_RDONLY} 0 (fst st) = (r, st1)" by force
  obtain m w1 where m: "fy_Mkdir fy (abs_path (rs @ pre @ [seg])) (snd st) = (m, w1)" by force
  have w1: "I w1" using assms [OF q Cons.prems(3)] m by simp
  show ?case
  proof (cases r)
    case (Inr f)
    then have "settled I (fst st) (closeFd f st1, snd st)" using open_fds [OF o] Cons.prems(3) by (simp add: settled_def)
    then show ?thesis using IH [of "(closeFd f st1, snd st)"] Cons.prems(3) o Inr seg(1) c
      by (auto simp: Let_def intro: settled_trans)
  next
    case (Inl e)
    then have f: "mset (openFds st1) = mset (openFds (fst st))" using open_fds [OF o] by simp
    then have "settled I (fst st) (snd (mkdirs fy (abs_path rs) c ss (st1, w1)))"
      using IH [of "(st1, w1)"] w1 by (simp add: settled_def)
    then show ?thesis using f o Inl seg(1) c j m w1 Cons.prems(3) by (auto simp: Let_def settled_def)
  qed
qed

lemma survivesD:
  assumes "survives fy child roots I" "I w"
  shows "writable roots q \<Longrightarrow> I (snd (fy_Mkdir fy q w))"
    and "writable roots q \<Longrightarrow> I (snd ((if b then fy_RemoveAll fy else fy_Remove fy) q w))"
    and "root \<in> set roots \<Longrightarrow> \<not> rt_ReadOnly root \<Longrightarrow> inside fy child root (f_Fd f) \<Longrightarrow> I (fy_Touch fy f w)"
    and "root \<in> set roots \<Longrightarrow> \<not> rt_ReadOnly root \<Longrightarrow> inside fy child root (f_Fd f) \<Longrightarrow> I (snd (fy_Write fy (f_Fd f) body w))"
  using assms unfolding survives_def by (auto split: if_splits)

lemma writeFile_settle:
  assumes sv: "survives fy child (in_roots s) I" and k: "kernel_ok fy child"
    and root: "root \<in> set (in_roots s)" "\<not> rt_ReadOnly root" and w: "I (snd st)"
  shows "settled I (fst st) (snd (writeFile fy root rel p body st))"
proof -
  obtain r st1 where o: "OpenBeneath (fy_Sys fy (snd st)) (rt_Path root) rel {O_WRONLY, O_CREAT, O_TRUNC} 420 (fst st) = (r, st1)" by force
  show ?thesis
  proof (cases r)
    case (Inl e)
    then show ?thesis using o w open_fds [OF o] by (simp add: writeFile_def settled_def)
  next
    case (Inr f)
    note ins = open_inside [OF k o [unfolded Inr]]
    define w1 where "w1 = fy_Touch fy f (snd st)"
    have "I w1" unfolding w1_def by (rule survivesD(3) [OF sv w root ins])
    then have "I (snd (fy_Write fy (f_Fd f) b w1))" for b by (rule survivesD(4) [OF sv _ root ins])
    then have "I (snd (copyBody fy (f_Fd f) body w1))" unfolding copyBody_def by (auto split: prod.splits option.splits) (metis snd_conv)+
    then show ?thesis using o Inr open_fds [OF o]
      by (auto simp: writeFile_def settled_def w1_def split: prod.splits sum.splits)
  qed
qed

lemma put_settles:
  assumes ok: "\<forall>r \<in> set (in_roots s). root_ok r" and sv: "survives fy child (in_roots s) I"
    and k: "kernel_ok fy child" and w: "I (snd st)"
  shows "settled I (fst st) (snd (handleFilePut fy s p body st))"
proof (cases "\<exists>root rel. resolveRoot (in_roots s) p = Some (root, rel) \<and> \<not> rt_ReadOnly root \<and> rel \<noteq> ''.''")
  case False
  then show ?thesis using w by (auto simp: handleFilePut_def settled_def split: option.splits)
next
  case True
  then obtain root rel where r: "resolveRoot (in_roots s) p = Some (root, rel)" "\<not> rt_ReadOnly root" "rel \<noteq> ''.''" by blast
  from resolveRootE [OF ok r(1)] obtain qs where
    qs: "root \<in> set (in_roots s)" "plain_path (rootSegs root @ qs)" "rootSegs root \<noteq> []" "rel = relOf qs"
      "longest (filter (rootCovers (rootSegs root @ qs)) (in_roots s)) = Some root" by blast
  have q: "plain_path qs" "qs \<noteq> []" using qs(2) r(3) qs(4) relOf_dot by auto
  note dir = path_Dir_relOf [OF q, folded qs(4)]
  have rp: "rt_Path root = abs_path (rootSegs root)" using ok qs(1) root_ok_path by blast
  have d: "butlast qs \<noteq> []" if "path_Dir rel \<noteq> ''.''" using that dir by (auto simp: relOf_def)
  have pl: "plain_path (rootSegs root @ [] @ butlast qs)" using qs(2) by (auto simp: plain_path_def dest: in_set_butlastD)
  have wr: "abs_path (rootSegs root @ [] @ take (Suc n) (butlast qs)) \<in> {q. writable (in_roots s) q}" if "n < length (butlast qs)" for n
  proof -
    let ?t = "take (Suc n) (butlast qs)"
    have t: "qs = ?t @ drop (Suc n) qs" "?t \<noteq> []" using that by (auto simp: take_butlast)
    have "plain_path ?t" using q(1) t(1) plain_path_append by metis
    then have "relOf ?t \<noteq> ''.''" using t(2) relOf_dot by blast
    moreover have "resolveRoot (in_roots s) (abs_path (rootSegs root @ ?t)) = Some (root, relOf ?t)"
      using resolveRoot_between [OF ok _ qs(3), of ?t "drop (Suc n) qs"] qs(2,5) t(1) by simp
    ultimately show ?thesis using r(2) by (auto simp: writable_def)
  qed
  define md where "md = (if path_Dir rel \<noteq> ''.'' then mkdirAllBeneath fy (rt_Path root) (path_Dir rel) st else (None, st))"
  have md: "settled I (fst st) (snd md)"
  proof (cases "path_Dir rel = ''.''")
    case True
    then show ?thesis using w by (simp add: md_def settled_def)
  next
    case False
    then have "split_on slash (path_Dir rel) = butlast qs" using dir split_relOf [OF _ d] pl by simp
    then show ?thesis
      using False mkdirs_settle [of "{q. writable (in_roots s) q}" I fy, OF _ pl wr w] survivesD(1) [OF sv] rp
      by (simp add: md_def mkdirAllBeneath_def)
  qed
  have "settled I (fst (snd md)) (snd (writeFile fy root rel p body (snd md)))"
    by (rule writeFile_settle [OF sv k qs(1) r(2)]) (use md in \<open>simp add: settled_def\<close>)
  then have "settled I (fst st) (snd (writeFile fy root rel p body (snd md)))" by (rule settled_trans [OF md])
  moreover obtain e st1 where "md = (e, st1)" by (rule prod.exhaust)
  ultimately show ?thesis using r md by (cases e) (simp_all add: handleFilePut_def md_def [symmetric])
qed

lemma delete_settles:
  assumes ok: "\<forall>r \<in> set (in_roots s). root_ok r" and sv: "survives fy child (in_roots s) I" and w: "I (snd st)"
  shows "settled I (fst st) (snd (handleFileDelete fy s p b st))"
proof (cases "\<exists>root rel. resolveRoot (in_roots s) p = Some (root, rel) \<and> \<not> rt_ReadOnly root \<and> rel \<noteq> ''.''")
  case False
  then show ?thesis using w by (auto simp: handleFileDelete_def settled_def split: option.splits)
next
  case True
  then obtain root rel where r: "resolveRoot (in_roots s) p = Some (root, rel)" "\<not> rt_ReadOnly root" "rel \<noteq> ''.''" by blast
  from resolveRootE [OF ok r(1)] obtain qs where
    qs: "root \<in> set (in_roots s)" "plain_path (rootSegs root @ qs)" "rootSegs root \<noteq> []" "rel = relOf qs"
      "longest (filter (rootCovers (rootSegs root @ qs)) (in_roots s)) = Some root" by blast
  have q: "plain_path qs" "qs \<noteq> []" using qs(2) r(3) qs(4) relOf_dot by auto
  have rp: "rt_Path root = abs_path (rootSegs root)" using ok qs(1) root_ok_path by blast
  have "path_Join [rt_Path root, rel] = abs_path (rootSegs root @ qs)"
    using path_Join_plain [of "rootSegs root" qs] q qs rp by (simp add: relOf_def)
  moreover have "resolveRoot (in_roots s) (abs_path (rootSegs root @ qs)) = Some (root, rel)"
    using resolveRoot_between [OF ok _ qs(3), of qs "[]"] qs by simp
  ultimately have wr: "writable (in_roots s) (path_Join [rt_Path root, rel])" using r by (auto simp: writable_def)
  obtain x st1 where o: "OpenBeneath (fy_Sys fy (snd st)) (rt_Path root) rel {O_RDONLY} 0 (fst st) = (x, st1)" by force
  obtain y w1 where y: "(if b then fy_RemoveAll fy else fy_Remove fy) (path_Join [rt_Path root, rel]) (snd st) = (y, w1)" by force
  have "I w1" using survivesD(2) [OF sv w wr, of b] y by simp
  then show ?thesis using r o y w open_fds [OF o]
    by (cases b; cases x; cases y) (simp_all add: handleFileDelete_def settled_def)
qed

section \<open>Configuration\<close>

text \<open>The roots execd hands over are those of the validated spec, so they are in order.\<close>

lemma free_target_root: "free_target l t \<Longrightarrow> root_ok \<lparr>rt_Path = t, rt_ReadOnly = ro\<rparr>"
  unfolding free_target_def isAbsClean_iff by (auto simp: root_okI)

lemma validated_roots:
  assumes "platform_ok p l" and "Validate p (br_Filesystem req) l = None"
  shows "\<forall>r \<in> set (cq_Roots (configRequest req)). root_ok r"
proof -
  have "fs_safe p (br_Filesystem req) l" using assms Validate_None_iff by blast
  then have "free_target l (workspacePath (br_Filesystem req))" "\<forall>m \<in> set (fs_Mounts (br_Filesystem req)). free_target l (m_Path m)"
    by (auto simp: fs_safe_def safe_mount_def)
  then show ?thesis by (auto simp: configRequest_def Let_def workspacePath_def free_target_root)
qed

lemma configured_roots:
  "in_roots (snd (handleConfigure (Inr (configRequest req)) (initd_New ws))) = cq_Roots (configRequest req)"
  by (simp add: handleConfigure_def initd_New_def configRequest_def Let_def)

text \<open>The environment of a sandbox is what was sent with the secrets over it, and it is set once: the second request
  is refused and changes nothing.\<close>

lemma configure_once:
  assumes "handleConfigure (Inr req) s = (JSON 200 IOk, s1)"
  shows "in_env s1 = orEmpty (cq_Env req) ++ orEmpty (cq_Secrets req)" and "in_sandboxID s1 = cq_SandboxID req"
    and "snd (handleConfigure dec s1) = s1" and "fst (handleConfigure dec s1) \<noteq> JSON 200 IOk"
  using assms by (auto simp: handleConfigure_def Let_def writeErr_def split: if_splits sum.splits)

text \<open>A socket is handed out only when its path fits the kernel and its mode was narrowed to the owner.\<close>

lemma Listen_ok:
  assumes "Listen ls p w = (Inr l, w3)"
  shows "length p < maxUnixPath \<and> (\<exists>w2. ls_Chmod ls p 384 w2 = (None, w3))"
  using assms by (auto simp: Listen_def split: if_splits prod.splits option.splits sum.splits)

text \<open>A drop that reports success has verified both user ids, after all three calls succeeded, groups first.\<close>

lemma DropPrivileges_ok:
  assumes "DropPrivileges cs uid gid k = (None, k3)"
  shows "cr_Geteuid cs k3 = uid \<and> cr_Getuid cs k3 = uid
    \<and> (\<exists>k1 k2. cr_Setgroups cs [gid] k = (None, k1) \<and> cr_Setgid cs gid k1 = (None, k2) \<and> cr_Setuid cs uid k2 = (None, k3))"
  using assms by (auto simp: DropPrivileges_def split: prod.splits option.splits if_splits)

section \<open>Properties\<close>

text \<open>C32: the innermost root decides. For roots as validation leaves them, a request path is refused exactly when it is not
  rooted or no root covers it, element by element; otherwise it is served below a configured root, the relative path
  handed to the opening code is the root itself or a sequence of plain elements that leads from the root to the cleaned
  request path, and every other root that covers the path is an ancestor of the chosen one, so that a read-only mount below
  the workspace is never overruled by the writable workspace.\<close>

theorem resolveRoot_innermost:
  assumes "\<forall>r \<in> set roots. root_ok r"
  shows "(resolveRoot roots p = None
        \<longleftrightarrow> \<not> hasPrefix p ''/'' \<or> (\<forall>r \<in> set roots. \<not> prefix (rootSegs r) (segs (path_Clean p))))
    \<and> (\<forall>root rel. resolveRoot roots p = Some (root, rel) \<longrightarrow>
         root \<in> set roots \<and> path_Join [rt_Path root, rel] = path_Clean p
         \<and> (rel = ''.'' \<or> plain_path (split_on slash rel))
         \<and> (\<forall>r \<in> set roots. prefix (rootSegs r) (segs (path_Clean p)) \<longrightarrow> prefix (rootSegs r) (rootSegs root)))"
proof (intro conjI allI ballI impI)
  show "resolveRoot roots p = None \<longleftrightarrow> \<not> hasPrefix p ''/'' \<or> (\<forall>r \<in> set roots. \<not> prefix (rootSegs r) (segs (path_Clean p)))"
    using resolveRoot_None resolveRoot_longest [OF assms, of p]
    by (cases "hasPrefix p ''/''") (auto simp: filter_empty_conv rootCovers_def)
next
  fix root rel
  assume r: "resolveRoot roots p = Some (root, rel)"
  from resolveRootE [OF assms r] obtain qs where
    qs: "root \<in> set roots" "plain_path (rootSegs root @ qs)" "rootSegs root \<noteq> []" "rel = relOf qs"
      "path_Clean p = abs_path (rootSegs root @ qs)" "longest (filter (rootCovers (rootSegs root @ qs)) roots) = Some root" by blast
  have rp: "rt_Path root = abs_path (rootSegs root)" using assms qs(1) root_ok_path by blast
  show "root \<in> set roots" by fact
  show "path_Join [rt_Path root, rel] = path_Clean p"
    using qs rp path_Join_plain [of "rootSegs root" qs] path_Join_dot [of "rootSegs root"] by (cases "qs = []") (simp_all add: relOf_def)
  show "rel = ''.'' \<or> plain_path (split_on slash rel)"
    using qs(2,4) split_relOf [of qs] by (cases "qs = []") (simp_all add: relOf_def)
  fix x
  assume x: "x \<in> set roots" "prefix (rootSegs x) (segs (path_Clean p))"
  then have c: "prefix (rootSegs x) (rootSegs root @ qs)" using qs(2,5) by simp
  then have "length (rt_Path x) \<le> length (rt_Path root)" using x(1) longest_Some [OF qs(6)] by (simp add: rootCovers_def)
  moreover have "rt_Path x = abs_path (rootSegs x)" using assms x(1) root_ok_path by blast
  ultimately have l: "length (abs_path (rootSegs x)) \<le> length (abs_path (rootSegs root))" using rp by simp
  show "prefix (rootSegs x) (rootSegs root)"
  proof (rule ccontr)
    assume "\<not> prefix (rootSegs x) (rootSegs root)"
    then obtain zs where "rootSegs x = rootSegs root @ zs" "zs \<noteq> []" using c by (auto simp: prefix_append)
    then show False using l abs_path_mono_strict [OF qs(3), of zs] by simp
  qed
qed

text \<open>The file API changes nothing outside the writable roots. Take a bind request that validation accepted, the
  configuration execd makes of it, and any property of the world that survives directories being made and files being
  removed strictly below a writable root (the innermost one of the path) and a file below a writable root being opened
  for writing and written. Given the kernel's promises of the opening code, that property survives every upload and every
  deletion, with any path and any body, on every error path too; reading and listing change nothing; and all four leave
  exactly the descriptors open that were open before.\<close>

lemma file_api_confined:
  assumes "platform_ok p l" and "Validate p (br_Filesystem req) l = None" and "kernel_ok fy child"
    and "survives fy child (cq_Roots (configRequest req)) I" and "I w"
  shows "let s = snd (handleConfigure (Inr (configRequest req)) (initd_New ws)) in
    settled I st (snd (handleFilePut fy s q body (st, w))) \<and> settled I st (snd (handleFileDelete fy s q recursive (st, w)))
    \<and> settled ((=) w) st (snd (handleFileGet fy s q (st, w))) \<and> settled ((=) w) st (snd (handleFileList fy s q (st, w)))"
proof -
  let ?s = "snd (handleConfigure (Inr (configRequest req)) (initd_New ws))"
  have ok: "\<forall>r \<in> set (in_roots ?s). root_ok r" unfolding configured_roots by (rule validated_roots [OF assms(1,2)])
  have sv: "survives fy child (in_roots ?s) I" unfolding configured_roots by (rule assms(4))
  show ?thesis
    unfolding Let_def
    using put_settles [OF ok sv assms(3), of "(st, w)" q body] delete_settles [OF ok sv, of "(st, w)" q recursive] assms(5)
      reads_settle [of fy ?s q "(st, w)"]
    by (simp add: settled_def)
qed

section \<open>A worked file system\<close>

text \<open>Descriptors are paths, and the world is the list of the paths that were changed.\<close>

definition demoFy :: "(string list, string list) filesys" where
  "demoFy = \<lparr>fy_Sys = (\<lambda>w. demoSys), fy_Touch = (\<lambda>f w. abs_path (f_Fd f) # w), fy_IsDir = (\<lambda>d w. Inr False), fy_Read = (\<lambda>d w. []),
     fy_Write = (\<lambda>d b w. (None, abs_path d # w)), fy_Mkdir = (\<lambda>q w. (None, path_Clean q # w)),
     fy_Remove = (\<lambda>q w. (None, path_Clean q # w)), fy_RemoveAll = (\<lambda>q w. (None, path_Clean q # w)),
     fy_ReadDir = (\<lambda>d w. Inr []), fy_Text = (\<lambda>e. [])\<rparr>"

definition demoFileBind :: bind_request where
  "demoFileBind = demoBind\<lparr>br_Filesystem := demoSpec demoMounts\<rparr>"

definition demoRoots :: "root list" where
  "demoRoots = cq_Roots (configRequest demoFileBind)"

definition underRoot :: "string list \<Rightarrow> bool" where
  "underRoot w \<longleftrightarrow> (\<forall>q \<in> set w. \<exists>ss. q = abs_path ss \<and> (\<exists>r \<in> set demoRoots. prefix (rootSegs r) ss))"

lemma demoFileBind_valid: "Validate demoPolicy (br_Filesystem demoFileBind) DefaultLayout = None"
  using demo_valid by (simp add: demoFileBind_def)

lemma demoRoots_ok: "\<forall>r \<in> set demoRoots. root_ok r"
  unfolding demoRoots_def by (rule validated_roots [OF demo_platform_ok demoFileBind_valid])

definition demoChild :: "string list \<Rightarrow> string list \<Rightarrow> bool" where
  "demoChild d c \<longleftrightarrow> (\<exists>s. c = d @ [s])"

lemma demoChild_prefix: "demoChild\<^sup>*\<^sup>* d c \<Longrightarrow> prefix d c"
  by (induction rule: rtranclp_induct) (auto simp: demoChild_def)

lemma demoFy_kernel: "kernel_ok demoFy demoChild"
  by (auto simp: kernel_ok_def nofollow_law_def beneath_law_def demoFy_def demoSys_def demoChild_def split: if_splits)

lemma demoFy_survives: "survives demoFy demoChild demoRoots underRoot"
proof -
  have "underRoot (path_Clean q # w)" if wr: "writable demoRoots q" and w: "underRoot w" for q w
  proof -
    from wr obtain root rel where "resolveRoot demoRoots q = Some (root, rel)" by (auto simp: writable_def)
    from resolveRootE [OF demoRoots_ok this] show ?thesis using w by (metis underRoot_def prefixI set_ConsD)
  qed
  moreover have "underRoot (abs_path d # w)" if "root \<in> set demoRoots" "inside demoFy demoChild root d" "underRoot w" for root d w
    using that demoChild_prefix [of "rootSegs root" d]
    by (auto simp: inside_def demoFy_def demoSys_def underRoot_def rootSegs_def)
  ultimately show ?thesis by (auto simp: survives_def demoFy_def)
qed

text \<open>The deepest of three nested roots is the one that counts.\<close>

definition nestedRoots :: "root list" where
  "nestedRoots = [\<lparr>rt_Path = ''/work'', rt_ReadOnly = False\<rparr>, \<lparr>rt_Path = ''/work/data'', rt_ReadOnly = True\<rparr>]"

theorem resolveRoot_innermost_witness:
  "resolveRoot nestedRoots ''/work/x/../data/y'' = Some (\<lparr>rt_Path = ''/work/data'', rt_ReadOnly = True\<rparr>, ''y'')
   \<and> path_Join [''/work/data'', ''y''] = path_Clean ''/work/x/../data/y''"
proof -
  have r: "resolveRoot nestedRoots ''/work/x/../data/y'' = Some (\<lparr>rt_Path = ''/work/data'', rt_ReadOnly = True\<rparr>, ''y'')"
    by code_simp
  have ok: "\<forall>r \<in> set nestedRoots. root_ok r"
    using root_okI [of "[''work'']" False] root_okI [of "[''work'', ''data'']" True]
    by (simp add: nestedRoots_def abs_path_def plain_path_def plain_seg_def)
  from resolveRoot_innermost [OF ok, of "''/work/x/../data/y''"] r show ?thesis by (metis root.select_convs(1))
qed

end
