(* ===== verification/Initd_Exec.thy ===== *)
theory Initd_Exec
  imports Initd_Files
begin

text \<open>
  Running commands in the sandbox: the table of processes the API started (\<open>pkg/initd/proc.go\<close>) and the synchronous exec
  with its deadline and the signals (\<open>pkg/initd/exec.go\<close>). The table is an association list by process number. Spawning and
  killing are the kernel's: their answers are arguments, and every \<open>kill\<close> is recorded. The handler of a command and the
  goroutine that enforces its deadline run side by side; the steps of both, in any order, are the events of a machine.
\<close>

section \<open>The process table\<close>

record proc_entry =
  pe_label :: string
  pe_started :: int
  pe_done :: bool

type_synonym proc_table = "(int \<times> proc_entry) list"

definition newProcTable :: proc_table where "newProcTable = []"

definition addPID :: "int \<Rightarrow> string \<Rightarrow> int \<Rightarrow> proc_table \<Rightarrow> proc_table" where
  "addPID pid label now t = AList.update pid \<lparr>pe_label = label, pe_started = now, pe_done = False\<rparr> t"

definition proc_finish :: "int \<Rightarrow> proc_table \<Rightarrow> proc_table" where
  "proc_finish pid t = (case map_of t pid of None \<Rightarrow> t | Some e \<Rightarrow> AList.update pid (e\<lparr>pe_done := True\<rparr>) t)"

definition proc_forget :: "int \<Rightarrow> proc_table \<Rightarrow> proc_table" where
  "proc_forget pid t = AList.delete pid t"

text \<open>\<open>status\<close>: nothing for a process that is not in the table, else whether it has exited.\<close>

definition proc_status :: "int \<Rightarrow> proc_table \<Rightarrow> bool option" where
  "proc_status pid t = map_option pe_done (map_of t pid)"

text \<open>\<open>process\<close>: whether the table has the handle; every entry is made with its command.\<close>

definition proc_process :: "int \<Rightarrow> proc_table \<Rightarrow> bool" where
  "proc_process pid t = (map_of t pid \<noteq> None)"

definition proc_count :: "proc_table \<Rightarrow> nat" where "proc_count t = length t"

record process =
  p_PID :: int
  p_Cmd :: string
  p_Started :: int
  p_Running :: bool

definition proc_list :: "proc_table \<Rightarrow> process list" where
  "proc_list t = map (\<lambda>(pid, e). \<lparr>p_PID = pid, p_Cmd = pe_label e, p_Started = pe_started e, p_Running = \<not> pe_done e\<rparr>) t"

section \<open>Commands\<close>

record exec_request =
  xr_Cmd :: string
  xr_Argv :: "string list"
  xr_Cwd :: string
  xr_Env :: "string \<rightharpoonup> string"
  xr_TimeoutSeconds :: int
  xr_MaxOutputBytes :: int

record command =
  cm_Path :: string
  cm_Args :: "string list"
  cm_Dir :: string
  cm_Env :: "string \<rightharpoonup> string"
  cm_Setpgid :: bool

definition buildCmd :: "initd \<Rightarrow> exec_request \<Rightarrow> (string, command \<times> string) result" where
  "buildCmd s req =
     (let mk = \<lambda>p args. \<lparr>cm_Path = p, cm_Args = args, cm_Dir = (if xr_Cwd req \<noteq> [] then xr_Cwd req else in_workspace s),
                         cm_Env = in_env s ++ xr_Env req, cm_Setpgid = True\<rparr>
      in case xr_Argv req of
           a # as \<Rightarrow> Inr (mk a as, a)
         | [] \<Rightarrow> if xr_Cmd req \<noteq> [] then Inr (mk ''/bin/sh'' [''-c'', xr_Cmd req], xr_Cmd req)
                else Inl ''either cmd or argv is required'')"

definition defaultTimeout :: int where "defaultTimeout = 120 * second"
definition maxTimeout :: int where "maxTimeout = 21600 * second"
definition defaultMaxOutput :: int where "defaultMaxOutput = 4194304"

definition timeoutOf :: "exec_request \<Rightarrow> int" where
  "timeoutOf req =
     (if xr_TimeoutSeconds req \<le> 0 then defaultTimeout
      else (let d = wrap64 (xr_TimeoutSeconds req * second) in if d > maxTimeout then maxTimeout else d))"

record cap_writer =
  cw_buf :: string
  cw_limit :: int
  cw_over :: bool

definition cap_Write :: "string \<Rightarrow> cap_writer \<Rightarrow> cap_writer" where
  "cap_Write p c =
     (let room = cw_limit c - int (length (cw_buf c)) in
      if room > 0 then
        (if int (length p) \<le> room then c\<lparr>cw_buf := cw_buf c @ p\<rparr>
         else c\<lparr>cw_buf := cw_buf c @ take (nat room) p, cw_over := True\<rparr>)
      else if p \<noteq> [] then c\<lparr>cw_over := True\<rparr> else c)"

text \<open>\<open>io.Copy\<close> into the writer: the chunks the pipe yields, in order.\<close>

definition capture :: "int \<Rightarrow> string list \<Rightarrow> cap_writer" where
  "capture limit chunks = fold cap_Write chunks \<lparr>cw_buf = [], cw_limit = limit, cw_over = False\<rparr>"

section \<open>Signals\<close>

datatype signal = SIGHUP | SIGINT | SIGQUIT | SIGKILL | SIGTERM

definition signalByName :: "string \<Rightarrow> signal" where
  "signalByName name =
     (if name \<in> {''SIGINT'', ''INT'', ''2''} then SIGINT
      else if name \<in> {''SIGQUIT'', ''QUIT'', ''3''} then SIGQUIT
      else if name \<in> {''SIGKILL'', ''KILL'', ''9''} then SIGKILL
      else if name \<in> {''SIGHUP'', ''HUP'', ''1''} then SIGHUP
      else SIGTERM)"

text \<open>Signal the group, and the process alone when that fails; what was asked of the kernel, in order.\<close>

definition killGroup :: "bool \<Rightarrow> int \<Rightarrow> signal \<Rightarrow> (int \<times> signal) list" where
  "killGroup grp pid sig = (if grp then [(- pid, sig)] else [(- pid, sig), (pid, sig)])"

section \<open>The machine\<close>

text \<open>
  A session is one command: where its handler is, whether its context is done, and where the goroutine that enforces the
  deadline is. \<open>grp\<close> in an event is the kernel's answer to signalling the group.
\<close>

datatype at = Waiting | Drained | Returned'
datatype watch = Armed | Grace | Over

record session =
  se_pid :: int
  se_limit :: int
  se_at :: at
  se_ctx :: bool
  se_watch :: watch

record xstate =
  x_procs :: proc_table
  x_sessions :: "session list"
  x_kills :: "(int \<times> signal) list"
  x_started :: "int list"

definition x_init :: xstate where
  "x_init = \<lparr>x_procs = newProcTable, x_sessions = [], x_kills = [], x_started = []\<rparr>"

record exec_result =
  er_ExitCode :: int
  er_Stdout :: string
  er_Stderr :: string
  er_DurationMs :: int
  er_Truncated :: bool
  er_TimedOut :: bool

datatype x_body = XDone exec_result | XProcesses "process list" | XSignalled int signal

text \<open>\<open>handleExec\<close> up to the wait: the request is decoded, the command built, the pipes made and the process started.\<close>

definition exec_start :: "int \<Rightarrow> string \<Rightarrow> int \<Rightarrow> int \<Rightarrow> xstate \<Rightarrow> xstate" where
  "exec_start pid label limit now st =
     st\<lparr>x_procs := addPID pid label now (x_procs st), x_started := x_started st @ [pid],
        x_sessions := x_sessions st @ [\<lparr>se_pid = pid, se_limit = limit, se_at = Waiting, se_ctx = False, se_watch = Armed\<rparr>]\<rparr>"

definition execBegin ::
    "initd \<Rightarrow> (string, exec_request) result \<Rightarrow> string option \<Rightarrow> (command \<Rightarrow> (string, int) result) \<Rightarrow> int \<Rightarrow> xstate
       \<Rightarrow> x_body response option \<times> xstate" where
  "execBegin s dec pipes start now st =
     (case dec of
        Inl e \<Rightarrow> (Some (writeErr 400 ''invalid_body'' e), st)
      | Inr req \<Rightarrow>
          (let limit = (if xr_MaxOutputBytes req \<le> 0 then defaultMaxOutput else xr_MaxOutputBytes req) in
           case buildCmd s req of
             Inl e \<Rightarrow> (Some (writeErr 400 ''invalid_request'' e), st)
           | Inr (cmd, label) \<Rightarrow>
               (case pipes of
                  Some e \<Rightarrow> (Some (writeErr 500 ''pipe_failed'' e), st)
                | None \<Rightarrow>
                    (case start cmd of
                       Inl e \<Rightarrow> (Some (writeErr 400 ''spawn_failed'' e), st)
                     | Inr pid \<Rightarrow> (None, exec_start pid label limit now st)))))"

definition setSession :: "nat \<Rightarrow> (session \<Rightarrow> session) \<Rightarrow> xstate \<Rightarrow> xstate" where
  "setSession i f st = st\<lparr>x_sessions := (x_sessions st)[i := f (x_sessions st ! i)]\<rparr>"

text \<open>\<open>reaper.Wait\<close> has returned: the entry is marked as done.\<close>

definition execExited :: "nat \<Rightarrow> xstate \<Rightarrow> xstate" where
  "execExited i st =
     (let se = x_sessions st ! i
      in setSession i (\<lambda>se. se\<lparr>se_at := Drained\<rparr>) (st\<lparr>x_procs := proc_finish (se_pid se) (x_procs st)\<rparr>))"

text \<open>The end of the handler: the response, and then the deferred calls, last registered first: the entry is forgotten and
  the context cancelled.\<close>

definition execReturn :: "nat \<Rightarrow> string list \<Rightarrow> string list \<Rightarrow> int \<Rightarrow> int \<Rightarrow> bool \<Rightarrow> xstate \<Rightarrow> x_body response \<times> xstate" where
  "execReturn i outs errs code ms timedOut st =
     (let se = x_sessions st ! i; so = capture (se_limit se) outs; er = capture (se_limit se) errs
      in (JSON 200 (XDone \<lparr>er_ExitCode = code, er_Stdout = cw_buf so, er_Stderr = cw_buf er, er_DurationMs = ms,
             er_Truncated = (cw_over so \<or> cw_over er), er_TimedOut = timedOut\<rparr>),
          setSession i (\<lambda>se. se\<lparr>se_at := Returned', se_ctx := True\<rparr>) (st\<lparr>x_procs := proc_forget (se_pid se) (x_procs st)\<rparr>)))"

text \<open>\<open>enforceDeadline\<close>: what it does when the context is done, and after the grace period.\<close>

definition deadlineFirst :: "nat \<Rightarrow> bool \<Rightarrow> xstate \<Rightarrow> xstate" where
  "deadlineFirst i grp st =
     (let se = x_sessions st ! i in
      if proc_status (se_pid se) (x_procs st) = Some True then setSession i (\<lambda>se. se\<lparr>se_watch := Over\<rparr>) st
      else setSession i (\<lambda>se. se\<lparr>se_watch := Grace\<rparr>) (st\<lparr>x_kills := x_kills st @ killGroup grp (se_pid se) SIGTERM\<rparr>))"

definition deadlineSecond :: "nat \<Rightarrow> bool \<Rightarrow> xstate \<Rightarrow> xstate" where
  "deadlineSecond i grp st =
     (let se = x_sessions st ! i in
      setSession i (\<lambda>se. se\<lparr>se_watch := Over\<rparr>)
        (if proc_status (se_pid se) (x_procs st) = Some False
         then st\<lparr>x_kills := x_kills st @ killGroup grp (se_pid se) SIGKILL\<rparr> else st))"

definition handleProcessList :: "xstate \<Rightarrow> x_body response" where
  "handleProcessList st = JSON 200 (XProcesses (proc_list (x_procs st)))"

definition handleProcessSignal :: "string \<Rightarrow> string \<Rightarrow> string \<Rightarrow> bool \<Rightarrow> string option \<Rightarrow> xstate \<Rightarrow> x_body response \<times> xstate" where
  "handleProcessSignal atoiErr v name grp single st =
     (case Atoi v of
        None \<Rightarrow> (writeErr 400 ''invalid_pid'' atoiErr, st)
      | Some pid \<Rightarrow>
          if \<not> proc_process pid (x_procs st) then (writeErr 404 ''no_such_process'' ''this sandbox did not start that process'', st)
          else (let sig = signalByName name; st1 = st\<lparr>x_kills := x_kills st @ killGroup grp pid sig\<rparr> in
                if \<not> grp \<and> single \<noteq> None then (writeErr 500 ''signal_failed'' (the single), st1)
                else (JSON 200 (XSignalled pid sig), st1)))"

datatype x_event =
    XBegin "(string, exec_request) result" "string option" "command \<Rightarrow> (string, int) result" int
  | XExited nat
  | XReturn nat "string list" "string list" int int bool
  | XExpire nat
  | XFirst nat bool
  | XSecond nat bool
  | XSignal string string string bool "string option"

text \<open>A step happens only where the program is at it.\<close>

definition at_session :: "nat \<Rightarrow> (session \<Rightarrow> bool) \<Rightarrow> xstate \<Rightarrow> bool" where
  "at_session i P st \<longleftrightarrow> i < length (x_sessions st) \<and> P (x_sessions st ! i)"

fun x_step :: "initd \<Rightarrow> x_event \<Rightarrow> xstate \<Rightarrow> xstate" where
  "x_step s (XBegin dec pipes start now) st = snd (execBegin s dec pipes start now st)"
| "x_step s (XExited i) st = (if at_session i (\<lambda>se. se_at se = Waiting) st then execExited i st else st)"
| "x_step s (XReturn i outs errs code ms t) st =
     (if at_session i (\<lambda>se. se_at se = Drained) st then snd (execReturn i outs errs code ms t st) else st)"
| "x_step s (XExpire i) st = (if at_session i (\<lambda>se. True) st then setSession i (\<lambda>se. se\<lparr>se_ctx := True\<rparr>) st else st)"
| "x_step s (XFirst i grp) st = (if at_session i (\<lambda>se. se_ctx se \<and> se_watch se = Armed) st then deadlineFirst i grp st else st)"
| "x_step s (XSecond i grp) st = (if at_session i (\<lambda>se. se_watch se = Grace) st then deadlineSecond i grp st else st)"
| "x_step s (XSignal a v name grp single) st = snd (handleProcessSignal a v name grp single st)"

definition x_run :: "initd \<Rightarrow> x_event list \<Rightarrow> xstate \<Rightarrow> xstate" where
  "x_run s evs st = fold (x_step s) evs st"

section \<open>Output and deadlines\<close>

lemma cap_Write_spec:
  assumes "0 \<le> cw_limit c" "cw_buf c = take (nat (cw_limit c)) xs" "cw_over c \<longleftrightarrow> int (length xs) > cw_limit c"
  shows "cw_limit (cap_Write p c) = cw_limit c" "cw_buf (cap_Write p c) = take (nat (cw_limit c)) (xs @ p)"
    "cw_over (cap_Write p c) \<longleftrightarrow> int (length (xs @ p)) > cw_limit c"
  using assms by (auto simp: cap_Write_def Let_def nat_diff_distrib)

lemma fold_cap_Write:
  assumes "0 \<le> cw_limit c" "cw_buf c = take (nat (cw_limit c)) xs" "cw_over c \<longleftrightarrow> int (length xs) > cw_limit c"
  shows "cw_buf (fold cap_Write ps c) = take (nat (cw_limit c)) (xs @ concat ps)
    \<and> (cw_over (fold cap_Write ps c) \<longleftrightarrow> int (length (xs @ concat ps)) > cw_limit c)"
  using assms
proof (induction ps arbitrary: c xs)
  case (Cons p ps)
  note st = cap_Write_spec [OF Cons.prems, of p]
  have "0 \<le> cw_limit (cap_Write p c)" using st(1) Cons.prems(1) by simp
  from Cons.IH [OF this, of "xs @ p", unfolded st(1), OF st(2,3)] show ?case by simp
qed simp

lemma capture_spec:
  "0 \<le> limit \<Longrightarrow> cw_buf (capture limit cs) = take (nat limit) (concat cs)
     \<and> (cw_over (capture limit cs) \<longleftrightarrow> int (length (concat cs)) > limit)"
  using fold_cap_Write [of "\<lparr>cw_buf = [], cw_limit = limit, cw_over = False\<rparr>" "[]" cs] by (simp add: capture_def)

text \<open>A timeout is clamped to six hours, as long as it fits the nanoseconds of a \<open>Duration\<close>.\<close>

lemma timeoutOf_clamped:
  "xr_TimeoutSeconds req \<le> 9223372036 \<Longrightarrow>
     timeoutOf req = (if xr_TimeoutSeconds req \<le> 0 then defaultTimeout else min (xr_TimeoutSeconds req * second) maxTimeout)"
  by (simp add: timeoutOf_def Let_def wrap64_id int64_def second_def maxTimeout_def min_def)

text \<open>One second more and the product wraps: the timeout is negative, so that the command is over before it starts, and not
  after the six hours that are the most it may have.\<close>

lemma timeoutOf_wraps: "xr_TimeoutSeconds req = 9223372037 \<Longrightarrow> timeoutOf req < 0"
  by (simp add: timeoutOf_def Let_def wrap64_def second_def maxTimeout_def)

section \<open>Signals\<close>

definition x_inv :: "xstate \<Rightarrow> bool" where
  "x_inv st \<longleftrightarrow> fst ` set (x_procs st) \<subseteq> set (x_started st) \<and> se_pid ` set (x_sessions st) \<subseteq> set (x_started st)
     \<and> (\<forall>k \<in> set (x_kills st). \<exists>pid \<in> set (x_started st). fst k = pid \<or> fst k = - pid)"

lemma killGroup_targets: "k \<in> set (killGroup grp pid sig) \<Longrightarrow> fst k = pid \<or> fst k = - pid"
  by (auto simp: killGroup_def split: if_splits)

lemma x_inv_kill:
  "x_inv st \<Longrightarrow> pid \<in> set (x_started st) \<Longrightarrow> x_inv (st\<lparr>x_kills := x_kills st @ killGroup grp pid sig\<rparr>)"
  unfolding x_inv_def by (auto dest!: killGroup_targets)

lemma x_inv_session:
  assumes "x_inv st" "at_session i P st" "\<And>se. se_pid (f se) = se_pid se"
  shows "x_inv (setSession i f st)"
proof -
  have "se_pid ` set ((x_sessions st)[i := f (x_sessions st ! i)]) \<subseteq> se_pid ` set (x_sessions st)"
    using assms(2,3) set_update_subset_insert [of "x_sessions st" i "f (x_sessions st ! i)"] by (force simp: at_session_def)
  then have "se_pid ` set ((x_sessions st)[i := f (x_sessions st ! i)]) \<subseteq> set (x_started st)"
    using assms(1) unfolding x_inv_def by blast
  then show ?thesis using assms(1) unfolding x_inv_def setSession_def by simp
qed

lemma x_inv_procs:
  "x_inv st \<Longrightarrow> fst ` set t \<subseteq> fst ` set (x_procs st) \<Longrightarrow> x_inv (st\<lparr>x_procs := t\<rparr>)"
  unfolding x_inv_def by auto

lemma proc_finish_keys: "fst ` set (proc_finish pid t) \<subseteq> fst ` set t"
  by (auto simp: proc_finish_def dom_update split: option.splits) (auto dest: map_of_SomeD simp: image_iff intro: rev_bexI)

lemma proc_forget_keys: "fst ` set (proc_forget pid t) \<subseteq> fst ` set t"
  unfolding proc_forget_def by (rule dom_delete_subset)

lemma at_sessionD: "at_session i P st \<Longrightarrow> x_inv st \<Longrightarrow> se_pid (x_sessions st ! i) \<in> set (x_started st)"
  unfolding at_session_def x_inv_def by auto

lemma proc_process_key: "proc_process pid t \<Longrightarrow> pid \<in> fst ` set t"
  by (auto simp: proc_process_def) (metis fst_conv image_eqI map_of_SomeD)

lemma at_session_upd [simp]:
  "at_session i P (st\<lparr>x_procs := t\<rparr>) = at_session i P st" "at_session i P (st\<lparr>x_kills := ks\<rparr>) = at_session i P st"
  by (simp_all add: at_session_def)

lemma execBegin_inv: "x_inv st \<Longrightarrow> x_inv (snd (execBegin s dec pipes start now st))"
  by (auto simp: execBegin_def Let_def exec_start_def addPID_def x_inv_def dom_update split: sum.splits option.splits prod.splits)

lemma handleProcessSignal_inv: "x_inv st \<Longrightarrow> x_inv (snd (handleProcessSignal a v name grp single st))"
proof -
  assume i: "x_inv st"
  have "pid \<in> set (x_started st)" if "proc_process pid (x_procs st)" for pid
    using proc_process_key [OF that] i by (auto simp: x_inv_def)
  then show ?thesis using i x_inv_kill [OF i]
    by (simp add: handleProcessSignal_def Let_def split: option.splits)
qed

lemma x_step_inv: "x_inv st \<Longrightarrow> x_inv (x_step s e st)"
proof (cases e)
  case (XBegin dec pipes start now)
  then show "x_inv st \<Longrightarrow> ?thesis" by (simp add: execBegin_inv)
next
  case (XExited i)
  then show "x_inv st \<Longrightarrow> ?thesis"
    by (auto simp: execExited_def Let_def intro!: x_inv_session x_inv_procs proc_finish_keys)
next
  case (XReturn i outs errs code ms t)
  then show "x_inv st \<Longrightarrow> ?thesis"
    by (auto simp: execReturn_def Let_def intro!: x_inv_session x_inv_procs proc_forget_keys)
next
  case (XExpire i)
  then show "x_inv st \<Longrightarrow> ?thesis" by (auto intro!: x_inv_session)
next
  case (XFirst i grp)
  then show "x_inv st \<Longrightarrow> ?thesis"
    by (auto simp: deadlineFirst_def Let_def intro!: x_inv_session x_inv_kill dest: at_sessionD)
next
  case (XSecond i grp)
  then show "x_inv st \<Longrightarrow> ?thesis"
    by (auto simp: deadlineSecond_def Let_def intro!: x_inv_session x_inv_kill dest: at_sessionD)
next
  case (XSignal a v name grp single)
  then show "x_inv st \<Longrightarrow> ?thesis" by (simp add: handleProcessSignal_inv)
qed

lemma x_run_inv: "x_inv st \<Longrightarrow> x_inv (x_run s evs st)"
  unfolding x_run_def by (induction evs arbitrary: st) (simp_all add: x_step_inv)

lemma x_init_inv: "x_inv x_init"
  by (simp add: x_inv_def x_init_def newProcTable_def)

section \<open>Properties\<close>

text \<open>No signal leaves the processes the API started. In every interleaving of commands being started, exiting, timing
  out and being answered, of the deadline goroutines and of signal requests with any process number and any name, whatever
  the kernel answers, every \<open>kill\<close> is for a process the API started or for its group; the sandbox's own init, process 1, and
  the group of everything, \<open>-1\<close>, are never hit unless the kernel gave a started command that number.\<close>

lemma signals_only_started_processes:
  "\<forall>k \<in> set (x_kills (x_run s evs x_init)). \<exists>pid \<in> set (x_started (x_run s evs x_init)). fst k = pid \<or> fst k = - pid"
  using x_run_inv [OF x_init_inv] unfolding x_inv_def by blast

definition demoExec :: exec_request where
  "demoExec = \<lparr>xr_Cmd = ''make'', xr_Argv = [], xr_Cwd = [], xr_Env = Map.empty, xr_TimeoutSeconds = 5, xr_MaxOutputBytes = 4\<rparr>"

text \<open>The synchronous exec returns the beginning of the output and says when it cut. For a command with an output limit,
  both streams of the answer are exactly the first bytes of what the process wrote, however the pipes chopped it up, at
  most the limit of each, and the answer is marked as truncated exactly when one of them wrote more than the limit.\<close>

lemma exec_output_is_a_prefix:
  assumes "0 < se_limit (x_sessions st ! i)"
  shows "\<exists>res. fst (execReturn i outs errs code ms t st) = JSON 200 (XDone res)
    \<and> er_Stdout res = take (nat (se_limit (x_sessions st ! i))) (concat outs)
    \<and> er_Stderr res = take (nat (se_limit (x_sessions st ! i))) (concat errs)
    \<and> (er_Truncated res \<longleftrightarrow> int (length (concat outs)) > se_limit (x_sessions st ! i)
                          \<or> int (length (concat errs)) > se_limit (x_sessions st ! i))
    \<and> er_ExitCode res = code"
  using capture_spec [of "se_limit (x_sessions st ! i)"] assms by (simp add: execReturn_def Let_def)

text \<open>A command that outlives its context is asked to end and then killed, group and all.\<close>

lemma deadline_kills:
  assumes "execBegin s dec pipes start now st = (None, st1)" and i: "i = length (x_sessions st)"
  shows "\<exists>pid. x_kills (x_run s [XExpire i, XFirst i True, XSecond i True] st1) = x_kills st @ [(- pid, SIGTERM), (- pid, SIGKILL)]"
proof -
  from assms obtain pid label limit where "st1 = exec_start pid label limit now st"
    by (auto simp: execBegin_def Let_def split: sum.splits option.splits prod.splits)
  then show ?thesis
    by (auto simp: i x_run_def at_session_def setSession_def deadlineFirst_def deadlineSecond_def exec_start_def addPID_def
        proc_status_def update_conv' killGroup_def Let_def)
qed

text \<open>A command that has ended is signalled once more. The deadline goroutine returns without a signal when the table says
  that the process is done, but the handler forgets the entry before it cancels the context (deferred calls run last first).
  So for every command whose context was not done before, the goroutine wakes to find no entry, and sends a SIGTERM to a
  process group whose leader has been reaped: what the command left in the background is killed, and when the group is gone
  the number itself is signalled, which may be someone else's by then. Only a context that was already done is let off.\<close>

lemma finished_command_is_signalled:
  assumes "at_session i (\<lambda>se. se_at se = Drained \<and> se_watch se = Armed) st"
  shows "x_kills (x_run s [XReturn i outs errs code ms t, XFirst i grp] st)
       = x_kills st @ killGroup grp (se_pid (x_sessions st ! i)) SIGTERM
    \<and> (proc_status (se_pid (x_sessions st ! i)) (x_procs st) = Some True \<longrightarrow>
         x_kills (x_run s [XExpire i, XFirst i grp, XReturn i outs errs code ms t] st) = x_kills st)"
  using assms
  by (auto simp: x_run_def at_session_def execReturn_def setSession_def deadlineFirst_def proc_status_def proc_forget_def delete_conv' Let_def)

end
