(* ===== verification/Initd_Stream.thy ===== *)
theory Initd_Stream
  imports Initd_Exec "HOL-Library.Word"
begin

text \<open>
  Streaming sessions (\<open>pkg/initd/stream.go\<close>, the WebSocket half of \<open>pkg/initd/exec.go\<close>, \<open>pkg/api/wsframe.go\<close>): the frames,
  their numbering, the pumps from the pipes, and the control loop. Payloads are base64. JSON and the terminal are the library's: a received message is given as what \<open>json.Unmarshal\<close> yields for
  it. Sending is two steps, numbering and writing, since only the second is under the mutex.
\<close>

section \<open>Frames\<close>

record frame =
  fr_T :: string
  fr_D :: string
  fr_Seq :: "64 word"
  fr_Cols :: int
  fr_Rows :: int
  fr_Sig :: string
  fr_Code :: int
  fr_DurationMs :: int
  fr_ErrCode :: string
  fr_Msg :: string

definition aFrame :: "string \<Rightarrow> frame" where
  "aFrame t = \<lparr>fr_T = t, fr_D = [], fr_Seq = 0, fr_Cols = 0, fr_Rows = 0, fr_Sig = [], fr_Code = 0, fr_DurationMs = 0, fr_ErrCode = [], fr_Msg = []\<rparr>"

definition errorFrame :: "string \<Rightarrow> string \<Rightarrow> frame" where
  "errorFrame code msg = (aFrame ''error'')\<lparr>fr_ErrCode := code, fr_Msg := msg\<rparr>"

definition exitFrame :: "int \<Rightarrow> int \<Rightarrow> frame" where
  "exitFrame code ms = (aFrame ''exit'')\<lparr>fr_Code := code, fr_DurationMs := ms\<rparr>"

text \<open>The connection: the counter, and what has been written. A write fails once the connection is broken or the context
  it is given is done.\<close>

record ws_conn =
  wc_seq :: "64 word"
  wc_wire :: "frame list"
  wc_broken :: bool

definition numbered :: "frame \<Rightarrow> bool" where
  "numbered f \<longleftrightarrow> fr_T f = ''stdout'' \<or> fr_T f = ''stderr'' \<or> fr_T f = ''event''"

definition send_number :: "frame \<Rightarrow> ws_conn \<Rightarrow> frame \<times> ws_conn" where
  "send_number f c = (if numbered f then (f\<lparr>fr_Seq := wc_seq c + 1\<rparr>, c\<lparr>wc_seq := wc_seq c + 1\<rparr>) else (f, c))"

definition send_write :: "bool \<Rightarrow> frame \<Rightarrow> ws_conn \<Rightarrow> bool \<times> ws_conn" where
  "send_write ctxDone f c =
     (if ctxDone \<or> wc_broken c then (False, c\<lparr>wc_broken := True\<rparr>) else (True, c\<lparr>wc_wire := wc_wire c @ [f]\<rparr>))"

definition ws_send :: "bool \<Rightarrow> frame \<Rightarrow> ws_conn \<Rightarrow> bool \<times> ws_conn" where
  "ws_send ctxDone f c = (case send_number f c of (g, c1) \<Rightarrow> send_write ctxDone g c1)"

text \<open>\<open>pumpStream\<close>: what the successive reads yield, with whether they ended in an error and whether the context is done by
  then.\<close>

fun pumpStream :: "string \<Rightarrow> (string \<times> bool \<times> bool) list \<Rightarrow> ws_conn \<Rightarrow> ws_conn" where
  "pumpStream kind [] c = c"
| "pumpStream kind ((dat, err, ctxDone) # rs) c =
     (if dat \<noteq> [] then
        (case ws_send ctxDone ((aFrame kind)\<lparr>fr_D := b64encode dat\<rparr>) c of
           (False, c1) \<Rightarrow> c1
         | (True, c1) \<Rightarrow> if err then c1 else pumpStream kind rs c1)
      else if err then c else pumpStream kind rs c)"

text \<open>\<open>keepalive\<close>: a ping at each tick until the context is done or a write fails.\<close>

fun ws_keepalive :: "bool list \<Rightarrow> ws_conn \<Rightarrow> ws_conn" where
  "ws_keepalive [] c = c"
| "ws_keepalive (ctxDone # ticks) c =
     (if ctxDone then c
      else (case ws_send False (aFrame ''ping'') c of (ok, c1) \<Rightarrow> if ok then ws_keepalive ticks c1 else c1))"

section \<open>The control loop\<close>

datatype ws_input = ReadFailed | Received "(string, frame) result"

record control =
  ct_conn :: ws_conn
  ct_stdin :: "string option"
  ct_closed :: bool
  ct_size :: "(16 word \<times> 16 word) option"
  ct_kills :: "(int \<times> signal) list"

definition ct_send :: "frame \<Rightarrow> control \<Rightarrow> control" where
  "ct_send f c = c\<lparr>ct_conn := snd (ws_send False f (ct_conn c))\<rparr>"

text \<open>One frame; \<open>None\<close> ends the loop. \<open>pty\<close> says whether there is a terminal to resize, \<open>pipeOk\<close> whether the pipe takes the
  bytes, \<open>grp\<close> is the kernel's answer to signalling the group, \<open>msg\<close> the decoder's complaint.\<close>

definition controlFrame ::
    "int \<Rightarrow> bool \<Rightarrow> (string \<Rightarrow> bool) \<Rightarrow> (signal \<Rightarrow> bool) \<Rightarrow> (string \<Rightarrow> string) \<Rightarrow> frame \<Rightarrow> control \<Rightarrow> bool \<times> control" where
  "controlFrame pid pty pipeOk grp msg f c =
     (if fr_T f = ''stdin'' then
        (case b64decode (fr_D f) of
           None \<Rightarrow> (True, ct_send (errorFrame ''bad_base64'' (msg (fr_D f))) c)
         | Some raw \<Rightarrow>
             (case ct_stdin c of
                None \<Rightarrow> (True, c)
              | Some w \<Rightarrow> if pipeOk raw then (True, c\<lparr>ct_stdin := Some (w @ raw)\<rparr>) else (False, c)))
      else if fr_T f = ''resize'' then
        (True, if pty \<and> fr_Cols f > 0 \<and> fr_Rows f > 0 then c\<lparr>ct_size := Some (word_of_int (fr_Cols f), word_of_int (fr_Rows f))\<rparr> else c)
      else if fr_T f = ''signal'' then
        (let sig = signalByName (fr_Sig f) in (True, c\<lparr>ct_kills := ct_kills c @ killGroup (grp sig) pid sig\<rparr>))
      else if fr_T f = ''ping'' then (True, ct_send (aFrame ''pong'') c)
      else (True, c))"

fun readControl ::
    "int \<Rightarrow> bool \<Rightarrow> (string \<Rightarrow> bool) \<Rightarrow> (signal \<Rightarrow> bool) \<Rightarrow> (string \<Rightarrow> string) \<Rightarrow> ws_input list \<Rightarrow> control \<Rightarrow> control" where
  "readControl pid pty pipeOk grp msg [] c = c"
| "readControl pid pty pipeOk grp msg (ReadFailed # ms) c = (if ct_stdin c \<noteq> None then c\<lparr>ct_closed := True\<rparr> else c)"
| "readControl pid pty pipeOk grp msg (Received (Inl e) # ms) c =
     readControl pid pty pipeOk grp msg ms (ct_send (errorFrame ''bad_frame'' e) c)"
| "readControl pid pty pipeOk grp msg (Received (Inr f) # ms) c =
     (case controlFrame pid pty pipeOk grp msg f c of
        (True, c1) \<Rightarrow> readControl pid pty pipeOk grp msg ms c1
      | (False, c1) \<Rightarrow> c1)"

section \<open>Opening a session\<close>

text \<open>The value of \<open>strconv.Atoi\<close> when its error is ignored: 0 for what is no number, the nearest \<open>int\<close> for one out of range.\<close>

definition atoiValue :: "string \<Rightarrow> int" where
  "atoiValue v =
     (let neg = hasPrefix v ''-''; ds = (if neg \<or> hasPrefix v ''+'' then tl v else v)
      in if ds = [] then 0
         else (case parse_digits 0 ds of
                 None \<Rightarrow> 0
               | Some n \<Rightarrow> if neg then max (- int n) (- (2 ^ 63)) else min (int n) (2 ^ 63 - 1)))"

definition execReqFromQuery :: "(string \<times> string) list \<Rightarrow> exec_request" where
  "execReqFromQuery q =
     \<lparr>xr_Cmd = qget q ''cmd'', xr_Argv = map snd (filter (\<lambda>kv. fst kv = ''argv'') q), xr_Cwd = qget q ''cwd'', xr_Env = Map.empty,
      xr_TimeoutSeconds = (if qget q ''timeoutSeconds'' \<noteq> [] then atoiValue (qget q ''timeoutSeconds'') else 0), xr_MaxOutputBytes = 0\<rparr>"

definition sizeFromQuery :: "(string \<times> string) list \<Rightarrow> int \<times> int" where
  "sizeFromQuery q =
     (let rd = \<lambda>n d. (case Atoi (qget q n) of None \<Rightarrow> d | Some v \<Rightarrow> if v > 0 then v else d)
      in (rd ''cols'' 120, rd ''rows'' 40))"

text \<open>The two handlers up to the wait: the frame that reports a failure, or a session.\<close>

definition handleExecStream ::
    "initd \<Rightarrow> (string \<times> string) list \<Rightarrow> bool \<Rightarrow> (command \<Rightarrow> (string, int) result) \<Rightarrow> int \<Rightarrow> ws_conn \<times> xstate \<Rightarrow> ws_conn \<times> xstate" where
  "handleExecStream s q ctxDone start now cx =
     (case cx of (c, st) \<Rightarrow>
      case buildCmd s (execReqFromQuery q) of
        Inl e \<Rightarrow> (snd (ws_send ctxDone (errorFrame ''invalid_request'' e) c), st)
      | Inr (cmd, label) \<Rightarrow>
          (case start cmd of
             Inl e \<Rightarrow> (snd (ws_send ctxDone (errorFrame ''spawn_failed'' e) c), st)
           | Inr pid \<Rightarrow> (c, exec_start pid label 0 now st)))"

definition ptyRequest :: "exec_request \<Rightarrow> exec_request" where
  "ptyRequest req = (if xr_Cmd req = [] \<and> xr_Argv req = [] then req\<lparr>xr_Argv := [''/bin/sh'', ''-l'']\<rparr> else req)"

definition handlePTY ::
    "initd \<Rightarrow> (string \<times> string) list \<Rightarrow> bool \<Rightarrow> (command \<Rightarrow> 16 word \<times> 16 word \<Rightarrow> (string, int) result) \<Rightarrow> int \<Rightarrow> ws_conn \<times> xstate \<Rightarrow> ws_conn \<times> xstate" where
  "handlePTY s q ctxDone start now cx =
     (case cx of (c, st) \<Rightarrow>
      case buildCmd s (ptyRequest (execReqFromQuery q)) of
        Inl e \<Rightarrow> (snd (ws_send ctxDone (errorFrame ''invalid_request'' e) c), st)
      | Inr (cmd, label) \<Rightarrow>
          (case sizeFromQuery q of (cols, rows) \<Rightarrow>
           case start (cmd\<lparr>cm_Setpgid := False\<rparr>) (word_of_int cols, word_of_int rows) of
             Inl e \<Rightarrow> (snd (ws_send ctxDone (errorFrame ''pty_failed'' e) c), st)
           | Inr pid \<Rightarrow> (c, exec_start pid label 0 now st)))"

text \<open>The end of both: the exit frame, under the context of the session, and then the deferred calls.\<close>

definition streamReturn :: "nat \<Rightarrow> int \<Rightarrow> int \<Rightarrow> ws_conn \<times> xstate \<Rightarrow> ws_conn \<times> xstate" where
  "streamReturn i code ms cx =
     (case cx of (c, st) \<Rightarrow>
      let se = x_sessions st ! i in
        (snd (ws_send (se_ctx se) (exitFrame code ms) c),
         setSession i (\<lambda>se. se\<lparr>se_at := Returned', se_ctx := True\<rparr>) (st\<lparr>x_procs := proc_forget (se_pid se) (x_procs st)\<rparr>)))"

section \<open>Sending side by side\<close>

text \<open>Several goroutines share a connection: each numbers a frame and then writes it, and the steps of different goroutines
  interleave.\<close>

datatype send_event = SNumber nat frame | SWrite nat

fun ws_step :: "send_event \<Rightarrow> ws_conn \<times> (nat \<rightharpoonup> frame) \<Rightarrow> ws_conn \<times> (nat \<rightharpoonup> frame)" where
  "ws_step (SNumber g f) (c, p) =
     (if p g \<noteq> None then (c, p) else (case send_number f c of (f1, c1) \<Rightarrow> (c1, p(g \<mapsto> f1))))"
| "ws_step (SWrite g) (c, p) =
     (case p g of None \<Rightarrow> (c, p) | Some f \<Rightarrow> (snd (send_write False f c), p(g := None)))"

definition ws_new :: ws_conn where
  "ws_new = \<lparr>wc_seq = 0, wc_wire = [], wc_broken = False\<rparr>"

definition ws_run :: "send_event list \<Rightarrow> ws_conn \<times> (nat \<rightharpoonup> frame)" where
  "ws_run evs = fold ws_step evs (ws_new, Map.empty)"

definition seqs :: "string \<Rightarrow> frame list \<Rightarrow> nat list" where
  "seqs t fs = map (unat \<circ> fr_Seq) (filter (\<lambda>f. fr_T f = t) fs)"

text \<open>For one kind of frame that one goroutine sends: the numbers on the wire increase, and the one that is pending is above
  them.\<close>

definition ws_inv :: "string \<Rightarrow> nat \<Rightarrow> nat \<Rightarrow> ws_conn \<times> (nat \<rightharpoonup> frame) \<Rightarrow> bool" where
  "ws_inv t g n st \<longleftrightarrow> (case st of (c, p) \<Rightarrow>
     unat (wc_seq c) \<le> n \<and> sorted_wrt (<) (seqs t (wc_wire c)) \<and> (\<forall>k \<in> set (seqs t (wc_wire c)). k \<le> unat (wc_seq c))
     \<and> (\<forall>h f. p h = Some f \<and> fr_T f = t \<longrightarrow>
          h = g \<and> unat (fr_Seq f) \<le> unat (wc_seq c) \<and> (\<forall>k \<in> set (seqs t (wc_wire c)). k < unat (fr_Seq f))))"

lemma seqs_snoc: "seqs t (fs @ [f]) = seqs t fs @ (if fr_T f = t then [unat (fr_Seq f)] else [])"
  by (simp add: seqs_def)

lemma unat_Suc: "unat (w :: 64 word) < 2 ^ 64 - 1 \<Longrightarrow> unat (w + 1) = Suc (unat w)"
  by (simp add: unat_word_ariths)

lemma ws_inv_step:
  assumes "ws_inv t g n st" "numbered (aFrame t)" "n < 2 ^ 64 - 1"
    "\<And>h f. e = SNumber h f \<Longrightarrow> fr_T f = t \<Longrightarrow> h = g"
  shows "ws_inv t g (Suc n) (ws_step e st)"
proof (cases st)
  case (Pair c p)
  note inv = assms(1) [unfolded Pair ws_inv_def prod.case]
  show ?thesis
  proof (cases e)
    case (SWrite h)
    then show ?thesis using inv Pair
      by (auto simp: ws_inv_def send_write_def seqs_snoc sorted_wrt_append split: option.splits if_splits) metis
  next
    case (SNumber h f)
    have u: "unat (wc_seq c + 1) = Suc (unat (wc_seq c))" using inv assms(3) unat_Suc by simp
    have tn: "numbered f" if "fr_T f = t" using assms(2) that by (simp add: numbered_def aFrame_def)
    have hg: "h = g" if "fr_T f = t" using assms(4) SNumber that by blast
    show ?thesis
    proof (cases "p h")
      case (Some x)
      then have "ws_step e st = st" using Pair SNumber by simp
      then show ?thesis using assms(1) by (auto simp: ws_inv_def split: prod.splits)
    next
      case None
      have "\<forall>k \<in> set (seqs t (wc_wire c)). k < unat (wc_seq c + 1)" unfolding u using inv by (simp add: le_imp_less_Suc)
      moreover have "\<forall>k \<in> set (seqs t (wc_wire c)). k \<le> unat (wc_seq c + 1)" unfolding u using inv by (simp add: le_SucI)
      moreover have "\<forall>h f. p h = Some f \<and> fr_T f = t \<longrightarrow> unat (fr_Seq f) \<le> unat (wc_seq c + 1)"
        unfolding u using inv by (auto intro: le_SucI)
      moreover have "unat (wc_seq c + 1) \<le> Suc n" unfolding u using inv by simp
      ultimately show ?thesis
        using None inv Pair SNumber tn hg by (auto simp: ws_inv_def send_number_def simp del: unat_plus_if')
    qed
  qed
qed

lemma ws_inv_run:
  assumes "numbered (aFrame t)" "length evs < 2 ^ 64" "\<And>h f. SNumber h f \<in> set evs \<Longrightarrow> fr_T f = t \<Longrightarrow> h = g"
  shows "ws_inv t g (length evs) (ws_run evs)"
  using assms(2,3)
proof (induction evs rule: rev_induct)
  case Nil
  then show ?case by (simp add: ws_inv_def ws_run_def ws_new_def seqs_def)
next
  case (snoc e evs)
  have "ws_inv t g (length evs) (ws_run evs)"
  proof (rule snoc.IH)
    show "length evs < 2 ^ 64" using snoc.prems(1) by simp
    show "h = g" if "SNumber h f \<in> set evs" "fr_T f = t" for h f using snoc.prems(2) [of h f] that by simp
  qed
  moreover have "h = g" if "e = SNumber h f" "fr_T f = t" for h f using snoc.prems(2) [of h f] that by simp
  ultimately have "ws_inv t g (Suc (length evs)) (ws_step e (ws_run evs))"
    using ws_inv_step [OF _ assms(1), of g "length evs" "ws_run evs" e] snoc.prems(1) by simp
  then show ?case by (simp add: ws_run_def)
qed

section \<open>Payloads\<close>

text \<open>The reads up to the first that ended in an error, that one included.\<close>

fun untilErr :: "(string \<times> bool \<times> bool) list \<Rightarrow> string list" where
  "untilErr [] = []"
| "untilErr ((dat, err, d) # rs) = dat # (if err then [] else untilErr rs)"

definition payload :: "frame list \<Rightarrow> string option" where
  "payload fs = foldr (\<lambda>f acc. case (b64decode (fr_D f), acc) of (Some x, Some y) \<Rightarrow> Some (x @ y) | _ \<Rightarrow> None) fs (Some [])"

lemma ws_send_ok:
  "\<not> wc_broken c \<Longrightarrow> \<exists>f1 c1. ws_send False f c = (True, c1) \<and> \<not> wc_broken c1 \<and> wc_wire c1 = wc_wire c @ [f1] \<and> fr_D f1 = fr_D f \<and> fr_T f1 = fr_T f"
  by (auto simp: ws_send_def send_number_def send_write_def)

lemma pumpStream_payload:
  "\<not> wc_broken c \<Longrightarrow> (\<forall>(dat, err, d) \<in> set rs. \<not> d) \<Longrightarrow>
     \<exists>fs. wc_wire (pumpStream kind rs c) = wc_wire c @ fs \<and> payload fs = Some (concat (untilErr rs)) \<and> (\<forall>f \<in> set fs. fr_T f = kind)"
proof (induction kind rs c rule: pumpStream.induct)
  case (2 kind dat err d rs c)
  obtain f1 c1 where o: "ws_send False ((aFrame kind)\<lparr>fr_D := b64encode dat\<rparr>) c = (True, c1)" "\<not> wc_broken c1"
    "wc_wire c1 = wc_wire c @ [f1]" "fr_D f1 = b64encode dat" "fr_T f1 = kind"
    using ws_send_ok [OF 2(3), of "(aFrame kind)\<lparr>fr_D := b64encode dat\<rparr>"] by (auto simp: aFrame_def)
  have d: "\<not> d" "\<forall>(dat, err, d) \<in> set rs. \<not> d" using 2(4) by auto
  show ?case
  proof (cases "dat = []")
    case True
    then show ?thesis using 2(2) [OF _ _ 2(3) d(2)] by (cases err) (auto simp: payload_def)
  next
    case False
    show ?thesis
    proof (cases err)
      case True
      then show ?thesis using False o d by (auto simp: payload_def)
    next
      case noerr: False
      have "\<exists>fs. wc_wire (pumpStream kind rs c1) = wc_wire c1 @ fs \<and> payload fs = Some (concat (untilErr rs)) \<and> (\<forall>f \<in> set fs. fr_T f = kind)"
        by (rule 2(1)) (use False o d noerr in simp_all)
      then obtain fs where
        "wc_wire (pumpStream kind rs c1) = wc_wire c1 @ fs" "payload fs = Some (concat (untilErr rs))" "\<forall>f \<in> set fs. fr_T f = kind" by blast
      then show ?thesis using False noerr o d by (intro exI [of _ "f1 # fs"]) (simp add: payload_def)
    qed
  qed
qed (auto simp: payload_def)

text \<open>The other direction: a client's stdin frames arrive as the bytes it encoded.\<close>

definition stdinFrame :: "string \<Rightarrow> ws_input" where
  "stdinFrame d = Received (Inr ((aFrame ''stdin'')\<lparr>fr_D := b64encode d\<rparr>))"

lemma readControl_stdin:
  "ct_stdin c = Some w \<Longrightarrow> readControl pid pty (\<lambda>d. True) grp msg (map stdinFrame ds) c = c\<lparr>ct_stdin := Some (w @ concat ds)\<rparr>"
  by (induction ds arbitrary: c w) (simp_all add: stdinFrame_def controlFrame_def aFrame_def)

text \<open>A resize of 65536 columns passes the test for a positive number and reaches the terminal as zero.\<close>

lemma resize_wraps:
  "ct_size (snd (controlFrame pid True pipeOk grp msg ((aFrame ''resize'')\<lparr>fr_Cols := 65536, fr_Rows := 1\<rparr>) c)) = Some (0, 1)"
  by (simp add: controlFrame_def aFrame_def)

text \<open>The exit frame is sent under the context of the command, so a command that ran into its timeout ends without one.\<close>

lemma timed_out_stream_has_no_exit_frame:
  assumes "se_ctx (x_sessions st ! i)"
  shows "wc_wire (fst (streamReturn i code ms (c, st))) = wc_wire c"
  using assms by (simp add: streamReturn_def ws_send_def send_write_def send_number_def Let_def)

section \<open>Properties\<close>

text \<open>A stream carries exactly the bytes. On a connection that holds, whatever the sizes of the reads, the frames a pump
  writes decode, joined in order, to exactly what was read from the pipe up to its end, and all have the pump's kind;
  and the frames in which a client encodes its input reach the process as exactly those bytes, in order.\<close>

lemma stream_carries_the_bytes:
  assumes "\<not> wc_broken c" and "\<forall>(dat, err, ctxDone) \<in> set rs. \<not> ctxDone" and "ct_stdin ct = Some w"
  shows "(\<exists>fs. wc_wire (pumpStream kind rs c) = wc_wire c @ fs \<and> payload fs = Some (concat (untilErr rs)) \<and> (\<forall>f \<in> set fs. fr_T f = kind))
    \<and> ct_stdin (readControl pid pty (\<lambda>d. True) grp msg (map stdinFrame ds) ct) = Some (w @ concat ds)"
  using pumpStream_payload [OF assms(1,2)] readControl_stdin [OF assms(3)] by simp

text \<open>The numbers of one stream increase on the wire, those of a session need not. If one goroutine sends the frames of a
  kind, then in every interleaving with the others, for as long as fewer than \<open>2 ^ 64\<close> steps were taken, the numbers of that
  kind appear on the wire in strictly increasing order. The counter is advanced outside the mutex that orders the writes:
  the run of the witness puts frame 2 on the wire before frame 1, so a client that resumes after the last number it saw
  misses a frame.\<close>

lemma stream_numbers_increase:
  assumes "numbered (aFrame t)" and "length evs < 2 ^ 64" and "\<forall>h f. SNumber h f \<in> set evs \<and> fr_T f = t \<longrightarrow> h = g"
  shows "sorted_wrt (<) (seqs t (wc_wire (fst (ws_run evs))))"
proof -
  have "ws_inv t g (length evs) (ws_run evs)" by (rule ws_inv_run [OF assms(1,2)]) (use assms(3) in blast)
  then show ?thesis by (simp add: ws_inv_def split: prod.splits)
qed

definition demoSends :: "send_event list" where
  "demoSends = [SNumber 0 (aFrame ''stdout''), SNumber 1 (aFrame ''stderr''), SWrite 1, SWrite 0, SNumber 0 (aFrame ''stdout''), SWrite 0]"

end
