(* ===== verification/Sdk_Client.thy ===== *)
theory Sdk_Client
  imports Initd_Stream
begin

text \<open>
  The Go client (\<open>sdk/go\<close>): the retrying request to the control plane, creating and following a sandbox, the data-plane calls,
  and the client's half of a stream. The HTTP transport is a function on a world, so that what was sent is part of it; a
  response comes with what \<open>encoding/json\<close> makes of its body. The clock appears as whether a context is done at a point
  where the code looks.
\<close>

section \<open>URL escaping\<close>

text \<open>\<open>url.QueryEscape\<close>, \<open>url.PathEscape\<close>, and the parsing of a query.\<close>

definition upperhex :: "nat \<Rightarrow> char" where
  "upperhex n = (if n < 10 then char_of (48 + n) else char_of (55 + n))"

definition percent :: "char \<Rightarrow> string" where
  "percent c = (let n = of_char c :: nat in [CHR ''%'', upperhex (n div 16), upperhex (n mod 16)])"

definition unreserved :: "char \<Rightarrow> bool" where
  "unreserved c \<longleftrightarrow>
     (let n = of_char c :: nat
      in (48 \<le> n \<and> n \<le> 57) \<or> (65 \<le> n \<and> n \<le> 90) \<or> (97 \<le> n \<and> n \<le> 122) \<or> c \<in> {CHR ''-'', CHR ''_'', CHR ''.'', CHR ''~''})"

fun QueryEscape :: "string \<Rightarrow> string" where
  "QueryEscape [] = []"
| "QueryEscape (c # s) = (if c = CHR '' '' then ''+'' else if unreserved c then [c] else percent c) @ QueryEscape s"

fun PathEscape :: "string \<Rightarrow> string" where
  "PathEscape [] = []"
| "PathEscape (c # s) =
     (if unreserved c \<or> c \<in> {CHR ''$'', CHR ''&'', CHR ''+'', CHR '':'', CHR ''='', CHR ''@''} then [c] else percent c) @ PathEscape s"

definition QueryUnescape :: "string \<Rightarrow> string option" where
  "QueryUnescape s = PathUnescape (map (\<lambda>c. if c = CHR ''+'' then CHR '' '' else c) s)"

fun parsePairs :: "string list \<Rightarrow> (string \<times> string) list" where
  "parsePairs [] = []"
| "parsePairs (kv # kvs) =
     (if CHR '';'' \<in> set kv \<or> kv = [] then parsePairs kvs
      else (case (QueryUnescape (fst (cut (CHR ''='') kv)), QueryUnescape (fst (snd (cut (CHR ''='') kv)))) of
              (Some k, Some v) \<Rightarrow> (k, v) # parsePairs kvs
            | _ \<Rightarrow> parsePairs kvs))"

definition ParseQuery :: "string \<Rightarrow> (string \<times> string) list" where
  "ParseQuery q = parsePairs (split_on (CHR ''&'') q)"

section \<open>The client\<close>

definition DefaultBaseURL :: string where "DefaultBaseURL = ''https://api.jdix.example.com''"

record client =
  c_baseURL :: string
  c_apiKey :: string
  c_userAgent :: string
  c_maxRetry :: nat

type_synonym client_opt = "client \<Rightarrow> client"

definition WithAPIKey :: "string \<Rightarrow> client_opt" where "WithAPIKey key c = c\<lparr>c_apiKey := key\<rparr>"
definition WithBaseURL :: "string \<Rightarrow> client_opt" where "WithBaseURL u c = c\<lparr>c_baseURL := trimSuffix u ''/''\<rparr>"
definition WithUserAgent :: "string \<Rightarrow> client_opt" where "WithUserAgent ua c = c\<lparr>c_userAgent := ua\<rparr>"

record api_err =
  ae_StatusCode :: nat
  ae_Code :: string
  ae_Message :: string
  ae_RetryAfter :: int

datatype sdk_err = EApi api_err | ETransport string | ECtx | EDecode string | EMsg string | EExpired

definition NewClient :: "client_opt list \<Rightarrow> (sdk_err, client) result" where
  "NewClient opts =
     (let c = fold (\<lambda>f c. f c) opts \<lparr>c_baseURL = DefaultBaseURL, c_apiKey = [], c_userAgent = ''jdix-go/0.1'', c_maxRetry = 3\<rparr>
      in if c_apiKey c = [] then Inl (EMsg ''jdix: an API key is required (jdix.WithAPIKey)'') else Inr c)"

datatype sentinel = ErrQuotaExceeded | ErrUnauthorized | SdkNotFound | ErrExpired | ErrTimeout

fun errIs :: "api_err \<Rightarrow> sentinel \<Rightarrow> bool" where
  "errIs e ErrQuotaExceeded = (ae_StatusCode e = 429)"
| "errIs e ErrUnauthorized = (ae_StatusCode e = 401 \<or> ae_StatusCode e = 403)"
| "errIs e SdkNotFound = (ae_StatusCode e = 404)"
| "errIs e ErrExpired = (ae_StatusCode e = 410)"
| "errIs e ErrTimeout = False"

text \<open>A response: the status, the body, the code and message read from its first 8 KiB if they are JSON, the
  \<open>Retry-After\<close> header, and what the body decodes to for this call.\<close>

record 'o http_resp =
  hr_Status :: nat
  hr_Body :: string
  hr_Err :: "(string \<times> string) option"
  hr_RetryAfter :: string
  hr_Out :: "(string, 'o) result"

definition decodeError :: "'o http_resp \<Rightarrow> api_err option" where
  "decodeError resp =
     (if hr_Status resp \<ge> 200 \<and> hr_Status resp < 300 then None
      else (let (code, msg0) = (case hr_Err resp of None \<Rightarrow> ([], []) | Some cm \<Rightarrow> cm);
                msg = (if msg0 = [] then TrimSpace (take 8192 (hr_Body resp)) else msg0);
                secs = (if hr_RetryAfter resp = [] then 0 else scanInt (hr_RetryAfter resp))
            in Some \<lparr>ae_StatusCode = hr_Status resp, ae_Code = code, ae_Message = msg,
                     ae_RetryAfter = (if secs > 0 then wrap64 (secs * second) else 0)\<rparr>))"

definition retryable :: "string \<Rightarrow> nat \<Rightarrow> bool" where
  "retryable meth status \<longleftrightarrow> (meth = ''GET'' \<or> meth = ''HEAD'') \<and> status \<in> {0, 500, 502, 503, 504}"

record 'b sdk_request =
  sq_Method :: string
  sq_URL :: string
  sq_Header :: "(string \<times> string) list"
  sq_Body :: "'b option"

text \<open>What sends a request: \<open>http.NewRequestWithContext\<close>, which fails on a URL that does not parse, and the client's \<open>Do\<close>.\<close>

record ('b, 'o, 'w) sdk_transport =
  st_NewRequest :: "string \<Rightarrow> string option"
  st_Do :: "'b sdk_request \<Rightarrow> 'w \<Rightarrow> (string, 'o http_resp) result \<times> 'w"

definition sendOne :: "('b, 'o, 'w) sdk_transport \<Rightarrow> 'b sdk_request \<Rightarrow> 'w \<Rightarrow> (string, 'o http_resp) result \<times> 'w" where
  "sendOne tr rq w = (case st_NewRequest tr (sq_URL rq) of Some e \<Rightarrow> (Inl e, w) | None \<Rightarrow> st_Do tr rq w)"

definition sdk_headers :: "client \<Rightarrow> 'b option \<Rightarrow> (string \<times> string) list" where
  "sdk_headers c body =
     [(''Authorization'', ''Bearer '' @ c_apiKey c), (''User-Agent'', c_userAgent c)]
       @ (if body = None then [] else [(''Content-Type'', ''application/json'')])"

text \<open>The attempts of \<open>do\<close>; \<open>ends a\<close> says whether the context ends in the pause before attempt \<open>a\<close>.\<close>

fun attempts ::
    "('b, 'o, 'w) sdk_transport \<Rightarrow> 'b sdk_request \<Rightarrow> (nat \<Rightarrow> bool) \<Rightarrow> nat \<Rightarrow> nat \<Rightarrow> sdk_err \<Rightarrow> 'w \<Rightarrow> (sdk_err, 'o) result \<times> 'w" where
  "attempts tr rq ends a 0 lastErr w = (Inl lastErr, w)"
| "attempts tr rq ends a (Suc n) lastErr w =
     (if a > 0 \<and> ends a then (Inl ECtx, w)
      else (case sendOne tr rq w of
        (Inl e, w1) \<Rightarrow>
          if st_NewRequest tr (sq_URL rq) \<noteq> None \<or> \<not> retryable (sq_Method rq) 0 then (Inl (ETransport e), w1)
          else attempts tr rq ends (Suc a) n (ETransport e) w1
      | (Inr resp, w1) \<Rightarrow>
          (case decodeError resp of
             None \<Rightarrow> (case hr_Out resp of Inl e \<Rightarrow> (Inl (EDecode e), w1) | Inr x \<Rightarrow> (Inr x, w1))
           | Some ae \<Rightarrow>
               if \<not> retryable (sq_Method rq) (ae_StatusCode ae) then (Inl (EApi ae), w1)
               else attempts tr rq ends (Suc a) n (EApi ae) w1)))"

definition sdk_do ::
    "client \<Rightarrow> ('b, 'o, 'w) sdk_transport \<Rightarrow> (nat \<Rightarrow> bool) \<Rightarrow> string \<Rightarrow> string \<Rightarrow> 'b option \<Rightarrow> (string \<times> string) list \<Rightarrow> 'w
       \<Rightarrow> (sdk_err, 'o) result \<times> 'w" where
  "sdk_do c tr ends meth path body headers w =
     attempts tr \<lparr>sq_Method = meth, sq_URL = c_baseURL c @ path, sq_Header = sdk_headers c body @ headers, sq_Body = body\<rparr>
       ends 0 (Suc (c_maxRetry c)) ECtx w"

section \<open>Sandboxes\<close>

definition NoExpiry :: int where "NoExpiry = - 1"

record sdk_mount =
  sm_Path :: string
  sm_Volume :: string
  sm_SubPath :: string
  sm_ReadOnly :: bool

record create_opts =
  co_Template :: string
  co_TTL :: int
  co_Env :: "(string \<times> string) list"
  co_Mounts :: "sdk_mount list"
  co_Metadata :: "(string \<times> string) list"
  co_IdempotencyKey :: string
  co_KeepAlive :: bool

record create_json =
  cj_Template :: string
  cj_TTLSeconds :: int
  cj_Mounts :: "mount list option"
  cj_Env :: "(string \<times> string) list"
  cj_Metadata :: "(string \<times> string) list"

record sandbox_json =
  sj_ID :: string
  sj_State :: string
  sj_Template :: string
  sj_IsolationTier :: string
  sj_Endpoint :: string
  sj_ExpiresAt :: "int option"
  sj_ColdStart :: bool
  sj_Reason :: string

record sdk_sandbox =
  sx_ID :: string
  sx_Template :: string
  sx_IsolationTier :: string
  sx_Endpoint :: string
  sx_ColdStart :: bool
  sx_state :: string
  sx_expiresAt :: "int option"
  sx_keepAlive :: "int option"
  sx_closed :: bool

text \<open>\<open>int(d.Seconds())\<close>, which truncates towards zero; the detour over a float is exact for durations of less than half a year.\<close>

definition wholeSeconds :: "int \<Rightarrow> int" where
  "wholeSeconds d = sgn d * (\<bar>d\<bar> div second)"

definition createRequest :: "create_opts \<Rightarrow> create_json" where
  "createRequest opts =
     \<lparr>cj_Template = co_Template opts,
      cj_TTLSeconds = (if co_TTL opts = NoExpiry then - 1 else if co_TTL opts > 0 then wholeSeconds (co_TTL opts) else 0),
      cj_Mounts = (if co_Mounts opts = [] then None
        else Some (map (\<lambda>m. \<lparr>m_Path = sm_Path m, m_Source = \<lparr>src_Volume = sm_Volume m, src_SubPath = sm_SubPath m\<rparr>, m_ReadOnly = sm_ReadOnly m\<rparr>)
                    (co_Mounts opts))),
      cj_Env = co_Env opts, cj_Metadata = co_Metadata opts\<rparr>"

definition sdk_newSandbox :: "sandbox_json \<Rightarrow> sdk_sandbox" where
  "sdk_newSandbox j =
     \<lparr>sx_ID = sj_ID j, sx_Template = sj_Template j, sx_IsolationTier = sj_IsolationTier j, sx_Endpoint = sj_Endpoint j,
      sx_ColdStart = sj_ColdStart j, sx_state = sj_State j, sx_expiresAt = sj_ExpiresAt j, sx_keepAlive = None, sx_closed = False\<rparr>"

text \<open>\<open>startKeepAlive\<close>: the interval of the renewals.\<close>

definition keepAliveInterval :: "int \<Rightarrow> int" where
  "keepAliveInterval ttl0 =
     (let ttl = (if ttl0 \<le> 0 then 600 * second else ttl0); i = ttl div 3 in if i < 15 * second then 15 * second else i)"

definition failedErr :: "string \<Rightarrow> sdk_err" where
  "failedErr msg = EApi \<lparr>ae_StatusCode = 422, ae_Code = ''sandbox_failed'', ae_Message = msg, ae_RetryAfter = 0\<rparr>"

definition sdk_Create ::
    "client \<Rightarrow> (create_json, sandbox_json, 'w) sdk_transport \<Rightarrow> (nat \<Rightarrow> bool) \<Rightarrow> create_opts \<Rightarrow> 'w \<Rightarrow> (sdk_err, sdk_sandbox) result \<times> 'w" where
  "sdk_Create c tr ends opts w =
     (if co_Template opts = [] then (Inl (EMsg ''jdix: CreateOpts.Template is required''), w)
      else (case sdk_do c tr ends ''POST'' ''/v1/sandboxes'' (Some (createRequest opts))
                   (if co_IdempotencyKey opts \<noteq> [] then [(''Idempotency-Key'', co_IdempotencyKey opts)] else []) w of
        (Inl e, w1) \<Rightarrow> (Inl e, w1)
      | (Inr out, w1) \<Rightarrow>
          if sj_State out = ''failed'' then (Inl (failedErr (sj_Reason out)), w1)
          else (let s = sdk_newSandbox out
                in (Inr (if co_KeepAlive opts \<and> co_TTL opts \<noteq> NoExpiry then s\<lparr>sx_keepAlive := Some (keepAliveInterval (co_TTL opts))\<rparr> else s), w1))))"

definition sdk_Get ::
    "client \<Rightarrow> (unit, sandbox_json, 'w) sdk_transport \<Rightarrow> (nat \<Rightarrow> bool) \<Rightarrow> string \<Rightarrow> 'w \<Rightarrow> (sdk_err, sdk_sandbox) result \<times> 'w" where
  "sdk_Get c tr ends i w =
     (case sdk_do c tr ends ''GET'' (''/v1/sandboxes/'' @ PathEscape i) None [] w of
        (Inl e, w1) \<Rightarrow> (Inl e, w1)
      | (Inr out, w1) \<Rightarrow> (Inr (sdk_newSandbox out), w1))"

definition sdk_List ::
    "client \<Rightarrow> (unit, sandbox_json list, 'w) sdk_transport \<Rightarrow> (nat \<Rightarrow> bool) \<Rightarrow> string \<Rightarrow> 'w \<Rightarrow> (sdk_err, sdk_sandbox list) result \<times> 'w" where
  "sdk_List c tr ends state w =
     (case sdk_do c tr ends ''GET'' (''/v1/sandboxes'' @ (if state \<noteq> [] then ''?state='' @ QueryEscape state else [])) None [] w of
        (Inl e, w1) \<Rightarrow> (Inl e, w1)
      | (Inr out, w1) \<Rightarrow> (Inr (map sdk_newSandbox out), w1))"

definition Templates :: "client \<Rightarrow> (unit, 't list, 'w) sdk_transport \<Rightarrow> (nat \<Rightarrow> bool) \<Rightarrow> 'w \<Rightarrow> (sdk_err, 't list) result \<times> 'w" where
  "Templates c tr ends w = sdk_do c tr ends ''GET'' ''/v1/templates'' None [] w"

text \<open>\<open>WaitReady\<close>: one poll for each element of the list, which says whether the context is done in the pause after it;
  \<open>None\<close> when the loop is still going at its end.\<close>

fun waitPolls ::
    "client \<Rightarrow> (unit, sandbox_json, 'w) sdk_transport \<Rightarrow> (nat \<Rightarrow> bool) \<Rightarrow> bool list \<Rightarrow> sdk_sandbox \<Rightarrow> 'w
       \<Rightarrow> (sdk_err option \<times> sdk_sandbox \<times> 'w) option" where
  "waitPolls c tr ends [] s w = None"
| "waitPolls c tr ends (ctxDone # ps) s w =
     (case sdk_Get c tr ends (sx_ID s) w of
        (Inl e, w1) \<Rightarrow> Some (Some e, s, w1)
      | (Inr fresh, w1) \<Rightarrow>
          (let s1 = s\<lparr>sx_state := sx_state fresh, sx_expiresAt := sx_expiresAt fresh, sx_Endpoint := sx_Endpoint fresh,
                      sx_IsolationTier := sx_IsolationTier fresh\<rparr> in
           if sx_state s1 = ''running'' then Some (None, s1, w1)
           else if sx_state s1 = ''failed'' then Some (Some (failedErr (sx_state fresh)), s1, w1)
           else if sx_state s1 = ''expired'' then Some (Some EExpired, s1, w1)
           else if ctxDone then Some (Some ECtx, s1, w1)
           else waitPolls c tr ends ps s1 w1))"

definition WaitReady ::
    "client \<Rightarrow> (unit, sandbox_json, 'w) sdk_transport \<Rightarrow> (nat \<Rightarrow> bool) \<Rightarrow> bool list \<Rightarrow> sdk_sandbox \<Rightarrow> 'w
       \<Rightarrow> (sdk_err option \<times> sdk_sandbox \<times> 'w) option" where
  "WaitReady c tr ends ps s w = (if sx_state s = ''running'' then Some (None, s, w) else waitPolls c tr ends ps s w)"

text \<open>\<open>Close\<close>: once; a sandbox that is gone already is no error.\<close>

definition sdk_Close ::
    "client \<Rightarrow> (unit, unit, 'w) sdk_transport \<Rightarrow> (nat \<Rightarrow> bool) \<Rightarrow> sdk_sandbox \<Rightarrow> 'w \<Rightarrow> sdk_err option \<times> sdk_sandbox \<times> 'w" where
  "sdk_Close c tr ends s w =
     (if sx_closed s then (None, s, w)
      else (let s1 = s\<lparr>sx_closed := True, sx_keepAlive := None\<rparr> in
        case sdk_do c tr ends ''DELETE'' (''/v1/sandboxes/'' @ PathEscape (sx_ID s)) None [] w of
          (Inr _, w1) \<Rightarrow> (None, s1, w1)
        | (Inl (EApi ae), w1) \<Rightarrow> (if ae_StatusCode ae = 404 then None else Some (EApi ae), s1, w1)
        | (Inl e, w1) \<Rightarrow> (Some e, s1, w1)))"

section \<open>The data plane\<close>

definition endpointURL :: "sdk_sandbox \<Rightarrow> string \<Rightarrow> (sdk_err, string) result" where
  "endpointURL s path =
     (if sx_Endpoint s = [] then Inl (EMsg (''jdix: sandbox '' @ sx_ID s @ '' has no endpoint yet; call WaitReady first''))
      else Inr (trimSuffix (sx_Endpoint s) ''/'' @ path))"

text \<open>One request, never repeated.\<close>

definition dataPlane ::
    "client \<Rightarrow> ('b, 'o, 'w) sdk_transport \<Rightarrow> sdk_sandbox \<Rightarrow> string \<Rightarrow> string \<Rightarrow> 'b option \<Rightarrow> 'w \<Rightarrow> (sdk_err, 'o) result \<times> 'w" where
  "dataPlane c tr s meth path body w =
     (case endpointURL s path of
        Inl e \<Rightarrow> (Inl e, w)
      | Inr u \<Rightarrow>
          (case sendOne tr \<lparr>sq_Method = meth, sq_URL = u, sq_Header = sdk_headers c body, sq_Body = body\<rparr> w of
             (Inl e, w1) \<Rightarrow> (Inl (ETransport e), w1)
           | (Inr resp, w1) \<Rightarrow>
               (case decodeError resp of
                  Some ae \<Rightarrow> (Inl (EApi ae), w1)
                | None \<Rightarrow> (case hr_Out resp of Inl e \<Rightarrow> (Inl (EDecode e), w1) | Inr x \<Rightarrow> (Inr x, w1)))))"

definition sdk_KeepAlive ::
    "client \<Rightarrow> (unit, int option, 'w) sdk_transport \<Rightarrow> int \<Rightarrow> sdk_sandbox \<Rightarrow> 'w \<Rightarrow> sdk_err option \<times> sdk_sandbox \<times> 'w" where
  "sdk_KeepAlive c tr ttl s w =
     (let n = wholeSeconds ttl; secs = (if n \<le> 0 then 300 else n) in
      case dataPlane c tr s ''POST'' (''/v1/keepalive?ttlSeconds='' @ Itoa secs) None w of
        (Inl e, w1) \<Rightarrow> (Some e, s, w1)
      | (Inr e, w1) \<Rightarrow> (None, s\<lparr>sx_expiresAt := e\<rparr>, w1))"

text \<open>The renewals in the background, over what the loop's \<open>select\<close> takes: a tick, or (\<open>True\<close>) the channel that \<open>Close\<close> closes.
  Errors are ignored.\<close>

definition keepAliveTTL :: "int \<Rightarrow> int" where
  "keepAliveTTL ttl = (if ttl \<le> 0 then 600 * second else ttl)"

fun keepAliveLoop :: "client \<Rightarrow> (unit, int option, 'w) sdk_transport \<Rightarrow> int \<Rightarrow> bool list \<Rightarrow> sdk_sandbox \<Rightarrow> 'w \<Rightarrow> sdk_sandbox \<times> 'w" where
  "keepAliveLoop c tr ttl [] s w = (s, w)"
| "keepAliveLoop c tr ttl (True # es) s w = (s, w)"
| "keepAliveLoop c tr ttl (False # es) s w =
     (case sdk_KeepAlive c tr (keepAliveTTL ttl) s w of (err, s1, w1) \<Rightarrow> keepAliveLoop c tr ttl es s1 w1)"

record run_opts =
  ru_Cwd :: string
  ru_Env :: "string \<rightharpoonup> string"
  ru_Timeout :: int
  ru_MaxOutputBytes :: int
  ru_Argv :: "string list"

definition noRunOpts :: run_opts where
  "noRunOpts = \<lparr>ru_Cwd = [], ru_Env = Map.empty, ru_Timeout = 0, ru_MaxOutputBytes = 0, ru_Argv = []\<rparr>"

definition runRequest :: "string \<Rightarrow> run_opts list \<Rightarrow> exec_request" where
  "runRequest cmd opts =
     (let ro = (case opts of [] \<Rightarrow> noRunOpts | x # xs \<Rightarrow> x)
      in \<lparr>xr_Cmd = cmd, xr_Argv = ru_Argv ro, xr_Cwd = ru_Cwd ro, xr_Env = ru_Env ro,
          xr_TimeoutSeconds = (if ru_Timeout ro > 0 then wholeSeconds (ru_Timeout ro) else 0), xr_MaxOutputBytes = ru_MaxOutputBytes ro\<rparr>)"

definition Run ::
    "client \<Rightarrow> (exec_request, exec_result, 'w) sdk_transport \<Rightarrow> sdk_sandbox \<Rightarrow> string \<Rightarrow> run_opts list \<Rightarrow> 'w \<Rightarrow> (sdk_err, exec_result) result \<times> 'w" where
  "Run c tr s cmd opts w = dataPlane c tr s ''POST'' ''/v1/exec'' (Some (runRequest cmd opts)) w"

text \<open>The query a streaming run is opened with, as parameters.\<close>

definition runStreamQuery :: "string \<Rightarrow> run_opts list \<Rightarrow> (string \<times> string) list" where
  "runStreamQuery cmd opts =
     (''cmd'', cmd) # (case opts of [] \<Rightarrow> [] | ro # xs \<Rightarrow>
        if ru_Timeout ro > 0 then [(''timeoutSeconds'', Itoa (wholeSeconds (ru_Timeout ro)))] else [])"

definition ptyQuery :: "string \<Rightarrow> int \<Rightarrow> int \<Rightarrow> (string \<times> string) list" where
  "ptyQuery cmd cols rows =
     (if cmd \<noteq> [] then [(''cmd'', cmd)] else []) @ (if cols > 0 then [(''cols'', Itoa cols)] else [])
       @ (if rows > 0 then [(''rows'', Itoa rows)] else [])"

text \<open>Where a stream is dialled: the first scheme found is replaced, and the parameters are appended, by key.\<close>

fun replaceFirst :: "string \<Rightarrow> string \<Rightarrow> string \<Rightarrow> string" where
  "replaceFirst old new [] = []"
| "replaceFirst old new (c # s) = (if hasPrefix (c # s) old then new @ drop (length old) (c # s) else c # replaceFirst old new s)"

definition encodeQuery :: "(string \<times> string) list \<Rightarrow> string" where
  "encodeQuery q = join ''&'' (map (\<lambda>(k, v). QueryEscape k @ ''='' @ QueryEscape v) (sort_key fst q))"

definition streamURL :: "sdk_sandbox \<Rightarrow> string \<Rightarrow> (string \<times> string) list \<Rightarrow> (sdk_err, string) result" where
  "streamURL s path q =
     (case endpointURL s path of
        Inl e \<Rightarrow> Inl e
      | Inr base \<Rightarrow>
          Inr (replaceFirst ''http://'' ''ws://'' (replaceFirst ''https://'' ''wss://'' base) @ (if q = [] then [] else ''?'' @ encodeQuery q)))"

section \<open>Files\<close>

text \<open>\<open>openStream\<close>: the dial carries the API key; a stream starts with nothing read.\<close>

definition openStream ::
    "client \<Rightarrow> (string \<Rightarrow> (string \<times> string) list \<Rightarrow> 'w \<Rightarrow> (string, 'n) result \<times> 'w) \<Rightarrow> sdk_sandbox \<Rightarrow> string \<Rightarrow> (string \<times> string) list \<Rightarrow> 'w
       \<Rightarrow> (sdk_err, 'n) result \<times> 'w" where
  "openStream c dial s path q w =
     (case streamURL s path q of
        Inl e \<Rightarrow> (Inl e, w)
      | Inr u \<Rightarrow>
          (case dial u [(''Authorization'', ''Bearer '' @ c_apiKey c)] w of
             (Inl e, w1) \<Rightarrow> (Inl (ETransport e), w1)
           | (Inr conn, w1) \<Rightarrow> (Inr conn, w1)))"

definition filePath :: "string \<Rightarrow> string" where
  "filePath p = ''path='' @ QueryEscape p"

definition removeQuery :: "string \<Rightarrow> bool \<Rightarrow> string" where
  "removeQuery p recursive = filePath p @ (if recursive then ''&recursive=true'' else [])"

definition Files_Open :: "client \<Rightarrow> (unit, string, 'w) sdk_transport \<Rightarrow> sdk_sandbox \<Rightarrow> string \<Rightarrow> 'w \<Rightarrow> (sdk_err, string) result \<times> 'w" where
  "Files_Open c tr s p w =
     (case endpointURL s (''/v1/files?'' @ filePath p) of
        Inl e \<Rightarrow> (Inl e, w)
      | Inr u \<Rightarrow>
          (case sendOne tr \<lparr>sq_Method = ''GET'', sq_URL = u, sq_Header = [(''Authorization'', ''Bearer '' @ c_apiKey c)], sq_Body = None\<rparr> w of
             (Inl e, w1) \<Rightarrow> (Inl (ETransport e), w1)
           | (Inr resp, w1) \<Rightarrow> (case decodeError resp of Some ae \<Rightarrow> (Inl (EApi ae), w1) | None \<Rightarrow> (Inr (hr_Body resp), w1))))"

definition Files_Write ::
    "client \<Rightarrow> (string, unit, 'w) sdk_transport \<Rightarrow> sdk_sandbox \<Rightarrow> string \<Rightarrow> string \<Rightarrow> 'w \<Rightarrow> sdk_err option \<times> 'w" where
  "Files_Write c tr s p content w =
     (case endpointURL s (''/v1/files?'' @ filePath p) of
        Inl e \<Rightarrow> (Some e, w)
      | Inr u \<Rightarrow>
          (case sendOne tr \<lparr>sq_Method = ''PUT'', sq_URL = u,
                    sq_Header = [(''Authorization'', ''Bearer '' @ c_apiKey c), (''Content-Type'', ''application/octet-stream'')], sq_Body = Some content\<rparr> w of
             (Inl e, w1) \<Rightarrow> (Some (ETransport e), w1)
           | (Inr resp, w1) \<Rightarrow> (map_option EApi (decodeError resp), w1)))"

definition Files_List :: "client \<Rightarrow> (unit, file_info list, 'w) sdk_transport \<Rightarrow> sdk_sandbox \<Rightarrow> string \<Rightarrow> 'w \<Rightarrow> (sdk_err, file_info list) result \<times> 'w" where
  "Files_List c tr s p w = dataPlane c tr s ''GET'' (''/v1/files/list?'' @ filePath p) None w"

definition Files_Remove :: "client \<Rightarrow> (unit, unit, 'w) sdk_transport \<Rightarrow> sdk_sandbox \<Rightarrow> string \<Rightarrow> bool \<Rightarrow> 'w \<Rightarrow> (sdk_err, unit) result \<times> 'w" where
  "Files_Remove c tr s p recursive w = dataPlane c tr s ''DELETE'' (''/v1/files?'' @ removeQuery p recursive) None w"

definition Processes :: "client \<Rightarrow> (unit, process list, 'w) sdk_transport \<Rightarrow> sdk_sandbox \<Rightarrow> 'w \<Rightarrow> (sdk_err, process list) result \<times> 'w" where
  "Processes c tr s w = dataPlane c tr s ''GET'' ''/v1/processes'' None w"

definition sdk_Signal :: "client \<Rightarrow> (unit, unit, 'w) sdk_transport \<Rightarrow> sdk_sandbox \<Rightarrow> int \<Rightarrow> string \<Rightarrow> 'w \<Rightarrow> (sdk_err, unit) result \<times> 'w" where
  "sdk_Signal c tr s pid sig w =
     dataPlane c tr s ''DELETE'' (''/v1/processes/'' @ Itoa pid @ ''?signal='' @ QueryEscape sig) None w"

definition Expose :: "client \<Rightarrow> (int \<times> bool, string, 'w) sdk_transport \<Rightarrow> sdk_sandbox \<Rightarrow> int \<Rightarrow> 'w \<Rightarrow> (sdk_err, string) result \<times> 'w" where
  "Expose c tr s port w =
     (case dataPlane c tr s ''POST'' ''/v1/ports'' (Some (port, True)) w of
        (Inl e, w1) \<Rightarrow> (Inl e, w1)
      | (Inr url, w1) \<Rightarrow>
          if url = [] then (Inl (EApi \<lparr>ae_StatusCode = 0, ae_Code = ''no_url'', ae_Message = ''the gateway did not say where this port is published'', ae_RetryAfter = 0\<rparr>), w1)
          else (Inr url, w1))"

section \<open>Streams\<close>

definition Stdin :: "string \<Rightarrow> frame" where "Stdin p = (aFrame ''stdin'')\<lparr>fr_D := b64encode p\<rparr>"
definition CloseStdin :: frame where "CloseStdin = aFrame ''stdin''"
definition stream_Signal :: "string \<Rightarrow> frame" where "stream_Signal sig = (aFrame ''signal'')\<lparr>fr_Sig := sig\<rparr>"
definition Resize :: "int \<Rightarrow> int \<Rightarrow> frame" where "Resize cols rows = (aFrame ''resize'')\<lparr>fr_Cols := cols, fr_Rows := rows\<rparr>"

datatype sdk_input = SReadErr string bool | SMsg "(string, frame) result"

datatype event = EvData string string | EvExit int int | EvError sdk_err

text \<open>The client's pump: what it puts into the channel, and the frames it sends back.\<close>

fun pump :: "sdk_input list \<Rightarrow> event list \<times> frame list" where
  "pump [] = ([], [])"
| "pump (SReadErr e ctxDone # ms) = (if ctxDone then [] else [EvError (ETransport e)], [])"
| "pump (SMsg (Inl e) # ms) = (case pump ms of (evs, fs) \<Rightarrow> (EvError (EDecode e) # evs, fs))"
| "pump (SMsg (Inr f) # ms) =
     (case pump ms of (evs, fs) \<Rightarrow>
       (if fr_T f = ''stdout'' \<or> fr_T f = ''stderr'' then
          (case b64decode (fr_D f) of
             None \<Rightarrow> (EvError (EDecode (fr_D f)) # evs, fs)
           | Some raw \<Rightarrow> (EvData (fr_T f) raw # evs, fs))
        else if fr_T f = ''exit'' then ([EvExit (fr_Code f) (fr_DurationMs f)], [])
        else if fr_T f = ''error'' then
          (EvError (EApi \<lparr>ae_StatusCode = 0, ae_Code = fr_ErrCode f, ae_Message = fr_Msg f, ae_RetryAfter = 0\<rparr>) # evs, fs)
        else if fr_T f = ''ping'' then (evs, aFrame ''pong'' # fs)
        else (evs, fs)))"

text \<open>\<open>Collect\<close>: the result so far, the two buffers, and the events still to come.\<close>

fun collectFrom :: "exec_result \<Rightarrow> string \<Rightarrow> string \<Rightarrow> event list \<Rightarrow> exec_result \<times> sdk_err option" where
  "collectFrom res out err [] = (res\<lparr>er_Stdout := out, er_Stderr := err\<rparr>, None)"
| "collectFrom res out err (EvData k d # evs) =
     (if k = ''stdout'' then collectFrom res (out @ d) err evs
      else if k = ''stderr'' then collectFrom res out (err @ d) evs else collectFrom res out err evs)"
| "collectFrom res out err (EvExit code ms # evs) = collectFrom (res\<lparr>er_ExitCode := code, er_DurationMs := ms\<rparr>) out err evs"
| "collectFrom res out err (EvError e # evs) = (res, Some e)"

definition noResult :: exec_result where
  "noResult = \<lparr>er_ExitCode = - 1, er_Stdout = [], er_Stderr = [], er_DurationMs = 0, er_Truncated = False, er_TimedOut = False\<rparr>"

definition sdk_Collect :: "event list \<Rightarrow> exec_result \<times> sdk_err option" where
  "sdk_Collect evs = collectFrom noResult [] [] evs"

section \<open>Escaping: lemmas\<close>

lemma unhex_upperhex: "n < 16 \<Longrightarrow> unhex (upperhex n) = Some n"
  by (simp add: unhex_def upperhex_def Let_def)

lemma upperhex_plain: "n < 16 \<Longrightarrow> unreserved (upperhex n)"
  by (simp add: unreserved_def upperhex_def Let_def)

lemma unreserved_not: "unreserved c \<Longrightarrow> c \<notin> {CHR ''%'', CHR ''+'', CHR ''&'', CHR ''='', CHR '';'', CHR '' ''}"
  by (auto simp: unreserved_def)

lemma nibbles: "of_char c div 16 < (16 :: nat)" "of_char c mod 16 < (16 :: nat)"
proof -
  have "of_char c < (256 :: nat)" by (metis nat_of_char_less_256)
  then show "of_char c div 16 < (16 :: nat)" by (intro less_mult_imp_div_less) simp
qed simp

lemma PathUnescape_percent: "PathUnescape (percent c @ s) = map_option ((#) c) (PathUnescape s)"
proof -
  have "16 * (of_char c div 16) + of_char c mod 16 = (of_char c :: nat)" by simp
  then have "char_of (16 * (of_char c div 16) + of_char c mod 16 :: nat) = c" by (metis char_of_char)
  then show ?thesis by (simp add: percent_def Let_def unhex_upperhex nibbles)
qed

definition plusToSpace :: "char \<Rightarrow> char" where
  "plusToSpace c = (if c = CHR ''+'' then CHR '' '' else c)"

lemma map_plus_percent: "map plusToSpace (percent c) = percent c"
  using unreserved_not [OF upperhex_plain [OF nibbles(1) [of c]]] unreserved_not [OF upperhex_plain [OF nibbles(2) [of c]]]
  by (simp add: percent_def Let_def plusToSpace_def)

lemma QueryUnescape_escape [simp]: "QueryUnescape (QueryEscape s) = Some s"
proof (induction s)
  case Nil
  show ?case by (simp add: QueryUnescape_def)
next
  case (Cons c s)
  have IH: "PathUnescape (map plusToSpace (QueryEscape s)) = Some s"
    using Cons by (simp add: QueryUnescape_def plusToSpace_def [abs_def])
  consider "c = CHR '' ''" | "c \<noteq> CHR '' ''" "unreserved c" | "c \<noteq> CHR '' ''" "\<not> unreserved c" by blast
  then have "PathUnescape (map plusToSpace (QueryEscape (c # s))) = Some (c # s)"
  proof cases
    case 1
    then show ?thesis using IH by (simp add: plusToSpace_def)
  next
    case 2
    then show ?thesis using IH unreserved_not [OF 2(2)] by (simp add: plusToSpace_def)
  next
    case 3
    then show ?thesis using IH by (simp add: map_plus_percent PathUnescape_percent)
  qed
  then show ?case by (simp add: QueryUnescape_def plusToSpace_def [abs_def])
qed

lemma PathUnescape_escape [simp]: "PathUnescape (PathEscape s) = Some s"
proof (induction s)
  case (Cons c s)
  then show ?case using unreserved_not [of c] by (auto simp: PathUnescape_percent)
qed simp

lemma QueryEscape_chars: "x \<in> set (QueryEscape s) \<Longrightarrow> unreserved x \<or> x = CHR ''+'' \<or> x = CHR ''%''"
  by (induction s) (auto simp: percent_def Let_def upperhex_plain nibbles split: if_splits)

lemma QueryEscape_plain: "CHR ''&'' \<notin> set (QueryEscape s)" "CHR ''='' \<notin> set (QueryEscape s)" "CHR '';'' \<notin> set (QueryEscape s)"
  using QueryEscape_chars unreserved_not by fastforce+

text \<open>A pair of parameter and value survives the way through the query.\<close>

lemma parsePairs_escaped:
  "parsePairs ((QueryEscape k @ CHR ''='' # QueryEscape v) # kvs) = (k, v) # parsePairs kvs"
  by (simp add: QueryEscape_plain cut_sep)

lemma path_escaped: "''path'' = QueryEscape ''path''" "''recursive'' = QueryEscape ''recursive''" "''true'' = QueryEscape ''true''"
  by (simp_all add: unreserved_def)

lemma file_query:
  "qget (ParseQuery (removeQuery p recursive)) ''path'' = p"
  "qget (ParseQuery (removeQuery p recursive)) ''recursive'' = (if recursive then ''true'' else [])"
proof -
  have "parsePairs ((''path='' @ QueryEscape p) # kvs) = (''path'', p) # parsePairs kvs" for kvs
    using parsePairs_escaped [of "''path''" p kvs] by (simp add: unreserved_def)
  moreover have "parsePairs [''recursive=true''] = [(''recursive'', ''true'')]" by code_simp
  moreover have "split_on (CHR ''&'') (filePath p) = [filePath p]"
    using QueryEscape_plain(1) by (intro split_on_free) (simp add: filePath_def)
  moreover have "split_on (CHR ''&'') (filePath p @ CHR ''&'' # ''recursive=true'') = [filePath p, ''recursive=true'']"
    using \<open>split_on (CHR ''&'') (filePath p) = [filePath p]\<close> by (simp add: split_on_append_sep)
  ultimately show "qget (ParseQuery (removeQuery p recursive)) ''path'' = p"
    "qget (ParseQuery (removeQuery p recursive)) ''recursive'' = (if recursive then ''true'' else [])"
    by (simp_all add: ParseQuery_def removeQuery_def filePath_def qget_def)
qed

section \<open>How often a request is sent\<close>

text \<open>A lifetime of at least 45 seconds is renewed three times before it ends; one of at most 15 seconds has ended before the
  first renewal.\<close>

lemma renewal_in_time: "45 * second \<le> ttl \<Longrightarrow> 3 * keepAliveInterval ttl \<le> ttl"
  by (simp add: keepAliveInterval_def Let_def second_def) linarith

lemma short_lifetime_not_renewed: "0 < ttl \<Longrightarrow> ttl \<le> 15 * second \<Longrightarrow> ttl \<le> keepAliveInterval ttl"
  by (simp add: keepAliveInterval_def Let_def second_def)

text \<open>Nothing is renewed after the channel is closed.\<close>

lemma keepAliveLoop_stops: "keepAliveLoop c tr ttl (es @ True # es') s w = keepAliveLoop c tr ttl (es @ [True]) s w"
  by (induction c tr ttl es s w rule: keepAliveLoop.induct) (simp_all split: prod.splits)

definition counted :: "('b, 'o, 'w) sdk_transport \<Rightarrow> ('b, 'o, 'w \<times> nat) sdk_transport" where
  "counted tr = \<lparr>st_NewRequest = st_NewRequest tr,
     st_Do = (\<lambda>rq wn. case st_Do tr rq (fst wn) of (r, w1) \<Rightarrow> (r, w1, Suc (snd wn)))\<rparr>"

lemma sendOne_counted: "\<exists>r w1 n. sendOne (counted tr) rq wn = (r, w1, n) \<and> n \<le> Suc (snd wn)"
  by (cases wn) (auto simp: sendOne_def counted_def split: option.splits prod.splits)

lemma attempts_counted:
  "snd (snd (attempts (counted tr) rq ends a n e wn)) \<le> snd wn + n"
proof (induction n arbitrary: a e wn)
  case (Suc n)
  obtain r w1 m where s: "sendOne (counted tr) rq wn = (r, w1, m)" "m \<le> Suc (snd wn)" using sendOne_counted [of tr rq wn] by blast
  have IH: "snd (snd (attempts (counted tr) rq ends a' n e' (w1, m))) \<le> Suc (snd wn + n)" for a' e'
    using Suc [of a' e' "(w1, m)"] s(2) by simp
  then show ?case using s by (auto split: sum.splits option.splits)
qed simp

lemma attempts_once:
  assumes "\<And>st. \<not> retryable (sq_Method rq) st"
  shows "snd (snd (attempts (counted tr) rq ends 0 (Suc n) e wn)) \<le> Suc (snd wn)"
proof -
  obtain r w1 m where "sendOne (counted tr) rq wn = (r, w1, m)" "m \<le> Suc (snd wn)" using sendOne_counted [of tr rq wn] by blast
  then show ?thesis using assms by (auto split: sum.splits option.splits)
qed

lemma not_retryable: "meth \<noteq> ''GET'' \<Longrightarrow> meth \<noteq> ''HEAD'' \<Longrightarrow> \<not> retryable meth st"
  by (simp add: retryable_def)

lemma sdk_do_once:
  "meth \<noteq> ''GET'' \<Longrightarrow> meth \<noteq> ''HEAD'' \<Longrightarrow> snd (snd (sdk_do c (counted tr) ends meth path body hs wn)) \<le> Suc (snd wn)"
  unfolding sdk_do_def by (rule attempts_once) (simp add: not_retryable)

lemma dataPlane_once: "snd (snd (dataPlane c (counted tr) s meth path body wn)) \<le> Suc (snd wn)"
proof (cases "endpointURL s path")
  case (Inr u)
  let ?rq = "\<lparr>sq_Method = meth, sq_URL = u, sq_Header = sdk_headers c body, sq_Body = body\<rparr>"
  obtain r w1 m where "sendOne (counted tr) ?rq wn = (r, w1, m)" "m \<le> Suc (snd wn)" using sendOne_counted [of tr ?rq wn] by blast
  then show ?thesis using Inr by (auto simp: dataPlane_def split: sum.splits option.splits)
qed (simp add: dataPlane_def)

lemma snd_case_result:
  "snd (case x of (Inl e, w1) \<Rightarrow> (f e, w1) | (Inr out, w1) \<Rightarrow> (g out, w1)) = snd x"
  by (auto split: prod.splits sum.splits)

section \<open>A stream from end to end\<close>

text \<open>What the frames of one kind carry.\<close>

definition carried :: "string \<Rightarrow> frame list \<Rightarrow> string option" where
  "carried k fs = payload (filter (\<lambda>f. fr_T f = k) fs)"

definition outputFrame :: "frame \<Rightarrow> bool" where
  "outputFrame f \<longleftrightarrow> ((fr_T f = ''stdout'' \<or> fr_T f = ''stderr'') \<and> b64decode (fr_D f) \<noteq> None) \<or> fr_T f = ''ping''"

lemma carried_Nil [simp]: "carried k [] = Some []"
  by (simp add: carried_def payload_def)

lemma carried_Cons:
  "carried k (f # fs) = (if fr_T f = k then (case (b64decode (fr_D f), carried k fs) of (Some x, Some y) \<Rightarrow> Some (x @ y) | _ \<Rightarrow> None) else carried k fs)"
  by (simp add: carried_def payload_def)

lemma carried_Some: "\<forall>f \<in> set fs. outputFrame f \<Longrightarrow> k \<noteq> ''ping'' \<Longrightarrow> \<exists>x. carried k fs = Some x"
  by (induction fs) (auto simp: carried_Cons outputFrame_def)

lemma collect_frames:
  assumes "\<forall>f \<in> set fs. outputFrame f"
  shows "collectFrom res out err (fst (pump (map (SMsg \<circ> Inr) (fs @ exitFrame code ms # later))))
    = (res\<lparr>er_ExitCode := code, er_DurationMs := ms, er_Stdout := out @ the (carried ''stdout'' fs), er_Stderr := err @ the (carried ''stderr'' fs)\<rparr>, None)"
  using assms
proof (induction fs arbitrary: out err)
  case Nil
  obtain evs gs where "pump (map (SMsg \<circ> Inr) later) = (evs, gs)" by force
  then show ?case by (simp add: exitFrame_def aFrame_def)
next
  case (Cons f fs)
  obtain evs gs where p: "pump (map (SMsg \<circ> Inr) (fs @ exitFrame code ms # later)) = (evs, gs)" by force
  obtain so se where c: "carried ''stdout'' fs = Some so" "carried ''stderr'' fs = Some se"
    using carried_Some [of fs "''stdout''"] carried_Some [of fs "''stderr''"] Cons.prems by auto
  have f: "outputFrame f" using Cons.prems by simp
  have IH: "collectFrom res out err evs
      = (res\<lparr>er_ExitCode := code, er_DurationMs := ms, er_Stdout := out @ so, er_Stderr := err @ se\<rparr>, None)" for out err
    using Cons.IH [of out err, unfolded p c] Cons.prems by simp
  have pm: "pump (map (SMsg \<circ> Inr) ((f # fs) @ exitFrame code ms # later)) = pump (SMsg (Inr f) # map (SMsg \<circ> Inr) (fs @ exitFrame code ms # later))"
    by simp
  consider (out) x where "fr_T f = ''stdout''" "b64decode (fr_D f) = Some x"
    | (err) x where "fr_T f = ''stderr''" "b64decode (fr_D f) = Some x" | (ping) "fr_T f = ''ping''"
    using f by (auto simp: outputFrame_def)
  then show ?case
    unfolding pm pump.simps(4) p prod.case
    by cases (simp_all add: IH c carried_Cons)
qed

lemma pump_wire:
  assumes "\<not> wc_broken c" "\<forall>(dat, err, d) \<in> set rs. \<not> d" "kind \<in> {''stdout'', ''stderr''}"
  shows "\<exists>fs. wc_wire (pumpStream kind rs c) = wc_wire c @ fs \<and> \<not> wc_broken (pumpStream kind rs c) \<and> (\<forall>f \<in> set fs. outputFrame f)
    \<and> carried kind fs = Some (concat (untilErr rs)) \<and> (\<forall>k. k \<noteq> kind \<longrightarrow> carried k fs = Some [])"
  using assms
proof (induction rs arbitrary: c)
  case Nil
  then show ?case by simp
next
  case (Cons r rs)
  obtain dat err d where r: "r = (dat, err, d)" by (metis prod.exhaust)
  have d: "\<not> d" "\<forall>(dat, err, d) \<in> set rs. \<not> d" using Cons.prems r by auto
  let ?f = "(aFrame kind)\<lparr>fr_D := b64encode dat\<rparr>"
  obtain f1 c1 where o: "ws_send False ?f c = (True, c1)" "\<not> wc_broken c1" "wc_wire c1 = wc_wire c @ [f1]" "fr_D f1 = fr_D ?f" "fr_T f1 = fr_T ?f"
    using ws_send_ok [OF Cons.prems(1), of ?f] by blast
  then have f1: "fr_D f1 = b64encode dat" "fr_T f1 = kind" by (simp_all add: aFrame_def)
  have outf: "outputFrame f1" using f1 Cons.prems(3) by (auto simp: outputFrame_def)
  consider (nil) "dat = []" "\<not> err" | (nilE) "dat = []" "err" | (dat) "dat \<noteq> []" "\<not> err" | (datE) "dat \<noteq> []" "err" by blast
  then show ?case
  proof cases
    case nil
    then show ?thesis using Cons.IH [OF Cons.prems(1) d(2) Cons.prems(3)] r by simp
  next
    case nilE
    then show ?thesis using r Cons.prems(1) by simp
  next
    case datE
    then show ?thesis using r o d f1 outf by (intro exI [of _ "[f1]"]) (simp add: carried_Cons)
  next
    case dat
    obtain fs where fs: "wc_wire (pumpStream kind rs c1) = wc_wire c1 @ fs" "\<not> wc_broken (pumpStream kind rs c1)" "\<forall>f \<in> set fs. outputFrame f"
      "carried kind fs = Some (concat (untilErr rs))" "\<forall>k. k \<noteq> kind \<longrightarrow> carried k fs = Some []"
      using Cons.IH [OF o(2) d(2) Cons.prems(3)] by blast
    then show ?thesis using dat r o d f1 outf by (intro exI [of _ "f1 # fs"]) (simp add: carried_Cons)
  qed
qed

lemma carried_append: "carried k fs = Some x \<Longrightarrow> carried k gs = Some y \<Longrightarrow> carried k (fs @ gs) = Some (x @ y)"
  by (induction fs arbitrary: x) (auto simp: carried_Cons split: if_splits option.splits)

section \<open>Properties\<close>




text \<open>Closing the input does not close it. \<open>CloseStdin\<close> sends a stdin frame without a payload; the server decodes it to no
  bytes and writes none, so the process never sees the end of its input: whatever was sent before, any number of such frames
  leaves the pipe as it was and open. Only the loss of the connection closes it.\<close>

lemma CloseStdin_closes_nothing:
  assumes "ct_stdin ct = Some w" and "pipeOk []"
  shows "readControl pid pty pipeOk grp msg (replicate n (Received (Inr CloseStdin))) ct = ct
    \<and> ct_closed (readControl pid pty pipeOk grp msg (replicate n (Received (Inr CloseStdin)) @ [ReadFailed]) ct)"
proof -
  have d: "b64decode [] = Some []" by (simp add: b64decode_def b64pad_def b64dec_def)
  have step: "controlFrame pid pty pipeOk grp msg CloseStdin ct = (True, ct)"
    using assms d by (simp add: controlFrame_def CloseStdin_def aFrame_def)
  have "readControl pid pty pipeOk grp msg (replicate n (Received (Inr CloseStdin)) @ ms) ct = readControl pid pty pipeOk grp msg ms ct" for ms
    by (induction n) (simp_all add: step)
  from this [of "[]"] this [of "[ReadFailed]"] show ?thesis using assms(1) by simp
qed

text \<open>A streaming run passes on the command and the timeout only: the arguments, the directory and the environment of its
  options never reach the server, which would take the first two. A caller who set \<open>Argv\<close> gets the shell.\<close>

lemma RunStream_drops_options:
  "execReqFromQuery (runStreamQuery cmd [ro]) = execReqFromQuery (runStreamQuery cmd [noRunOpts\<lparr>ru_Timeout := ru_Timeout ro\<rparr>])"
  "xr_Argv (execReqFromQuery (runStreamQuery cmd [ro])) = [] \<and> xr_Cwd (execReqFromQuery (runStreamQuery cmd [ro])) = []"
  by (simp_all add: runStreamQuery_def execReqFromQuery_def noRunOpts_def qget_def)

text \<open>A lifetime or a timeout of less than a second is rounded to zero, which asks for the default.\<close>

lemma short_ttl_means_default:
  "0 < co_TTL opts \<Longrightarrow> co_TTL opts < second \<Longrightarrow> cj_TTLSeconds (createRequest opts) = 0"
  by (simp add: createRequest_def NoExpiry_def wholeSeconds_def)

text \<open>\<open>WaitReady\<close> returns as soon as its context is done, and what it made of the polls up to then does not depend on later ones.\<close>

lemma waitPolls_more: "waitPolls c tr ends ps s w = Some r \<Longrightarrow> waitPolls c tr ends (ps @ qs) s w = Some r"
  by (induction ps arbitrary: s w) (auto simp: Let_def split: prod.splits sum.splits if_splits)

lemma WaitReady_returns: "\<exists>r. WaitReady c tr ends (ps @ True # qs) s w = Some r"
proof -
  have "\<exists>r. waitPolls c tr ends (ps @ [True]) s w = Some r" for s w
    by (induction ps arbitrary: s w) (auto simp: Let_def split: prod.splits sum.splits)
  then obtain r where "waitPolls c tr ends (ps @ [True]) s w = Some r" by blast
  then show ?thesis using waitPolls_more [of c tr ends "ps @ [True]" s w r qs] by (cases r) (simp add: WaitReady_def)
qed

text \<open>A failed sandbox is reported by \<open>WaitReady\<close> with the word failed for its message, and not with the reason.\<close>

lemma WaitReady_hides_reason:
  assumes "sdk_Get c tr ends (sx_ID s) w = (Inr fresh, w1)" "sx_state fresh = ''failed''" "sx_state s \<noteq> ''running''"
  shows "\<exists>s1. WaitReady c tr ends (b # bs) s w = Some (Some (failedErr ''failed''), s1, w1)"
  using assms by (simp add: WaitReady_def)

end
