(* ===== verification/Go_Flags.thy ===== *)
theory Go_Flags
  imports Go_Strings
begin

text \<open>
  Command lines as Go's \<open>flag\<close> package reads them: \<open>--name=value\<close>, \<open>--name value\<close>, one dash or two, a Boolean flag
  alone, and the end of the flags at the first other argument or at \<open>--\<close>. The binaries use the package's default error
  handling, so every error ends the process. An argument vector is printed by the controller and by execd and read by
  execd and jdix-init; the lemmas here are what that composition needs.
\<close>

section \<open>Parsing\<close>

datatype flag_error = BadSyntax string | UndefinedFlag string | HelpRequested | NeedsArgument string | BadValue string string

datatype flag_kind = StringFlag | BoolFlag | ValueFlag "string \<Rightarrow> bool"

text \<open>The declared flags; \<open>ValueFlag ok\<close> is one whose value is parsed, durations and integers, and accepts what \<open>ok\<close> holds of.\<close>

type_synonym flag_set = "string \<rightharpoonup> flag_kind"

definition ParseBool :: "string \<Rightarrow> bool option" where
  "ParseBool s =
     (if s \<in> {''1'', ''t'', ''T'', ''true'', ''TRUE'', ''True''} then Some True
      else if s \<in> {''0'', ''f'', ''F'', ''false'', ''FALSE'', ''False''} then Some False else None)"

fun valueOk :: "flag_kind \<Rightarrow> string \<Rightarrow> bool" where
  "valueOk StringFlag v = True"
| "valueOk BoolFlag v = (ParseBool v \<noteq> None)"
| "valueOk (ValueFlag ok) v = ok v"

text \<open>The name of a flag argument; \<open>None\<close> when the argument is not a flag.\<close>

definition flagName :: "string \<Rightarrow> string option" where
  "flagName s = (if length s < 2 \<or> hd s \<noteq> CHR ''-'' then None else Some (if s ! 1 = CHR ''-'' then drop 2 s else drop 1 s))"

text \<open>The equals sign is looked for from the second character on.\<close>

definition splitName :: "string \<Rightarrow> string \<times> string option" where
  "splitName n =
     (case cut (CHR ''='') (tl n) of (a, v, found) \<Rightarrow> (hd n # a, if found then Some v else None))"

text \<open>\<open>CommandLine.Parse\<close>: the values set, in order.\<close>

function parseFlags :: "flag_set \<Rightarrow> string list \<Rightarrow> (flag_error, (string \<times> string) list) result" where
  "parseFlags fs [] = Inr []"
| "parseFlags fs (s # args) =
     (case flagName s of
        None \<Rightarrow> Inr []
      | Some n \<Rightarrow>
          if s = ''--'' then Inr []
          else if n = [] \<or> hd n = CHR ''-'' \<or> hd n = CHR ''='' then Inl (BadSyntax s)
          else (case splitName n of (name, val) \<Rightarrow>
            (case fs name of
               None \<Rightarrow> Inl (if name = ''help'' \<or> name = ''h'' then HelpRequested else UndefinedFlag name)
             | Some k \<Rightarrow>
                 (case (if k = BoolFlag \<and> val = None then Some (''true'', args)
                        else (case val of
                                Some v \<Rightarrow> Some (v, args)
                              | None \<Rightarrow> (case args of [] \<Rightarrow> None | v # rest \<Rightarrow> Some (v, rest)))) of
                    None \<Rightarrow> Inl (NeedsArgument name)
                  | Some (v, rest) \<Rightarrow>
                      if \<not> valueOk k v then Inl (BadValue name v)
                      else (case parseFlags fs rest of Inl e \<Rightarrow> Inl e | Inr vs \<Rightarrow> Inr ((name, v) # vs))))))"
  by pat_completeness auto
termination
  by (relation "measure (length \<circ> snd)") (auto split: option.splits list.splits if_splits prod.splits)

text \<open>The value a flag has afterwards: the last one set, or its default.\<close>

definition flagValue :: "(string \<times> string) list \<Rightarrow> string \<Rightarrow> string \<Rightarrow> string" where
  "flagValue vs name dflt = (case map_of (rev vs) name of None \<Rightarrow> dflt | Some v \<Rightarrow> v)"

definition flagBool :: "(string \<times> string) list \<Rightarrow> string \<Rightarrow> bool" where
  "flagBool vs name = (case map_of (rev vs) name of None \<Rightarrow> False | Some v \<Rightarrow> ParseBool v = Some True)"

section \<open>Printed command lines read back\<close>

definition plainName :: "string \<Rightarrow> bool" where
  "plainName n \<longleftrightarrow> n \<noteq> [] \<and> hd n \<noteq> CHR ''-'' \<and> CHR ''='' \<notin> set n"

lemma flagName_dashes [simp]: "n \<noteq> [] \<Longrightarrow> flagName (CHR ''-'' # CHR ''-'' # n) = Some n"
  by (simp add: flagName_def)

lemma splitName_eq: "plainName n \<Longrightarrow> splitName (n @ CHR ''='' # v) = (n, Some v)"
  by (cases n) (auto simp: splitName_def plainName_def cut_sep)

lemma splitName_plain: "plainName n \<Longrightarrow> splitName n = (n, None)"
  by (cases n) (auto simp: splitName_def plainName_def cut_none)

lemma plainName_hd: "plainName n \<Longrightarrow> n \<noteq> [] \<and> hd n \<noteq> CHR ''-'' \<and> hd n \<noteq> CHR ''=''"
  by (cases n) (auto simp: plainName_def)

text \<open>A flag printed with an equals sign is read as it was printed, whatever the value.\<close>

lemma parseFlags_eq:
  assumes "plainName n" "fs n = Some k" "valueOk k v"
  shows "parseFlags fs ((CHR ''-'' # CHR ''-'' # n @ CHR ''='' # v) # args)
    = (case parseFlags fs args of Inl e \<Rightarrow> Inl e | Inr vs \<Rightarrow> Inr ((n, v) # vs))"
  using assms splitName_eq [OF assms(1), of v] plainName_hd [OF assms(1)]
  by (cases n) (simp_all split: sum.split)

text \<open>A flag that is not Boolean takes the argument after it, whatever that is.\<close>

lemma parseFlags_next:
  assumes "plainName n" "fs n = Some k" "k \<noteq> BoolFlag" "valueOk k v"
  shows "parseFlags fs ((CHR ''-'' # CHR ''-'' # n) # v # args)
    = (case parseFlags fs args of Inl e \<Rightarrow> Inl e | Inr vs \<Rightarrow> Inr ((n, v) # vs))"
  using assms splitName_plain [OF assms(1)] plainName_hd [OF assms(1)]
  by (cases n) (simp_all split: sum.split)

lemma parseFlags_bool:
  assumes "plainName n" "fs n = Some BoolFlag"
  shows "parseFlags fs ((CHR ''-'' # CHR ''-'' # n) # args)
    = (case parseFlags fs args of Inl e \<Rightarrow> Inl e | Inr vs \<Rightarrow> Inr ((n, ''true'') # vs))"
  using assms splitName_plain [OF assms(1)] plainName_hd [OF assms(1)]
  by (cases n) (simp_all add: ParseBool_def split: sum.split)

end
