(* ===== verification/Execd_Client.thy ===== *)
theory Execd_Client
  imports Execd Pool
begin

text \<open>
  How the controller reaches execd (\<open>pkg/controller/execdclient.go\<close> and \<open>execdproxy.go\<close>): straight to the Pod's address, or
  through the API server's pod proxy. A transport is a function on a world; a response comes with what \<open>encoding/json\<close>
  makes of its body. The lemmas put execd's own control plane at the other end.
\<close>

section \<open>Requests and responses\<close>

definition PodRef_String :: "pod_ref \<Rightarrow> string" where
  "PodRef_String p =
     (if pr_Namespace p \<noteq> [] \<and> pr_Name p \<noteq> [] then pr_Namespace p @ ''/'' @ pr_Name p @ '' ('' @ pr_IP p @ '')'' else pr_IP p)"

record execd_client =
  xc_Port :: int
  xc_Timeout :: int

definition NewHTTPExecdClient :: execd_client where
  "NewHTTPExecdClient = \<lparr>xc_Port = PortControl, xc_Timeout = 20 * second\<rparr>"

definition NewAPIProxyExecdClient :: execd_client where
  "NewAPIProxyExecdClient = \<lparr>xc_Port = PortControl, xc_Timeout = 30 * second\<rparr>"

record ctl_request =
  ct_Method :: string
  ct_Base :: string
  ct_Path :: string
  ct_Header :: header
  ct_Body :: "bind_request option"

text \<open>A response: its status, its body, the code and message if the body is an \<open>api.Error\<close>, and what it decodes to.\<close>

record 'o ctl_response =
  cr_Status :: int
  cr_Body :: string
  cr_Error :: "(string \<times> string) option"
  cr_Out :: "(string, 'o) result"

type_synonym ('o, 'w) ctl_net = "ctl_request \<Rightarrow> 'w \<Rightarrow> (string, 'o ctl_response) result \<times> 'w"

definition execdSays :: "string \<Rightarrow> string \<Rightarrow> string" where
  "execdSays code msg = ''execd: '' @ code @ '': '' @ msg"

section \<open>The direct transport\<close>

definition client_url :: "execd_client \<Rightarrow> string \<Rightarrow> string" where
  "client_url c podIP = ''http://'' @ JoinHostPort podIP (Itoa (xc_Port c))"

definition directRequest :: "execd_client \<Rightarrow> string \<Rightarrow> string \<Rightarrow> string \<Rightarrow> string \<Rightarrow> bind_request option \<Rightarrow> ctl_request" where
  "directRequest c meth ip path token body =
     (let h0 = (\<lambda>_. []); h1 = (if body \<noteq> None then hset h0 ''Content-Type'' ''application/json'' else h0)
      in \<lparr>ct_Method = meth, ct_Base = client_url c ip, ct_Path = path,
          ct_Header = (if token \<noteq> [] then hset h1 ''Authorization'' (''Bearer '' @ token) else h1), ct_Body = body\<rparr>)"

text \<open>\<open>do\<close>, up to decoding the document of a response with a good status.\<close>

definition http_do :: "('o, 'w) ctl_net \<Rightarrow> ctl_request \<Rightarrow> 'w \<Rightarrow> (string, 'o ctl_response) result \<times> 'w" where
  "http_do net rq w =
     (case net rq w of
        (Inl e, w1) \<Rightarrow> (Inl e, w1)
      | (Inr resp, w1) \<Rightarrow>
          if cr_Status resp < 200 \<or> cr_Status resp \<ge> 300 then
            (Inl (case cr_Error resp of
                    Some (code, msg) \<Rightarrow> if msg \<noteq> [] then execdSays code msg
                                        else ''execd returned '' @ Itoa (cr_Status resp) @ '': '' @ take 4096 (cr_Body resp)
                  | None \<Rightarrow> ''execd returned '' @ Itoa (cr_Status resp) @ '': '' @ take 4096 (cr_Body resp)), w1)
          else (Inr resp, w1))"

definition http_Bind :: "execd_client \<Rightarrow> (bind_response, 'w) ctl_net \<Rightarrow> pod_ref \<Rightarrow> bind_request \<Rightarrow> 'w \<Rightarrow> (string, bind_response) result \<times> 'w" where
  "http_Bind c net pod req w =
     (case http_do net (directRequest c ''POST'' (pr_IP pod) ''/internal/v1/bind'' (pr_Token pod) (Some req)) w of
        (Inl e, w1) \<Rightarrow> (Inl e, w1)
      | (Inr resp, w1) \<Rightarrow> (cr_Out resp, w1))"

definition http_Unbind :: "execd_client \<Rightarrow> ('o, 'w) ctl_net \<Rightarrow> pod_ref \<Rightarrow> 'w \<Rightarrow> string option \<times> 'w" where
  "http_Unbind c net pod w =
     (case http_do net (directRequest c ''POST'' (pr_IP pod) ''/internal/v1/unbind'' (pr_Token pod) None) w of
        (Inl e, w1) \<Rightarrow> (Some e, w1)
      | (Inr resp, w1) \<Rightarrow> (None, w1))"

definition http_Probe :: "execd_client \<Rightarrow> (tier \<times> string, 'w) ctl_net \<Rightarrow> pod_ref \<Rightarrow> 'w \<Rightarrow> (string, tier \<times> string) result \<times> 'w" where
  "http_Probe c net pod w =
     (case http_do net (directRequest c ''GET'' (pr_IP pod) ''/internal/v1/probe'' (pr_Token pod) None) w of
        (Inl e, w1) \<Rightarrow> (Inl e, w1)
      | (Inr resp, w1) \<Rightarrow> (cr_Out resp, w1))"

section \<open>Through the API server\<close>

definition client_podName :: "execd_client \<Rightarrow> pod_ref \<Rightarrow> string" where
  "client_podName c pod = ''http:'' @ pr_Name pod @ '':'' @ Itoa (xc_Port c)"

record proxy_request =
  px_Verb :: string
  px_Namespace :: string
  px_Name :: string
  px_Suffix :: string
  px_Header :: header
  px_Body :: "bind_request option"

text \<open>What \<open>DoRaw\<close> returns: the body, the error if there is one, and what the body decodes to.\<close>

record 'o raw_response =
  rr_Raw :: string
  rr_Failure :: "string option"
  rr_Error :: "(string \<times> string) option"
  rr_Out :: "(string, 'o) result"

type_synonym ('o, 'w) proxy_net = "proxy_request \<Rightarrow> 'w \<Rightarrow> 'o raw_response \<times> 'w"

definition proxyRequest :: "execd_client \<Rightarrow> string \<Rightarrow> pod_ref \<Rightarrow> string \<Rightarrow> bind_request option \<Rightarrow> proxy_request" where
  "proxyRequest c verb pod path body =
     (let h0 = (\<lambda>_. []); h1 = (if body \<noteq> None then hset h0 ''Content-Type'' ''application/json'' else h0)
      in \<lparr>px_Verb = verb, px_Namespace = pr_Namespace pod, px_Name = client_podName c pod, px_Suffix = path,
          px_Header = (if pr_Token pod \<noteq> [] then hset h1 ControlTokenHeader (pr_Token pod) else h1), px_Body = body\<rparr>)"

text \<open>\<open>do\<close>; an empty body leaves the result at its zero value, which is the argument \<open>zero\<close>.\<close>

definition proxy_do ::
    "execd_client \<Rightarrow> ('o, 'w) proxy_net \<Rightarrow> string \<Rightarrow> pod_ref \<Rightarrow> string \<Rightarrow> bind_request option \<Rightarrow> 'o \<Rightarrow> 'w \<Rightarrow> (string, 'o) result \<times> 'w" where
  "proxy_do c net verb pod path body zero w =
     (if pr_Namespace pod = [] \<or> pr_Name pod = [] then
        (Inl (''the API-proxy transport needs a Pod name and namespace, got '' @ Quote (PodRef_String pod)), w)
      else if verb \<noteq> ''GET'' \<and> verb \<noteq> ''POST'' then (Inl (''unsupported verb '' @ Quote verb), w)
      else (case net (proxyRequest c verb pod path body) w of (resp, w1) \<Rightarrow>
        (case rr_Failure resp of
           Some e \<Rightarrow>
             (Inl (case (if rr_Raw resp \<noteq> [] then rr_Error resp else None) of
                     Some (code, msg) \<Rightarrow> if msg \<noteq> [] then execdSays code msg else ''pod proxy to '' @ PodRef_String pod @ '': '' @ e
                   | None \<Rightarrow> ''pod proxy to '' @ PodRef_String pod @ '': '' @ e), w1)
         | None \<Rightarrow> (if rr_Raw resp \<noteq> [] then rr_Out resp else Inr zero, w1))))"

definition zeroBind :: bind_response where
  "zeroBind = \<lparr>bs_SandboxID = [], bs_IsolationTier = [], bs_BoundAt = 0, bs_ExpiresAt = None, bs_BwrapArgs = []\<rparr>"

definition proxy_Bind :: "execd_client \<Rightarrow> (bind_response, 'w) proxy_net \<Rightarrow> pod_ref \<Rightarrow> bind_request \<Rightarrow> 'w \<Rightarrow> (string, bind_response) result \<times> 'w" where
  "proxy_Bind c net pod req w = proxy_do c net ''POST'' pod ''internal/v1/bind'' (Some req) zeroBind w"

text \<open>An unbind passes no result to decode into: any body of a good response is accepted.\<close>

definition proxy_Unbind :: "execd_client \<Rightarrow> (unit, 'w) proxy_net \<Rightarrow> pod_ref \<Rightarrow> 'w \<Rightarrow> string option \<times> 'w" where
  "proxy_Unbind c net pod w =
     (case proxy_do c (\<lambda>rq w. case net rq w of (resp, w1) \<Rightarrow> (resp\<lparr>rr_Out := Inr ()\<rparr>, w1)) ''POST'' pod ''internal/v1/unbind'' None () w of
        (Inl e, w1) \<Rightarrow> (Some e, w1)
      | (Inr u, w1) \<Rightarrow> (None, w1))"

definition proxy_Probe :: "execd_client \<Rightarrow> (tier \<times> string, 'w) proxy_net \<Rightarrow> pod_ref \<Rightarrow> 'w \<Rightarrow> (string, tier \<times> string) result \<times> 'w" where
  "proxy_Probe c net pod w = proxy_do c net ''GET'' pod ''internal/v1/probe'' None ([], []) w"

section \<open>execd at the other end\<close>

text \<open>The request execd receives, and what a response of its control plane is on the wire. \<open>enc\<close> is the encoding of a
  document, \<open>dec\<close> what the caller reads from one.\<close>

definition received :: "string \<Rightarrow> string \<Rightarrow> header \<Rightarrow> g_request" where
  "received meth path h =
     \<lparr>gq_Method = meth, gq_Host = [], gq_Path = path, gq_EscapedPath = path, gq_RawQuery = [], gq_Query = [], gq_Header = h,
      gq_RemoteAddr = [], gq_TLS = False\<rparr>"

fun onWire :: "(e_body response \<Rightarrow> string) \<Rightarrow> (e_body \<Rightarrow> 'o option) \<Rightarrow> e_body response \<Rightarrow> 'o ctl_response" where
  "onWire enc dec (ErrResp st code msg h) =
     \<lparr>cr_Status = st, cr_Body = enc (ErrResp st code msg h), cr_Error = Some (code, msg), cr_Out = Inl ''error''\<rparr>"
| "onWire enc dec (JSON st b) =
     \<lparr>cr_Status = st, cr_Body = enc (JSON st b), cr_Error = None, cr_Out = (case dec b of None \<Rightarrow> Inl ''type'' | Some x \<Rightarrow> Inr x)\<rparr>"

definition bodyOf :: "bind_request option \<Rightarrow> (string, bind_request) result" where
  "bodyOf b = (case b of None \<Rightarrow> Inl ''EOF'' | Some req \<Rightarrow> Inr req)"

definition directNet :: "('d, 'w) host \<Rightarrow> int \<Rightarrow> (e_body response \<Rightarrow> string) \<Rightarrow> (e_body \<Rightarrow> 'o option) \<Rightarrow> ('o, 'd execd \<times> 'w) ctl_net" where
  "directNet ho now enc dec rq st =
     (case ControlHandler ho (received (ct_Method rq) (ct_Path rq) (ct_Header rq)) (bodyOf (ct_Body rq)) now st of
        (resp, st1) \<Rightarrow> (Inr (onWire enc dec resp), st1))"

text \<open>The API server's pod proxy: it makes of the headers what \<open>fwd\<close> does and reports a status of 400 or more as an error.\<close>

definition proxyNet ::
    "('d, 'w) host \<Rightarrow> int \<Rightarrow> (e_body response \<Rightarrow> string) \<Rightarrow> (header \<Rightarrow> header) \<Rightarrow> (e_body \<Rightarrow> 'o option) \<Rightarrow> ('o, 'd execd \<times> 'w) proxy_net" where
  "proxyNet ho now enc fwd dec rq st =
     (case ControlHandler ho (received (px_Verb rq) (slash # px_Suffix rq) (fwd (px_Header rq))) (bodyOf (px_Body rq)) now st of
        (resp, st1) \<Rightarrow>
          (let r = onWire enc dec resp
           in (\<lparr>rr_Raw = cr_Body r, rr_Failure = (if cr_Status r \<ge> 400 then Some ''status'' else None), rr_Error = cr_Error r, rr_Out = cr_Out r\<rparr>, st1)))"

text \<open>What the proxy promises of headers: the caller's credential for the API server goes no further, others pass.\<close>

definition forwards :: "(header \<Rightarrow> header) \<Rightarrow> bool" where
  "forwards fwd \<longleftrightarrow> (\<forall>h. fwd h ''Authorization'' = [] \<and> fwd h ControlTokenHeader = h ControlTokenHeader)"

fun boundOf :: "e_body \<Rightarrow> bind_response option" where
  "boundOf (EBound b) = Some b"
| "boundOf b = None"

fun probeOf :: "e_body \<Rightarrow> (tier \<times> string) option" where
  "probeOf (EProbe t r) = Some (t, r)"
| "probeOf b = None"

fun okOf :: "e_body \<Rightarrow> unit option" where
  "okOf b = Some ()"

definition admits :: "'d execd \<Rightarrow> pod_ref \<Rightarrow> bool" where
  "admits ed pod \<longleftrightarrow> ed_internalToken ed = [] \<or> pr_Token pod \<noteq> [] \<and> pr_Token pod = ed_internalToken ed"

lemma direct_bearer:
  "execd_bearer (ct_Header (directRequest c m ip path tok body)) [] = tok"
  by (simp add: directRequest_def execd_bearer_def Let_def hget_def hset_def qget_def ControlTokenHeader_def hasPrefix_def trimPrefix_def)

lemma proxy_bearer:
  assumes "forwards fwd"
  shows "execd_bearer (fwd (px_Header (proxyRequest c m pod path body))) [] = pr_Token pod"
  using assms by (simp add: proxyRequest_def execd_bearer_def Let_def hget_def hset_def qget_def ControlTokenHeader_def hasPrefix_def forwards_def)

lemma received_ok:
  "internalOk ed (received m p h) \<longleftrightarrow> ed_internalToken ed = [] \<or> tokenMatches (execd_bearer h []) (ed_internalToken ed)"
  by (simp add: internalOk_def received_def)

lemma direct_ok: "internalOk ed (received m p (ct_Header (directRequest c m' ip path (pr_Token pod) body))) \<longleftrightarrow> admits ed pod"
  by (auto simp: received_ok direct_bearer admits_def tokenMatches_def)

lemma proxy_ok:
  "forwards fwd \<Longrightarrow> internalOk ed (received m p (fwd (px_Header (proxyRequest c m' pod path body)))) \<longleftrightarrow> admits ed pod"
  by (auto simp: received_ok proxy_bearer admits_def tokenMatches_def)

lemma ControlHandler_bind:
  "ControlHandler ho (received ''POST'' ''/internal/v1/bind'' h) dec now st
    = (if internalOk (fst st) (received ''POST'' ''/internal/v1/bind'' h) then handleBind ho dec now st
       else (writeErr 401 ''unauthorized'' ''invalid control-plane token'', st))"
  by (simp add: ControlHandler_def received_def Let_def)

lemma ControlHandler_unbind:
  "ControlHandler ho (received ''POST'' ''/internal/v1/unbind'' h) dec now st
    = (if internalOk (fst st) (received ''POST'' ''/internal/v1/unbind'' h) then (JSON 200 EOk, expire_pod ho ''unbind'' st)
       else (writeErr 401 ''unauthorized'' ''invalid control-plane token'', st))"
  by (simp add: ControlHandler_def received_def Let_def)

lemma ControlHandler_probe:
  "ControlHandler ho (received ''GET'' ''/internal/v1/probe'' h) dec now st = (handleProbe (fst st), st)"
  by (simp add: ControlHandler_def received_def Let_def)

lemma request_fields [simp]:
  "ct_Method (directRequest c m ip path tok body) = m" "ct_Path (directRequest c m ip path tok body) = path"
  "ct_Body (directRequest c m ip path tok body) = body"
  "px_Verb (proxyRequest c m pod path body) = m" "px_Suffix (proxyRequest c m pod path body) = path"
  "px_Body (proxyRequest c m pod path body) = body"
  by (simp_all add: directRequest_def proxyRequest_def Let_def)

text \<open>What the controller should learn of a bind.\<close>

definition tells :: "e_body response \<Rightarrow> (string, bind_response) result \<Rightarrow> bool" where
  "tells resp r \<longleftrightarrow>
     (case resp of
        JSON code (EBound b) \<Rightarrow> code = 200 \<longrightarrow> r = Inr b
      | ErrResp code ec msg h \<Rightarrow> code \<ge> 400 \<longrightarrow> isl r \<and> (msg \<noteq> [] \<longrightarrow> r = Inl (execdSays ec msg))
      | _ \<Rightarrow> True)"

lemma handleBind_answers:
  assumes "handleBind ho (Inr req) now (ed, w) = (resp, st1)"
  shows "(\<exists>b. resp = JSON 200 (EBound b)) \<or> (\<exists>code ec msg h. resp = ErrResp code ec msg h \<and> code \<ge> 400)"
proof -
  have "bindCheck ed = Some x \<Longrightarrow> \<exists>code ec msg h. x = ErrResp code ec msg h \<and> code \<ge> 400" for x
    by (auto simp: bindCheck_def writeErr_def split: option.splits if_splits)
  then show ?thesis using assms
    by (auto simp: handleBind_def writeErr_def split: if_splits option.splits prod.splits sum.splits)
qed

text \<open>Each call on each transport.\<close>

lemma direct_calls:
  assumes "handleBind ho (Inr req) now (ed, w) = (resp, st1)"
  shows "admits ed pod \<Longrightarrow> \<exists>r. http_Bind c (directNet ho now enc boundOf) pod req (ed, w) = (r, st1) \<and> tells resp r"
    and "\<not> admits ed pod \<Longrightarrow> http_Bind c (directNet ho now enc boundOf) pod req (ed, w)
           = (Inl (execdSays ''unauthorized'' ''invalid control-plane token''), (ed, w))"
    and "admits ed pod \<Longrightarrow> http_Unbind c (directNet ho now enc okOf) pod (ed, w) = (None, expire_pod ho ''unbind'' (ed, w))"
    and "\<not> admits ed pod \<Longrightarrow> http_Unbind c (directNet ho now enc okOf) pod (ed, w)
           = (Some (execdSays ''unauthorized'' ''invalid control-plane token''), (ed, w))"
    and "http_Probe c (directNet ho now enc probeOf) pod (ed, w) = (Inr (ed_tier ed, ed_reason ed), (ed, w))"
  using assms
  by (cases resp; force simp: http_Bind_def http_Unbind_def http_Probe_def http_do_def directNet_def ControlHandler_bind ControlHandler_unbind
      ControlHandler_probe direct_ok bodyOf_def writeErr_def handleProbe_def tells_def split: e_body.splits)+

lemma proxied_calls:
  assumes "forwards fwd" "\<And>r. enc r \<noteq> []" "pr_Namespace pod \<noteq> []" "pr_Name pod \<noteq> []" "handleBind ho (Inr req) now (ed, w) = (resp, st1)"
  shows "admits ed pod \<Longrightarrow> \<exists>r. proxy_Bind c (proxyNet ho now enc fwd boundOf) pod req (ed, w) = (r, st1) \<and> tells resp r"
    and "\<not> admits ed pod \<Longrightarrow> proxy_Bind c (proxyNet ho now enc fwd boundOf) pod req (ed, w)
           = (Inl (execdSays ''unauthorized'' ''invalid control-plane token''), (ed, w))"
    and "admits ed pod \<Longrightarrow> proxy_Unbind c (proxyNet ho now enc fwd okOf) pod (ed, w) = (None, expire_pod ho ''unbind'' (ed, w))"
    and "\<not> admits ed pod \<Longrightarrow> proxy_Unbind c (proxyNet ho now enc fwd okOf) pod (ed, w)
           = (Some (execdSays ''unauthorized'' ''invalid control-plane token''), (ed, w))"
    and "proxy_Probe c (proxyNet ho now enc fwd probeOf) pod (ed, w) = (Inr (ed_tier ed, ed_reason ed), (ed, w))"
  using assms
  by (cases resp; force simp: proxy_Bind_def proxy_Unbind_def proxy_Probe_def proxy_do_def proxyNet_def ControlHandler_bind ControlHandler_unbind
      ControlHandler_probe proxy_ok bodyOf_def writeErr_def handleProbe_def tells_def split: e_body.splits)+

section \<open>The channel to execd as an interface\<close>

text \<open>What the controller relies on, whichever transport it was given: calls on Pods it can reach, which have the effect of
  execd's handlers when execd admits the caller, and none otherwise.\<close>

locale control_channel =
  fixes ho :: "('d, 'w) host" and now :: int and reach :: "pod_ref \<Rightarrow> bool"
    and Bind :: "pod_ref \<Rightarrow> bind_request \<Rightarrow> 'd execd \<times> 'w \<Rightarrow> (string, bind_response) result \<times> 'd execd \<times> 'w"
    and Unbind :: "pod_ref \<Rightarrow> 'd execd \<times> 'w \<Rightarrow> string option \<times> 'd execd \<times> 'w"
    and Probe :: "pod_ref \<Rightarrow> 'd execd \<times> 'w \<Rightarrow> (string, tier \<times> string) result \<times> 'd execd \<times> 'w"
  assumes bind_in: "reach pod \<Longrightarrow> admits ed pod \<Longrightarrow> handleBind ho (Inr req) now (ed, w) = (resp, st1) \<Longrightarrow> \<exists>r. Bind pod req (ed, w) = (r, st1) \<and> tells resp r"
    and bind_out: "reach pod \<Longrightarrow> \<not> admits ed pod \<Longrightarrow> Bind pod req (ed, w) = (Inl (execdSays ''unauthorized'' ''invalid control-plane token''), (ed, w))"
    and unbind_in: "reach pod \<Longrightarrow> admits ed pod \<Longrightarrow> Unbind pod (ed, w) = (None, expire_pod ho ''unbind'' (ed, w))"
    and unbind_out: "reach pod \<Longrightarrow> \<not> admits ed pod \<Longrightarrow> Unbind pod (ed, w) = (Some (execdSays ''unauthorized'' ''invalid control-plane token''), (ed, w))"
    and probe: "reach pod \<Longrightarrow> Probe pod (ed, w) = (Inr (ed_tier ed, ed_reason ed), (ed, w))"
begin

text \<open>A reported binding is one: the Pod was free, admitted the caller, and now serves the sandbox that was asked for.\<close>

lemma bind_binds:
  assumes "reach pod" "Bind pod req (ed, w) = (Inr b, (ed1, w1))"
  shows "admits ed pod \<and> handleBind ho (Inr req) now (ed, w) = (JSON 200 (EBound b), (ed1, w1))"
proof -
  have a: "admits ed pod" using bind_out [OF assms(1), of ed req w] assms(2) by auto
  obtain resp st1 where h: "handleBind ho (Inr req) now (ed, w) = (resp, st1)" by (rule prod.exhaust)
  obtain r where r: "Bind pod req (ed, w) = (r, st1)" "tells resp r" using bind_in [OF assms(1) a h] by blast
  have "resp = JSON 200 (EBound b)" using handleBind_answers [OF h] r assms(2) by (auto simp: tells_def)
  then show ?thesis using a h r(1) assms(2) by simp
qed

text \<open>A bind that fails leaves whatever was bound bound.\<close>

lemma bind_fails:
  assumes "reach pod" "Bind pod req (ed, w) = (Inl e, (ed1, w1))"
  shows "ed_sb ed1 = ed_sb ed"
proof (cases "admits ed pod")
  case True
  obtain resp st1 where h: "handleBind ho (Inr req) now (ed, w) = (resp, st1)" by (rule prod.exhaust)
  obtain r where r: "Bind pod req (ed, w) = (r, st1)" "tells resp r" using bind_in [OF assms(1) True h] by blast
  then have "handleBind ho (Inr req) now (ed, w) = (resp, ed1, w1)" "\<forall>b. resp \<noteq> JSON 200 (EBound b)" using h assms(2) by (auto simp: tells_def)
  then show ?thesis by (cases rule: handleBind_cases) auto
next
  case False
  then show ?thesis using bind_out [OF assms(1) False, of req w] assms(2) by simp
qed

text \<open>After an unbind that the caller was told of, the Pod serves nothing.\<close>

lemma unbind_unbinds:
  assumes "reach pod" "Unbind pod (ed, w) = (None, (ed1, w1))" "ed_expired ed \<Longrightarrow> ed_sb ed = None"
  shows "ed_expired ed1 \<and> ed_sb ed1 = None"
proof -
  have "admits ed pod" using unbind_out [OF assms(1), of ed w] assms(2) by auto
  then show ?thesis using unbind_in [OF assms(1), of ed w] assms(2,3) by (auto simp: expire_pod_def split: if_splits)
qed

end

text \<open>Dialling the Pod is such a channel to every Pod.\<close>

interpretation direct: control_channel ho now "\<lambda>pod. True" "http_Bind c (directNet ho now enc boundOf)" "http_Unbind c (directNet ho now enc okOf)"
  "http_Probe c (directNet ho now enc probeOf)"
  by unfold_locales (rule direct_calls; (assumption | rule prod.collapse [symmetric]))+

text \<open>Through a proxy that keeps its promise it is one to every Pod that is named.\<close>

locale pod_proxy =
  fixes fwd :: "header \<Rightarrow> header" and enc :: "e_body response \<Rightarrow> string"
  assumes fwd: "forwards fwd" and enc: "enc r \<noteq> []"

sublocale pod_proxy \<subseteq> proxied: control_channel ho now "\<lambda>pod. pr_Namespace pod \<noteq> [] \<and> pr_Name pod \<noteq> []"
  "proxy_Bind c (proxyNet ho now enc fwd boundOf)" "proxy_Unbind c (proxyNet ho now enc fwd okOf)" "proxy_Probe c (proxyNet ho now enc fwd probeOf)" for ho now c
  by unfold_locales (elim conjE, rule proxied_calls [OF fwd enc]; (assumption | rule prod.collapse [symmetric]))+

text \<open>The controller was told, over either transport, that its bind succeeded.\<close>

definition bindReported ::
  "('d, 'w) host \<Rightarrow> int \<Rightarrow> (e_body response \<Rightarrow> string) \<Rightarrow> (header \<Rightarrow> header) \<Rightarrow> execd_client \<Rightarrow> pod_ref \<Rightarrow> bind_request
     \<Rightarrow> 'd execd \<times> 'w \<Rightarrow> bind_response \<Rightarrow> 'd execd \<times> 'w \<Rightarrow> bool" where
  "bindReported ho now enc fwd c pod req st resp st1 \<longleftrightarrow>
     http_Bind c (directNet ho now enc boundOf) pod req st = (Inr resp, st1)
     \<or> (pr_Namespace pod \<noteq> [] \<and> pr_Name pod \<noteq> [] \<and> proxy_Bind c (proxyNet ho now enc fwd boundOf) pod req st = (Inr resp, st1))"

context pod_proxy
begin

lemma reported_bind:
  assumes "bindReported ho now enc fwd c pod req (ed, w) resp (ed1, w1)"
  shows "admits ed pod \<and> handleBind ho (Inr req) now (ed, w) = (JSON 200 (EBound resp), ed1, w1)"
  using assms direct.bind_binds [of c ho now enc pod req ed w resp ed1 w1] proxied.bind_binds [of pod c ho now req ed w resp ed1 w1]
  by (auto simp: bindReported_def)

end

section \<open>Properties\<close>

text \<open>C37: both transports are the control plane. Whether the controller dials the Pod or goes through the API server's pod
  proxy, which drops the \<open>Authorization\<close> header and passes others on, execd lets its calls in exactly when the token the
  controller read from the Pod is execd's own (or execd has none). A bind then has on execd exactly the effect of the bind
  handler, and the controller learns the binding, or the code and the message execd gave; an unbind shuts the Pod down.
  Otherwise nothing happens in the Pod and the controller is told so. A probe reports the measured tier in any case.\<close>

theorem transports_agree:
  assumes "forwards fwd" "\<And>r. enc r \<noteq> []" "pr_Namespace pod \<noteq> []" "pr_Name pod \<noteq> []"
    and "handleBind ho (Inr req) now (ed, w) = (resp, st1)"
  shows "(admits ed pod \<longrightarrow>
          (\<exists>r1 r2. http_Bind c (directNet ho now enc boundOf) pod req (ed, w) = (r1, st1) \<and> tells resp r1
             \<and> proxy_Bind c (proxyNet ho now enc fwd boundOf) pod req (ed, w) = (r2, st1) \<and> tells resp r2)
          \<and> http_Unbind c (directNet ho now enc okOf) pod (ed, w) = (None, expire_pod ho ''unbind'' (ed, w))
          \<and> proxy_Unbind c (proxyNet ho now enc fwd okOf) pod (ed, w) = (None, expire_pod ho ''unbind'' (ed, w)))
    \<and> (\<not> admits ed pod \<longrightarrow>
          (let refused = execdSays ''unauthorized'' ''invalid control-plane token'' in
             http_Bind c (directNet ho now enc boundOf) pod req (ed, w) = (Inl refused, (ed, w))
             \<and> proxy_Bind c (proxyNet ho now enc fwd boundOf) pod req (ed, w) = (Inl refused, (ed, w))
             \<and> http_Unbind c (directNet ho now enc okOf) pod (ed, w) = (Some refused, (ed, w))
             \<and> proxy_Unbind c (proxyNet ho now enc fwd okOf) pod (ed, w) = (Some refused, (ed, w))))
    \<and> http_Probe c (directNet ho now enc probeOf) pod (ed, w) = (Inr (ed_tier ed, ed_reason ed), (ed, w))
    \<and> proxy_Probe c (proxyNet ho now enc fwd probeOf) pod (ed, w) = (Inr (ed_tier ed, ed_reason ed), (ed, w))"
  using direct_calls [OF assms(5)] proxied_calls [OF assms] by (simp add: Let_def)

definition demoRef :: pod_ref where
  "demoRef = \<lparr>pr_Namespace = ''ns'', pr_Name = ''py-1'', pr_IP = ''10.0.0.7'', pr_Token = ''int''\<rparr>"

definition dropAuth :: "header \<Rightarrow> header" where "dropAuth h = h(''Authorization'' := [])"

interpretation stripped: pod_proxy dropAuth "\<lambda>_. ''{}''"
  by unfold_locales (simp_all add: forwards_def dropAuth_def ControlTokenHeader_def)

theorem transports_agree_witness:
  "\<exists>st. snd (http_Bind NewHTTPExecdClient (directNet demoHost 0 (\<lambda>_. ''{}'') boundOf) demoRef demoBind (demoPodE, ())) = st
     \<and> snd (proxy_Bind NewHTTPExecdClient (proxyNet demoHost 0 (\<lambda>_. ''{}'') dropAuth boundOf) demoRef demoBind (demoPodE, ())) = st
     \<and> st = snd (handleBind demoHost (Inr demoBind) 0 (demoPodE, ()))"
proof -
  obtain resp st1 where h: "handleBind demoHost (Inr demoBind) 0 (demoPodE, ()) = (resp, st1)" by (rule prod.exhaust)
  have f: "forwards dropAuth" by (simp add: forwards_def dropAuth_def ControlTokenHeader_def)
  have "pr_Namespace demoRef \<noteq> []" "pr_Name demoRef \<noteq> []" "(\<lambda>_. ''{}'') r \<noteq> []" for r :: "e_body response" by (simp_all add: demoRef_def)
  note t = transports_agree [of dropAuth "\<lambda>_. ''{}''", OF f this(3,1,2) h, of NewHTTPExecdClient]
  have "admits demoPodE demoRef" by (simp add: admits_def demoRef_def demoPodE_def execd_New_def Let_def)
  then show ?thesis using t h by auto
qed

end
