(* ===== verification/Pod_Commands.thy ===== *)
theory Pod_Commands
  imports Go_Flags Execd_Client Initd_Files
begin

text \<open>
  The two processes of a Pod from their command lines on: \<open>cmd/jdix-execd/main.go\<close> and \<open>cmd/jdix-init/main.go\<close>. The first is
  started with the arguments the controller renders into the Pod, the second with those execd generates for bubblewrap, so
  that what one component prints another reads. Starting either is a function of its arguments, its environment and the
  answers of the node; it ends in an exit status or in a server with its initial state.
\<close>

section \<open>jdix-execd\<close>

definition execdFlags :: flag_set where
  "execdFlags =
     [''filesystem-isolation'' \<mapsto> StringFlag, ''filesystem-probe-child'' \<mapsto> BoolFlag, ''data-addr'' \<mapsto> StringFlag,
      ''control-addr'' \<mapsto> StringFlag, ''bwrap'' \<mapsto> StringFlag, ''volumes'' \<mapsto> StringFlag, ''tier'' \<mapsto> StringFlag,
      ''internal-token-env'' \<mapsto> StringFlag, ''internal-token-file'' \<mapsto> StringFlag, ''allow-unauthenticated-control'' \<mapsto> BoolFlag,
      ''log-level'' \<mapsto> StringFlag]"

text \<open>The calls of \<open>prepare\<close> on the file system.\<close>

record 'w prep_sys =
  pf_MkdirAll :: "string \<Rightarrow> int \<Rightarrow> 'w \<Rightarrow> string option \<times> 'w"
  pf_Chmod :: "string \<Rightarrow> int \<Rightarrow> 'w \<Rightarrow> string option \<times> 'w"
  pf_Chown :: "string \<Rightarrow> int \<Rightarrow> int \<Rightarrow> 'w \<Rightarrow> 'w"
  pf_Exists :: "string \<Rightarrow> 'w \<Rightarrow> bool"
  pf_ReadFile :: "string \<Rightarrow> 'w \<Rightarrow> (string, string) result"
  pf_WriteFile :: "string \<Rightarrow> string \<Rightarrow> int \<Rightarrow> 'w \<Rightarrow> string option \<times> 'w"

fun makeDirs :: "'w prep_sys \<Rightarrow> string list \<Rightarrow> 'w \<Rightarrow> string option \<times> 'w" where
  "makeDirs fs [] w = (None, w)"
| "makeDirs fs (d # ds) w = (case pf_MkdirAll fs d 493 w of (Some e, w1) \<Rightarrow> (Some e, w1) | (None, w1) \<Rightarrow> makeDirs fs ds w1)"

text \<open>The files of the skeleton, in the order in which the map is iterated; one that exists is left alone.\<close>

fun writeSkel :: "'w prep_sys \<Rightarrow> string \<Rightarrow> (string \<times> string) list \<Rightarrow> 'w \<Rightarrow> string option \<times> 'w" where
  "writeSkel fs dir [] w = (None, w)"
| "writeSkel fs dir ((name, content) # xs) w =
     (if pf_Exists fs (path_Join [dir, name]) w then writeSkel fs dir xs w
      else (case pf_WriteFile fs (path_Join [dir, name]) content 420 w of
              (Some e, w1) \<Rightarrow> (Some e, w1)
            | (None, w1) \<Rightarrow> writeSkel fs dir xs w1))"

definition newline :: string where "newline = [CHR 0x0A]"

definition skelPasswd :: "string \<times> string" where
  "skelPasswd = (''passwd'', ''root:x:0:0:root:/root:/bin/sh'' @ newline @ ''sandbox:x:1000:1000:sandbox:/home:/bin/sh'' @ newline)"

definition skelGroup :: "string \<times> string" where
  "skelGroup = (''group'', ''root:x:0:'' @ newline @ ''sandbox:x:1000:'' @ newline)"

definition prepare :: "'w prep_sys \<Rightarrow> bool \<Rightarrow> layout \<Rightarrow> 'w \<Rightarrow> string option \<times> 'w" where
  "prepare fs groupFirst l w =
     (case makeDirs fs [WorkspaceDir l, VolumeRoot l, IPCDir l, SkelDir l] w of
        (Some e, w1) \<Rightarrow> (Some e, w1)
      | (None, w1) \<Rightarrow>
          (case pf_Chmod fs (IPCDir l) 448 w1 of
             (Some e, w2) \<Rightarrow> (Some e, w2)
           | (None, w2) \<Rightarrow>
               (case writeSkel fs (SkelDir l) (if groupFirst then [skelGroup, skelPasswd] else [skelPasswd, skelGroup])
                       (pf_Chown fs (WorkspaceDir l) 1000 1000 w2) of
                  (Some e, w3) \<Rightarrow> (Some e, w3)
                | (None, w3) \<Rightarrow>
                    (let dst = path_Join [SkelDir l, ''resolv.conf''] in
                     if pf_Exists fs dst w3 then (None, w3)
                     else pf_WriteFile fs dst
                            (case pf_ReadFile fs ''/etc/resolv.conf'' w3 of Inl e \<Rightarrow> ''nameserver 127.0.0.53'' @ newline | Inr b \<Rightarrow> b) 420 w3))))"

text \<open>\<open>parseVolumes\<close>: the pairs it takes, in order; the last of a name wins.\<close>

fun volumePairs :: "string list \<Rightarrow> (string \<times> string) list" where
  "volumePairs [] = []"
| "volumePairs (raw # rest) =
     (let pair = TrimSpace raw in
      if pair = [] then volumePairs rest
      else (case cut (CHR ''='') pair of (name, path, ok) \<Rightarrow>
              if \<not> ok then volumePairs rest else (TrimSpace name, TrimSpace path) # volumePairs rest))"

definition volumeList :: "string \<Rightarrow> (string \<times> string) list" where
  "volumeList s = volumePairs (split_on (CHR '','') s)"

definition parseVolumes :: "string \<Rightarrow> (string \<rightharpoonup> string)" where
  "parseVolumes s = map_of (rev (volumeList s))"

definition readToken :: "(string \<Rightarrow> string) \<Rightarrow> (string \<Rightarrow> (string, string) result) \<Rightarrow> string \<Rightarrow> string \<Rightarrow> (string, string) result" where
  "readToken getenv readFile envName path =
     (if envName \<noteq> [] \<and> TrimSpace (getenv envName) \<noteq> [] then Inr (TrimSpace (getenv envName))
      else if path = [] then Inr []
      else (case readFile path of Inl e \<Rightarrow> Inl e | Inr b \<Rightarrow> Inr (TrimSpace b)))"

text \<open>What the process finds on its node.\<close>

record ('d, 'w) pod_node =
  pn_Getenv :: "string \<Rightarrow> string"
  pn_View :: procfs
  pn_Protect :: "string option"
  pn_Prep :: "'w prep_sys"
  pn_GroupFirst :: bool
  pn_Node :: node
  pn_Sys :: "'d sys"
  pn_ErrStr :: "safe_error \<Rightarrow> string"
  pn_Exe :: "(string, string) result"
  pn_Unix :: unix_consts
  pn_Arch :: string
  pn_Memfd :: memfd_sys
  pn_Now :: int

datatype stop_cause = BadFlags flag_error | ProbeFailed string | UnknownMode | TierWithMode | NotProtected string | NotPrepared string
  | NoFilesystemTier string | TokenUnread string | NoToken

datatype 'd execd_start = ProbeChildOk | Stopped stop_cause | Serving "'d execd" string string

definition execdConfig :: "tier \<Rightarrow> (string \<rightharpoonup> string) \<Rightarrow> config" where
  "execdConfig t vols = \<lparr>cf_Layout = DefaultLayout, cf_Tier = t, cf_Volumes = vols, cf_UID = 1000, cf_GID = 1000, cf_InitDial = 0, cf_GraceKill = 0\<rparr>"

definition execdProbe :: "('d, 'w) pod_node \<Rightarrow> string \<Rightarrow> string \<Rightarrow> string \<Rightarrow> iso_result" where
  "execdProbe nd mode bwrapPath vols =
     (if mode = ''bwrap'' then
        DetectFilesystem (pn_Node nd) (pn_Sys nd) (pn_ErrStr nd) (pn_Exe nd)
          (fst (WorkloadFilterFile (pn_Unix nd) (pn_Arch nd) (pn_Memfd nd) 0)) bwrapPath (parseVolumes vols)
          (remdups (map fst (volumeList vols)))
      else Detect (pn_Node nd) bwrapPath)"

text \<open>From the measurement on.\<close>

definition execdServe :: "('d, 'w) pod_node \<Rightarrow> (string \<times> string) list \<Rightarrow> 'w \<Rightarrow> 'd execd_start" where
  "execdServe nd fl w =
     (let mode = flagValue fl ''filesystem-isolation'' []; vols = flagValue fl ''volumes'' []; tierF = flagValue fl ''tier'' [];
          probe = execdProbe nd mode (flagValue fl ''bwrap'' ''/opt/jdix/bin/bwrap'') vols in
      if mode = ''bwrap'' \<and> r_Tier probe \<noteq> TierFilesystem then Stopped (NoFilesystemTier (r_Reason probe))
      else (let t = (if tierF \<noteq> [] then tierF else r_Tier probe);
                reason = (if tierF \<noteq> [] then ''overridden on the command line'' else r_Reason probe) in
        case readToken (pn_Getenv nd) (\<lambda>p. pf_ReadFile (pn_Prep nd) p w) (flagValue fl ''internal-token-env'' ''JDIX_CONTROL_TOKEN'')
               (flagValue fl ''internal-token-file'' []) of
          Inl e \<Rightarrow> Stopped (TokenUnread e)
        | Inr token \<Rightarrow>
            if token = [] \<and> \<not> flagBool fl ''allow-unauthenticated-control'' then Stopped NoToken
            else Serving (execd_New (execdConfig t (parseVolumes vols)) t reason token (pn_Now nd))
                   (flagValue fl ''data-addr'' '':8080'') (flagValue fl ''control-addr'' '':8081'')))"

definition execd_main :: "('d, 'w) pod_node \<Rightarrow> string list \<Rightarrow> 'w \<Rightarrow> 'd execd_start \<times> 'w" where
  "execd_main nd args w =
     (case parseFlags execdFlags args of
        Inl e \<Rightarrow> (Stopped (BadFlags e), w)
      | Inr fl \<Rightarrow>
          (let mode = flagValue fl ''filesystem-isolation'' [] in
           if flagBool fl ''filesystem-probe-child'' then
             (case CheckFilesystemView (pn_View nd) of Some e \<Rightarrow> (Stopped (ProbeFailed e), w) | None \<Rightarrow> (ProbeChildOk, w))
           else if mode \<noteq> [] \<and> mode \<noteq> ''bwrap'' then (Stopped UnknownMode, w)
           else if mode \<noteq> [] \<and> flagValue fl ''tier'' [] \<noteq> [] then (Stopped TierWithMode, w)
           else if mode \<noteq> [] \<and> pn_Protect nd \<noteq> None then (Stopped (NotProtected (the (pn_Protect nd))), w)
           else (case prepare (pn_Prep nd) (pn_GroupFirst nd) DefaultLayout w of
             (Some e, w1) \<Rightarrow> (Stopped (NotPrepared e), w1)
           | (None, w1) \<Rightarrow> (execdServe nd fl w1, w1))))"

text \<open>How the process ends: an error of a listener is exit status 1, everything else a shutdown.\<close>

datatype execd_end = ListenerDone "string option" | GotSignal | PodExpired string

fun exitStatus :: "execd_end \<Rightarrow> int" where
  "exitStatus (ListenerDone (Some e)) = 1"
| "exitStatus (ListenerDone None) = 0"
| "exitStatus GotSignal = 0"
| "exitStatus (PodExpired reason) = 0"

section \<open>jdix-init\<close>

definition initFlags :: flag_set where
  "initFlags = [''subreaper'' \<mapsto> BoolFlag, ''socket'' \<mapsto> StringFlag, ''workspace'' \<mapsto> StringFlag, ''drop-to'' \<mapsto> StringFlag, ''log-level'' \<mapsto> StringFlag]"

datatype ids_error = NotAPair string | BadUid string | BadGid string | TargetsRoot

definition parseIDs :: "string \<Rightarrow> (ids_error, int \<times> int) result" where
  "parseIDs s =
     (case cut (CHR '':'') s of (us, gs, ok) \<Rightarrow>
        if \<not> ok then Inl (NotAPair s)
        else (case Atoi us of
           None \<Rightarrow> Inl (BadUid us)
         | Some uid \<Rightarrow>
             (case Atoi gs of
                None \<Rightarrow> Inl (BadGid gs)
              | Some gid \<Rightarrow> if uid = 0 \<or> gid = 0 then Inl TargetsRoot else Inr (uid, gid))))"

record ('l, 'w) init_sys =
  is_View :: procfs
  is_Subreaper :: "string option"
  is_Protect :: "string option"
  is_Listen :: "('l, 'w) listen_sys"
  is_Cred :: "'w cred_sys"

datatype init_stop = InitFlags flag_error | ViewExposed string | NoSubreaper string | InitNotProtected string
  | ListenFailed listen_error | BadIDs ids_error | DropFailed drop_error

text \<open>\<open>run\<close> up to serving: the listener while privileged, then the drop; the listener is closed when the process stops.\<close>

definition init_run :: "('l, 'w) init_sys \<Rightarrow> string \<Rightarrow> string \<Rightarrow> string \<Rightarrow> 'w \<Rightarrow> (init_stop, 'l \<times> initd) result \<times> 'w" where
  "init_run sy socket workspace dropTo w =
     (case Listen (is_Listen sy) socket w of
        (Inl e, w1) \<Rightarrow> (Inl (ListenFailed e), w1)
      | (Inr ln, w1) \<Rightarrow>
          if dropTo = [] then (Inr (ln, initd_New workspace), w1)
          else (case parseIDs dropTo of
            Inl e \<Rightarrow> (Inl (BadIDs e), ls_Close (is_Listen sy) ln w1)
          | Inr (uid, gid) \<Rightarrow>
              (case DropPrivileges (is_Cred sy) uid gid w1 of
                 (Some e, w2) \<Rightarrow> (Inl (DropFailed e), ls_Close (is_Listen sy) ln w2)
               | (None, w2) \<Rightarrow> (Inr (ln, initd_New workspace), w2))))"

definition init_main :: "('l, 'w) init_sys \<Rightarrow> string list \<Rightarrow> 'w \<Rightarrow> (init_stop, 'l \<times> initd) result \<times> 'w" where
  "init_main sy args w =
     (case parseFlags initFlags args of
        Inl e \<Rightarrow> (Inl (InitFlags e), w)
      | Inr fl \<Rightarrow>
          (case (if flagBool fl ''subreaper'' then
                   (case CheckFilesystemView (is_View sy) of
                      Some e \<Rightarrow> Some (ViewExposed e)
                    | None \<Rightarrow> (case is_Subreaper sy of Some e \<Rightarrow> Some (NoSubreaper e) | None \<Rightarrow> map_option InitNotProtected (is_Protect sy)))
                 else None) of
             Some e \<Rightarrow> (Inl e, w)
           | None \<Rightarrow> init_run sy (flagValue fl ''socket'' ''/run/jdix/init.sock'') (flagValue fl ''workspace'' ''/workspace'') (flagValue fl ''drop-to'' []) w))"

section \<open>What execd prints, jdix-init reads\<close>

definition initArgs :: "policy \<Rightarrow> layout \<Rightarrow> string \<Rightarrow> string list" where
  "initArgs p l ws =
     [''--socket'', path_Join [IPCMount l, InitSocketName], ''--workspace'', ws]
       @ (if Tier p \<noteq> TierUserns \<and> Tier p \<noteq> TierFilesystem then [''--drop-to'', itoa (UID p) @ '':'' @ itoa (GID p)] else [])
       @ (if Tier p = TierFilesystem then [''--subreaper''] else [])"

lemma Generate_tail:
  assumes "Generate stat spec p l = Inr argv"
  shows "\<exists>pre. argv = pre @ ''--'' # InitTarget l # initArgs p l (workspacePath spec)"
proof -
  obtain gs where g: "genAdds stat spec p l = Inr gs" "argv = concat gs"
    using assms by (auto simp: Generate_def split: sum.splits)
  then obtain xs where "gs = xs @ procAdds p l (workspacePath spec)"
    by (auto simp: genAdds_def Let_def split: option.splits sum.splits)
  then have "argv = concat xs @ concat (procAdds p l (workspacePath spec))" using g(2) by simp
  moreover have "\<exists>pre. concat (procAdds p l (workspacePath spec)) = pre @ ''--'' # InitTarget l # initArgs p l (workspacePath spec)"
    by (auto simp: procAdds_def initArgs_def addIf_def)
  ultimately show ?thesis by (metis append_assoc)
qed

lemma plainNames [simp]:
  "plainName ''socket''" "plainName ''workspace''" "plainName ''drop-to''" "plainName ''subreaper''"
  "plainName ''data-addr''" "plainName ''control-addr''" "plainName ''bwrap''" "plainName ''volumes''" "plainName ''filesystem-isolation''"
  by (simp_all add: plainName_def)

definition initValues :: "policy \<Rightarrow> layout \<Rightarrow> string \<Rightarrow> (string \<times> string) list" where
  "initValues p l ws =
     [(''socket'', path_Join [IPCMount l, InitSocketName]), (''workspace'', ws)]
     @ (if Tier p \<noteq> TierUserns \<and> Tier p \<noteq> TierFilesystem then [(''drop-to'', itoa (UID p) @ '':'' @ itoa (GID p))] else [])
     @ (if Tier p = TierFilesystem then [(''subreaper'', ''true'')] else [])"

lemma init_values:
  "flagValue (initValues p l ws) ''socket'' d = path_Join [IPCMount l, InitSocketName]" "flagValue (initValues p l ws) ''workspace'' d = ws"
  "flagValue (initValues p l ws) ''drop-to'' [] = (if Tier p \<noteq> TierUserns \<and> Tier p \<noteq> TierFilesystem then itoa (UID p) @ '':'' @ itoa (GID p) else [])"
  "flagBool (initValues p l ws) ''subreaper'' \<longleftrightarrow> Tier p = TierFilesystem"
  by (simp_all add: initValues_def flagValue_def flagBool_def ParseBool_def)

lemma parse_init_args: "parseFlags initFlags (initArgs p l ws) = Inr (initValues p l ws)"
proof -
  note nxt = parseFlags_next [of _ initFlags StringFlag]
  have s: "initFlags ''socket'' = Some StringFlag" "initFlags ''workspace'' = Some StringFlag" "initFlags ''drop-to'' = Some StringFlag"
    "initFlags ''subreaper'' = Some BoolFlag" by (simp_all add: initFlags_def)
  show ?thesis
    using nxt [OF plainNames(1) s(1)] nxt [OF plainNames(2) s(2)] nxt [OF plainNames(3) s(3)] parseFlags_bool [of _ initFlags, OF plainNames(4) s(4)]
    by (simp add: initArgs_def initValues_def tier_defs del: parseFlags.simps(2))
qed

lemma parseIDs_printed:
  assumes "0 \<le> u" "u < 2 ^ 63" "0 \<le> g" "g < 2 ^ 63"
  shows "parseIDs (itoa u @ '':'' @ itoa g) = (if u = 0 \<or> g = 0 then Inl TargetsRoot else Inr (u, g))"
proof -
  have i: "int64 u" "int64 g" using assms by (simp_all add: int64_def)
  then have "itoa u = Itoa u" "itoa g = Itoa g" using itoa_Itoa [of u] itoa_Itoa [of g] assms by simp_all
  moreover have "CHR '':'' \<notin> set (Itoa u)" by (rule Itoa_no_char) simp_all
  ultimately show ?thesis using i by (simp add: parseIDs_def cut_sep)
qed

text \<open>What jdix-init has done by the time it serves.\<close>

lemma init_run_serves:
  assumes "init_run sy socket ws dropTo w = (Inr (ln, s), w2)"
  shows "s = initd_New ws \<and> (\<exists>w0 w1. ls_Chmod (is_Listen sy) socket 384 w0 = (None, w1))
    \<and> (dropTo \<noteq> [] \<longrightarrow> (\<exists>uid gid. parseIDs dropTo = Inr (uid, gid) \<and> cr_Geteuid (is_Cred sy) w2 = uid \<and> cr_Getuid (is_Cred sy) w2 = uid))"
proof -
  obtain l w1 where l: "Listen (is_Listen sy) socket w = (Inr l, w1)"
    using assms by (auto simp: init_run_def split: prod.splits sum.splits)
  have "\<exists>w0 w1. ls_Chmod (is_Listen sy) socket 384 w0 = (None, w1)" using Listen_ok [OF l] by blast
  moreover have "s = initd_New ws" using assms l by (auto simp: init_run_def split: if_splits sum.splits option.splits prod.splits)
  moreover have "\<exists>uid gid. parseIDs dropTo = Inr (uid, gid) \<and> cr_Geteuid (is_Cred sy) w2 = uid \<and> cr_Getuid (is_Cred sy) w2 = uid"
    if d: "dropTo \<noteq> []"
  proof -
    obtain uid gid where "parseIDs dropTo = Inr (uid, gid)" "DropPrivileges (is_Cred sy) uid gid w1 = (None, w2)"
      using assms l d by (auto simp: init_run_def split: sum.splits option.splits prod.splits)
    then show ?thesis using DropPrivileges_ok [of "is_Cred sy" uid gid w1 w2] by simp
  qed
  ultimately show ?thesis by blast
qed


definition demoInit :: "(unit, int) init_sys" where
  "demoInit = \<lparr>is_View = \<lparr>p_Readlink = (\<lambda>_. Inl []), p_ReadDir = (\<lambda>_. Inl []), p_CanOpen = (\<lambda>_. False), p_ReadFile = (\<lambda>_. Inl []), p_StatDir = (\<lambda>_. False)\<rparr>,
     is_Subreaper = None, is_Protect = None,
     is_Listen = \<lparr>ls_MkdirAll = (\<lambda>_ w. (None, w)), ls_Remove = (\<lambda>_ w. w), ls_Listen = (\<lambda>_ w. (Inr (), w)),
       ls_Chmod = (\<lambda>_ _ w. (None, w)), ls_Close = (\<lambda>_ w. w)\<rparr>,
     is_Cred = \<lparr>cr_Setgroups = (\<lambda>_ w. (None, w)), cr_Setgid = (\<lambda>_ w. (None, w)), cr_Setuid = (\<lambda>u w. (None, u)),
       cr_Geteuid = (\<lambda>w. w), cr_Getuid = (\<lambda>w. w)\<rparr>\<rparr>"

lemma demo_capadmin: "\<not> isl (Generate (\<lambda>_. True) (demoSpec []) (DefaultPolicy TierCapAdmin) DefaultLayout)"
  by code_simp


section \<open>What the controller prints, execd reads\<close>

text \<open>A volume whose printed form can be taken apart again.\<close>

definition plainVolume :: "layout \<Rightarrow> template_volume \<Rightarrow> bool" where
  "plainVolume l v \<longleftrightarrow> tv_Name v \<noteq> [] \<and> CHR ''='' \<notin> set (tv_Name v)
     \<and> (\<forall>c \<in> set (tv_Name v @ volumeMountPath l v). \<not> isSpace c \<and> c \<noteq> CHR '','')"

lemma TrimSpace_plain: "\<forall>c \<in> set s. \<not> isSpace c \<Longrightarrow> TrimSpace s = s"
proof -
  have d: "\<forall>c \<in> set xs. \<not> isSpace c \<Longrightarrow> dropWhile isSpace xs = xs" for xs by (cases xs) simp_all
  show "\<forall>c \<in> set s. \<not> isSpace c \<Longrightarrow> TrimSpace s = s" by (simp add: TrimSpace_def d)
qed

lemma volumePairs_printed:
  "\<forall>v \<in> set vs. plainVolume l v \<Longrightarrow>
     volumePairs (map (\<lambda>v. tv_Name v @ ''='' @ volumeMountPath l v) vs) = map (\<lambda>v. (tv_Name v, volumeMountPath l v)) vs"
proof (induction vs)
  case (Cons v vs)
  have p: "plainVolume l v" using Cons.prems by simp
  have sp: "\<not> isSpace (CHR ''='')" by (simp add: isSpace_def)
  have n: "\<forall>c \<in> set (tv_Name v). \<not> isSpace c" "\<forall>c \<in> set (volumeMountPath l v). \<not> isSpace c"
    "\<forall>c \<in> set (tv_Name v @ CHR ''='' # volumeMountPath l v). \<not> isSpace c"
    using p sp unfolding plainVolume_def by (simp_all only: set_append list.set Un_iff insert_iff ball_simps) blast+
  have e: "CHR ''='' \<notin> set (tv_Name v)" using p by (simp add: plainVolume_def)
  have IH: "volumePairs (map (\<lambda>v. tv_Name v @ ''='' @ volumeMountPath l v) vs) = map (\<lambda>v. (tv_Name v, volumeMountPath l v)) vs"
    by (rule Cons.IH) (use Cons.prems in simp)
  show ?case
    using IH cut_sep [OF e, of "volumeMountPath l v"] by (simp add: Let_def TrimSpace_plain n)
qed simp

lemma volumeList_printed:
  assumes "\<forall>v \<in> set (ts_Volumes (tp_Spec t)). plainVolume l v"
  shows "volumeList (VolumeArgs l t) = map (\<lambda>v. (tv_Name v, volumeMountPath l v)) (ts_Volumes (tp_Spec t))"
proof (cases "ts_Volumes (tp_Spec t) = []")
  case True
  then show ?thesis by (simp add: volumeList_def VolumeArgs_def TrimSpace_def)
next
  case False
  let ?xs = "map (\<lambda>v. tv_Name v @ ''='' @ volumeMountPath l v) (ts_Volumes (tp_Spec t))"
  have "\<forall>x \<in> set ?xs. CHR '','' \<notin> set x" using assms by (auto simp: plainVolume_def)
  then have "split_on (CHR '','') (join '','' ?xs) = ?xs" using False by (intro split_on_join) auto
  then show ?thesis using volumePairs_printed [OF assms] by (simp add: volumeList_def VolumeArgs_def)
qed

lemma distinct_last_wins: "distinct (map fst xs) \<Longrightarrow> map_of (rev xs) = map_of xs"
  by (rule map_of_inject_set [THEN iffD2]) (simp_all add: rev_map [symmetric])

lemma parsed_volumes:
  assumes "\<forall>v \<in> set (ts_Volumes (tp_Spec t)). plainVolume l v" "distinct (map tv_Name (ts_Volumes (tp_Spec t)))"
  shows "parseVolumes (VolumeArgs l t) = map_of (map (\<lambda>v. (tv_Name v, volumeMountPath l v)) (ts_Volumes (tp_Spec t)))"
  using assms distinct_last_wins [of "map (\<lambda>v. (tv_Name v, volumeMountPath l v)) (ts_Volumes (tp_Spec t))"]
  by (simp add: parseVolumes_def volumeList_printed comp_def)

text \<open>A mount path with a comma, which neither the template's schema nor Kubernetes forbids, is cut short.\<close>

lemma comma_path_is_cut: "parseVolumes ''data=/mnt/a,b'' = [''data'' \<mapsto> ''/mnt/a'']"
  by (simp add: parseVolumes_def volumeList_def TrimSpace_def isSpace_def cut_def Let_def)

definition execdValues :: "layout \<Rightarrow> tmpl \<Rightarrow> bool \<Rightarrow> (string \<times> string) list" where
  "execdValues l t fsMode =
     [(''data-addr'', '':'' @ Itoa PortData), (''control-addr'', '':'' @ Itoa PortControl),
      (''bwrap'', path_Join [PlatformRoot, ''bin'', ''bwrap'']), (''volumes'', VolumeArgs l t)]
     @ (if fsMode then [(''filesystem-isolation'', ''bwrap'')] else [])"

lemma parse_container_args: "parseFlags execdFlags (c_Args (sandboxContainer l t token u fsMode)) = Inr (execdValues l t fsMode)"
proof -
  have s: "execdFlags ''data-addr'' = Some StringFlag" "execdFlags ''control-addr'' = Some StringFlag" "execdFlags ''bwrap'' = Some StringFlag"
    "execdFlags ''volumes'' = Some StringFlag" "execdFlags ''filesystem-isolation'' = Some StringFlag" by (simp_all add: execdFlags_def)
  note eq = parseFlags_eq [of _ execdFlags StringFlag]
  have p: "parseFlags execdFlags ((''--data-addr='' @ x) # args) = (case parseFlags execdFlags args of Inl e \<Rightarrow> Inl e | Inr vs \<Rightarrow> Inr ((''data-addr'', x) # vs))"
    "parseFlags execdFlags ((''--control-addr='' @ x) # args) = (case parseFlags execdFlags args of Inl e \<Rightarrow> Inl e | Inr vs \<Rightarrow> Inr ((''control-addr'', x) # vs))"
    "parseFlags execdFlags ((''--bwrap='' @ x) # args) = (case parseFlags execdFlags args of Inl e \<Rightarrow> Inl e | Inr vs \<Rightarrow> Inr ((''bwrap'', x) # vs))"
    "parseFlags execdFlags ((''--volumes='' @ x) # args) = (case parseFlags execdFlags args of Inl e \<Rightarrow> Inl e | Inr vs \<Rightarrow> Inr ((''volumes'', x) # vs))"
    "parseFlags execdFlags ((''--filesystem-isolation='' @ x) # args) = (case parseFlags execdFlags args of Inl e \<Rightarrow> Inl e | Inr vs \<Rightarrow> Inr ((''filesystem-isolation'', x) # vs))" for x args
    using eq [OF plainNames(5) s(1), of x args] eq [OF plainNames(6) s(2), of x args] eq [OF plainNames(7) s(3), of x args]
      eq [OF plainNames(8) s(4), of x args] eq [OF plainNames(9) s(5), of x args]
    by (simp_all del: parseFlags.simps)
  have fsArg: "parseFlags execdFlags [''--filesystem-isolation=bwrap''] = Inr [(''filesystem-isolation'', ''bwrap'')]"
    using p(5) [of "''bwrap''" "[]"] by (simp del: parseFlags.simps(2))
  have args: "c_Args (sandboxContainer l t token u fsMode)
    = (''--data-addr='' @ '':'' @ Itoa PortData) # (''--control-addr='' @ '':'' @ Itoa PortControl) # (''--bwrap='' @ path_Join [PlatformRoot, ''bin'', ''bwrap''])
      # (''--volumes='' @ VolumeArgs l t) # (if fsMode then [''--filesystem-isolation='' @ ''bwrap''] else [])"
    by (simp add: sandboxContainer_def)
  show ?thesis unfolding args p execdValues_def by (cases fsMode) (simp_all only: if_True if_False fsArg parseFlags.simps(1) sum.case append.simps)
qed

lemma execd_values:
  "flagValue (execdValues l t f) ''data-addr'' d = '':'' @ Itoa PortData" "flagValue (execdValues l t f) ''control-addr'' d = '':'' @ Itoa PortControl"
  "flagValue (execdValues l t f) ''volumes'' d = VolumeArgs l t" "flagValue (execdValues l t f) ''filesystem-isolation'' [] = (if f then ''bwrap'' else [])"
  "flagValue (execdValues l t f) ''bwrap'' d = path_Join [PlatformRoot, ''bin'', ''bwrap'']" "flagValue (execdValues l t f) ''tier'' d = d" "flagValue (execdValues l t f) ''internal-token-env'' d = d"
  "flagValue (execdValues l t f) ''internal-token-file'' d = d" "flagBool (execdValues l t f) ''filesystem-probe-child'' = False"
  "flagBool (execdValues l t f) ''allow-unauthenticated-control'' = False"
  by (simp_all add: execdValues_def flagValue_def flagBool_def)

text \<open>What execd makes of the arguments and the environment of its container.\<close>

lemma execdServe_rendered:
  assumes "pn_Getenv nd ''JDIX_CONTROL_TOKEN'' = token" "token \<noteq> []" "TrimSpace token = token"
  shows "execdServe nd (execdValues l t f) w =
     (let probe = execdProbe nd (if f then ''bwrap'' else []) (path_Join [PlatformRoot, ''bin'', ''bwrap'']) (VolumeArgs l t) in
      if f \<and> r_Tier probe \<noteq> TierFilesystem then Stopped (NoFilesystemTier (r_Reason probe))
      else Serving (execd_New (execdConfig (r_Tier probe) (parseVolumes (VolumeArgs l t))) (r_Tier probe) (r_Reason probe) token (pn_Now nd))
             ('':'' @ Itoa PortData) ('':'' @ Itoa PortControl))"
  using assms unfolding execdServe_def execd_values by (simp add: Let_def readToken_def)

lemma execd_New_fields:
  "ed_internalToken (execd_New (execdConfig ti vols) ti re tok now) = tok" "ed_tier (execd_New (execdConfig ti vols) ti re tok now) = ti"
  "ed_sb (execd_New (execdConfig ti vols) ti re tok now) = None" "cf_Volumes (ed_cfg (execd_New (execdConfig ti vols) ti re tok now)) = vols"
  "cf_Tier (ed_cfg (execd_New (execdConfig ti vols) ti re tok now)) = ti"
  by (simp_all add: execd_New_def execdConfig_def Let_def)

lemma execd_main_rendered:
  assumes "pn_Getenv nd ''JDIX_CONTROL_TOKEN'' = token" "token \<noteq> []" "TrimSpace token = token"
    and "execd_main nd (c_Args (sandboxContainer l t token u f)) w = (st, w1)"
  shows "(\<exists>e. st = Stopped (NotProtected e) \<or> st = Stopped (NotPrepared e) \<or> st = Stopped (NoFilesystemTier e))
    \<or> (\<exists>ti re. (f \<longrightarrow> ti = TierFilesystem \<and> pn_Protect nd = None)
         \<and> (\<not> f \<longrightarrow> (\<exists>bin. ti = r_Tier (Detect (pn_Node nd) bin)))
         \<and> st = Serving (execd_New (execdConfig ti (parseVolumes (VolumeArgs l t))) ti re token (pn_Now nd)) ('':'' @ Itoa PortData) ('':'' @ Itoa PortControl))"
proof -
  let ?fl = "execdValues l t f"
  obtain e w' where pr: "prepare (pn_Prep nd) (pn_GroupFirst nd) DefaultLayout w = (e, w')" by (rule prod.exhaust)
  show ?thesis
  proof (cases "f \<and> pn_Protect nd \<noteq> None \<or> e \<noteq> None")
    case True
    then show ?thesis using assms(4) pr unfolding execd_main_def parse_container_args sum.case execd_values
      by (auto simp: Let_def split: if_splits)
  next
    case False
    then have st: "st = execdServe nd ?fl w'" using assms(4) pr unfolding execd_main_def parse_container_args sum.case execd_values
      by (auto simp: Let_def split: if_splits)
    note b = execdServe_rendered [OF assms(1-3), of l t f w']
    let ?bin = "path_Join [PlatformRoot, ''bin'', ''bwrap'']"
    show ?thesis
    proof (cases "f \<and> r_Tier (execdProbe nd (if f then ''bwrap'' else []) ?bin (VolumeArgs l t)) \<noteq> TierFilesystem")
      case True
      then show ?thesis using st b by (auto simp: Let_def)
    next
      case ok: False
      then show ?thesis using st b False by (auto simp: Let_def execdProbe_def split: if_splits)
    qed
  qed
qed

lemma hex_digit_plain: "d < 16 \<Longrightarrow> \<not> isSpace (hex_digit d)"
  by (auto simp: hex_digit_def isSpace_def Let_def)

lemma NewControlToken_plain:
  assumes "NewControlToken (Some bs) = Some token" "bytes bs"
  shows "token \<noteq> []" "TrimSpace token = token"
proof -
  have t: "token = ''jct_'' @ hexEncode bs" using assms(1) by (simp add: NewControlToken_def)
  then show "token \<noteq> []" by simp
  have "\<forall>c \<in> set token. \<not> isSpace c"
    using t hexEncode_chars [OF assms(2)] hex_digit_plain by (auto simp: isSpace_def)
  then show "TrimSpace token = token" by (rule TrimSpace_plain)
qed

text \<open>C36: the Pod the controller renders starts the execd the controller expects. Take the Pod built for a template with a fresh
  token, and start execd with the arguments and the environment of its container, whatever the node answers. It refuses only
  because it could not be protected, could not prepare its directories, or cannot give the filesystem isolation the template
  demands; never because of its arguments, and never for want of a token. Otherwise it serves, unbound, on the ports the
  controller and the gateway dial; it lets in the controller, which reads the token back from the Pod, and no one with
  another token; its tier is the one measured, the filesystem tier for a template that asks for it; and its volumes are
  those of the template, when their names are distinct and neither names nor paths contain blanks, commas or equals signs.\<close>

theorem rendered_pod_serves_controller:
  assumes "NewControlToken (Some bs) = Some token" "bytes bs"
    and "p = BuildPod rd t poolName token" "ps_Containers (pod_Spec p) = [c]"
    and "\<forall>e \<in> set (c_Env c). pn_Getenv nd (ev_Name e) = ev_Value e"
    and "execd_main nd (c_Args c) w = (st, w1)"
  shows "(\<exists>e. st = Stopped (NotProtected e) \<or> st = Stopped (NotPrepared e) \<or> st = Stopped (NoFilesystemTier e))
    \<or> (\<exists>ed. st = Serving ed ('':'' @ Itoa PortData) ('':'' @ Itoa (xc_Port NewHTTPExecdClient)) \<and> ed_sb ed = None
         \<and> (\<forall>q. pod_Spec q = pod_Spec p \<longrightarrow> admits ed (podRef q)) \<and> (\<forall>ref. admits ed ref \<longrightarrow> pr_Token ref = token)
         \<and> ed_tier ed = cf_Tier (ed_cfg ed)
         \<and> (ts_FilesystemIsolation (tp_Spec t) = ''bwrap'' \<longrightarrow> ed_tier ed = TierFilesystem \<and> pn_Protect nd = None)
         \<and> (ts_FilesystemIsolation (tp_Spec t) \<noteq> ''bwrap'' \<longrightarrow> (\<exists>bin. ed_tier ed = r_Tier (Detect (pn_Node nd) bin)))
         \<and> ((\<forall>v \<in> set (ts_Volumes (tp_Spec t)). plainVolume (rLayout rd) v) \<and> distinct (map tv_Name (ts_Volumes (tp_Spec t))) \<longrightarrow>
              cf_Volumes (ed_cfg ed) = map_of (map (\<lambda>v. (tv_Name v, volumeMountPath (rLayout rd) v)) (ts_Volumes (tp_Spec t)))))"
proof -
  let ?f = "ts_FilesystemIsolation (tp_Spec t) = ''bwrap''" and ?u = "ts_FilesystemIsolation (tp_Spec t) \<noteq> ''bwrap'' \<and> RequiredIsolation (tp_Spec t) = TierUserns"
  have c: "c = sandboxContainer (rLayout rd) t token ?u ?f"
    using assms(3,4) by (simp add: BuildPod_def Let_def podSpecFor_def buildPodSpec_containers)
  have env: "pn_Getenv nd ''JDIX_CONTROL_TOKEN'' = token" using assms(5) by (simp add: c sandboxContainer_def ControlTokenEnv_def)
  have tok: "PodToken q = token" if "pod_Spec q = pod_Spec p" for q
  proof -
    have "PodToken q = PodToken p" by (simp add: PodToken_def that)
    then show ?thesis using BuildPod_hash_and_token [of rd t poolName token] assms(3) by simp
  qed
  note plain = NewControlToken_plain [OF assms(1,2)]
  from execd_main_rendered [OF env plain assms(6) [unfolded c]] show ?thesis
  proof (elim disjE exE conjE)
    fix ti re
    let ?ed = "execd_New (execdConfig ti (parseVolumes (VolumeArgs (rLayout rd) t))) ti re token (pn_Now nd)"
    assume a: "?f \<longrightarrow> ti = TierFilesystem \<and> pn_Protect nd = None" "\<not> ?f \<longrightarrow> (\<exists>bin. ti = r_Tier (Detect (pn_Node nd) bin))"
      "st = Serving ?ed ('':'' @ Itoa PortData) ('':'' @ Itoa PortControl)"
    show ?thesis
      by (intro disjI2 exI [of _ ?ed])
         (use a plain(1) tok in \<open>simp add: execd_New_fields admits_def podRef_def parsed_volumes NewHTTPExecdClient_def\<close>)
  qed (simp_all only: execd_start.inject stop_cause.inject, blast+)
qed

definition demoPodNode :: "(unit, unit) pod_node" where
  "demoPodNode = \<lparr>pn_Getenv = (\<lambda>n. ''jct_''), pn_View = is_View demoInit, pn_Protect = None,
     pn_Prep = \<lparr>pf_MkdirAll = (\<lambda>_ _ w. (None, w)), pf_Chmod = (\<lambda>_ _ w. (None, w)), pf_Chown = (\<lambda>_ _ _ w. w), pf_Exists = (\<lambda>_ _. False),
       pf_ReadFile = (\<lambda>_ _. Inl []), pf_WriteFile = (\<lambda>_ _ _ w. (None, w))\<rparr>,
     pn_GroupFirst = False, pn_Node = \<lparr>n_GOOS = ''linux'', n_LookPath = (\<lambda>_. None), n_Run = (\<lambda>_ _. ([], None)), n_Status = None\<rparr>,
     pn_Sys = \<lparr>sys_Open = (\<lambda>_ _. Inl ENOENT), sys_Openat = (\<lambda>_ _ _ _. Inl ENOENT), sys_Openat2 = (\<lambda>_ _ _. Inl ENOENT)\<rparr>,
     pn_ErrStr = (\<lambda>_. []), pn_Exe = Inr ''/x'', pn_Unix = linux_amd64, pn_Arch = ''amd64'', pn_Memfd = memfdWorks, pn_Now = 0\<rparr>"

lemma demo_prepared: "prepare (pn_Prep demoPodNode) (pn_GroupFirst demoPodNode) DefaultLayout () = (None, ())"
  by code_simp

lemma demo_served:
  assumes "st = execdServe demoPodNode (execdValues DefaultLayout t False) ()"
  shows "\<exists>ed da ca. st = Serving ed da ca"
proof -
  have "pn_Getenv demoPodNode ''JDIX_CONTROL_TOKEN'' = ''jct_''" by (simp add: demoPodNode_def)
  moreover have "TrimSpace ''jct_'' = ''jct_''" by (simp add: TrimSpace_def isSpace_def)
  ultimately show ?thesis using assms execdServe_rendered [of demoPodNode "''jct_''" DefaultLayout t False "()"] by (simp add: Let_def)
qed

theorem rendered_pod_serves_controller_witness:
  "\<exists>ed da. fst (execd_main demoPodNode (c_Args (hd (ps_Containers (pod_Spec (BuildPod demoRender (demoTpl AdmissionApproved) ''pool'' ''jct_''))))) ())
      = Serving ed da ('':'' @ Itoa (xc_Port NewHTTPExecdClient))
     \<and> admits ed (podRef (BuildPod demoRender (demoTpl AdmissionApproved) ''pool'' ''jct_''))"
proof -
  let ?p = "BuildPod demoRender (demoTpl AdmissionApproved) ''pool'' ''jct_''"
  let ?c = "sandboxContainer DefaultLayout (demoTpl AdmissionApproved) ''jct_'' False False"
  have r: "RequiredIsolation demoTplSpec \<noteq> TierUserns" by (simp add: RequiredIsolation_def demoTplSpec_def tier_defs)
  have cs: "ps_Containers (pod_Spec ?p) = [?c]" using r
    by (simp add: BuildPod_def Let_def podSpecFor_def buildPodSpec_containers demoRender_def demoTpl_def) (simp add: demoTplSpec_def)
  obtain st w1 where m: "execd_main demoPodNode (c_Args ?c) () = (st, w1)" by (rule prod.exhaust)
  have n: "NewControlToken (Some []) = Some ''jct_''" "bytes []" by (simp_all add: NewControlToken_def hexEncode_def bytes_def)
  have e: "\<forall>e \<in> set (c_Env ?c). pn_Getenv demoPodNode (ev_Name e) = ev_Value e" by (simp add: sandboxContainer_def demoPodNode_def)
  have p: "prepare (pn_Prep demoPodNode) (pn_GroupFirst demoPodNode) DefaultLayout () = (None, ())"
    by (rule demo_prepared)
  have "st = execdServe demoPodNode (execdValues DefaultLayout (demoTpl AdmissionApproved) False) ()"
    using m unfolding execd_main_def parse_container_args sum.case execd_values p by simp
  then obtain ed da ca where s: "st = Serving ed da ca" using demo_served by blast
  have "\<exists>ed da. st = Serving ed da ('':'' @ Itoa (xc_Port NewHTTPExecdClient)) \<and> admits ed (podRef ?p)"
    using rendered_pod_serves_controller [OF n refl cs e m] s by (simp only: execd_start.distinct simp_thms ex_simps) blast
  then show ?thesis using m cs by simp
qed

end
