(* ===== verification/Image_Registry.thy ===== *)
theory Image_Registry
  imports Template_Admission
begin

text \<open>
  Asking the registry (\<open>pkg/controller/imageresolver.go\<close>): the credentials read from pull secrets, which of them is
  presented to which registry, and what becomes of the registry's answer. Parsing a reference and talking to a registry are
  \<open>go-containerregistry\<close> and parameters; so is the name it gives Docker Hub. The entries of a secret are in the order in which
  the map of the decoded JSON happens to be iterated.
\<close>

section \<open>Credentials\<close>

record auth_config =
  ac_Username :: string
  ac_Password :: string

record docker_auth =
  de_Username :: string
  de_Password :: string
  de_Auth :: string

definition toAuthConfig :: "docker_auth \<Rightarrow> auth_config" where
  "toAuthConfig e =
     (case (if de_Username e = [] \<and> de_Auth e \<noteq> [] then b64decode (de_Auth e) else None) of
        Some dec \<Rightarrow>
          (case cut (CHR '':'') dec of (u, p, ok) \<Rightarrow>
             if ok then \<lparr>ac_Username = u, ac_Password = p\<rparr> else \<lparr>ac_Username = de_Username e, ac_Password = de_Password e\<rparr>)
      | None \<Rightarrow> \<lparr>ac_Username = de_Username e, ac_Password = de_Password e\<rparr>)"

text \<open>The two keys of a secret that are looked at: whether they are there, and the entries if they are JSON.\<close>

record pull_secret =
  sec_DockerConfigJson :: "(string \<times> docker_auth) list option option"
  sec_DockerConfig :: "(string \<times> docker_auth) list option option"

definition addEntries :: "string \<Rightarrow> (string \<times> docker_auth) list \<Rightarrow> (string \<rightharpoonup> auth_config) \<Rightarrow> (string \<rightharpoonup> auth_config)" where
  "addEntries hub es auths = fold (\<lambda>(host, e) m. m(registryKey hub host \<mapsto> toAuthConfig e)) es auths"

definition keychain_add :: "string \<Rightarrow> pull_secret \<Rightarrow> (string \<rightharpoonup> auth_config) \<Rightarrow> (string \<rightharpoonup> auth_config)" where
  "keychain_add hub sec auths =
     (case sec_DockerConfigJson sec of
        None \<Rightarrow>
          (case sec_DockerConfig sec of
             Some (Some es) \<Rightarrow> addEntries hub es auths
           | _ \<Rightarrow> auths)
      | Some None \<Rightarrow> auths
      | Some (Some es) \<Rightarrow> addEntries hub es auths)"

datatype 'kc keychain = Configured 'kc | DefaultKeychain | DockerConfigs "string \<rightharpoonup> auth_config"

record 'kc registry_resolver =
  rg_Keychain :: "'kc option"
  rg_Client :: "(string \<Rightarrow> string \<Rightarrow> pull_secret option) option"

definition readSecrets :: "string \<Rightarrow> (string \<Rightarrow> pull_secret option) \<Rightarrow> string list \<Rightarrow> (string \<rightharpoonup> auth_config)" where
  "readSecrets hub get names =
     fold (\<lambda>n m. case get n of None \<Rightarrow> m | Some sec \<Rightarrow> keychain_add hub sec m) names Map.empty"

definition resolver_keychain :: "string \<Rightarrow> 'kc registry_resolver \<Rightarrow> string \<Rightarrow> string list \<Rightarrow> 'kc keychain" where
  "resolver_keychain hub r ns secrets =
     (case rg_Keychain r of
        Some kc \<Rightarrow> Configured kc
      | None \<Rightarrow>
          (case rg_Client r of
             None \<Rightarrow> DefaultKeychain
           | Some get \<Rightarrow>
               if secrets = [] then DefaultKeychain
               else (let auths = readSecrets hub (get ns) secrets in if auths = Map.empty then DefaultKeychain else DockerConfigs auths)))"

datatype registry_auth = FromConfig auth_config | Anonymous

definition keychain_Resolve :: "string \<Rightarrow> (string \<rightharpoonup> auth_config) \<Rightarrow> string \<Rightarrow> registry_auth" where
  "keychain_Resolve hub auths registry =
     (case auths (registryKey hub registry) of Some cfg \<Rightarrow> FromConfig cfg | None \<Rightarrow> Anonymous)"

section \<open>Resolving\<close>

text \<open>An error of the registry client: one with a status, or another with its text.\<close>

datatype remote_error = TransportError int string | OtherError string

definition isNotFound :: "remote_error \<Rightarrow> bool" where
  "isNotFound e =
     (case e of
        TransportError st s \<Rightarrow> st = 404 \<or> st = 401 \<or> st = 403
      | OtherError s \<Rightarrow> indexOf ''MANIFEST_UNKNOWN'' s \<noteq> None \<or> indexOf ''NAME_UNKNOWN'' s \<noteq> None
                         \<or> indexOf ''not found'' s \<noteq> None \<or> indexOf ''unauthorized'' s \<noteq> None)"

fun errText :: "remote_error \<Rightarrow> string" where
  "errText (TransportError st s) = s"
| "errText (OtherError s) = s"

text \<open>What the registry has: a digest, and the layers of the image for this platform where that can be told, each with its
  size where that can be told.\<close>

record descriptor =
  ds_Digest :: string
  ds_Layers :: "int option list option"

definition layerBytes :: "descriptor \<Rightarrow> int" where
  "layerBytes d =
     (case ds_Layers d of
        None \<Rightarrow> 0
      | Some ls \<Rightarrow> fold (\<lambda>l n. case l of None \<Rightarrow> n | Some sz \<Rightarrow> wrap64 (n + sz)) ls 0)"

definition registry_Resolve ::
    "string \<Rightarrow> 'kc registry_resolver \<Rightarrow> (string \<Rightarrow> (string, 'p) result) \<Rightarrow> ('p \<Rightarrow> 'kc keychain \<Rightarrow> (remote_error, descriptor) result)
     \<Rightarrow> string \<Rightarrow> string list \<Rightarrow> string \<Rightarrow> (resolve_error, resolved_image) result" where
  "registry_Resolve hub r parse get ref pullSecrets ns =
     (case parse ref of
        Inl e \<Rightarrow> Inl (ResolveErr (Quote ref @ '' is not a valid image reference: '' @ e))
      | Inr p \<Rightarrow>
          (case get p (resolver_keychain hub r ns pullSecrets) of
             Inl e \<Rightarrow> Inl (if isNotFound e then ErrImageNotFound else ResolveErr (''resolving '' @ ref @ '': '' @ errText e))
           | Inr d \<Rightarrow> Inr \<lparr>ri_Digest = ds_Digest d, ri_Bytes = layerBytes d\<rparr>))"

section \<open>Lemmas\<close>

text \<open>A stored user and password come back, whatever the password contains.\<close>

lemma toAuthConfig_encoded:
  assumes "CHR '':'' \<notin> set u"
  shows "toAuthConfig \<lparr>de_Username = [], de_Password = pw, de_Auth = b64encode (u @ CHR '':'' # p)\<rparr>
     = \<lparr>ac_Username = u, ac_Password = p\<rparr>"
proof -
  have "b64decode [] = Some []" by (simp add: b64decode_def b64pad_def b64dec_def)
  then have "b64encode (u @ CHR '':'' # p) \<noteq> []" using b64decode_encode [of "u @ CHR '':'' # p"] by (metis append_is_Nil_conv list.distinct(1) option.inject)
  then show ?thesis using assms by (simp add: toAuthConfig_def cut_sep)
qed

text \<open>The entries a secret contributes.\<close>

definition entriesOf :: "pull_secret \<Rightarrow> (string \<times> docker_auth) list" where
  "entriesOf sec =
     (case sec_DockerConfigJson sec of
        None \<Rightarrow> (case sec_DockerConfig sec of Some (Some es) \<Rightarrow> es | _ \<Rightarrow> [])
      | Some None \<Rightarrow> []
      | Some (Some es) \<Rightarrow> es)"

lemma keychain_add_entries: "keychain_add hub sec m = addEntries hub (entriesOf sec) m"
  by (auto simp: keychain_add_def entriesOf_def addEntries_def split: option.splits)

lemma addEntries_origin:
  "addEntries hub es m k = Some cfg \<Longrightarrow> m k = Some cfg \<or> (\<exists>host e. (host, e) \<in> set es \<and> registryKey hub host = k \<and> toAuthConfig e = cfg)"
  unfolding addEntries_def
proof (induction es arbitrary: m)
  case (Cons x es)
  obtain host e where x: "x = (host, e)" by force
  from Cons.prems have "fold (\<lambda>(host, e) m. m(registryKey hub host \<mapsto> toAuthConfig e)) es (m(registryKey hub host \<mapsto> toAuthConfig e)) k = Some cfg"
    by (simp add: x del: fun_upd_apply)
  from Cons.IH [OF this] show ?case
  proof
    assume "(m(registryKey hub host \<mapsto> toAuthConfig e)) k = Some cfg"
    then show ?thesis using x by (cases "registryKey hub host = k") auto
  next
    assume "\<exists>host e. (host, e) \<in> set es \<and> registryKey hub host = k \<and> toAuthConfig e = cfg"
    then show ?thesis by auto
  qed
qed simp

lemma readSecrets_origin:
  assumes "readSecrets hub get names k = Some cfg"
  shows "\<exists>n sec host e. n \<in> set names \<and> get n = Some sec \<and> (host, e) \<in> set (entriesOf sec) \<and> registryKey hub host = k \<and> toAuthConfig e = cfg"
proof -
  have "fold (\<lambda>n m. case get n of None \<Rightarrow> m | Some sec \<Rightarrow> keychain_add hub sec m) ns m k = Some cfg
    \<Longrightarrow> m k = Some cfg \<or> (\<exists>n sec host e. n \<in> set ns \<and> get n = Some sec \<and> (host, e) \<in> set (entriesOf sec) \<and> registryKey hub host = k \<and> toAuthConfig e = cfg)"
    for ns m
  proof (induction ns arbitrary: m)
    case (Cons n ns)
    show ?case
    proof (cases "get n")
      case None
      then show ?thesis using Cons by fastforce
    next
      case (Some sec)
      then show ?thesis using Cons.IH [of "keychain_add hub sec m"] Cons.prems addEntries_origin [of hub "entriesOf sec" m k cfg]
        by (fastforce simp: keychain_add_entries)
    qed
  qed simp
  from this [of names Map.empty] assms show ?thesis by (auto simp: readSecrets_def)
qed

text \<open>Every spelling of Docker Hub is one registry.\<close>

lemma hub_spellings:
  "registryKey hub ''https://index.docker.io/v1/'' = hub" "registryKey hub ''docker.io'' = hub" "registryKey hub ''http://registry-1.docker.io'' = hub"
  by (simp_all add: registryKey_def trimPrefix_def trimSuffix_def hasPrefix_def hasSuffix_def Let_def)

text \<open>An image whose layers the registry client cannot read has size 0 and passes the size limit.\<close>

lemma unmeasured_image_passes:
  assumes "ds_Layers d = None" "parse ref = Inr p" "get p (resolver_keychain hub r ns secrets) = Inr d"
    and "ts_Volumes (tp_Spec t) = []" "tt_ImageBytes (tp_Status t) = (case registry_Resolve hub r parse get ref secrets ns of Inr i \<Rightarrow> ri_Bytes i | Inl e \<Rightarrow> 0)"
  shows "resolvedAdmit tr t = (AdmissionApproved, [])"
  using assms by (simp add: resolvedAdmit_def registry_Resolve_def layerBytes_def Let_def)

section \<open>Properties\<close>

text \<open>A credential goes to its own registry only. When a template's pull secrets provide a credential for a registry, it is
  one that an entry of one of the named secrets, read in the template's namespace, holds for that registry: the host of the
  entry and the registry are the same once scheme, path and the names of Docker Hub are evened out. A registry without such
  an entry is asked anonymously.\<close>

lemma credential_goes_to_its_registry:
  assumes "resolver_keychain hub r ns secrets = DockerConfigs auths"
  shows "\<exists>get. rg_Client r = Some get
    \<and> (\<forall>registry cfg. keychain_Resolve hub auths registry = FromConfig cfg \<longrightarrow>
         (\<exists>n sec host e. n \<in> set secrets \<and> get ns n = Some sec \<and> (host, e) \<in> set (entriesOf sec)
            \<and> registryKey hub host = registryKey hub registry \<and> toAuthConfig e = cfg))
    \<and> (\<forall>registry. (\<forall>n sec host e. n \<in> set secrets \<and> get ns n = Some sec \<and> (host, e) \<in> set (entriesOf sec)
            \<longrightarrow> registryKey hub host \<noteq> registryKey hub registry)
         \<longrightarrow> keychain_Resolve hub auths registry = Anonymous)"
proof -
  obtain get where g: "rg_Client r = Some get" "auths = readSecrets hub (get ns) secrets"
    using assms by (auto simp: resolver_keychain_def Let_def split: option.splits if_splits)
  have o: "auths (registryKey hub registry) = Some cfg \<Longrightarrow>
      \<exists>n sec host e. n \<in> set secrets \<and> get ns n = Some sec \<and> (host, e) \<in> set (entriesOf sec)
        \<and> registryKey hub host = registryKey hub registry \<and> toAuthConfig e = cfg" for registry cfg
    using readSecrets_origin [of hub "get ns" secrets "registryKey hub registry" cfg] g(2) by simp
  show ?thesis
  proof (intro exI [of _ get] conjI allI impI g(1))
    fix registry cfg
    assume "keychain_Resolve hub auths registry = FromConfig cfg"
    then have "auths (registryKey hub registry) = Some cfg" by (simp add: keychain_Resolve_def split: option.splits)
    then show "\<exists>n sec host e. n \<in> set secrets \<and> get ns n = Some sec \<and> (host, e) \<in> set (entriesOf sec)
        \<and> registryKey hub host = registryKey hub registry \<and> toAuthConfig e = cfg" by (rule o)
  next
    fix registry
    assume a: "\<forall>n sec host e. n \<in> set secrets \<and> get ns n = Some sec \<and> (host, e) \<in> set (entriesOf sec)
      \<longrightarrow> registryKey hub host \<noteq> registryKey hub registry"
    have "auths (registryKey hub registry) = None"
    proof (rule ccontr)
      assume "auths (registryKey hub registry) \<noteq> None"
      then obtain cfg where "auths (registryKey hub registry) = Some cfg" by blast
      from o [OF this] a show False by blast
    qed
    then show "keychain_Resolve hub auths registry = Anonymous" by (simp add: keychain_Resolve_def)
  qed
qed

end
