(* ===== verification/Plane_Commands.thy ===== *)
theory Plane_Commands
  imports Go_Flags Gateway Image_Registry Execd_Client
begin

text \<open>
  The two processes of the control plane from their flags on: \<open>cmd/jdix-server/main.go\<close>, which is the tenant API, the data
  plane or both, and \<open>cmd/jdix-controller/main.go\<close>. What a process reads from its command line is checked before anything is
  opened; connecting to Kubernetes, to the database and listening are answers from outside. Both processes are configured with
  the scheme of sandbox URLs, which one of them renders and the other parses.
\<close>

section \<open>jdix-server\<close>

record role =
  rl_control :: bool
  rl_data :: bool

definition parseRole :: "string \<Rightarrow> (string, role) result" where
  "parseRole s =
     (if s = ''all'' then Inr \<lparr>rl_control = True, rl_data = True\<rparr>
      else if s = ''server'' then Inr \<lparr>rl_control = True, rl_data = False\<rparr>
      else if s = ''gateway'' then Inr \<lparr>rl_control = False, rl_data = True\<rparr>
      else Inl (''unknown --role '' @ Quote s @ '': want all, server or gateway''))"

datatype transport_kind = KindDirect | KindAPIProxy

definition parseTransport :: "string \<Rightarrow> (string, transport_kind) result" where
  "parseTransport s =
     (if s = ''direct'' then Inr KindDirect
      else if s = ''apiserver-proxy'' then Inr KindAPIProxy
      else Inl (''unknown --sandbox-transport '' @ Quote s @ '': want direct or apiserver-proxy''))"

text \<open>\<open>newTransport\<close>; what \<open>NewAPIProxyTransport\<close> makes of the REST configuration is an argument.\<close>

fun newTransport :: "transport_kind \<Rightarrow> (string, transport) result \<Rightarrow> (string, transport) result" where
  "newTransport KindDirect proxy = Inr DirectTransport"
| "newTransport KindAPIProxy proxy = proxy"

text \<open>A listener: its name, how long it may drain, and its write timeout, 0 for none.\<close>

record listener =
  li_name :: string
  li_addr :: string
  li_grace :: int
  li_writeTimeout :: int

definition controlListener :: "string \<Rightarrow> listener" where
  "controlListener addr = \<lparr>li_name = ''control-plane'', li_addr = addr, li_grace = 15 * second, li_writeTimeout = 60 * second\<rparr>"

definition dataListener :: "string \<Rightarrow> listener" where
  "dataListener addr = \<lparr>li_name = ''data-plane'', li_addr = addr, li_grace = 60 * second, li_writeTimeout = 0\<rparr>"

text \<open>\<open>serve\<close>: the first thing to happen, and the listeners that are then shut down. One that ends without an error stops the
  others too.\<close>

datatype serve_event = ListenerEnds string "string option" | ContextDone

definition serveAll :: "listener list \<Rightarrow> serve_event \<Rightarrow> string option \<times> listener list" where
  "serveAll ls ev =
     (if ls = [] then (Some ''no listeners for this role'', [])
      else (case ev of
              ListenerEnds n (Some e) \<Rightarrow> (Some (n @ '': '' @ e), ls)
            | ListenerEnds n None \<Rightarrow> (None, ls)
            | ContextDone \<Rightarrow> (None, ls)))"

text \<open>\<open>seed\<close>: the store with the demo tenant, and with its key when one could be made, which is printed.\<close>

definition devTenant :: "int \<Rightarrow> tenant" where
  "devTenant now = \<lparr>t_ID = ''t_dev'', t_Name = ''dev'', t_Namespace = ''tenant-dev'', t_Status = ''active'', t_CreatedAt = now\<rparr>"

definition devKey :: "int \<Rightarrow> generated_key \<Rightarrow> api_key" where
  "devKey now gen =
     \<lparr>k_KeyID = g_KeyID gen, k_TenantID = ''t_dev'', k_Name = ''dev'', k_SecretHash = g_Hash gen, k_Scopes = [ScopeAdmin],
      k_AllowedTemplates = [], k_IPAllowlist = [], k_ExpiresAt = None, k_RevokedAt = None, k_LastUsedAt = None, k_CreatedAt = now\<rparr>"

definition seed :: "int \<Rightarrow> (auth_error, generated_key) result \<Rightarrow> mem \<Rightarrow> mem \<times> string option" where
  "seed now gen mem0 =
     (let m1 = mem_AddTenant (devTenant now) mem0 in
      case gen of
        Inl e \<Rightarrow> (m1, None)
      | Inr g \<Rightarrow> (mem_AddKey (devKey now g) m1, Some (g_Plaintext g)))"

text \<open>\<open>openStore\<close>: without a connection string a store in memory; otherwise the database, with its schema applied.\<close>

datatype 'db opened = OpenedMem mem "string option" | OpenedDB 'db

record 'db pg_access =
  pa_New :: "string \<Rightarrow> (string, 'db) result"
  pa_Migrate :: "'db \<Rightarrow> string option"

definition openStore ::
    "'db pg_access \<Rightarrow> int \<Rightarrow> (auth_error, generated_key) result \<Rightarrow> string \<Rightarrow> bool \<Rightarrow> bool \<Rightarrow> (string, 'db opened) result" where
  "openStore pa now gen dsn migrate devSeed =
     (if dsn = [] then
        Inr (if devSeed then (case seed now gen NewMemStore of (m, key) \<Rightarrow> OpenedMem m key) else OpenedMem NewMemStore None)
      else (case pa_New pa dsn of
              Inl e \<Rightarrow> Inl e
            | Inr db \<Rightarrow>
                (case (if migrate then pa_Migrate pa db else None) of
                   Some e \<Rightarrow> Inl (''applying the schema: '' @ e)
                 | None \<Rightarrow> Inr (OpenedDB db))))"

text \<open>The flags, and \<open>main\<close> up to serving: what is configured before anything is opened, and what is
  opened for which role; the tenant API with its ready timeout, the gateway with its routes and how long it caches them.\<close>

record server_flags =
  sf_role :: string
  sf_addr :: string
  sf_dsn :: string
  sf_migrate :: bool
  sf_devSeed :: bool
  sf_dataAddr :: string
  sf_routeMode :: string
  sf_suffix :: string
  sf_pathPrefix :: string
  sf_publicBase :: string
  sf_transport :: string
  sf_readyTimeout :: int
  sf_cacheTTL :: int

record server_env =
  se_Cluster :: "bool \<Rightarrow> string option"
  se_Proxy :: "(string, transport) result"
  se_Key :: "(auth_error, generated_key) result"
  se_Now :: int

datatype server_stop = BadConfig string | NoCluster string | NoStore string | NoTransport string

record 'db server_up =
  su_store :: "'db opened"
  su_listeners :: "listener list"
  su_control :: "int option"
  su_gateway :: "(router \<times> transport \<times> int) option"

definition server_main :: "server_env \<Rightarrow> 'db pg_access \<Rightarrow> server_flags \<Rightarrow> (server_stop, 'db server_up) result" where
  "server_main env pa fl =
     (case parseRole (sf_role fl) of
        Inl e \<Rightarrow> Inl (BadConfig e)
      | Inr r \<Rightarrow>
     (case newRouter (sf_routeMode fl) (sf_suffix fl) (sf_pathPrefix fl) (sf_publicBase fl) of
        None \<Rightarrow> Inl (BadConfig (''unknown --route-mode '' @ Quote (sf_routeMode fl) @ '': want path, host or both''))
      | Some router \<Rightarrow>
     (case parseTransport (sf_transport fl) of
        Inl e \<Rightarrow> Inl (BadConfig e)
      | Inr kind \<Rightarrow>
     (case se_Cluster env (rl_data r) of
        Some e \<Rightarrow> Inl (NoCluster e)
      | None \<Rightarrow>
     (case openStore pa (se_Now env) (se_Key env) (sf_dsn fl) (sf_migrate fl) (sf_devSeed fl) of
        Inl e \<Rightarrow> Inl (NoStore e)
      | Inr st \<Rightarrow>
          (let ctl = (if rl_control r then [controlListener (sf_addr fl)] else []);
               api = (if rl_control r then Some (sf_readyTimeout fl) else None) in
           if \<not> rl_data r then Inr \<lparr>su_store = st, su_listeners = ctl, su_control = api, su_gateway = None\<rparr>
           else (case newTransport kind (se_Proxy env) of
                   Inl e \<Rightarrow> Inl (NoTransport e)
                 | Inr tr \<Rightarrow> Inr \<lparr>su_store = st, su_listeners = ctl @ [dataListener (sf_dataAddr fl)], su_control = api,
                     su_gateway = Some (router, tr, sf_cacheTTL fl)\<rparr>)))))))"

section \<open>jdix-controller\<close>

definition newEndpointRouter :: "string \<Rightarrow> string \<Rightarrow> string \<Rightarrow> string \<Rightarrow> (string, router) result" where
  "newEndpointRouter mode suff base pfx =
     (if mode = ''path'' then
        (if base = [] then Inl ''--endpoint-base is required with --endpoint-mode=path: a sandbox URL has to be absolute, and nothing here can guess the public origin''
         else Inr (PathRouter pfx (trimSuffix base ''/'')))
      else if mode = ''host'' then Inr (HostRouter suff ''https'' False)
      else Inl (''unknown --endpoint-mode '' @ Quote mode @ '': want path or host''))"

definition splitList :: "string \<Rightarrow> string list" where
  "splitList s = filter (\<lambda>p. p \<noteq> []) (map TrimSpace (split_on (CHR '','') s))"

record controller_flags =
  kf_platformImage :: string
  kf_endpointMode :: string
  kf_endpointSuffix :: string
  kf_endpointBase :: string
  kf_endpointPrefix :: string
  kf_registries :: string
  kf_resolveImages :: bool
  kf_maxImageBytes :: int
  kf_transport :: string

text \<open>Connecting: the manager, the proxy client, the registry resolver and the registration of the reconcilers, each with its error.\<close>

record controller_env =
  ke_Manager :: "string option"
  ke_ProxyClient :: "string option"
  ke_Resolver :: "string option"
  ke_Setup :: "string option"

datatype controller_stop = NoPlatformImage | BadEndpoints string | NoManager string | NoProxyClient string | UnknownTransport string | NoResolver string
  | NotWired string

text \<open>What the reconcilers are wired with.\<close>

record controller_up =
  cu_platform :: platform_image
  cu_client :: "transport_kind \<times> execd_client"
  cu_registries :: "string list"
  cu_resolves :: bool
  cu_maxImageBytes :: int
  cu_endpoints :: router

definition controller_main :: "controller_env \<Rightarrow> controller_flags \<Rightarrow> (controller_stop, controller_up) result" where
  "controller_main env fl =
     (if kf_platformImage fl = [] then Inl NoPlatformImage
      else (case newEndpointRouter (kf_endpointMode fl) (kf_endpointSuffix fl) (kf_endpointBase fl) (kf_endpointPrefix fl) of
        Inl e \<Rightarrow> Inl (BadEndpoints e)
      | Inr endpoints \<Rightarrow>
     (case ke_Manager env of
        Some e \<Rightarrow> Inl (NoManager e)
      | None \<Rightarrow>
     (case (if kf_transport fl = ''direct'' then Inr (KindDirect, NewHTTPExecdClient)
            else if kf_transport fl = ''apiserver-proxy'' then
              (case ke_ProxyClient env of Some e \<Rightarrow> Inl (NoProxyClient e) | None \<Rightarrow> Inr (KindAPIProxy, NewAPIProxyExecdClient))
            else Inl (UnknownTransport (kf_transport fl))) of
        Inl e \<Rightarrow> Inl e
      | Inr client \<Rightarrow>
     (case (if kf_resolveImages fl then ke_Resolver env else None) of
        Some e \<Rightarrow> Inl (NoResolver e)
      | None \<Rightarrow>
     (case ke_Setup env of
        Some e \<Rightarrow> Inl (NotWired e)
      | None \<Rightarrow>
          Inr \<lparr>cu_platform = \<lparr>pi_Ref = kf_platformImage fl, pi_PullPolicy = []\<rparr>, cu_client = client, cu_registries = splitList (kf_registries fl),
               cu_resolves = kf_resolveImages fl, cu_maxImageBytes = kf_maxImageBytes fl, cu_endpoints = endpoints\<rparr>))))))"

section \<open>Lemmas\<close>

text \<open>Bad flags never open anything, and a server brings up exactly the listeners of its role.\<close>

lemma server_listeners:
  assumes "server_main env pa fl = Inr up" "parseRole (sf_role fl) = Inr r"
  shows "map li_name (su_listeners up) = (if rl_control r then [''control-plane''] else []) @ (if rl_data r then [''data-plane''] else [])"
    and "su_listeners up \<noteq> []" and "su_gateway up \<noteq> None \<longleftrightarrow> rl_data r"
  using assms
  by (auto simp: server_main_def parseRole_def Let_def controlListener_def dataListener_def split: if_splits option.splits sum.splits)

text \<open>An error of any listener stops all of them, and is what the process reports.\<close>

lemma one_failure_stops_all:
  "ls \<noteq> [] \<Longrightarrow> snd (serveAll ls ev) = ls" "ls \<noteq> [] \<Longrightarrow> fst (serveAll ls ev) \<noteq> None \<longleftrightarrow> (\<exists>n e. ev = ListenerEnds n (Some e))"
  by (auto simp: serveAll_def split: serve_event.splits option.splits)

text \<open>The key printed for development works: it verifies against the seeded store and may do everything.\<close>

lemma seeded_key_verifies:
  assumes gen: "GenerateKey idKey (Inr idb) (Inr sec) (Inr salt) = Inr g"
    and rnd: "bytes idb" "length idb = keyIDLen div 2" "length sec = secretBytes" "bytes salt"
    and kdf: "\<And>p s t m n k. length (idKey p s t m n k) = k \<and> bytes (idKey p s t m n k)"
    and sd: "seed now (Inr g) NewMemStore = (m, key)"
  shows "key = Some (g_Plaintext g)
    \<and> (\<exists>p. fst (Verify memStore idKey cidr now' (g_Plaintext g) ip Map.empty m) = Inr p \<and> p_TenantID p = ''t_dev'' \<and> (\<forall>s. Allows (p_Key p) s))"
proof -
  obtain secret where s: "ParseKey (g_Plaintext g) = Inr (g_KeyID g, secret)"
      "VerifySecret idKey secret (g_Hash g)"
    using generated_key_round_trip [OF gen rnd kdf] by blast
  have m: "m = mem_AddKey (devKey now g) (mem_AddTenant (devTenant now) NewMemStore)" "key = Some (g_Plaintext g)"
    using sd by (simp_all add: seed_def)
  have k: "so_APIKey memStore (g_KeyID g) m = Inr (devKey now g)" "so_Tenant memStore ''t_dev'' m = Inr (devTenant now)"
    by (simp_all add: m memStore_def mem_APIKey_def mem_Tenant_def mem_AddKey_def mem_AddTenant_def find_row_def NewMemStore_def devKey_def devTenant_def)
  have "g_Plaintext g \<noteq> []" using s(1) by (auto simp: ParseKey_def hasPrefix_def KeyPrefix_def)
  then show ?thesis using s k m(2)
    by (simp add: Verify_def auth_lookup_def Valid_def ipAllowed_def Allows_def devKey_def devTenant_def)
qed

text \<open>What a host-style URL becomes when path routing is on as well: a path that looks like a sandbox's is taken for one.\<close>

lemma both_mode_captures:
  assumes "newRouter ''both'' suff pfx base = Some rt" "PathRouter_Route pfx r = Some x"
  shows "Route ex rt r c = (Some x, c)"
  using assms by (auto simp: newRouter_def)

section \<open>Properties\<close>


definition demoControllerFlags :: controller_flags where
  "demoControllerFlags = \<lparr>kf_platformImage = ''img'', kf_endpointMode = ''path'', kf_endpointSuffix = ''sbx.io'', kf_endpointBase = ''https://api.io'',
     kf_endpointPrefix = ''/s'', kf_registries = [], kf_resolveImages = False, kf_maxImageBytes = 0, kf_transport = ''direct''\<rparr>"

definition demoServerFlags :: server_flags where
  "demoServerFlags = \<lparr>sf_role = ''gateway'', sf_addr = [], sf_dsn = [], sf_migrate = False, sf_devSeed = False, sf_dataAddr = [], sf_routeMode = ''both'',
     sf_suffix = ''sbx.io'', sf_pathPrefix = ''/s'', sf_publicBase = [], sf_transport = ''direct'', sf_readyTimeout = 8 * second, sf_cacheTTL = 2 * second\<rparr>"


end
