(* ===== verification/Reaper_Run.thy ===== *)
theory Reaper_Run
  imports Reaper
begin

text \<open>
  The loop of the reaper (\<open>Run\<close> in \<open>pkg/reaper/reaper.go\<close>), at the grain of its system calls. The kernel keeps the exited
  children that nobody has waited for and one pending bit for SIGCHLD, so that signals of several exits may merge; the Go
  runtime turns the bit into a value on a channel of capacity 64 and drops it when the channel is full. \<open>Run\<close> sweeps once and
  then after each value, every \<open>wait4\<close> being a step of its own, so that children exit at any point of a sweep.
\<close>

section \<open>The loop\<close>

record run_state =
  ru_reaper :: reaper
  ru_zombies :: "(int \<times> nat) list"
  ru_pendingSig :: bool
  ru_queue :: nat
  ru_sweeping :: bool
  ru_stopped :: bool

definition signalBuffer :: nat where "signalBuffer = 64"

text \<open>\<open>Run\<close> up to its first sweep; children may have exited before.\<close>

definition runStart :: "reaper \<Rightarrow> (int \<times> nat) list \<Rightarrow> run_state" where
  "runStart r zs = \<lparr>ru_reaper = r, ru_zombies = zs, ru_pendingSig = False, ru_queue = 0, ru_sweeping = True, ru_stopped = False\<rparr>"

text \<open>One step of \<open>Run\<close>: a \<open>wait4\<close> of a sweep, or the receipt of a signal. A \<open>wait4\<close> may be interrupted.\<close>

definition loopStep :: "bool \<Rightarrow> run_state \<Rightarrow> run_state" where
  "loopStep eintr s =
     (if ru_stopped s then s
      else if ru_sweeping s then
        (if eintr then s
         else (case ru_zombies s of
            [] \<Rightarrow> s\<lparr>ru_sweeping := False\<rparr>
          | (pid, st) # zs \<Rightarrow> s\<lparr>ru_zombies := zs, ru_reaper := deliver pid (waitStatusCode st) (ru_reaper s)\<rparr>))
      else if ru_queue s > 0 then s\<lparr>ru_queue := ru_queue s - 1, ru_sweeping := True\<rparr> else s)"

definition childExits :: "int \<Rightarrow> nat \<Rightarrow> run_state \<Rightarrow> run_state" where
  "childExits pid st s = s\<lparr>ru_zombies := ru_zombies s @ [(pid, st)], ru_pendingSig := True\<rparr>"

definition signalArrives :: "run_state \<Rightarrow> run_state" where
  "signalArrives s =
     (if ru_pendingSig s
      then s\<lparr>ru_pendingSig := False, ru_queue := (if ru_queue s < signalBuffer then Suc (ru_queue s) else ru_queue s)\<rparr> else s)"

text \<open>The other sections of the reaper run between the steps of the loop; only the loop delivers. A stop is seen between
  sweeps.\<close>

datatype run_event = RSection reaper_event | RExit int nat | RSignal | RLoop bool | RStop

fun runStep :: "run_event \<Rightarrow> run_state \<Rightarrow> run_state" where
  "runStep (RSection e) s = (if isDeliver e then s else s\<lparr>ru_reaper := reaperStep e (ru_reaper s)\<rparr>)"
| "runStep (RExit pid st) s = childExits pid st s"
| "runStep RSignal s = signalArrives s"
| "runStep (RLoop eintr) s = loopStep eintr s"
| "runStep RStop s = (if ru_sweeping s then s else s\<lparr>ru_stopped := True\<rparr>)"

section \<open>No exit is overlooked\<close>

text \<open>As long as there is something to collect, the loop is collecting or will be woken.\<close>

definition run_inv :: "run_state \<Rightarrow> bool" where
  "run_inv s \<longleftrightarrow> reaper_inv (ru_reaper s) \<and> (ru_zombies s \<noteq> [] \<longrightarrow> ru_sweeping s \<or> ru_queue s > 0 \<or> ru_pendingSig s \<or> ru_stopped s)"

lemma loopStep_inv: "run_inv s \<Longrightarrow> run_inv (loopStep eintr s)"
  by (auto simp: run_inv_def loopStep_def deliver_inv split: list.splits)

lemma runStep_inv: "run_inv s \<Longrightarrow> run_inv (runStep e s)"
  by (cases e) (auto simp: loopStep_inv, auto simp: run_inv_def reaperStep_inv childExits_def signalArrives_def signalBuffer_def)

interpretation run: step_system runStep run_inv
  by unfold_locales (rule runStep_inv)

lemma runStart_inv: "reaper_inv r \<Longrightarrow> run_inv (runStart r zs)"
  by (simp add: run_inv_def runStart_def)

definition deliverAll :: "(int \<times> nat) list \<Rightarrow> reaper \<Rightarrow> reaper" where
  "deliverAll zs r = fold (\<lambda>(pid, st). deliver pid (waitStatusCode st)) zs r"

text \<open>A sweep takes every child that has exited, in the order in which the kernel gives them.\<close>

lemma sweep_collects:
  "\<not> ru_stopped s \<Longrightarrow> ru_sweeping s \<Longrightarrow>
     (loopStep False ^^ length (ru_zombies s)) s = s\<lparr>ru_zombies := [], ru_reaper := deliverAll (ru_zombies s) (ru_reaper s)\<rparr>"
proof (induction "ru_zombies s" arbitrary: s)
  case Nil
  then show ?case by (cases s) (simp add: deliverAll_def)
next
  case (Cons z zs)
  obtain pid st where z: "z = (pid, st)" by (cases z)
  let ?s = "s\<lparr>ru_zombies := zs, ru_reaper := deliver pid (waitStatusCode st) (ru_reaper s)\<rparr>"
  have "loopStep False s = ?s" using Cons.hyps(2) [symmetric] Cons.prems by (simp add: loopStep_def z)
  moreover have "(loopStep False ^^ length zs) ?s = ?s\<lparr>ru_zombies := [], ru_reaper := deliverAll zs (ru_reaper ?s)\<rparr>"
    using Cons.hyps(1) [of ?s] Cons.prems by simp
  ultimately show ?case using Cons.hyps(2) [symmetric] by (simp add: funpow_swap1 deliverAll_def z)
qed

lemma loop_collects:
  assumes "run_inv s" "\<not> ru_stopped s" "ru_zombies s \<noteq> []"
  shows "\<exists>n \<le> Suc (length (ru_zombies s)). let s' = (loopStep False ^^ n) (signalArrives s) in
           ru_zombies s' = [] \<and> ru_reaper s' = deliverAll (ru_zombies s) (ru_reaper s)"
proof -
  let ?s = "signalArrives s"
  have f: "ru_zombies ?s = ru_zombies s" "ru_reaper ?s = ru_reaper s" "ru_stopped ?s = ru_stopped s" "ru_sweeping ?s = ru_sweeping s"
    by (simp_all add: signalArrives_def)
  have q: "ru_sweeping ?s \<or> ru_queue ?s > 0" using assms by (auto simp: run_inv_def signalArrives_def signalBuffer_def)
  show ?thesis
  proof (cases "ru_sweeping s")
    case True
    then show ?thesis using sweep_collects [of ?s] assms(2) f by (intro exI [of _ "length (ru_zombies s)"]) (simp add: Let_def)
  next
    case False
    let ?t = "?s\<lparr>ru_queue := ru_queue ?s - 1, ru_sweeping := True\<rparr>"
    have "loopStep False ?s = ?t" using False q f assms(2) by (simp add: loopStep_def)
    then have "(loopStep False ^^ Suc (length (ru_zombies s))) ?s = (loopStep False ^^ length (ru_zombies s)) ?t" by (simp add: funpow_swap1)
    then show ?thesis using sweep_collects [of ?t] assms(2) f by (intro exI [of _ "Suc (length (ru_zombies s))"]) (simp add: Let_def)
  qed
qed

section \<open>One child\<close>

text \<open>The steps that do not concern a child, and do not end the loop.\<close>

fun apart :: "int \<Rightarrow> nat \<Rightarrow> run_event \<Rightarrow> bool" where
  "apart pid ch (RSection e) = foreign pid ch e"
| "apart pid ch (RExit p st) = (p \<noteq> pid)"
| "apart pid ch RStop = False"
| "apart pid ch e = True"

abbreviation statusesOf :: "int \<Rightarrow> run_state \<Rightarrow> (int \<times> nat) list" where
  "statusesOf pid s \<equiv> filter (\<lambda>z. fst z = pid) (ru_zombies s)"

text \<open>A child that runs; one that has exited and waits to be collected, or whose status is in its channel.\<close>

definition runs :: "int \<Rightarrow> nat \<Rightarrow> run_state \<Rightarrow> bool" where
  "runs pid ch s \<longleftrightarrow> registered pid ch None (ru_reaper s) \<and> statusesOf pid s = []"

definition over :: "int \<Rightarrow> nat \<Rightarrow> nat \<Rightarrow> run_state \<Rightarrow> bool" where
  "over pid ch st s \<longleftrightarrow> registered pid ch None (ru_reaper s) \<and> statusesOf pid s = [(pid, st)]
     \<or> registered pid ch (Some (waitStatusCode st)) (ru_reaper s) \<and> statusesOf pid s = []"

lemma apart_section:
  "run_inv s \<Longrightarrow> registered pid ch v (ru_reaper s) \<Longrightarrow> foreign pid ch e \<Longrightarrow> registered pid ch v (ru_reaper (runStep (RSection e) s))"
  by (simp add: run_inv_def foreign_step)

lemma apart_deliver:
  "run_inv s \<Longrightarrow> registered pid ch v (ru_reaper s) \<Longrightarrow> p \<noteq> pid \<Longrightarrow> registered pid ch v (deliver p c (ru_reaper s))"
  by (simp add: run_inv_def foreign_deliver)

lemma deliver_own: "registered pid ch None r \<Longrightarrow> registered pid ch (Some c) (deliver pid c r)"
  by (auto simp: registered_def deliver_def)

lemma runs_step: "run_inv s \<Longrightarrow> runs pid ch s \<Longrightarrow> apart pid ch e \<Longrightarrow> runs pid ch (runStep e s)"
proof (cases e)
  case (RSection x)
  then show "run_inv s \<Longrightarrow> runs pid ch s \<Longrightarrow> apart pid ch e \<Longrightarrow> ?thesis" using apart_section [of s pid ch None x] by (simp add: runs_def)
next
  case (RLoop eintr)
  then show "run_inv s \<Longrightarrow> runs pid ch s \<Longrightarrow> ?thesis"
    by (auto simp: runs_def loopStep_def apart_deliver split: list.splits if_splits)
qed (auto simp: runs_def childExits_def signalArrives_def)

lemma over_step: "run_inv s \<Longrightarrow> over pid ch st s \<Longrightarrow> apart pid ch e \<Longrightarrow> over pid ch st (runStep e s)"
proof (cases e)
  case (RSection x)
  then show "run_inv s \<Longrightarrow> over pid ch st s \<Longrightarrow> apart pid ch e \<Longrightarrow> ?thesis"
    using apart_section [of s pid ch None x] apart_section [of s pid ch "Some (waitStatusCode st)" x] by (auto simp: over_def)
next
  case (RLoop eintr)
  then show "run_inv s \<Longrightarrow> over pid ch st s \<Longrightarrow> ?thesis"
    by (auto simp: over_def loopStep_def apart_deliver deliver_own split: list.splits if_splits)
qed (auto simp: over_def childExits_def signalArrives_def)

lemma exit_makes_over: "runs pid ch s \<Longrightarrow> over pid ch st (runStep (RExit pid st) s)"
  by (simp add: runs_def over_def childExits_def)

lemma apart_run:
  assumes "run_inv s" "\<forall>e \<in> set es. apart pid ch e"
  shows "runs pid ch s \<Longrightarrow> runs pid ch (fold runStep es s)" "over pid ch st s \<Longrightarrow> over pid ch st (fold runStep es s)"
  using assms by (auto intro!: run.run_ok2 [where P = "runs pid ch"] run.run_ok2 [where P = "over pid ch st"] runs_step over_step)

lemma apart_not_stopped: "\<forall>e \<in> set es. apart pid ch e \<Longrightarrow> \<not> ru_stopped s \<Longrightarrow> \<not> ru_stopped (fold runStep es s)"
proof (induction es arbitrary: s)
  case (Cons e es)
  have "\<not> ru_stopped (runStep e s)"
    using Cons.prems by (cases e) (auto simp: childExits_def signalArrives_def loopStep_def split: list.splits)
  then show ?case using Cons by simp
qed simp

lemma loops_over: "run_inv s \<Longrightarrow> over pid ch st s \<Longrightarrow> over pid ch st ((loopStep False ^^ n) s) \<and> run_inv ((loopStep False ^^ n) s)"
  by (induction n) (use over_step [where e = "RLoop False"] loopStep_inv in auto)

lemma over_is_collected:
  assumes "run_inv s" "\<not> ru_stopped s" "over pid ch st s"
  shows "\<exists>n \<le> Suc (length (ru_zombies s)). registered pid ch (Some (waitStatusCode st)) (ru_reaper ((loopStep False ^^ n) (signalArrives s)))"
proof -
  have s: "run_inv (signalArrives s)" "over pid ch st (signalArrives s)"
    using runStep_inv [of s RSignal] over_step [of s pid ch st RSignal] assms by auto
  obtain n where n: "n \<le> Suc (length (ru_zombies s))" "ru_zombies ((loopStep False ^^ n) (signalArrives s)) = []"
  proof (cases "ru_zombies s = []")
    case True
    then show ?thesis by (intro that [of 0]) (simp_all add: signalArrives_def)
  next
    case False
    then show ?thesis using loop_collects [OF assms(1,2)] that by (auto simp: Let_def)
  qed
  then show ?thesis using loops_over [OF s, of n] by (intro exI [of _ n]) (auto simp: over_def)
qed

text \<open>C6: every exit status reaches its waiter. Take the reaper's loop in any state of its run, and start a child whose pid no
  remembered or uncollected status has. Whatever other children, waits, signals and steps of the loop come in between, and
  however signals merge or are dropped: until the child exits, its \<open>Wait\<close> blocks; once it has exited, the loop, given the
  pending signal and as many steps as there are uncollected children and one more, has its status in the channel, and \<open>Wait\<close>
  returns exactly that status in the shell's convention.\<close>

theorem exit_reaches_waiter:
  assumes "run_inv s" and "\<not> ru_stopped s" and "pending (ru_reaper s) pid = None" and "statusesOf pid s = []"
    and "ch = nextChan (ru_reaper s)" and "\<forall>e \<in> set es1. apart pid ch e" and "\<forall>e \<in> set es2. apart pid ch e"
  shows "let s1 = fold runStep es1 (runStep (RSection (EStart pid)) s);
             s2 = fold runStep es2 (runStep (RExit pid st) s1)
         in fst (waitStart pid (ru_reaper s1)) = BlocksOn ch \<and> waitRecv pid ch (ru_reaper s1) = None
            \<and> (\<exists>n \<le> Suc (length (ru_zombies s2)). let r = ru_reaper ((loopStep False ^^ n) (signalArrives s2)) in
                 fst (waitStart pid r) = BlocksOn ch
                 \<and> (\<exists>r'. waitRecv pid ch r = Some (waitStatusCode st, r') \<and> waiters r' pid = None))"
proof -
  let ?s0 = "runStep (RSection (EStart pid)) s"
  let ?s1 = "fold runStep es1 ?s0"
  let ?s2 = "fold runStep es2 (runStep (RExit pid st) ?s1)"
  have i0: "run_inv ?s0" using assms(1) by (rule runStep_inv)
  then have i1: "run_inv ?s1" by (rule run.run_ok)
  have "runs pid ch ?s0" using assms(3-5) by (simp add: runs_def registered_def StartCmd_def makeChan_def)
  from apart_run(1) [OF i0 assms(6) this] have r1: "runs pid ch ?s1" .
  have i1': "run_inv (runStep (RExit pid st) ?s1)" by (rule runStep_inv [OF i1])
  from apart_run(2) [OF this assms(7) exit_makes_over [OF r1]] have o2: "over pid ch st ?s2" .
  have i2: "run_inv ?s2" using i1' by (rule run.run_ok)
  have "\<not> ru_stopped ?s0" using assms(2) by simp
  from apart_not_stopped [OF assms(6) this] have "\<not> ru_stopped (runStep (RExit pid st) ?s1)" by (simp add: childExits_def)
  from over_is_collected [OF i2 apart_not_stopped [OF assms(7) this] o2] r1 show ?thesis
    by (auto simp: Let_def runs_def registered_def waitStart_def waitRecv_def)
qed

theorem exit_reaches_waiter_witness:
  "\<exists>n r'. waitRecv 7 0 (ru_reaper ((loopStep False ^^ n) (signalArrives
     (fold runStep [RLoop False, RExit 9 0] (runStep (RExit 7 768) (runStep (RSection (EStart 7)) (runStart NewReaper [(5, 9)]))))))) = Some (3, r')"
proof -
  have "run_inv (runStart NewReaper [(5, 9)])" by (rule runStart_inv [OF NewReaper_inv])
  moreover have "waitStatusCode 768 = 3" by code_simp
  ultimately show ?thesis
    using exit_reaches_waiter [of "runStart NewReaper [(5, 9)]" 7 0 "[]" "[RLoop False, RExit 9 0]" 768]
    by (auto simp: runStart_def NewReaper_def Let_def)
qed

end
