(* ===== verification/Safepath_Portable.thy ===== *)
theory Safepath_Portable
  imports Safepath
begin

text \<open>
  \<open>pkg/safepath/open_portable.go\<close>: the build for other platforms than Linux, which looks at every prefix of the path with
  \<open>lstat\<close>, refuses links, and opens the last segment without following one. The operations of \<open>os\<close> and \<open>filepath\<close> that
  touch the file system are a parameter. The other stand-ins of these platforms answer with an error.
\<close>

record 'f portable_os =
  po_EvalSymlinks :: "string \<Rightarrow> (errno, string) result"
  po_IsLink :: "string \<Rightarrow> (errno, bool) result"
  po_OpenFile :: "string \<Rightarrow> oflag set \<Rightarrow> int \<Rightarrow> (errno, 'f) result"

text \<open>The loop: all segments but the last are looked at; the result is the path to open.\<close>

fun portableWalk :: "'f portable_os \<Rightarrow> string \<Rightarrow> string list \<Rightarrow> (safe_error, string) result" where
  "portableWalk os cur [] = Inr cur"
| "portableWalk os cur (seg # rest) =
     (let c = path_Join [cur, seg] in
      if rest = [] then Inr c
      else (case po_IsLink os c of
              Inl e \<Rightarrow> Inl (SysErr e)
            | Inr link \<Rightarrow> if link then Inl ErrEscape else portableWalk os c rest))"

definition openBeneathPortable :: "'f portable_os \<Rightarrow> string \<Rightarrow> string \<Rightarrow> oflag set \<Rightarrow> int \<Rightarrow> (safe_error, 'f) result" where
  "openBeneathPortable os root rel flags perm =
     (case po_EvalSymlinks os root of
        Inl e \<Rightarrow> Inl (SysErr e)
      | Inr realRoot \<Rightarrow>
          if rel = ''.'' then (case po_OpenFile os realRoot {O_RDONLY} 0 of Inl e \<Rightarrow> Inl (SysErr e) | Inr f \<Rightarrow> Inr f)
          else (case portableWalk os realRoot (split_on slash rel) of
             Inl e \<Rightarrow> Inl e
           | Inr cur \<Rightarrow>
               if \<not> hasPrefix cur (realRoot @ ''/'') then Inl ErrEscape
               else (case po_OpenFile os cur (insert O_NOFOLLOW flags) perm of
                  Inl e \<Rightarrow> Inl (if e = ELOOP then ErrEscape else SysErr e)
                | Inr f \<Rightarrow> Inr f)))"

definition OpenBeneathPortable :: "'f portable_os \<Rightarrow> string \<Rightarrow> string \<Rightarrow> oflag set \<Rightarrow> int \<Rightarrow> (safe_error, 'f) result" where
  "OpenBeneathPortable os root rel flags perm =
     (case checkRel rel of Inl e \<Rightarrow> Inl e | Inr cleanRel \<Rightarrow> openBeneathPortable os root cleanRel flags perm)"

text \<open>The other stand-ins.\<close>

definition OpenMountOther :: "string \<Rightarrow> string \<Rightarrow> (string, 'f) result" where
  "OpenMountOther root relative = Inl ''pinned mounts require Linux openat2''"

definition WorkloadFilterOther :: "(string, 'f) result" where
  "WorkloadFilterOther = Inl ''seccomp requires Linux''"

definition ProtectSupervisorOther :: "string option" where
  "ProtectSupervisorOther = Some ''filesystem isolation requires Linux''"

definition BecomeSubreaperOther :: "string option" where
  "BecomeSubreaperOther = Some ''subreaper requires Linux''"

definition DropPrivilegesOther :: "int \<Rightarrow> int \<Rightarrow> string option" where
  "DropPrivilegesOther uid gid = Some ''privilege dropping is only implemented on Linux''"

definition hasChrootOther :: bool where "hasChrootOther = False"

section \<open>What is opened\<close>

text \<open>A segment below a plain path.\<close>

lemma path_Join_seg: "plain_path rs \<Longrightarrow> plain_path [seg] \<Longrightarrow> path_Join [abs_path rs, seg] = abs_path (rs @ [seg])"
  using path_Join_plain [of rs "[seg]"] by simp

lemma portableWalk_Inr:
  "plain_path rs \<Longrightarrow> plain_path ss \<Longrightarrow> ss \<noteq> [] \<Longrightarrow> portableWalk os (abs_path rs) ss = Inr cur \<Longrightarrow>
     cur = abs_path (rs @ ss) \<and> (\<forall>n. 0 < n \<and> n < length ss \<longrightarrow> po_IsLink os (abs_path (rs @ take n ss)) = Inr False)"
proof (induction ss arbitrary: rs)
  case (Cons seg rest)
  have p: "plain_path (rs @ [seg])" "plain_path rest" "path_Join [abs_path rs, seg] = abs_path (rs @ [seg])"
    using Cons.prems path_Join_seg [of rs seg] by (auto simp: plain_path_def)
  show ?case
  proof (cases "rest = []")
    case True
    then show ?thesis using Cons.prems p by simp
  next
    case False
    then have l: "po_IsLink os (abs_path (rs @ [seg])) = Inr False" and w: "portableWalk os (abs_path (rs @ [seg])) rest = Inr cur"
      using Cons.prems p by (auto simp: Let_def split: sum.splits if_splits)
    note ih = Cons.IH [OF p(1,2) False w]
    have "po_IsLink os (abs_path (rs @ take n (seg # rest))) = Inr False" if "0 < n" "n < length (seg # rest)" for n
      using that l ih by (cases n; cases "n = 1") auto
    then show ?thesis using ih by simp
  qed
qed simp

text \<open>What the portable build opens is the path below the resolved root that the segments name, reached through directories
  none of which was a link when it was looked at, and opened without following a link at its end.\<close>

lemma portable_stays_inside:
  assumes "OpenBeneathPortable os root rel flags perm = Inr f" "po_EvalSymlinks os root = Inr (abs_path rs)" "plain_path rs"
  shows "(checkRel rel = Inr ''.'' \<and> po_OpenFile os (abs_path rs) {O_RDONLY} 0 = Inr f)
    \<or> (let ss = split_on slash rel in plain_path ss \<and> po_OpenFile os (abs_path (rs @ ss)) (insert O_NOFOLLOW flags) perm = Inr f
         \<and> (\<forall>n. 0 < n \<and> n < length ss \<longrightarrow> po_IsLink os (abs_path (rs @ take n ss)) = Inr False))"
proof -
  obtain r where r: "checkRel rel = Inr r" and o: "openBeneathPortable os root r flags perm = Inr f"
    using assms(1) by (auto simp: OpenBeneathPortable_def split: sum.splits)
  show ?thesis
  proof (cases "r = ''.''")
    case True
    then show ?thesis using r o assms(2) by (auto simp: openBeneathPortable_def split: sum.splits)
  next
    case False
    then have pl: "plain_path (split_on slash r)" and rr: "r = rel"
      using checkRel_segs [OF r] r by (auto simp: checkRel_def split: if_splits)
    obtain cur where c: "portableWalk os (abs_path rs) (split_on slash r) = Inr cur" "po_OpenFile os cur (insert O_NOFOLLOW flags) perm = Inr f"
      using o assms(2) False by (auto simp: openBeneathPortable_def split: sum.splits if_splits)
    have "split_on slash r \<noteq> []" by simp
    from portableWalk_Inr [OF assms(3) pl this c(1)] c(2) pl show ?thesis by (simp add: rr Let_def)
  qed
qed

text \<open>The last test of the code compares with the root and a slash after it, which for the root of the file system are two
  slashes: there the portable build opens nothing below the root.\<close>

lemma portable_refuses_root:
  assumes "po_EvalSymlinks os root = Inr ''/''" "checkRel rel = Inr r" "r \<noteq> ''.''"
  shows "\<exists>e. OpenBeneathPortable os root rel flags perm = Inl e"
proof (rule ccontr)
  assume "\<not> ?thesis"
  then obtain f where "OpenBeneathPortable os root rel flags perm = Inr f" by (metis sum.exhaust)
  then have o: "openBeneathPortable os root r flags perm = Inr f" using assms(2) by (simp add: OpenBeneathPortable_def)
  have pl: "plain_path (split_on slash r)" "split_on slash r \<noteq> []" using checkRel_segs [OF assms(2)] assms(3) by simp_all
  obtain cur where c: "portableWalk os ''/'' (split_on slash r) = Inr cur" "hasPrefix cur ''//''"
    using o assms(1,3) by (auto simp: openBeneathPortable_def split: sum.splits if_splits)
  have "cur = abs_path (split_on slash r)" using portableWalk_Inr [of "[]" "split_on slash r" os cur] pl c(1) by (simp add: plain_path_def)
  moreover have "\<not> hasPrefix (abs_path (split_on slash r)) ''//''"
    using pl by (cases "split_on slash r"; cases "tl (split_on slash r)"; cases "hd (split_on slash r)")
      (auto simp: abs_path_def plain_path_def plain_seg_def hasPrefix_def)
  ultimately show False using c(2) by simp
qed

end
