(* ===== verification/Initd_Server.thy ===== *)
theory Initd_Server
  imports Initd_Stream Go_Mux
begin

text \<open>
  jdix-init as a whole (\<open>pkg/initd/server.go\<close>): its route table, its mux over the handlers of the file API, of commands and
  of streams, and the data plane in front of it. A request is taken by execd's \<open>DataHandler\<close>, which forwards it or not, and
  what is forwarded is served by jdix-init's \<open>Handler\<close>. The state of jdix-init is its configuration, its processes, its open
  descriptors and the world; what the decoder, the WebSocket library and the kernel answer during a request is its input.
\<close>

section \<open>The server\<close>

record ('d, 'w) init_server =
  is_cfg :: initd
  is_x :: xstate
  is_fds :: "'d pstate"
  is_world :: 'w

record init_input =
  ii_Configure :: "(string, configure_request) result"
  ii_Exec :: "(string, exec_request) result"
  ii_Body :: string
  ii_Pipes :: "string option"
  ii_Start :: "command \<Rightarrow> (string, int) result"
  ii_StartPTY :: "command \<Rightarrow> 16 word \<times> 16 word \<Rightarrow> (string, int) result"
  ii_Accepted :: bool
  ii_CtxDone :: bool
  ii_Now :: int
  ii_Pid :: int
  ii_UptimeMs :: int
  ii_AtoiErr :: string
  ii_Group :: bool
  ii_Single :: "string option"

text \<open>What a request comes to: an answer, a command that is now running, a WebSocket, or an answer of the mux.\<close>

datatype init_reply = IFileReply "i_body response" | IExecReply "x_body response" | IRunning | IStream ws_conn
  | INotUpgraded | INotAllowed | INotFound

datatype init_action = AHealth | AConfigure | AExec | AExecStream | APTY | AProcessList | AProcessSignal
  | AFileGet | AFilePut | AFileDelete | AFileList

definition init_Routes :: "init_action route_table" where
  "init_Routes = [
     (''POST'', ''/v1/exec'', AExec),
     (''GET'', ''/v1/exec/stream'', AExecStream),
     (''GET'', ''/v1/pty'', APTY),
     (''GET'', ''/v1/processes'', AProcessList),
     (''DELETE'', ''/v1/processes/{pid}'', AProcessSignal),
     (''GET'', ''/v1/files'', AFileGet),
     (''PUT'', ''/v1/files'', AFilePut),
     (''DELETE'', ''/v1/files'', AFileDelete),
     (''GET'', ''/v1/files/list'', AFileList)]"

definition init_mux :: "init_action route_table" where
  "init_mux = [(''GET'', ''/health'', AHealth), (''POST'', ''/configure'', AConfigure)] @ init_Routes"

text \<open>A handler on the whole state; the file handlers take the descriptors and the world, the others the processes.\<close>

definition fileReply :: "i_body response \<times> 'd pstate \<times> 'w \<Rightarrow> ('d, 'w) init_server \<Rightarrow> init_reply \<times> ('d, 'w) init_server" where
  "fileReply r s = (case r of (resp, fds, w) \<Rightarrow> (IFileReply resp, s\<lparr>is_fds := fds, is_world := w\<rparr>))"

definition streamReply :: "bool \<Rightarrow> ws_conn \<times> xstate \<Rightarrow> ('d, 'w) init_server \<Rightarrow> init_reply \<times> ('d, 'w) init_server" where
  "streamReply accepted r s = (if accepted then (IStream (fst r), s\<lparr>is_x := snd r\<rparr>) else (INotUpgraded, s))"

fun init_serve ::
    "('d, 'w) filesys \<Rightarrow> init_input \<Rightarrow> (string \<times> string) list \<Rightarrow> init_action \<Rightarrow> string \<Rightarrow> ('d, 'w) init_server
       \<Rightarrow> init_reply \<times> ('d, 'w) init_server" where
  "init_serve fy inp q AHealth v s = (IFileReply (handleHealth (is_cfg s) (ii_Pid inp) (ii_UptimeMs inp) (proc_count (x_procs (is_x s)))), s)"
| "init_serve fy inp q AConfigure v s =
     (case handleConfigure (ii_Configure inp) (is_cfg s) of (resp, c) \<Rightarrow> (IFileReply resp, s\<lparr>is_cfg := c\<rparr>))"
| "init_serve fy inp q AExec v s =
     (case execBegin (is_cfg s) (ii_Exec inp) (ii_Pipes inp) (ii_Start inp) (ii_Now inp) (is_x s) of
        (Some resp, x) \<Rightarrow> (IExecReply resp, s\<lparr>is_x := x\<rparr>)
      | (None, x) \<Rightarrow> (IRunning, s\<lparr>is_x := x\<rparr>))"
| "init_serve fy inp q AExecStream v s =
     streamReply (ii_Accepted inp) (handleExecStream (is_cfg s) q (ii_CtxDone inp) (ii_Start inp) (ii_Now inp) (ws_new, is_x s)) s"
| "init_serve fy inp q APTY v s =
     streamReply (ii_Accepted inp) (handlePTY (is_cfg s) q (ii_CtxDone inp) (ii_StartPTY inp) (ii_Now inp) (ws_new, is_x s)) s"
| "init_serve fy inp q AProcessList v s = (IExecReply (handleProcessList (is_x s)), s)"
| "init_serve fy inp q AProcessSignal v s =
     (case handleProcessSignal (ii_AtoiErr inp) v (qget q ''signal'') (ii_Group inp) (ii_Single inp) (is_x s) of
        (resp, x) \<Rightarrow> (IExecReply resp, s\<lparr>is_x := x\<rparr>))"
| "init_serve fy inp q AFileGet v s = fileReply (handleFileGet fy (is_cfg s) (qget q ''path'') (is_fds s, is_world s)) s"
| "init_serve fy inp q AFilePut v s = fileReply (handleFilePut fy (is_cfg s) (qget q ''path'') (ii_Body inp) (is_fds s, is_world s)) s"
| "init_serve fy inp q AFileDelete v s =
     fileReply (handleFileDelete fy (is_cfg s) (qget q ''path'') (qget q ''recursive'' = ''true'') (is_fds s, is_world s)) s"
| "init_serve fy inp q AFileList v s = fileReply (handleFileList fy (is_cfg s) (qget q ''path'') (is_fds s, is_world s)) s"

definition init_Handler ::
    "('d, 'w) filesys \<Rightarrow> init_input \<Rightarrow> string \<Rightarrow> string \<Rightarrow> (string \<times> string) list \<Rightarrow> ('d, 'w) init_server \<Rightarrow> init_reply \<times> ('d, 'w) init_server" where
  "init_Handler fy inp meth path q s =
     (case findRoute init_mux meth path of
        Some (a, v) \<Rightarrow> init_serve fy inp q a v s
      | None \<Rightarrow> (if (\<exists>(m, pat, a) \<in> set init_mux. matchPath pat path \<noteq> None) then INotAllowed else INotFound, s))"

section \<open>The data plane in front of it\<close>

text \<open>A request to the Pod. What execd forwards keeps the method and the body; path and query are those of the outgoing
  request. The reply is execd's own, or jdix-init's.\<close>

definition podRequest ::
    "('d, 'w) filesys \<Rightarrow> init_input \<Rightarrow> g_request \<Rightarrow> g_out \<Rightarrow> int \<Rightarrow> 'd execd \<times> ('d, 'w) init_server
       \<Rightarrow> (e_outcome + init_reply) \<times> 'd execd \<times> ('d, 'w) init_server" where
  "podRequest fy inp r o1 now st =
     (case DataHandler r o1 now (fst st) of
        (EForward o2, ed1) \<Rightarrow>
          (case init_Handler fy inp (gq_Method r) (og_Path o2) (og_Query o2) (snd st) of (rep, s1) \<Rightarrow> (Inr rep, ed1, s1))
      | (out, ed1) \<Rightarrow> (Inl out, ed1, snd st))"

text \<open>The life of a bound sandbox: requests, and what goes on inside jdix-init between them. Commands are started and
  signalled by requests; a stream's control loop signals its own command.\<close>

datatype d_event = DRequest int g_request g_out init_input | DInside x_event | DFrame nat "signal \<Rightarrow> bool" frame

fun inside_event :: "x_event \<Rightarrow> bool" where
  "inside_event (XBegin _ _ _ _) = False"
| "inside_event (XSignal _ _ _ _ _) = False"
| "inside_event _ = True"

definition streamFrame :: "nat \<Rightarrow> (signal \<Rightarrow> bool) \<Rightarrow> frame \<Rightarrow> xstate \<Rightarrow> xstate" where
  "streamFrame i grp f st =
     (if at_session i (\<lambda>se. True) st
      then st\<lparr>x_kills := x_kills st @ ct_kills (snd (controlFrame (se_pid (x_sessions st ! i)) False (\<lambda>_. True) grp (\<lambda>_. [])
             f \<lparr>ct_conn = ws_new, ct_stdin = None, ct_closed = False, ct_size = None, ct_kills = []\<rparr>))\<rparr>
      else st)"

fun d_step :: "('d, 'w) filesys \<Rightarrow> d_event \<Rightarrow> 'd execd \<times> ('d, 'w) init_server \<Rightarrow> 'd execd \<times> ('d, 'w) init_server" where
  "d_step fy (DRequest now r o1 inp) st = snd (podRequest fy inp r o1 now st)"
| "d_step fy (DInside e) st =
     (fst st, if inside_event e then (snd st)\<lparr>is_x := x_step (is_cfg (snd st)) e (is_x (snd st))\<rparr> else snd st)"
| "d_step fy (DFrame i grp f) st = (fst st, (snd st)\<lparr>is_x := streamFrame i grp f (is_x (snd st))\<rparr>)"

definition d_run :: "('d, 'w) filesys \<Rightarrow> d_event list \<Rightarrow> 'd execd \<times> ('d, 'w) init_server \<Rightarrow> 'd execd \<times> ('d, 'w) init_server" where
  "d_run fy evs st = fold (d_step fy) evs st"


section \<open>One request\<close>

text \<open>The reverse proxy starts from a copy of the request it was given.\<close>

fun cloned :: "d_event \<Rightarrow> bool" where
  "cloned (DRequest now r o1 inp) = (og_Path o1 = gq_Path r \<and> og_Query o1 = gq_Query r)"
| "cloned _ = True"

lemma DataHandler_forward:
  assumes "DataHandler r o1 now ed = (EForward o2, ed1)"
  shows "hasPrefix (gq_Path r) ''/v1/'' \<and> o2 = initRewrite o1 \<and> ed1 = ed \<and> authorised ed r \<noteq> None"
proof -
  have "hasPrefix (gq_Path r) ''/v1/''" "requireSandbox r o1 now ed = (EForward o2, ed1)"
    using assms by (auto simp: DataHandler_def writeErr_def split: if_splits)
  then show ?thesis by (cases rule: requireSandbox_cases [OF \<open>requireSandbox r o1 now ed = (EForward o2, ed1)\<close>]) auto
qed

lemma public_route:
  assumes "findRoute init_mux meth path = Some (a, v)" "hasPrefix path ''/v1/''"
  shows "a \<noteq> AHealth" "a \<noteq> AConfigure"
proof -
  obtain m pat where r: "(m, pat, a) \<in> set init_mux" "matchPath pat path = Some v" using findRoute_in [OF assms(1)] by blast
  obtain y where y: "path = ''/v1/'' @ y" using assms(2) by (metis hasPrefix_def append_take_drop_id)
  have "pat \<noteq> ''/health''" "pat \<noteq> ''/configure''" using r(2) unfolding y matchPath_def by (auto simp: hasPrefix_def)
  then show "a \<noteq> AHealth" "a \<noteq> AConfigure" using r(1) by (auto simp: init_mux_def init_Routes_def)
qed

text \<open>What every request of the data plane keeps: the configuration, what survives changes below the writable roots, the
  descriptors, and that signals go to started processes.\<close>

definition d_ok :: "initd \<Rightarrow> ('w \<Rightarrow> bool) \<Rightarrow> 'd pstate \<Rightarrow> ('d, 'w) init_server \<Rightarrow> bool" where
  "d_ok c I fds s \<longleftrightarrow> is_cfg s = c \<and> settled I fds (is_fds s, is_world s) \<and> x_inv (is_x s)"

lemma d_ok_x: "d_ok c I fds s \<Longrightarrow> x_inv x \<Longrightarrow> d_ok c I fds (s\<lparr>is_x := x\<rparr>)"
  by (simp add: d_ok_def)

lemma d_ok_file:
  "d_ok c I fds s \<Longrightarrow> settled I (is_fds s) (snd r) \<Longrightarrow> d_ok c I fds (snd (fileReply r s))"
  by (auto simp: d_ok_def fileReply_def settled_def split: prod.splits)

lemma exec_start_inv: "x_inv st \<Longrightarrow> x_inv (exec_start pid label limit now st)"
  by (auto simp: exec_start_def addPID_def x_inv_def dom_update)

lemma d_ok_stream: "d_ok c I fds s \<Longrightarrow> x_inv (snd r) \<Longrightarrow> d_ok c I fds (snd (streamReply acc r s))"
  by (simp add: streamReply_def d_ok_x)

lemma streams_inv:
  assumes "x_inv x"
  shows "x_inv (snd (handleExecStream c q cd st now (ws, x)))" "x_inv (snd (handlePTY c q cd st2 now (ws, x)))"
  using assms exec_start_inv by (auto simp: handleExecStream_def handlePTY_def split: sum.splits prod.splits)

lemma init_serve_processes:
  "snd (init_serve fy inp q AExec v s) = s\<lparr>is_x := snd (execBegin (is_cfg s) (ii_Exec inp) (ii_Pipes inp) (ii_Start inp) (ii_Now inp) (is_x s))\<rparr>"
  "snd (init_serve fy inp q AProcessSignal v s)
     = s\<lparr>is_x := snd (handleProcessSignal (ii_AtoiErr inp) v (qget q ''signal'') (ii_Group inp) (ii_Single inp) (is_x s))\<rparr>"
  by (simp_all split: prod.splits option.splits)

lemma init_serve_ok:
  assumes "d_ok c I fds s" "a \<noteq> AConfigure"
    and roots: "\<forall>r \<in> set (in_roots c). root_ok r" and "survives fy child (in_roots c) I" and "kernel_ok fy child"
  shows "d_ok c I fds (snd (init_serve fy inp q a v s))"
proof -
  have c: "is_cfg s = c" and I: "I (is_world s)" and x: "x_inv (is_x s)" using assms(1) by (auto simp: d_ok_def settled_def)
  let ?st = "(is_fds s, is_world s)"
  have f: "settled I (is_fds s) (snd (handleFilePut fy c p body ?st))" "settled I (is_fds s) (snd (handleFileDelete fy c p rec ?st))"
    "settled I (is_fds s) (snd (handleFileGet fy c p ?st))" "settled I (is_fds s) (snd (handleFileList fy c p ?st))" for p body rec
    using put_settles [OF roots assms(4,5), of ?st p body] delete_settles [OF roots assms(4), of ?st p rec] reads_settle [of fy c p ?st] I
    by (simp_all add: settled_def)
  note keeps = d_ok_file [OF assms(1)] d_ok_stream [OF assms(1)] d_ok_x [OF assms(1)]
  show ?thesis
  proof (cases a)
    case AExec
    then show ?thesis by (simp only: init_serve_processes keeps(3) execBegin_inv [OF x])
  next
    case AProcessSignal
    then show ?thesis by (simp only: init_serve_processes keeps(3) handleProcessSignal_inv [OF x])
  qed (use assms(1,2) in \<open>simp_all add: c keeps f streams_inv [OF x]\<close>)
qed

lemma init_Handler_ok:
  assumes "d_ok c I fds s" "hasPrefix path ''/v1/''"
    and "\<forall>r \<in> set (in_roots c). root_ok r" "survives fy child (in_roots c) I" "kernel_ok fy child"
  shows "d_ok c I fds (snd (init_Handler fy inp meth path q s))"
  using assms(1) init_serve_ok [OF assms(1) _ assms(3-5)] public_route(2) [OF _ assms(2)]
  by (auto simp: init_Handler_def split: option.splits)

lemma podRequest_ok:
  assumes "d_ok c I fds (snd st)" "og_Path o1 = gq_Path r"
    and "\<forall>r \<in> set (in_roots c). root_ok r" "survives fy child (in_roots c) I" "kernel_ok fy child"
  shows "d_ok c I fds (snd (snd (podRequest fy inp r o1 now st)))"
proof -
  obtain out ed1 where d: "DataHandler r o1 now (fst st) = (out, ed1)" by (metis prod.exhaust)
  show ?thesis
  proof (cases out)
    case (EForward o2)
    with DataHandler_forward [of r o1 now "fst st" o2 ed1] d assms(2)
    have "hasPrefix (og_Path o2) ''/v1/''" by (auto simp: initRewrite_def SetURL_def Let_def)
    from init_Handler_ok [OF assms(1) this assms(3-5), of inp "gq_Method r" "og_Query o2"] show ?thesis
      using d EForward by (simp add: podRequest_def case_prod_beta)
  qed (use d assms(1) in \<open>simp add: podRequest_def\<close>)
qed

lemma streamFrame_inv: "x_inv st \<Longrightarrow> x_inv (streamFrame i grp f st)"
  using at_sessionD [of i "\<lambda>se. True" st] x_inv_kill
  by (auto simp: streamFrame_def controlFrame_def ct_send_def Let_def split: option.splits)

lemma d_step_ok:
  assumes "d_ok c I fds (snd st)" "cloned e"
    and "\<forall>r \<in> set (in_roots c). root_ok r" "survives fy child (in_roots c) I" "kernel_ok fy child"
  shows "d_ok c I fds (snd (d_step fy e st))"
  using assms(1,2) podRequest_ok [OF assms(1) _ assms(3-5)]
  by (cases e) (auto intro!: d_ok_x x_step_inv streamFrame_inv simp: d_ok_def)

lemma d_run_ok:
  assumes "\<forall>r \<in> set (in_roots c). root_ok r" "survives fy child (in_roots c) I" "kernel_ok fy child"
  shows "d_ok c I fds (snd st) \<Longrightarrow> \<forall>e \<in> set evs. cloned e \<Longrightarrow> d_ok c I fds (snd (d_run fy evs st))"
  unfolding d_run_def by (induction evs arbitrary: st) (simp_all add: d_step_ok [OF _ _ assms])

section \<open>Requests without the token\<close>

fun presents :: "string \<Rightarrow> d_event \<Rightarrow> bool" where
  "presents tok (DRequest now r o1 inp) = (execd_bearer (gq_Header r) (gq_Query r) = tok)"
| "presents tok _ = False"

lemma podRequest_refused: "authorised (fst st) r = None \<Longrightarrow> snd (podRequest fy inp r o1 now st) = st"
  by (simp add: podRequest_def DataHandler_def requireSandbox_refused)

lemma idle_x_init: "x_step c e x_init = x_init \<or> \<not> inside_event e"
  by (cases e) (simp_all add: at_session_def x_init_def)

lemma d_step_shut:
  assumes "ed_sb (fst st) = Some sb" "\<not> presents (sb_token sb) e" "is_x (snd st) = x_init"
  shows "d_step fy e st = st"
proof (cases e)
  case (DRequest now r o1 inp)
  then have "authorised (fst st) r = None" using assms(1,2) by (auto simp: authorised_def tokenMatches_def split: option.splits)
  then show ?thesis by (simp add: DRequest podRequest_refused)
next
  case (DInside e)
  then show ?thesis using idle_x_init [of "is_cfg (snd st)" e] assms(3) by (cases st; cases "snd st") auto
next
  case (DFrame i grp f)
  then show ?thesis using assms(3) by (cases st; cases "snd st") (simp add: streamFrame_def at_session_def x_init_def)
qed

lemma d_run_shut:
  assumes "ed_sb (fst st) = Some sb" "is_x (snd st) = x_init"
  shows "\<forall>e \<in> set evs. \<not> presents (sb_token sb) e \<Longrightarrow> d_run fy evs st = st"
  unfolding d_run_def by (induction evs) (simp_all add: d_step_shut [OF assms(1) _ assms(2)])

section \<open>The sandbox from outside\<close>


definition demoInit :: "(string list, string list) init_server" where
  "demoInit = \<lparr>is_cfg = snd (handleConfigure (Inr (configRequest demoFileBind)) (initd_New ''/workspace'')), is_x = x_init,
     is_fds = demoSt, is_world = []\<rparr>"

definition demoInput :: init_input where
  "demoInput = \<lparr>ii_Configure = Inl ''EOF'', ii_Exec = Inr demoExec, ii_Body = ''hi'', ii_Pipes = None, ii_Start = (\<lambda>c. Inr 42),
     ii_StartPTY = (\<lambda>c sz. Inr 43), ii_Accepted = True, ii_CtxDone = False, ii_Now = 0, ii_Pid = 1, ii_UptimeMs = 0, ii_AtoiErr = [],
     ii_Group = True, ii_Single = None\<rparr>"

text \<open>A request with the token in its query, as the gateway's callers may also send it.\<close>

definition demoCall :: "string \<Rightarrow> string \<Rightarrow> string \<Rightarrow> (string \<times> string) list \<Rightarrow> d_event" where
  "demoCall tok meth path q =
     DRequest 0 ((demoGet [] path)\<lparr>gq_Method := meth, gq_Query := (''token'', tok) # q\<rparr>)
       \<lparr>og_Scheme = [], og_URLHost = [], og_Host = [], og_Path = path, og_RawPath = [], og_Query = (''token'', tok) # q, og_Header = (\<lambda>_. [])\<rparr>
       demoInput"

definition demoCalls :: "string \<Rightarrow> d_event list" where
  "demoCalls tok = [demoCall tok ''DELETE'' ''/v1/files'' [(''path'', ''/data/b'')], demoCall tok ''POST'' ''/v1/exec'' [],
     demoCall tok ''POST'' ''/configure'' [], demoCall tok ''DELETE'' ''/v1/processes/42'' []]"

definition demoEd :: "string list execd" where
  "demoEd = demoPodE\<lparr>ed_sb := Some demoBox1\<rparr>"


end
