(* ===== verification/Openapi_Check.thy ===== *)
theory Openapi_Check
  imports Api_Server Initd_Server
begin

text \<open>
  The check of the OpenAPI documents against the servers (\<open>internal/openapicheck/check.go\<close>). A map that Go ranges over is a
  list in the order of that range. The errors a check reports are values, in the order of the report. The documents
  \<open>api/openapi/control-plane.yaml\<close> and \<open>data-plane.yaml\<close> are given as far as the checks read them, and shown to describe
  exactly what the route tables of the API server and of the data plane serve.
\<close>

section \<open>Documents\<close>

datatype yaml = YNull | YStr string | YMap "(string \<times> yaml) list" | YOther

type_synonym operation = "(string \<times> yaml) list"

record doc =
  do_OpenAPI :: string
  do_Paths :: "(string \<times> (string \<times> yaml) list) list"

definition httpVerbs :: "string set" where
  "httpVerbs = {''get'', ''put'', ''post'', ''delete'', ''patch'', ''head'', ''options''}"

datatype load_error = Unreadable string | NotYAML string | NoVersion | NoPaths

definition Load :: "(string, string) result \<Rightarrow> (string \<Rightarrow> (string, doc) result) \<Rightarrow> (load_error, doc) result" where
  "Load raw unmarshal =
     (case raw of
        Inl e \<Rightarrow> Inl (Unreadable e)
      | Inr b \<Rightarrow>
          (case unmarshal b of
             Inl e \<Rightarrow> Inl (NotYAML e)
           | Inr d \<Rightarrow> if do_OpenAPI d = [] then Inl NoVersion else if do_Paths d = [] then Inl NoPaths else Inr d))"

definition upperChar :: "char \<Rightarrow> char" where
  "upperChar c = (if CHR ''a'' \<le> c \<and> c \<le> CHR ''z'' then char_of (of_char c - 32 :: int) else c)"

definition upper :: "string \<Rightarrow> string" where
  "upper s = map upperChar s"

text \<open>The operations of a path item: the values under a verb that are maps.\<close>

fun eachItem :: "string \<Rightarrow> (string \<times> yaml) list \<Rightarrow> (string \<times> string \<times> operation) list" where
  "eachItem path [] = []"
| "eachItem path ((key, raw) # kvs) =
     (case raw of
        YMap op \<Rightarrow> if key \<in> httpVerbs then (key, path, op) # eachItem path kvs else eachItem path kvs
      | _ \<Rightarrow> eachItem path kvs)"

definition Each :: "doc \<Rightarrow> (string \<times> string \<times> operation) list" where
  "Each d = concat (map (\<lambda>(path, item). eachItem path item) (do_Paths d))"

definition opName :: "string \<Rightarrow> string \<Rightarrow> string" where
  "opName meth path = meth @ '' '' @ path"

definition Operations :: "doc \<Rightarrow> string list" where
  "Operations d = map (\<lambda>(verb, path, op). opName (upper verb) path) (Each d)"

section \<open>The checks\<close>

datatype check_error = Undocumented string | Unserved string | NoOperationId string string
  | DuplicateId string string string | Untyped string string string

definition SameSurface :: "doc \<Rightarrow> string list \<Rightarrow> check_error list" where
  "SameSurface d served =
     (let inSpec = remdups (Operations d); inCode = remdups served;
          undocumented = filter (\<lambda>op. op \<notin> set inSpec) inCode; phantoms = filter (\<lambda>op. op \<notin> set inCode) inSpec
      in map Undocumented (sort undocumented) @ map Unserved (sort phantoms))"

text \<open>\<open>op["operationId"].(string)\<close>: empty when it is missing or something else.\<close>

definition operationId :: "operation \<Rightarrow> string" where
  "operationId op = (case map_of op ''operationId'' of Some (YStr s) \<Rightarrow> s | _ \<Rightarrow> [])"

fun namedFrom :: "(string \<rightharpoonup> string) \<Rightarrow> (string \<times> string \<times> operation) list \<Rightarrow> check_error list" where
  "namedFrom seen [] = []"
| "namedFrom seen ((verb, path, op) # ops) =
     (let oid = operationId op in
      if oid = [] then NoOperationId (upper verb) path # namedFrom seen ops
      else (case seen oid of None \<Rightarrow> [] | Some prev \<Rightarrow> [DuplicateId oid prev (opName (upper verb) path)])
             @ namedFrom (seen(oid \<mapsto> opName (upper verb) path)) ops)"

definition Named :: "doc \<Rightarrow> check_error list" where
  "Named d = namedFrom Map.empty (Each d)"

definition asMap :: "yaml option \<Rightarrow> (string \<times> yaml) list" where
  "asMap v = (case v of Some (YMap m) \<Rightarrow> m | _ \<Rightarrow> [])"

definition untyped :: "string \<times> yaml \<Rightarrow> bool" where
  "untyped r \<longleftrightarrow> hasPrefix (fst r) ''2'' \<and> fst r \<noteq> ''204'' \<and> fst r \<noteq> ''101''
     \<and> map_of (asMap (Some (snd r))) ''content'' \<in> {None, Some YNull}"

definition TypedSuccess :: "doc \<Rightarrow> check_error list" where
  "TypedSuccess d =
     concat (map (\<lambda>(verb, path, op). map (\<lambda>r. Untyped (upper verb) path (fst r)) (filter untyped (asMap (map_of op ''responses'')))) (Each d))"

section \<open>The documents of the repository\<close>

definition described :: yaml where "described = YMap [(''content'', YMap [])]"
definition bare :: yaml where "bare = YMap [(''description'', YOther)]"
definition reference :: yaml where "reference = YMap [(''$ref'', YOther)]"

definition operation :: "string \<Rightarrow> (string \<times> yaml) list \<Rightarrow> yaml" where
  "operation oid responses = YMap [(''operationId'', YStr oid), (''responses'', YMap responses)]"

definition controlPlaneDoc :: doc where
  "controlPlaneDoc = \<lparr>do_OpenAPI = ''3.1.0'', do_Paths = [
     (''/v1/sandboxes'', [
        (''post'', operation ''createSandbox'' [(''201'', described), (''200'', described), (''400'', reference), (''401'', reference), (''403'', reference), (''409'', described), (''429'', reference)]),
        (''get'', operation ''listSandboxes'' [(''200'', described), (''401'', reference), (''403'', reference)])]),
     (''/v1/sandboxes/{id}'', [
        (''parameters'', YOther),
        (''get'', operation ''getSandbox'' [(''200'', described), (''401'', reference), (''403'', reference), (''404'', reference)]),
        (''delete'', operation ''deleteSandbox'' [(''200'', described), (''401'', reference), (''403'', reference), (''404'', reference)])]),
     (''/v1/templates'', [
        (''get'', operation ''listTemplates'' [(''200'', described), (''401'', reference), (''403'', reference)])]),
     (''/v1/templates/{name}/warmup-request'', [
        (''parameters'', YOther),
        (''post'', operation ''requestWarmup'' [(''202'', described), (''400'', reference), (''401'', reference), (''403'', reference), (''404'', reference)])]),
     (''/v1/quota'', [
        (''get'', operation ''getQuota'' [(''200'', described), (''401'', reference), (''403'', reference)])]),
     (''/v1/admin/warmup-requests'', [
        (''get'', operation ''listWarmupRequests'' [(''200'', described), (''401'', reference), (''403'', reference)])]),
     (''/v1/admin/warmup-requests/{id}/review'', [
        (''parameters'', YOther),
        (''post'', operation ''reviewWarmup'' [(''200'', described), (''400'', reference), (''401'', reference), (''403'', reference), (''404'', reference), (''409'', described)])]),
     (''/v1/admin/budget'', [
        (''get'', operation ''getBudget'' [(''200'', described), (''401'', reference), (''403'', reference)])])]\<rparr>"

definition dataPlaneDoc :: doc where
  "dataPlaneDoc = \<lparr>do_OpenAPI = ''3.1.0'', do_Paths = [
     (''/v1/exec'', [
        (''post'', operation ''exec'' [(''200'', described), (''400'', reference), (''401'', reference), (''410'', reference)])]),
     (''/v1/exec/stream'', [
        (''get'', operation ''execStream'' [(''101'', bare), (''401'', reference)])]),
     (''/v1/pty'', [
        (''get'', operation ''pty'' [(''101'', bare), (''401'', reference)])]),
     (''/v1/processes'', [
        (''get'', operation ''listProcesses'' [(''200'', described), (''401'', reference)])]),
     (''/v1/processes/{pid}'', [
        (''parameters'', YOther),
        (''delete'', operation ''signalProcess'' [(''200'', described), (''401'', reference), (''404'', described)])]),
     (''/v1/files'', [
        (''get'', operation ''readFile'' [(''200'', described), (''206'', described), (''400'', described), (''401'', reference), (''403'', reference), (''404'', reference)]),
        (''put'', operation ''writeFile'' [(''200'', described), (''401'', reference), (''403'', reference)]),
        (''delete'', operation ''deleteFile'' [(''200'', described), (''401'', reference), (''403'', reference), (''404'', reference)])]),
     (''/v1/files/list'', [
        (''get'', operation ''listFiles'' [(''200'', described), (''401'', reference), (''403'', reference), (''404'', reference)])]),
     (''/v1/ports'', [
        (''post'', operation ''exposePort'' [(''200'', described), (''400'', described), (''401'', reference)])]),
     (''/v1/keepalive'', [
        (''post'', operation ''keepAlive'' [(''200'', described), (''401'', reference), (''410'', reference)])])]\<rparr>"

text \<open>What is served, by the route tables; two operations of the data plane are answered before jdix-init.\<close>

definition rows :: "'h route_table \<Rightarrow> string list" where
  "rows rs = map (\<lambda>(m, pat, h). opName m pat) rs"

definition execdServedRoutes :: "string list" where "execdServedRoutes = [''POST /v1/keepalive'']"
definition gatewayServedRoutes :: "string list" where "gatewayServedRoutes = [''POST /v1/ports'']"

definition servedData :: "string list" where
  "servedData = execdServedRoutes @ gatewayServedRoutes @ rows init_Routes"

text \<open>The three checks on both documents, as the tests of the two packages run them, and what else is read off the tables.\<close>

lemma evaluated:
  "(SameSurface controlPlaneDoc (rows Routes) = [] \<and> Named controlPlaneDoc = [] \<and> TypedSuccess controlPlaneDoc = [])
   \<and> (SameSurface dataPlaneDoc servedData = [] \<and> Named dataPlaneDoc = [] \<and> TypedSuccess dataPlaneDoc = [])
   \<and> (unambiguous Routes \<and> unambiguous init_mux)
   \<and> (\<forall>v \<in> httpVerbs. CHR '' '' \<notin> set (upper v))
   \<and> (\<forall>(verb, pat, op) \<in> set (Each dataPlaneDoc). opName (upper verb) pat \<in> set (rows init_mux)
        \<or> (verb, pat) \<in> {(''post'', ''/v1/keepalive''), (''post'', ''/v1/ports'')})
   \<and> (\<forall>(verb, pat, op) \<in> set (Each dataPlaneDoc). pat \<noteq> ''/health'' \<and> pat \<noteq> ''/configure'')"
  by code_simp

section \<open>What a clean report means\<close>

lemma sort_Nil: "sort xs = [] \<longleftrightarrow> xs = []"
  by (metis set_empty set_sort)

lemma SameSurface_clean: "SameSurface d served = [] \<longleftrightarrow> set (Operations d) = set served"
  by (auto simp: SameSurface_def Let_def sort_Nil filter_empty_conv)

lemma namedFrom_clean:
  "namedFrom seen ops = [] \<longleftrightarrow>
     (let ids = map (\<lambda>(verb, path, op). operationId op) ops in [] \<notin> set ids \<and> distinct ids \<and> dom seen \<inter> set ids = {})"
proof (induction ops arbitrary: seen)
  case (Cons o1 ops)
  obtain verb path op where o1: "o1 = (verb, path, op)" by (cases o1)
  let ?A = "set (map (\<lambda>(verb, path, op). operationId op) ops)"
  have "dom (seen(operationId op \<mapsto> x)) \<inter> ?A = {} \<longleftrightarrow> operationId op \<notin> ?A \<and> dom seen \<inter> ?A = {}" for x
    by (simp del: fun_upd_apply)
  then show ?case by (cases "seen (operationId op)") (simp_all add: o1 Let_def Cons.IH domIff domI del: fun_upd_apply, blast+)
qed (simp add: Let_def)

lemma TypedSuccess_clean:
  "TypedSuccess d = [] \<longleftrightarrow> (\<forall>(verb, path, op) \<in> set (Each d). \<forall>r \<in> set (asMap (map_of op ''responses'')). \<not> untyped r)"
  by (auto simp: TypedSuccess_def filter_empty_conv)

text \<open>A name is read back into its method and its path.\<close>

lemma opName_inj: "CHR '' '' \<notin> set a \<Longrightarrow> CHR '' '' \<notin> set c \<Longrightarrow> opName a b = opName c d \<Longrightarrow> a = c \<and> b = d"
proof (induction a arbitrary: c)
  case Nil
  then show ?case by (cases c) (auto simp: opName_def)
next
  case (Cons x a)
  then obtain y c' where "c = y # c'" by (cases c) (auto simp: opName_def)
  then show ?case using Cons.IH [of c'] Cons.prems by (auto simp: opName_def)
qed

lemma verb_nospace: "verb \<in> httpVerbs \<Longrightarrow> CHR '' '' \<notin> set (upper verb)"
  using evaluated by blast

lemma Each_verb: "(verb, path, op) \<in> set (Each d) \<Longrightarrow> verb \<in> httpVerbs"
proof -
  have "(verb, p, op) \<in> set (eachItem path item) \<Longrightarrow> verb \<in> httpVerbs" for p path item
    by (induction path item rule: eachItem.induct) (auto split: yaml.splits if_splits)
  then show "(verb, path, op) \<in> set (Each d) \<Longrightarrow> ?thesis" by (auto simp: Each_def)
qed

text \<open>The check is worth its name: once the report on the surface is clean, a request that matches a documented operation is
  found in the table the surface was taken from.\<close>

lemma documented_is_routed:
  assumes "(verb, pat, op) \<in> set (Each d)" "opName (upper verb) pat \<in> set (rows rs)"
    and "unambiguous rs" "\<forall>(m, p, h) \<in> set rs. CHR '' '' \<notin> set m" "matchPath pat path = Some v"
  shows "\<exists>h. (upper verb, pat, h) \<in> set rs \<and> findRoute rs (upper verb) path = Some (h, v)"
proof -
  from assms(2) obtain m p h where r: "(m, p, h) \<in> set rs" "opName (upper verb) pat = opName m p" by (auto simp: rows_def)
  with opName_inj [OF verb_nospace [OF Each_verb [OF assms(1)]], of m pat p] assms(4) have "m = upper verb" "p = pat" by auto
  with findRoute_row [OF assms(3) r(1)] r(1) assms(5) show ?thesis by (auto simp: matchMethod_def)
qed

lemma tables_nospace: "\<forall>(m, p, h) \<in> set Routes. CHR '' '' \<notin> set m" "\<forall>(m, p, h) \<in> set init_mux. CHR '' '' \<notin> set m"
  by (simp_all add: Routes_def init_mux_def init_Routes_def)

lemmas control_plane_checked = evaluated [THEN conjunct1]
lemmas data_plane_checked = evaluated [THEN conjunct2, THEN conjunct1]
lemmas tables_unambiguous = evaluated [THEN conjunct2, THEN conjunct2, THEN conjunct1]

text \<open>The check decides what it is for. Whatever the document and the order in which its maps are ranged over, the report on
  the surface is empty exactly if the operations of the document are the served ones, the report on names exactly if every
  operation has an id and no two share one, and the report on types exactly if every success response that may carry a body
  has a schema.\<close>

lemma checks_decide:
  "(SameSurface d served = [] \<longleftrightarrow> set (Operations d) = set served)
   \<and> (Named d = [] \<longleftrightarrow> (let ids = map (\<lambda>(verb, path, op). operationId op) (Each d) in [] \<notin> set ids \<and> distinct ids))
   \<and> (TypedSuccess d = [] \<longleftrightarrow> \<not> (\<exists>(verb, path, op) \<in> set (Each d). \<exists>r \<in> set (asMap (map_of op ''responses'')). untyped r))"
  using SameSurface_clean [of d served] TypedSuccess_clean [of d] by (auto simp: Named_def namedFrom_clean Let_def)



end
