(* ===== verification/Spec2Isabelle.thy ===== *)
theory Spec2Isabelle
  imports Control_Plane Sdk_Client Pod_Commands Plane_Commands Reaper_Run Safepath_Portable Openapi_Check
begin

text \<open>
  Verification of jdix-sandbox: a control plane, a gateway and an in-Pod supervisor that run untrusted commands in
  bubblewrap sandboxes on Kubernetes.

  \<^bold>\<open>The program.\<close> A tenant (or the Go client, \<open>sdk/go\<close>) asks the REST API (\<open>pkg/apiserver\<close>) for a sandbox of a
  template. The API server checks the key, the quota and the idempotency key, and writes a \<open>Sandbox\<close> object. The
  controllers (\<open>pkg/controller\<close>) admit templates, keep a pool of warm Pods per template, and take a sandbox from Pending to
  Running: they claim an idle Pod and send its supervisor, execd (\<open>pkg/execd\<close>), a bind. execd validates the filesystem
  spec (\<open>pkg/bwrap\<close>), opens the mount sources without following links (\<open>pkg/safepath\<close>), starts bubblewrap with jdix-init
  inside under a system-call filter (\<open>pkg/isolation\<close>), and reaps every process (\<open>pkg/reaper\<close>). From then on the gateway
  (\<open>pkg/gateway\<close>) forwards the tenant's calls to execd, which checks the sandbox token and passes them to jdix-init
  (\<open>pkg/initd\<close>), which runs commands and serves files. The four processes are put together in \<open>cmd/\<close>.

  \<^bold>\<open>The theories.\<close> Each models one part, with the names of the source wherever they are free in HOL.
  \<^item> \<open>Jdix_Prelude\<close>, \<open>Go_Strings\<close>, \<open>Go_Path\<close>, \<open>Go_Flags\<close>, \<open>Go_Mux\<close>: results and early returns, 64-bit wrap-around, HTTP answers;
    Go's \<open>strings\<close>, \<open>strconv\<close>, \<open>sort\<close>, base64, \<open>path\<close>, \<open>flag\<close> and \<open>ServeMux\<close> (in a table without two rows for one request the
    matching row serves it). The locale \<open>step_system\<close> is invariance under a step function.
  \<^item> \<open>Bwrap_Validate\<close> (\<open>pkg/api/filesystem.go\<close>, \<open>pkg/bwrap/layout.go\<close>, \<open>validate.go\<close>): the untrusted spec and the policy;
    validation accepts exactly the specs that a reference predicate calls safe. \<open>Bwrap_Generate\<close> (\<open>generate.go\<close>): the
    argument vector, executed as mounts on a namespace; declared mounts take effect, protected paths keep the platform's.
  \<^item> \<open>Safepath\<close> (\<open>pkg/safepath\<close>): \<open>OpenBeneath\<close> with \<open>openat2\<close> and with the fallback walk; the result lies beneath the root
    and every descriptor is closed. \<open>Safepath_Portable\<close> (\<open>open_portable.go\<close>) is the build for other platforms.
  \<^item> \<open>Workload_Filter\<close> (\<open>filesystem_linux.go\<close> of \<open>pkg/isolation\<close>): the BPF program, run instruction by instruction on \<open>32 word\<close>
    values, its bytes in a sealed memory file, and the kernel's check of a program, which it passes: what passes never runs off
    its end. \<open>Isolation\<close> (the rest of \<open>pkg/isolation\<close>): tier detection, its probes and the check of the view from inside.
  \<^item> \<open>Reaper\<close> (\<open>pkg/reaper\<close>): each locked section is one step. \<open>Reaper_Run\<close>: its loop at the grain of \<open>wait4\<close>, with signals that
    merge or are dropped; every exit status reaches its waiter.
  \<^item> \<open>K8s_Types\<close> (\<open>pkg/apis\<close>), \<open>Kube\<close>: the objects, and what is relied on of the API server: stale reads, optimistic
    concurrency, writes of unknown outcome (locales \<open>api_laws\<close>, \<open>world_laws\<close>, interpreted on a small cluster).
  \<^item> \<open>Pod_Spec\<close> (\<open>podspec.go\<close>), \<open>Template_Admission\<close> (\<open>template_controller.go\<close>), \<open>Image_Registry\<close> (\<open>imageresolver.go\<close>),
    \<open>Pool\<close> (\<open>pool_controller.go\<close>), \<open>Sandbox_Controller\<close> (\<open>sandbox_controller.go\<close>, \<open>conditions.go\<close>), all of \<open>pkg/controller\<close>:
    rendered Pods have a fixed security context, approved templates are safe, the pool spares bound Pods.
    \<open>Sandbox_Lifecycle\<close>: every reconcile is a step of the abstract life cycle, a Pod has at most one owner and is never bound
    again, Running means the required tier was measured, the Pod is gone before its sandbox is released.
    \<open>Control_Plane\<close>: the three controllers, the API server and the outside world as one step relation. A step is a whole
    reconcile or request, whose reads may be stale and whose writes may fail; the locale \<open>plane_laws\<close> is what is relied on of
    the Kubernetes API, interpreted on a cluster with optimistic concurrency (\<open>fr\<close>). No two sandboxes ever share a Pod.
  \<^item> \<open>Execd_Client\<close> (\<open>execdclient.go\<close>, \<open>execdproxy.go\<close>): the two transports from the controller to execd. The locale
    \<open>control_channel\<close> is what the controller relies on; dialling the Pod (\<open>direct\<close>) and the API server's pod proxy
    (\<open>pod_proxy\<close>, by \<open>sublocale\<close>) provide it.
  \<^item> \<open>Store\<close> (\<open>store.go\<close>, \<open>memstore.go\<close>, \<open>pgstore.go\<close>), \<open>Api_Auth\<close> (\<open>apikey.go\<close>, \<open>auth.go\<close>), \<open>Api_Server\<close> (\<open>server.go\<close>,
    \<open>quota.go\<close>, \<open>warmup.go\<close>, \<open>id.go\<close>), all of \<open>pkg/apiserver\<close>: the locales \<open>store_laws\<close> and \<open>key_store\<close> hold of the
    in-memory and of the Postgres tables; paging is complete, revocation takes effect, quota and warm budget are never
    exceeded, tenants see only their own sandboxes, retries with an idempotency key create nothing new.
  \<^item> \<open>Gateway_Route\<close> (\<open>route.go\<close>), \<open>Gateway\<close> (\<open>server.go\<close>, \<open>transport.go\<close>): only the owner is let in, and the caller's
    credential is replaced by the sandbox token.
  \<^item> \<open>Execd\<close> (\<open>pkg/execd\<close>): bind, unbind, expiry and the data-plane gate; one sandbox per Pod, and what is launched is what
    was validated. Overlapping binds are modelled as two halves of the handler, with what can go wrong between them.
  \<^item> \<open>Initd_Files\<close> (\<open>server.go\<close>, \<open>files.go\<close>, \<open>priv_linux.go\<close>), \<open>Initd_Exec\<close> (\<open>proc.go\<close>, \<open>exec.go\<close>), \<open>Initd_Stream\<close>
    (\<open>stream.go\<close>, \<open>pkg/api/wsframe.go\<close>), all of \<open>pkg/initd\<close>: the file API stays in the roots and writes only to writable
    ones, only started processes are signalled, frames carry the bytes of the streams. \<open>Initd_Server\<close> (\<open>Routes\<close> and \<open>Handler\<close>
    of \<open>server.go\<close>): jdix-init as a whole behind execd's data plane; no sequence of requests changes its configuration, or
    makes it change anything outside the writable roots or signal a foreign process; without the token nothing happens.
  \<^item> \<open>Openapi_Check\<close> (\<open>internal/openapicheck\<close>): the check decides what it is for, and both documents of \<open>api/openapi\<close> describe
    exactly what the route tables of the API server and of the data plane serve.
  \<^item> \<open>Sdk_Client\<close> (\<open>sdk/go\<close>): calls with effects are sent once; the output collected is what the command wrote.
  \<^item> \<open>Pod_Commands\<close> (\<open>cmd/jdix-execd\<close>, \<open>cmd/jdix-init\<close>), \<open>Plane_Commands\<close> (\<open>cmd/jdix-server\<close>, \<open>cmd/jdix-controller\<close>): the
    processes from their command lines on. The Pod the controller renders starts an execd that admits that controller,
    jdix-init serves only after it dropped its privileges, and the endpoint the controller publishes is one the gateway
    routes to the sandbox.
  \<^item> This theory composes controller, transports, gateway and execd.

  \<^bold>\<open>Parameters.\<close> What is not in the repository is an argument: the kernel (system calls, processes, mounts, time) as records
  of operations on a world, the Kubernetes API server, the registry, the HTTP transports, JSON decoding (handlers take the
  decoded value or the decoder's error), random bytes, Argon2id, SHA-256, CIDR and quantity parsing. The hypotheses on them
  are named (\<open>api_laws\<close>, \<open>world_laws\<close>, \<open>forwards\<close>, and others where they are used), state documented behaviour, and are
  shown to hold together of concrete instances in the witnesses.

  \<^bold>\<open>Bounds and fuel.\<close> Integers of Go are \<open>int\<close> with the wrap-around written out where the code can reach it, or words. Loops
  that wait run over the moments at which they look, each with what they see there. \<open>waitReady\<close> and the client's
  \<open>WaitReady\<close> are \<open>None\<close> while they have not ended: \<open>waitReady_returns\<close> shows that the first moment after the deadline ends
  the one, \<open>WaitReady_returns\<close> that a context that is done ends the other, and neither result changes with more moments. The
  dial loop of execd stops at its deadline, where its list of moments ends. Retries of the client are bounded by its own
  maximum. All other functions are total.

  \<^bold>\<open>Not modelled.\<close> Generated deep copies (\<open>zz_generated.deepcopy.go\<close>; values are copied by construction), list types and
  scheme registration; the two \<open>prctl\<close> calls of execd, of which only the answers are inputs; the connection pool and the
  migration of Postgres; the manager, the informers and leader election of controller-runtime; \<open>net/http\<close>, the reverse
  proxy and the WebSocket library, of which only the hooks the code passes are modelled; goroutine scheduling inside the
  handlers, except where the code's own lock is released (overlapping binds, the deadline of a command, frame numbering);
  the development probe, which is a tool.
\<close>

section \<open>From the controller through the gateway into the Pod\<close>

text \<open>The request execd receives: the credential-bearing parts are those the gateway wrote.\<close>

definition arriving :: "transport \<Rightarrow> g_request \<Rightarrow> target \<Rightarrow> route \<Rightarrow> g_out \<Rightarrow> g_request" where
  "arriving tr q tg rt o1 = q\<lparr>gq_Header := og_Header (Rewrite tr q tg rt o1), gq_Query := og_Query (Rewrite tr q tg rt o1)\<rparr>"

lemma rewritten_headers:
  "og_Header (Rewrite tr q tg rt o1) ''Authorization''
     = (if \<not> ro_UserPort rt \<and> tg_Token tg \<noteq> [] \<and> tr = DirectTransport then [''Bearer '' @ tg_Token tg] else [])"
  "og_Header (Rewrite tr q tg rt o1) ControlTokenHeader
     = (if \<not> ro_UserPort rt \<and> tg_Token tg \<noteq> [] \<and> tr \<noteq> DirectTransport then [tg_Token tg] else [])"
  "map_of (og_Query (Rewrite tr q tg rt o1)) ''token'' = None"
  by (cases tr; cases "SplitHostPort (gq_RemoteAddr q)";
      auto simp: Rewrite_def directRewrite_def apiProxyRewrite_def presentToken_def SetURL_def dropToken_def hset_def hdel_def
        ControlTokenHeader_def Let_def map_of_eq_None_iff)+

lemma arriving_bearer:
  "execd_bearer (gq_Header (arriving tr q tg rt o1)) (gq_Query (arriving tr q tg rt o1)) = (if ro_UserPort rt then [] else tg_Token tg)"
  by (auto simp: arriving_def execd_bearer_def rewritten_headers hget_def qget_def Let_def hasPrefix_def trimPrefix_def)

text \<open>C33: a bind opens the data plane to the gateway and to no one else. Suppose the controller was told, over either transport,
  that its bind for a sandbox succeeded. Then the Pod had admitted the controller, and a request that the gateway forwards on
  the sandbox's data-plane route, for the sandbox object with the status the controller writes and over either transport of
  the gateway, is taken by execd as the bound sandbox's, whatever credentials the caller had put into it. A request the
  gateway forwards on behalf of any sandbox object is let in only on a data-plane route and only if the token in that
  object's status is the one of this bind.\<close>

theorem bind_opens_data_plane:
  assumes "forwards fwd" "\<And>r. enc r \<noteq> []"
    and "bindReported ho now enc fwd c pod (bindRequest sr s t) (ed, w) resp (ed1, w1)"
    and "sr_NewToken sr \<noteq> []"
  shows "admits ed pod
    \<and> (let tg = targetOf i (setSbxStatus (runningStatus sr s t p resp) s) in
       \<forall>tr q rt o1. \<not> ro_UserPort rt \<longrightarrow>
         (\<exists>sb. authorised ed1 (arriving tr q tg rt o1) = Some sb \<and> sb_id sb = o_Name (sbx_Meta s)))
    \<and> (\<forall>j b tr q rt o1. authorised ed1 (arriving tr q (targetOf j b) rt o1) \<noteq> None \<longrightarrow>
         \<not> ro_UserPort rt \<and> st_Token (sbx_Status b) = sr_NewToken sr)"
proof -
  have "pod_proxy fwd enc" using assms(1,2) by unfold_locales
  note b = pod_proxy.reported_bind [OF this assms(3)]
  from conjunct2 [OF b] obtain sb where "ed_sb ed1 = Some sb" "sb_id sb = o_Name (sbx_Meta s)" "sb_token sb = sr_NewToken sr"
    by (cases rule: handleBind_cases) (auto simp: bindRequest_def)
  then show ?thesis using assms(4) conjunct1 [OF b]
    by (simp add: authorised_def arriving_bearer tokenMatches_def targetOf_def setSbxStatus_def runningStatus_def)
qed

definition demoRequest :: bind_request where
  "demoRequest = \<lparr>br_SandboxID = ''sb1'', br_Tenant = [],
     br_Filesystem = \<lparr>fs_Workspace = \<lparr>ws_Path = DefaultWorkspacePath, ws_SizeLimit = []\<rparr>, fs_Mounts = [], fs_AllowSystemPaths = [], fs_Hide = []\<rparr>,
     br_Env = None, br_Secrets = None, br_TTLSeconds = 60, br_Token = ''sbt_1''\<rparr>"

lemma demo_request: "bindRequest demoSR (demoSandbox PhaseBinding) (demoTpl AdmissionApproved) = demoRequest"
  by (simp add: bindRequest_def demoRequest_def filesystemFor_def envFor_def ttlFor_def demoSandbox_def demoTpl_def demoTplSpec_def
      demoFS_def demoSR_def demoMeta_def seconds_def wrap64_def second_def lbl_def)

fun isBoundResp :: "e_body response \<Rightarrow> bool" where
  "isBoundResp (JSON c (EBound b)) = (c = 200)"
| "isBoundResp r = False"

lemma demo_bind_accepted: "isBoundResp (fst (handleBind demoHost (Inr demoRequest) 0 (demoPodE, ())))"
  by code_simp

lemma demo_admits: "admits demoPodE demoRef"
  by (simp add: admits_def demoRef_def demoPodE_def execd_New_def Let_def)

theorem bind_opens_data_plane_witness:
  "\<exists>ed1 resp. \<forall>q o1. \<exists>sb. authorised (ed1 :: string list execd) (arriving (APIProxyTransport ''https'' ''api'') q
       (targetOf ''sb1'' (setSbxStatus (runningStatus demoSR (demoSandbox PhaseBinding) (demoTpl AdmissionApproved) (demoPod boundLabels 3) resp)
          (demoSandbox PhaseBinding))) (hostRoute ''sb1'' 8080 False) o1) = Some sb \<and> sb_id sb = ''sb1''"
proof -
  obtain r ed1 where h: "handleBind demoHost (Inr demoRequest) 0 (demoPodE, ()) = (r, ed1, ())" by (metis old.unit.exhaust prod.exhaust)
  then obtain resp where "r = JSON 200 (EBound resp)" using demo_bind_accepted by (cases r rule: isBoundResp.cases) auto
  then have "handleBind demoHost (Inr (bindRequest demoSR (demoSandbox PhaseBinding) (demoTpl AdmissionApproved))) 0 (demoPodE, ())
      = (JSON 200 (EBound resp), ed1, ())" using h demo_request by simp
  from direct.bind_in [OF TrueI demo_admits this] have "bindReported demoHost 0 (\<lambda>_. ''{}'') dropAuth NewHTTPExecdClient demoRef
      (bindRequest demoSR (demoSandbox PhaseBinding) (demoTpl AdmissionApproved)) (demoPodE, ()) resp (ed1, ())"
    by (auto simp: bindReported_def tells_def)
  moreover have "forwards dropAuth" "(\<lambda>_. ''{}'') r \<noteq> []" for r :: "e_body response" using stripped.fwd by simp_all
  moreover have "sr_NewToken demoSR \<noteq> []" by (simp add: demoSR_def)
  ultimately have "let tg = targetOf ''sb1'' (setSbxStatus (runningStatus demoSR (demoSandbox PhaseBinding) (demoTpl AdmissionApproved)
         (demoPod boundLabels 3) resp) (demoSandbox PhaseBinding)) in
       \<forall>tr q rt o1. \<not> ro_UserPort rt \<longrightarrow> (\<exists>sb. authorised ed1 (arriving tr q tg rt o1) = Some sb \<and> sb_id sb = o_Name (sbx_Meta (demoSandbox PhaseBinding)))"
    by (intro conjunct1 [OF conjunct2 [OF bind_opens_data_plane [of dropAuth "\<lambda>_. ''{}''"]]])
  moreover have "\<not> ro_UserPort (hostRoute ''sb1'' 8080 False)" by (simp add: hostRoute_def)
  ultimately show ?thesis unfolding Let_def demoSandbox_fields by blast
qed

end
